(* ===== verification/Prelude.thy ===== *)
theory Prelude
  imports Main "HOL-Library.AList" "HOL-Library.Word"
begin

text \<open>
  Shared vocabulary of the development: the types that stand for Go's basic types, the
  model of a mutex-guarded Go map, machine-width arithmetic on durations, and the generic
  lemmas and theorem collections that the component theories draw on.
\<close>

section \<open>Types of the source language\<close>

text \<open>
  A Go \<^verbatim>\<open>string\<close> and a Go \<^verbatim>\<open>[]byte\<close> are both sequences of bytes, so both are
  \<open>char list\<close>; a nil slice and an empty slice have the same length and are both \<open>[]\<close>.
  A \<^verbatim>\<open>time.Time\<close> is the number of nanoseconds since the Unix epoch and a
  \<^verbatim>\<open>time.Duration\<close> a number of nanoseconds. A nil-able pointer is an \<open>option\<close>.
\<close>

type_synonym bytes = string
type_synonym time = int
type_synonym dur = int

text \<open>The zero \<^verbatim>\<open>time.Time\<close> is the first instant of year 1 (UTC).\<close>

definition zero_time :: time where
  "zero_time = - 62135596800 * 1000000000"

definition IsZero :: "time \<Rightarrow> bool" where
  "IsZero t \<longleftrightarrow> t = zero_time"

abbreviation After :: "time \<Rightarrow> time \<Rightarrow> bool" where
  "After t u \<equiv> u < t"

abbreviation Before :: "time \<Rightarrow> time \<Rightarrow> bool" where
  "Before t u \<equiv> t < u"

abbreviation Second :: dur where "Second \<equiv> 1000000000"
abbreviation Minute :: dur where "Minute \<equiv> 60 * Second"
abbreviation Hour :: dur where "Hour \<equiv> 60 * Minute"

text \<open>
  Signed 64-bit wrap-around, for the one arithmetic operation on durations whose operand
  comes from a request: \<^verbatim>\<open>time.Duration(n) * time.Second\<close>.
\<close>

definition wrap64 :: "int \<Rightarrow> int" where
  "wrap64 x = (x + 2 ^ 63) mod 2 ^ 64 - 2 ^ 63"

definition seconds64 :: "int \<Rightarrow> dur" where
  "seconds64 n = wrap64 (n * Second)"

lemma wrap64_id: "- (2 ^ 63) \<le> x \<Longrightarrow> x < 2 ^ 63 \<Longrightarrow> wrap64 x = x"
  by (simp add: wrap64_def)

lemma wrap64_bounds: "- (2 ^ 63) \<le> wrap64 x \<and> wrap64 x < 2 ^ 63"
proof -
  have "0 \<le> (x + 2 ^ 63) mod 2 ^ 64" "(x + 2 ^ 63) mod 2 ^ 64 < 2 ^ 64"
    by simp_all
  then show ?thesis by (simp add: wrap64_def)
qed

lemma seconds64_exact: "0 \<le> n \<Longrightarrow> n \<le> 9223372036 \<Longrightarrow> seconds64 n = n * Second"
  by (simp add: seconds64_def wrap64_id)

section \<open>Theorem collections\<close>

named_theorems kv_simps \<open>rewriting of lookups through updates of a Go map\<close>
named_theorems wf_intros \<open>preservation of the well-formedness invariants\<close>

section \<open>Go maps\<close>

text \<open>
  A Go \<^verbatim>\<open>map[K]V\<close> guarded by a mutex is an association list with distinct keys. Its
  order stands for the (unspecified) iteration order of a \<^verbatim>\<open>range\<close> loop; the contract
  below speaks about lookups and about the set of entries only.
\<close>

type_synonym ('k, 'v) gomap = "('k \<times> 'v) list"

definition kv_ok :: "('k, 'v) gomap \<Rightarrow> bool" where
  "kv_ok m \<longleftrightarrow> distinct (map fst m)"

definition kv_put :: "'k \<Rightarrow> 'v \<Rightarrow> ('k, 'v) gomap \<Rightarrow> ('k, 'v) gomap" where
  "kv_put k v m = AList.update k v m"

definition kv_del :: "'k \<Rightarrow> ('k, 'v) gomap \<Rightarrow> ('k, 'v) gomap" where
  "kv_del k m = AList.delete k m"

text \<open>The two loop shapes over a map: rewrite every entry, and drop the entries that match.\<close>

definition kv_map :: "('v \<Rightarrow> 'w) \<Rightarrow> ('k, 'v) gomap \<Rightarrow> ('k, 'w) gomap" where
  "kv_map f m = map (\<lambda>(k, v). (k, f v)) m"

definition kv_drop :: "('v \<Rightarrow> bool) \<Rightarrow> ('k, 'v) gomap \<Rightarrow> ('k, 'v) gomap" where
  "kv_drop P m = filter (\<lambda>(k, v). \<not> P v) m"

lemma kv_put_get [kv_simps]: "map_of (kv_put k v m) = (map_of m)(k \<mapsto> v)"
  by (simp add: kv_put_def update_conv')

lemma kv_del_get [kv_simps]: "map_of (kv_del k m) = (map_of m)(k := None)"
  by (simp add: kv_del_def delete_conv')

lemma kv_ok_Nil [simp]: "kv_ok []"
  by (simp add: kv_ok_def)

lemma kv_ok_put [wf_intros]: "kv_ok m \<Longrightarrow> kv_ok (kv_put k v m)"
  by (simp add: kv_ok_def kv_put_def distinct_update)

lemma kv_ok_del [wf_intros]: "kv_ok m \<Longrightarrow> kv_ok (kv_del k m)"
  by (simp add: kv_ok_def kv_del_def distinct_delete)

lemma kv_map_get [kv_simps]: "map_of (kv_map f m) k = map_option f (map_of m k)"
  by (induction m) (auto simp: kv_map_def)

lemma kv_ok_map [wf_intros]: "kv_ok m \<Longrightarrow> kv_ok (kv_map f m)"
  by (simp add: kv_ok_def kv_map_def comp_def case_prod_beta)

lemma kv_drop_get [kv_simps]:
  "kv_ok m \<Longrightarrow> map_of (kv_drop P m) k =
     (case map_of m k of None \<Rightarrow> None | Some v \<Rightarrow> if P v then None else Some v)"
proof (induction m)
  case Nil
  show ?case by (simp add: kv_drop_def)
next
  case (Cons a m)
  obtain k' v where a: "a = (k', v)" by (cases a)
  from Cons.prems a have ok: "kv_ok m" and fresh: "map_of m k' = None"
    by (auto simp: kv_ok_def map_of_eq_None_iff image_iff)
  from Cons.IH [OF ok] fresh a show ?case
    by (auto simp: kv_drop_def split: option.splits)
qed

lemma kv_ok_drop [wf_intros]: "kv_ok m \<Longrightarrow> kv_ok (kv_drop P m)"
  by (induction m) (auto simp: kv_ok_def kv_drop_def)

lemma kv_mem_get: "kv_ok m \<Longrightarrow> (k, v) \<in> set m \<longleftrightarrow> map_of m k = Some v"
  by (simp add: kv_ok_def)

lemma kv_length_put:
  "kv_ok m \<Longrightarrow> length (kv_put k v m) = (if map_of m k = None then Suc (length m) else length m)"
  by (induction m) (auto simp: kv_ok_def kv_put_def)

lemma kv_length_del_le: "length (kv_del k m) \<le> length m"
  by (simp add: kv_del_def length_delete_le)

lemma kv_length_del:
  "kv_ok m \<Longrightarrow> map_of m k \<noteq> None \<Longrightarrow> length (kv_del k m) = length m - 1"
proof (induction m)
  case (Cons a m)
  obtain k' v where a: "a = (k', v)" by (cases a)
  show ?case
  proof (cases "k' = k")
    case True
    with Cons.prems a have "k \<notin> fst ` set m" by (auto simp: kv_ok_def)
    then have "AList.delete k m = m" by (simp add: delete_idem)
    with True a show ?thesis by (simp add: kv_del_def)
  next
    case False
    with Cons a have "m \<noteq> []" by (auto simp: kv_ok_def)
    with False Cons a show ?thesis
      by (cases m) (auto simp: kv_del_def kv_ok_def)
  qed
qed simp

lemma kv_put_get_same [simp]: "map_of (kv_put k v m) k = Some v"
  by (simp add: kv_simps)

lemma kv_put_after_del:
  "map_of m k = None \<Longrightarrow> map_of (kv_del k (kv_put k v m)) = map_of m"
  by (auto simp: kv_simps)

lemma set_kv_del: "set (kv_del k m) = {(k', v). (k', v) \<in> set m \<and> k' \<noteq> k}"
  by (induction m) (auto simp: kv_del_def)

lemma kv_length_del_less: "k \<in> fst ` set m \<Longrightarrow> length (kv_del k m) < length m"
proof (induction m)
  case (Cons a m)
  then show ?case using kv_length_del_le [of k m] by (cases a) (auto simp: kv_del_def)
qed simp

lemma kv_keys_put [simp]: "fst ` set (kv_put k v m) = insert k (fst ` set m)"
  by (simp add: kv_put_def dom_update)

lemma kv_length_drop_le: "length (kv_drop P m) \<le> length m"
  by (simp add: kv_drop_def)

subsection \<open>The scan for the oldest entry\<close>

text \<open>
  The eviction loops scan a map for the entry with the smallest stamp. The accumulator starts
  with an empty key, which the loops use as the mark of a scan that has seen nothing yet.
\<close>

fun oldest_scan :: "('v \<Rightarrow> 'a :: linorder) \<Rightarrow> (string \<times> 'v) list \<Rightarrow> string \<Rightarrow> 'a \<Rightarrow> string" where
  "oldest_scan stamp [] k t = k"
| "oldest_scan stamp ((k', v) # rest) k t =
     (if k = [] \<or> stamp v < t then oldest_scan stamp rest k' (stamp v)
      else oldest_scan stamp rest k t)"

lemma oldest_scan_in_insert: "oldest_scan stamp ks k t \<in> insert k (fst ` set ks)"
  by (induction stamp ks k t rule: oldest_scan.induct) auto

lemma oldest_scan_in: "ks \<noteq> [] \<Longrightarrow> oldest_scan stamp ks [] t \<in> fst ` set ks"
proof (cases ks)
  case (Cons a rest)
  obtain k v where "a = (k, v)" by (cases a)
  with Cons oldest_scan_in_insert [of stamp rest k "stamp v"] show ?thesis by auto
qed simp

lemma oldest_scan_least_from:
  assumes "k \<noteq> []" and "[] \<notin> fst ` set ks"
  shows "\<exists>x. (oldest_scan stamp ks k t = k \<and> x = t \<or>
      (\<exists>v. (oldest_scan stamp ks k t, v) \<in> set ks \<and> x = stamp v)) \<and>
    x \<le> t \<and> (\<forall>k' v. (k', v) \<in> set ks \<longrightarrow> x \<le> stamp v)"
  using assms
proof (induction stamp ks k t rule: oldest_scan.induct)
  case (2 stamp k' v rest k t)
  have ne: "k' \<noteq> []" "[] \<notin> fst ` set rest" using "2.prems"(2) by auto
  show ?case
  proof (cases "stamp v < t")
    case True
    from "2.IH"(1) [OF disjI2 [OF True] ne] obtain x where
      x: "oldest_scan stamp rest k' (stamp v) = k' \<and> x = stamp v \<or>
         (\<exists>v'. (oldest_scan stamp rest k' (stamp v), v') \<in> set rest \<and> x = stamp v')"
        "x \<le> stamp v" "\<And>k' v. (k', v) \<in> set rest \<Longrightarrow> x \<le> stamp v" by blast
    have scan: "oldest_scan stamp ((k', v) # rest) k t = oldest_scan stamp rest k' (stamp v)"
      using True by simp
    show ?thesis unfolding scan using x True by (intro exI [of _ x]) auto
  next
    case False
    with "2.prems"(1) have "\<not> (k = [] \<or> stamp v < t)" by simp
    from "2.IH"(2) [OF this "2.prems"(1) ne(2)] obtain x where
      x: "oldest_scan stamp rest k t = k \<and> x = t \<or>
         (\<exists>v'. (oldest_scan stamp rest k t, v') \<in> set rest \<and> x = stamp v')"
        "x \<le> t" "\<And>k' v. (k', v) \<in> set rest \<Longrightarrow> x \<le> stamp v" by blast
    have scan: "oldest_scan stamp ((k', v) # rest) k t = oldest_scan stamp rest k t"
      using False "2.prems"(1) by simp
    show ?thesis unfolding scan using x False by (intro exI [of _ x]) auto
  qed
qed simp

lemma oldest_scan_least:
  assumes "ks \<noteq> []" and "[] \<notin> fst ` set ks"
  shows "\<exists>v. (oldest_scan stamp ks [] t, v) \<in> set ks \<and> (\<forall>k' v'. (k', v') \<in> set ks \<longrightarrow> stamp v \<le> stamp v')"
proof -
  obtain k v rest where ks: "ks = (k, v) # rest" using assms(1) by (cases ks) auto
  then have ne: "k \<noteq> []" "[] \<notin> fst ` set rest" using assms(2) by auto
  from oldest_scan_least_from [OF ne, where t = "stamp v" and stamp = stamp] obtain x where
    "oldest_scan stamp rest k (stamp v) = k \<and> x = stamp v \<or>
     (\<exists>v'. (oldest_scan stamp rest k (stamp v), v') \<in> set rest \<and> x = stamp v')"
    "x \<le> stamp v" "\<And>k' v'. (k', v') \<in> set rest \<Longrightarrow> x \<le> stamp v'" by blast
  then show ?thesis using ks by auto
qed

subsection \<open>The contract of a key-value store\<close>

text \<open>
  What every in-memory store and the bbolt buckets promise their clients: a lookup sees the
  last write, a deletion removes exactly its key, and every operation keeps the internal
  invariant.
\<close>

locale key_value =
  fixes emp :: "'m"
    and get :: "'m \<Rightarrow> 'k \<Rightarrow> 'v option"
    and put :: "'k \<Rightarrow> 'v \<Rightarrow> 'm \<Rightarrow> 'm"
    and del :: "'k \<Rightarrow> 'm \<Rightarrow> 'm"
    and ok :: "'m \<Rightarrow> bool"
  assumes get_emp: "get emp k = None"
    and get_put: "ok m \<Longrightarrow> get (put k v m) = (get m)(k \<mapsto> v)"
    and get_del: "ok m \<Longrightarrow> get (del k m) = (get m)(k := None)"
    and ok_emp: "ok emp"
    and ok_put: "ok m \<Longrightarrow> ok (put k v m)"
    and ok_del: "ok m \<Longrightarrow> ok (del k m)"
begin

lemma put_then_del: "ok m \<Longrightarrow> get m k = None \<Longrightarrow> get (del k (put k v m)) = get m"
  using get_put [of m k v] get_del [OF ok_put, of m k k v] by auto

lemma frame_put: "ok m \<Longrightarrow> k' \<noteq> k \<Longrightarrow> get (put k v m) k' = get m k'"
  by (simp add: get_put)

end

interpretation gomap: key_value "[]" map_of kv_put kv_del kv_ok
  by unfold_locales (auto simp: kv_simps wf_intros)

section \<open>Decimal and hexadecimal rendering\<close>

text \<open>\<^verbatim>\<open>fmt.Sprintf("0x%08X", code)\<close> on a 32-bit code.\<close>

definition hexdigit :: "nat \<Rightarrow> char" where
  "hexdigit n = ''0123456789ABCDEF'' ! (n mod 16)"

definition hex8 :: "32 word \<Rightarrow> string" where
  "hex8 c = ''0x'' @ map (\<lambda>i. hexdigit (unat c div 16 ^ i)) [7, 6, 5, 4, 3, 2, 1, 0]"

text \<open>\<^verbatim>\<open>%d\<close> on a non-negative number.\<close>

fun decimal :: "nat \<Rightarrow> string" where
  "decimal n = (if n < 10 then [''0123456789'' ! n] else decimal (n div 10) @ [''0123456789'' ! (n mod 10)])"

declare decimal.simps [simp del]

lemma digit_value: "n < 10 \<Longrightarrow> of_char (''0123456789'' ! n) = (48 + n :: nat)"
  by (simp add: less_Suc_eq numeral_eq_Suc) (auto simp: numeral_eq_Suc)

lemma decimal_value: "foldl (\<lambda>a c. 10 * a + (of_char c - 48)) 0 (decimal n) = (n :: nat)"
proof (induction n rule: decimal.induct)
  case (1 n)
  show ?case
  proof (cases "n < 10")
    case True
    then show ?thesis by (subst decimal.simps) (simp add: digit_value)
  next
    case False
    have "n mod 10 < 10" by simp
    with False 1 show ?thesis by (subst decimal.simps) (simp add: digit_value)
  qed
qed

lemma decimal_inj: "decimal m = decimal n \<Longrightarrow> m = n"
  by (metis decimal_value)

lemma decimal_no_newline: "CHR 0x0A \<notin> set (decimal n)"
proof (induction n rule: decimal.induct)
  case (1 n)
  have digit: "''0123456789'' ! k \<noteq> CHR 0x0A" if "k < 10" for k
    using digit_value [OF that] by auto
  show ?case
  proof (cases "n < 10")
    case True
    then show ?thesis using digit [of n] by (subst decimal.simps) auto
  next
    case False
    with 1 show ?thesis using digit [of "n mod 10"] by (subst decimal.simps) auto
  qed
qed

text \<open>Splitting a text at its first separator.\<close>

lemma split_first:
  "x \<notin> set a \<Longrightarrow> x \<notin> set b \<Longrightarrow> a @ x # s = b @ x # t \<longleftrightarrow> a = b \<and> s = t"
proof (induction a arbitrary: b)
  case Nil
  then show ?case by (cases b) auto
next
  case (Cons c a)
  then show ?case by (cases b) auto
qed

lemma split_last:
  assumes "x \<notin> set s" and "x \<notin> set t" and "a @ x # s = b @ x # t"
  shows "a = b \<and> s = t"
proof -
  have "rev s @ x # rev a = rev t @ x # rev b"
    using arg_cong [OF assms(3), of rev] by simp
  then show ?thesis using split_first [of x "rev s" "rev t" "rev a" "rev b"] assms(1,2) by simp
qed

subsection \<open>Hexadecimal text\<close>

definition byte_of :: "char \<Rightarrow> nat" where
  "byte_of c = of_char c"

definition hexpair :: "char \<Rightarrow> string" where
  "hexpair c = [hexdigit (byte_of c div 16), hexdigit (byte_of c mod 16)]"

text \<open>\<^verbatim>\<open>strings.ToUpper(hex.EncodeToString(b))\<close>.\<close>

definition hex_upper :: "bytes \<Rightarrow> string" where
  "hex_upper b = concat (map hexpair b)"

text \<open>\<^verbatim>\<open>hex.EncodeToString(b)\<close>.\<close>

definition hexdigit_lower :: "nat \<Rightarrow> char" where
  "hexdigit_lower n = ''0123456789abcdef'' ! (n mod 16)"

definition hexpair_lower :: "char \<Rightarrow> string" where
  "hexpair_lower c = [hexdigit_lower (byte_of c div 16), hexdigit_lower (byte_of c mod 16)]"

definition hex_lower :: "bytes \<Rightarrow> string" where
  "hex_lower b = concat (map hexpair_lower b)"

lemma hexdigit_inj: "m < 16 \<Longrightarrow> n < 16 \<Longrightarrow> hexdigit m = hexdigit n \<Longrightarrow> m = n"
  by (simp add: hexdigit_def nth_eq_iff_index_eq)

lemma hexdigit_set: "hexdigit n \<in> set ''0123456789ABCDEF''"
  unfolding hexdigit_def by (rule nth_mem) simp

lemma hexdigit_plain: "hexdigit n \<noteq> CHR 0x0A" "CHR 0x0A \<noteq> hexdigit n"
  using hexdigit_set [of n] by auto

lemma hexpair_inj: "hexpair c = hexpair d \<Longrightarrow> c = d"
proof -
  assume eq: "hexpair c = hexpair d"
  have b: "byte_of x < 256" for x by (simp add: byte_of_def)
  have "byte_of c div 16 = byte_of d div 16" "byte_of c mod 16 = byte_of d mod 16"
    using eq b [of c] b [of d] by (auto simp: hexpair_def intro: hexdigit_inj)
  then have "byte_of c = byte_of d" by (metis mult_div_mod_eq)
  then show ?thesis by (simp add: byte_of_def)
qed

section \<open>Text\<close>

text \<open>
  \<^verbatim>\<open>strings.TrimSpace\<close> and \<^verbatim>\<open>strings.Fields\<close> on the ASCII white space; the texts they are
  applied to here (property values, OID lists, serial numbers) are separated by those.
\<close>

definition is_space :: "char \<Rightarrow> bool" where
  "is_space c \<longleftrightarrow> c \<in> {CHR 0x20, CHR 0x09, CHR 0x0A, CHR 0x0B, CHR 0x0C, CHR 0x0D}"

definition TrimSpace :: "string \<Rightarrow> string" where
  "TrimSpace s = rev (dropWhile is_space (rev (dropWhile is_space s)))"

text \<open>
  \<^verbatim>\<open>TrimSpace\<close> on arbitrary text: ASCII white space, U+0085, U+00A0, U+1680, U+2000 to U+200A, U+2028,
  U+2029, U+202F, U+205F and U+3000 in UTF-8, in front and (on the reversed text) at the end.
\<close>

definition space2 :: "char \<Rightarrow> char \<Rightarrow> bool" where
  "space2 a b \<longleftrightarrow> byte_of a = 0xC2 \<and> (byte_of b = 0x85 \<or> byte_of b = 0xA0)"

definition space3 :: "char \<Rightarrow> char \<Rightarrow> char \<Rightarrow> bool" where
  "space3 a b c \<longleftrightarrow> byte_of a = 0xE1 \<and> byte_of b = 0x9A \<and> byte_of c = 0x80 \<or>
     byte_of a = 0xE2 \<and> byte_of b = 0x80 \<and>
       (0x80 \<le> byte_of c \<and> byte_of c \<le> 0x8A \<or> byte_of c = 0xA8 \<or> byte_of c = 0xA9 \<or> byte_of c = 0xAF) \<or>
     byte_of a = 0xE2 \<and> byte_of b = 0x81 \<and> byte_of c = 0x9F \<or>
     byte_of a = 0xE3 \<and> byte_of b = 0x80 \<and> byte_of c = 0x80"

fun skip_space :: "bytes \<Rightarrow> bytes" where
  "skip_space [] = []"
| "skip_space [a] = (if is_space a then [] else [a])"
| "skip_space [a, b] = (if is_space a then skip_space [b] else if space2 a b then [] else [a, b])"
| "skip_space (a # b # c # rest) =
     (if is_space a then skip_space (b # c # rest)
      else if space2 a b then skip_space (c # rest)
      else if space3 a b c then skip_space rest
      else a # b # c # rest)"

fun skip_space_end :: "bytes \<Rightarrow> bytes" where
  "skip_space_end [] = []"
| "skip_space_end [c] = (if is_space c then [] else [c])"
| "skip_space_end [c, b] = (if is_space c then skip_space_end [b] else if space2 b c then [] else [c, b])"
| "skip_space_end (c # b # a # rest) =
     (if is_space c then skip_space_end (b # a # rest)
      else if space2 b c then skip_space_end (a # rest)
      else if space3 a b c then skip_space_end rest
      else c # b # a # rest)"

definition TrimSpaceU :: "string \<Rightarrow> string" where
  "TrimSpaceU s = rev (skip_space_end (rev (skip_space s)))"

text \<open>A text that neither starts nor ends with white space or a byte above ASCII is left alone.\<close>

lemma skip_space_plain: "s \<noteq> [] \<Longrightarrow> \<not> is_space (hd s) \<Longrightarrow> byte_of (hd s) < 128 \<Longrightarrow> skip_space s = s"
  by (induction s rule: skip_space.induct) (auto simp: space2_def space3_def)

lemma skip_space_end_plain: "s \<noteq> [] \<Longrightarrow> \<not> is_space (hd s) \<Longrightarrow> byte_of (hd s) < 128 \<Longrightarrow> skip_space_end s = s"
  by (induction s rule: skip_space_end.induct) (auto simp: space2_def space3_def)

lemma TrimSpaceU_plain:
  assumes "\<And>c. c \<in> set s \<Longrightarrow> \<not> is_space c \<and> byte_of c < 128"
  shows "TrimSpaceU s = s"
proof (cases "s = []")
  case False
  with assms show ?thesis
    by (simp add: TrimSpaceU_def skip_space_plain skip_space_end_plain hd_rev)
qed (simp add: TrimSpaceU_def)

fun split_on :: "char \<Rightarrow> string \<Rightarrow> string \<Rightarrow> string list" where
  "split_on c acc [] = [rev acc]"
| "split_on c acc (x # xs) = (if x = c then rev acc # split_on c [] xs else split_on c (x # acc) xs)"

definition Split :: "string \<Rightarrow> char \<Rightarrow> string list" where
  "Split s c = split_on c [] s"

definition Fields :: "string \<Rightarrow> string list" where
  "Fields s = filter (\<lambda>w. w \<noteq> []) (split_on CHR 0x20 [] (map (\<lambda>c. if is_space c then CHR 0x20 else c) s))"

definition HasPrefix :: "string \<Rightarrow> string \<Rightarrow> bool" where
  "HasPrefix s p \<longleftrightarrow> take (length p) s = p"

definition to_upper :: "char \<Rightarrow> char" where
  "to_upper c = (if 97 \<le> byte_of c \<and> byte_of c \<le> 122 then char_of (byte_of c - 32) else c)"

definition ToUpper :: "string \<Rightarrow> string" where
  "ToUpper s = map to_upper s"

text \<open>\<^verbatim>\<open>base64.StdEncoding.EncodeToString\<close>.\<close>

definition b64char :: "nat \<Rightarrow> char" where
  "b64char n = ''ABCDEFGHIJKLMNOPQRSTUVWXYZabcdefghijklmnopqrstuvwxyz0123456789+/'' ! (n mod 64)"

fun base64 :: "bytes \<Rightarrow> string" where
  "base64 [] = []"
| "base64 [a] = [b64char (byte_of a div 4), b64char (byte_of a * 16), CHR ''='', CHR ''='']"
| "base64 [a, b] = [b64char (byte_of a div 4), b64char (byte_of a * 16 + byte_of b div 16), b64char (byte_of b * 4), CHR ''='']"
| "base64 (a # b # c # rest) =
     [b64char (byte_of a div 4), b64char (byte_of a * 16 + byte_of b div 16), b64char (byte_of b * 4 + byte_of c div 64),
      b64char (byte_of c)] @ base64 rest"

lemma TrimSpace_Nil [simp]: "TrimSpace [] = []"
  by (simp add: TrimSpace_def)

end
