(* ===== verification/Errors.thy ===== *)
theory Errors
  imports Prelude
begin

text \<open>
  The error vocabulary of the service: the typed sentinels and native errors of the driver
  port (internal/provider/errors.go), the mapping of raw library codes to sentinels
  (internal/native/codes.go), the human-facing catalog (internal/provider/catalog.go) and the
  domain's classification of failures (internal/core/errors.go, internal/core/batch.go).
  An error value is a finite chain of wrappers; \<open>errors_is\<close> and \<open>errors_as_native\<close> walk it
  the way Go's \<^verbatim>\<open>errors.Is\<close> and \<^verbatim>\<open>errors.As\<close> do.
\<close>

section \<open>Error values\<close>

datatype sentinel =
    ContextCanceled | ContextDeadlineExceeded
  | ErrClosed | ErrUnsupported | ErrNotReady
  | ErrInvalidPassword | ErrKeyNotFound | ErrCertNotFound | ErrCertExpired | ErrCertTimeInvalid
  | ErrCertParse | ErrSignFormatMismatch | ErrSignatureInvalid | ErrNoSignature | ErrChainInvalid
  | ErrCARequired | ErrOCSPRequest | ErrBufferTooSmall | ErrXMLParse | ErrCMSFormat
  | ErrInvalidParam | ErrEmptyOutput

datatype error_kind =
  KindInvalid | KindUnsupported | KindUnavailable | KindCanceled | KindInternal

datatype goerr =
    Sentinel sentinel
  | NativeError string "32 word" string "sentinel option"
  | DomainError error_kind string "goerr option"
  | PlainError string
  | WrapError string goerr

fun errors_is :: "goerr \<Rightarrow> sentinel \<Rightarrow> bool" where
  "errors_is (Sentinel s) t = (s = t)"
| "errors_is (NativeError op c d s) t = (s = Some t)"
| "errors_is (DomainError k op (Some e)) t = errors_is e t"
| "errors_is (DomainError k op None) t = False"
| "errors_is (PlainError m) t = False"
| "errors_is (WrapError p e) t = errors_is e t"

fun errors_as_native :: "goerr \<Rightarrow> (32 word \<times> string) option" where
  "errors_as_native (NativeError op c d s) = Some (c, d)"
| "errors_as_native (DomainError k op (Some e)) = errors_as_native e"
| "errors_as_native (WrapError p e) = errors_as_native e"
| "errors_as_native _ = None"

fun errors_as_domain :: "goerr \<Rightarrow> error_kind option" where
  "errors_as_domain (DomainError k op e) = Some k"
| "errors_as_domain (WrapError p e) = errors_as_domain e"
| "errors_as_domain _ = None"

text \<open>The \<^verbatim>\<open>Error()\<close> text of each kind of error.\<close>

fun sentinel_text :: "sentinel \<Rightarrow> string" where
  "sentinel_text ContextCanceled = ''context canceled''"
| "sentinel_text ContextDeadlineExceeded = ''context deadline exceeded''"
| "sentinel_text ErrClosed = ''provider: closed''"
| "sentinel_text ErrUnsupported = ''provider: operation not supported by this library version''"
| "sentinel_text ErrNotReady = ''provider: library not ready''"
| "sentinel_text ErrInvalidPassword = ''provider: invalid container password''"
| "sentinel_text ErrKeyNotFound = ''provider: key not found''"
| "sentinel_text ErrCertNotFound = ''provider: certificate not found''"
| "sentinel_text ErrCertExpired = ''provider: certificate expired''"
| "sentinel_text ErrCertTimeInvalid = ''provider: certificate not valid at the given time''"
| "sentinel_text ErrCertParse = ''provider: certificate parse error''"
| "sentinel_text ErrSignFormatMismatch = ''provider: sign/verify flag mismatch''"
| "sentinel_text ErrSignatureInvalid = ''provider: signature invalid''"
| "sentinel_text ErrNoSignature = ''provider: no signature found''"
| "sentinel_text ErrChainInvalid = ''provider: certificate chain build/verify failed''"
| "sentinel_text ErrCARequired = ''provider: trusted CA certificate required''"
| "sentinel_text ErrOCSPRequest = ''provider: OCSP request failed''"
| "sentinel_text ErrBufferTooSmall = ''provider: output buffer too small''"
| "sentinel_text ErrXMLParse = ''provider: XML parse error''"
| "sentinel_text ErrCMSFormat = ''provider: unknown CMS format''"
| "sentinel_text ErrInvalidParam = ''provider: invalid parameter''"
| "sentinel_text ErrEmptyOutput =
     ''provider: the library reported success but produced no output''"

fun kind_number :: "error_kind \<Rightarrow> nat" where
  "kind_number KindInvalid = 0"
| "kind_number KindUnsupported = 1"
| "kind_number KindUnavailable = 2"
| "kind_number KindCanceled = 3"
| "kind_number KindInternal = 4"

fun err_text :: "goerr \<Rightarrow> string" where
  "err_text (Sentinel s) = sentinel_text s"
| "err_text (NativeError op c d s) =
     (if d \<noteq> [] then op @ '': code '' @ hex8 c @ '': '' @ d else op @ '': code '' @ hex8 c)"
| "err_text (DomainError k op None) = op @ '': '' @ decimal (kind_number k)"
| "err_text (DomainError k op (Some e)) = op @ '': '' @ err_text e"
| "err_text (PlainError m) = m"
| "err_text (WrapError p e) = p @ '': '' @ err_text e"

section \<open>Raw library codes (internal/native/codes.go)\<close>

abbreviation kcrOK :: "32 word" where "kcrOK \<equiv> 0"
abbreviation kcrBase :: "32 word" where "kcrBase \<equiv> 0x08F00000"
abbreviation kcrCertStatusOK :: "32 word" where "kcrCertStatusOK \<equiv> 0x08F00400"
abbreviation kcrCertStatusRevoked :: "32 word" where "kcrCertStatusRevoked \<equiv> 0x08F00401"
abbreviation kcrCertStatusUnknown :: "32 word" where "kcrCertStatusUnknown \<equiv> 0x08F00402"

definition sentinelFor :: "32 word \<Rightarrow> sentinel option" where
  "sentinelFor code =
     (if code = 0x08F00009 then Some ErrInvalidPassword
      else if code = 0x08F00016 then Some ErrKeyNotFound
      else if code = 0x08F0001B then Some ErrCertNotFound
      else if code = 0x08F0000B \<or> code = 0x08F0000A then Some ErrCertExpired
      else if code = 0x08F00042 then Some ErrCertTimeInvalid
      else if code = 0x08F00006 then Some ErrCertParse
      else if code = 0x08F00026 then Some ErrXMLParse
      else if code = 0x08F0001E then Some ErrCMSFormat
      else if code = 0x08F00300 \<or> code = 0x08F00007 then Some ErrInvalidParam
      else if code = 0x08F00039 then Some ErrSignFormatMismatch
      else if code = 0x08F0001C then Some ErrSignatureInvalid
      else if code = 0x08F00024 then Some ErrNoSignature
      else if code = 0x08F0000E \<or> code = 0x08F0000C then Some ErrChainInvalid
      else if code = 0x08F00020 \<or> code = 0x08F00022 then Some ErrCARequired
      else if code = 0x08F00030 \<or> code = 0x08F00031 then Some ErrOCSPRequest
      else if code = 0x08F00005 then Some ErrBufferTooSmall
      else if code = 0x08F00101 then Some ErrNotReady
      else None)"

definition nativeErr :: "string \<Rightarrow> 32 word \<Rightarrow> string \<Rightarrow> goerr option" where
  "nativeErr op code detail =
     (if code = kcrOK then None else Some (NativeError op code detail (sentinelFor code)))"

section \<open>The error catalog (internal/provider/catalog.go)\<close>

record explanation =
  ex_Code :: string
  ex_Key :: string
  ex_Message :: string
  ex_Action :: string

definition no_explanation :: explanation where
  "no_explanation = \<lparr>ex_Code = [], ex_Key = [], ex_Message = [], ex_Action = []\<rparr>"

text \<open>The UTF-8 bytes of an em dash, which two of the catalog's texts contain.\<close>

definition em_dash :: string where
  "em_dash = [CHR 0xE2, CHR 0x80, CHR 0x94]"

definition catalog :: "(sentinel \<times> string \<times> string \<times> string) list" where
  "catalog =
  [(ErrInvalidPassword, ''container.password.invalid'',
    ''The private-key container password is incorrect.'',
    ''Check the password for the key container (PKCS#12/PFX) and try again.''),
   (ErrKeyNotFound, ''key.not_found'',
    ''No private key was found in the container.'',
    ''Verify the container holds a signing key and that the right alias is selected.''),
   (ErrCertNotFound, ''cert.not_found'',
    ''The certificate was not found.'',
    ''Provide the signer certificate, or check that the key container includes it.''),
   (ErrCertExpired, ''cert.expired'',
    ''The certificate is outside its validity period.'',
    ''Reissue the certificate, or use one that is currently valid.''),
   (ErrCertTimeInvalid, ''cert.time_invalid'',
    ''The certificate is not valid at the requested time.'',
    ''Use a certificate valid at the signing/verification time, or adjust the check time.''),
   (ErrCertParse, ''cert.parse_error'',
    ''The certificate could not be parsed.'',
    ''Check the encoding (PEM/DER/Base64) and that the bytes are a valid X.509 certificate.''),
   (ErrSignFormatMismatch, ''sign.format_mismatch'',
    ''The signature format flag does not match the data.'',
    ''Ensure the format (CMS/XML/WSSE) and the detached flag match how the data was signed.''),
   (ErrSignatureInvalid, ''signature.invalid'',
    ''The signature is cryptographically invalid.'',
    ''The data was altered or signed with a different key '' @ em_dash @
    '' re-sign, or verify against the original source.''),
   (ErrNoSignature, ''signature.absent'',
    ''No signature was found in the input.'',
    ''Provide a signed container, and check that the format flag matches it.''),
   (ErrChainInvalid, ''chain.invalid'',
    ''The certificate chain could not be built or verified.'',
    ''Supply the issuing CA certificates (trust store) needed to complete the chain.''),
   (ErrCARequired, ''ca.required'',
    ''A trusted CA certificate is required but was not available.'',
    ''Load the NUC CA certificates into the trust store.''),
   (ErrOCSPRequest, ''ocsp.request_failed'',
    ''The OCSP revocation check failed.'',
    ''Check network access to the OCSP responder, or retry later.''),
   (ErrXMLParse, ''xml.parse_error'',
    ''The XML document could not be parsed.'',
    ''Ensure the input is well-formed XML.''),
   (ErrEmptyOutput, ''output.empty'',
    ''The crypto library reported success but returned an empty result.'',
    ''This combination of options is not supported by the library '' @ em_dash @
    '' a timestamp together with a disabled certificate-time check is the common case. Retry with the certificate-time check on.''),
   (ErrCMSFormat, ''cms.format_unknown'',
    ''The CMS/PKCS#7 container format was not recognized.'',
    ''Check that the input is a valid CMS/PKCS#7 structure and matches the detached flag.''),
   (ErrInvalidParam, ''request.invalid_parameter'',
    ''The library rejected a request parameter.'',
    ''Check the operation flags and the input encoding.''),
   (ErrBufferTooSmall, ''buffer.too_small'',
    ''The library output buffer was too small.'',
    ''Retry the operation; if it persists, report the input size to the maintainers.''),
   (ErrUnsupported, ''operation.unsupported'',
    ''The loaded library version does not support this operation.'',
    ''Upgrade the Kalkan library, or use a supported operation.''),
   (ErrNotReady, ''service.not_ready'',
    ''The service is not ready '' @ em_dash @ '' the native library is not initialized.'',
    ''Wait for readiness (/readyz), or check the native library configuration.''),
   (ErrClosed, ''service.closed'',
    ''The provider has been closed.'',
    ''Restart the service.'')]"

definition genericEntry :: "string \<times> string \<times> string" where
  "genericEntry = (''library.error'',
    ''The cryptographic library returned an error.'',
    ''Inspect the code and text detail; consult the error catalog or the maintainers.'')"

fun catalog_find :: "(sentinel \<times> string \<times> string \<times> string) list \<Rightarrow> goerr \<Rightarrow>
    (string \<times> string \<times> string) option" where
  "catalog_find [] e = None"
| "catalog_find ((s, kma) # rest) e = (if errors_is e s then Some kma else catalog_find rest e)"

definition provider_Explain :: "goerr \<Rightarrow> explanation" where
  "provider_Explain e =
     (let ne = errors_as_native e;
          code = (case ne of Some (c, d) \<Rightarrow> if c \<noteq> 0 then hex8 c else [] | None \<Rightarrow> []);
          fill = (\<lambda>(k, m, a). \<lparr>ex_Code = code, ex_Key = k, ex_Message = m, ex_Action = a\<rparr>)
      in case catalog_find catalog e of
           Some kma \<Rightarrow> fill kma
         | None \<Rightarrow> (if ne \<noteq> None then fill genericEntry
                    else \<lparr>ex_Code = code, ex_Key = [], ex_Message = [], ex_Action = []\<rparr>))"

fun SentinelForKey_in :: "(sentinel \<times> string \<times> string \<times> string) list \<Rightarrow> string \<Rightarrow> sentinel option" where
  "SentinelForKey_in [] key = None"
| "SentinelForKey_in ((s, k, ma) # rest) key = (if k = key then Some s else SentinelForKey_in rest key)"

definition SentinelForKey :: "string \<Rightarrow> sentinel option" where
  "SentinelForKey key = SentinelForKey_in catalog key"

section \<open>The domain's classification (internal/core/errors.go)\<close>

fun KindName :: "error_kind \<Rightarrow> string" where
  "KindName KindInvalid = ''invalid''"
| "KindName KindUnsupported = ''unsupported''"
| "KindName KindUnavailable = ''unavailable''"
| "KindName KindCanceled = ''canceled''"
| "KindName KindInternal = ''internal''"

definition classify :: "goerr \<Rightarrow> error_kind" where
  "classify e =
     (if errors_is e ContextCanceled \<or> errors_is e ContextDeadlineExceeded then KindCanceled
      else if errors_is e ErrUnsupported then KindUnsupported
      else if errors_is e ErrNotReady \<or> errors_is e ErrClosed then KindUnavailable
      else if errors_is e ErrInvalidPassword \<or> errors_is e ErrKeyNotFound \<or>
              errors_is e ErrCertNotFound \<or> errors_is e ErrCertExpired \<or>
              errors_is e ErrCertTimeInvalid \<or> errors_is e ErrCertParse \<or>
              errors_is e ErrSignFormatMismatch \<or> errors_is e ErrXMLParse \<or>
              errors_is e ErrCMSFormat \<or> errors_is e ErrInvalidParam \<or>
              errors_is e ErrCARequired then KindInvalid
      else KindInternal)"

definition domainErr :: "string \<Rightarrow> goerr \<Rightarrow> goerr" where
  "domainErr op e = DomainError (classify e) op (Some e)"

definition NewError :: "error_kind \<Rightarrow> string \<Rightarrow> string \<Rightarrow> goerr" where
  "NewError k op msg = DomainError k op (Some (PlainError msg))"

definition isSoftVerifyFailure :: "goerr \<Rightarrow> bool" where
  "isSoftVerifyFailure e =
     (if errors_is e ErrSignatureInvalid \<or> errors_is e ErrNoSignature \<or>
         errors_is e ErrChainInvalid \<or> errors_is e ErrCertExpired \<or>
         errors_is e ErrCertTimeInvalid then True
      else errors_as_native e \<noteq> None \<and> \<not> errors_is e ErrUnsupported \<and>
           \<not> errors_is e ErrNotReady \<and> \<not> errors_is e ErrClosed)"

definition core_Explain :: "goerr \<Rightarrow> explanation" where
  "core_Explain e =
     (if errors_is e ContextCanceled then
        \<lparr>ex_Code = [], ex_Key = ''request.canceled'',
         ex_Message = ''The request was canceled.'', ex_Action = ''Retry the request.''\<rparr>
      else if errors_is e ContextDeadlineExceeded then
        \<lparr>ex_Code = [], ex_Key = ''request.timeout'',
         ex_Message = ''The request timed out.'',
         ex_Action = ''Retry, or increase the timeout.''\<rparr>
      else provider_Explain e)"

record lib_error =
  le_Code :: string
  le_Text :: string
  le_Key :: string
  le_Message :: string
  le_Action :: string

text \<open>
  Localisation (internal/provider/locale.go). The translation tables are prose in Russian and
  Kazakh; they are an argument, a map from the locale and the catalog key to the translated
  message and action, and everything below holds for every table.
\<close>

datatype locale_tag = LocaleEN | LocaleRU | LocaleKK

type_synonym translation_table = "locale_tag \<rightharpoonup> (string \<rightharpoonup> string \<times> string)"

definition Localize :: "translation_table \<Rightarrow> explanation \<Rightarrow> locale_tag \<Rightarrow> explanation" where
  "Localize translations ex loc =
     (case translations loc of
        None \<Rightarrow> ex
      | Some table \<Rightarrow>
          (case table (ex_Key ex) of
             None \<Rightarrow> ex
           | Some (message, action) \<Rightarrow> ex\<lparr>ex_Message := message, ex_Action := action\<rparr>))"

text \<open>The part of the request context the error rendering reads, with the tables beside it.\<close>

record lang =
  lg_translations :: translation_table
  lg_locale :: "locale_tag option"

definition LocaleFrom :: "lang \<Rightarrow> locale_tag" where
  "LocaleFrom ctx = (case lg_locale ctx of Some loc \<Rightarrow> loc | None \<Rightarrow> LocaleEN)"

definition libErrorFrom :: "lang \<Rightarrow> goerr \<Rightarrow> lib_error" where
  "libErrorFrom ctx e =
     (let ex = Localize (lg_translations ctx) (provider_Explain e) (LocaleFrom ctx);
          code = (case errors_as_native e of Some (c, d) \<Rightarrow> hex8 c | None \<Rightarrow> []);
          txt = (case errors_as_native e of Some (c, d) \<Rightarrow> d | None \<Rightarrow> err_text e)
      in \<lparr>le_Code = code, le_Text = txt, le_Key = ex_Key ex, le_Message = ex_Message ex,
          le_Action = ex_Action ex\<rparr>)"

definition core_ExplainIn :: "lang \<Rightarrow> goerr \<Rightarrow> explanation" where
  "core_ExplainIn ctx e = Localize (lg_translations ctx) (core_Explain e) (LocaleFrom ctx)"

text \<open>The client-safe error envelope of batches and asynchronous jobs (internal/core/batch.go).\<close>

record batch_item_error =
  be_Kind :: string
  be_Code :: string
  be_Message :: string
  be_Action :: string

definition itemErrorFrom :: "goerr \<Rightarrow> batch_item_error" where
  "itemErrorFrom e =
     (let kind = (case errors_as_domain e of Some k \<Rightarrow> k | None \<Rightarrow> KindInternal);
          ex = core_Explain e;
          msg = (if ex_Message ex = [] then err_text e else ex_Message ex)
      in \<lparr>be_Kind = KindName kind, be_Code = ex_Code ex, be_Message = msg, be_Action = ex_Action ex\<rparr>)"

section \<open>Properties\<close>

lemma domainErr_transparent [simp]:
  "errors_is (domainErr op e) s = errors_is e s"
  "errors_as_native (domainErr op e) = errors_as_native e"
  "errors_as_domain (domainErr op e) = Some (classify e)"
  by (simp_all add: domainErr_def)

lemma classify_domainErr [simp]: "classify (domainErr op e) = classify e"
  by (simp add: classify_def)

lemma catalog_find_Some:
  "catalog_find cat e = Some kma \<Longrightarrow> \<exists>s. (s, kma) \<in> set cat \<and> errors_is e s"
  by (induction cat e rule: catalog_find.induct) (auto split: if_splits)

lemma catalog_find_Sentinel:
  "catalog_find cat (Sentinel s) = map_of cat s"
  by (induction cat) auto

lemma SentinelForKey_in_find:
  "distinct (map (\<lambda>(s, k, ma). k) cat) \<Longrightarrow> map_of cat s = Some (k, m, a) \<Longrightarrow>
   SentinelForKey_in cat k = Some s"
proof (induction cat)
  case (Cons x cat)
  obtain s' k' ma where x: "x = (s', k', ma)" by (cases x) auto
  show ?case
  proof (cases "s' = s")
    case True
    with Cons.prems x show ?thesis by auto
  next
    case False
    with Cons.prems x have rest: "map_of cat s = Some (k, m, a)" by simp
    then have "(s, k, m, a) \<in> set cat" by (rule map_of_SomeD)
    with Cons.prems x have "k' \<noteq> k" by force
    with Cons rest x show ?thesis by simp
  qed
qed simp

lemma Localize_stable [simp]:
  "ex_Key (Localize tr ex loc) = ex_Key ex" "ex_Code (Localize tr ex loc) = ex_Code ex"
  by (simp_all add: Localize_def split: option.splits prod.splits)

lemma catalog_keys_distinct: "distinct (map (\<lambda>(s, k, ma). k) catalog)"
  by (simp add: catalog_def)

lemma catalog_find_native:
  "catalog_find cat (NativeError n c d (Some s)) = map_of cat s"
  by (induction cat) auto

lemma catalog_total:
  assumes "s \<notin> {ContextCanceled, ContextDeadlineExceeded}"
  shows "\<exists>k m a. map_of catalog s = Some (k, m, a)"
proof -
  have "map fst catalog = [ErrInvalidPassword, ErrKeyNotFound, ErrCertNotFound, ErrCertExpired, ErrCertTimeInvalid, ErrCertParse, ErrSignFormatMismatch, ErrSignatureInvalid, ErrNoSignature, ErrChainInvalid, ErrCARequired, ErrOCSPRequest, ErrXMLParse, ErrEmptyOutput, ErrCMSFormat, ErrInvalidParam, ErrBufferTooSmall, ErrUnsupported, ErrNotReady, ErrClosed]"
    by (simp add: catalog_def)
  then have "s \<in> fst ` set catalog" using assms by (cases s) (simp_all flip: set_map)
  then have "map_of catalog s \<noteq> None" by (simp add: map_of_eq_None_iff)
  then show ?thesis by auto
qed

lemma sentinelFor_ErrNotReady: "sentinelFor c = Some ErrNotReady \<longleftrightarrow> c = 0x08F00101"
  by (simp add: sentinelFor_def)

lemma sentinelFor_never:
  "sentinelFor c \<noteq> Some ErrUnsupported" "sentinelFor c \<noteq> Some ErrClosed"
  by (simp_all add: sentinelFor_def)

text \<open>
  The catalog key inverts. A library failure with a recognised sentinel, once wrapped
  by the domain, is rendered with a key from which \<open>SentinelForKey\<close> recovers exactly that
  sentinel, in every language: a peer that receives the key can rebuild the typed error.
\<close>

theorem explain_key_roundtrip:
  assumes "s \<notin> {ContextCanceled, ContextDeadlineExceeded}"
  shows "SentinelForKey (le_Key (libErrorFrom ctx (NativeError n c d (Some s)))) = Some s"
proof -
  obtain k m a where "map_of catalog s = Some (k, m, a)" using catalog_total [OF assms] by blast
  with SentinelForKey_in_find [OF catalog_keys_distinct this] show ?thesis
    by (simp add: libErrorFrom_def provider_Explain_def catalog_find_native SentinelForKey_def Let_def)
qed

theorem explain_key_roundtrip_witness:
  "SentinelForKey (le_Key (libErrorFrom \<lparr>lg_translations = (\<lambda>_. None), lg_locale = Some LocaleKK\<rparr>
     (NativeError ''sign'' 0x08F00009 ''bad password'' (Some ErrInvalidPassword)))) = Some ErrInvalidPassword"
  by (rule explain_key_roundtrip) simp

text \<open>
  Every library code other than the not-initialised one makes a verification fail
  softly, as an invalid verdict in the response; the not-initialised code alone is a fault of
  the service, reported as an error of kind unavailable.
\<close>

theorem native_verify_failure_soft:
  assumes "nativeErr n code detail = Some e"
  shows "(isSoftVerifyFailure e \<longleftrightarrow> code \<noteq> 0x08F00101) \<and>
    (code = 0x08F00101 \<longrightarrow> classify e = KindUnavailable)"
proof -
  have e: "e = NativeError n code detail (sentinelFor code)"
    using assms by (simp add: nativeErr_def split: if_split_asm)
  show ?thesis
    unfolding e using sentinelFor_ErrNotReady [of code] sentinelFor_never [of code]
    by (cases "sentinelFor code = Some ErrNotReady") (simp_all add: isSoftVerifyFailure_def classify_def)
qed

theorem native_verify_failure_soft_witness:
  "isSoftVerifyFailure (NativeError ''verify'' 0x08F0001C [] (Some ErrSignatureInvalid))"
proof -
  have "nativeErr ''verify'' 0x08F0001C [] =
      Some (NativeError ''verify'' 0x08F0001C [] (Some ErrSignatureInvalid))"
    by (simp add: nativeErr_def sentinelFor_def)
  from native_verify_failure_soft [OF this] show ?thesis by simp
qed

end
