(* ===== verification/Json.thy ===== *)
theory Json
  imports Errors "HOL-Library.Monad_Syntax"
begin

text \<open>
  The documents that the durable stores keep (encoding/json): trees of values, the optional fields
  of a struct, and the decoding of a field with its default. The stores of jobs, challenges,
  multi-party sessions and QR sessions build their documents from these.
\<close>

section \<open>Documents\<close>

text \<open>
  The value that \<^verbatim>\<open>json.Marshal\<close> writes and \<^verbatim>\<open>json.Unmarshal\<close> reads, as a tree: an object
  holds the fields in the order of the struct, and a field tagged \<^verbatim>\<open>omitempty\<close> is left out
  when it is nil or empty. The text form of the tree is not modelled.
\<close>

datatype json = JStr string | JTime time | JRaw bytes | JBool bool | JInt int | JArr "json list" | JObj "(string \<times> json) list"

definition str_field :: "string \<Rightarrow> string \<Rightarrow> (string \<times> json) list" where
  "str_field k v = (if v = [] then [] else [(k, JStr v)])"

definition raw_field :: "string \<Rightarrow> bytes \<Rightarrow> (string \<times> json) list" where
  "raw_field k v = (if v = [] then [] else [(k, JRaw v)])"

definition time_field :: "string \<Rightarrow> time option \<Rightarrow> (string \<times> json) list" where
  "time_field k t = (case t of None \<Rightarrow> [] | Some u \<Rightarrow> [(k, JTime u)])"

definition marshal_error :: "batch_item_error \<Rightarrow> json" where
  "marshal_error e = JObj ([(''kind'', JStr (be_Kind e))] @ str_field ''code'' (be_Code e) @
     [(''message'', JStr (be_Message e))] @ str_field ''action'' (be_Action e))"

definition error_field :: "batch_item_error option \<Rightarrow> (string \<times> json) list" where
  "error_field er = (case er of None \<Rightarrow> [] | Some e \<Rightarrow> [(''error'', marshal_error e)])"

definition int_field :: "string \<Rightarrow> int \<Rightarrow> (string \<times> json) list" where
  "int_field k v = (if v = 0 then [] else [(k, JInt v)])"

definition arr_field :: "string \<Rightarrow> json list \<Rightarrow> (string \<times> json) list" where
  "arr_field k v = (if v = [] then [] else [(k, JArr v)])"

section \<open>The text of a string\<close>

text \<open>
  \<^verbatim>\<open>json.Marshal\<close> writes a string as UTF-8 and replaces each byte that does not start a valid
  sequence by the three bytes of U+FFFD; everything else reads back as it was. \<open>utf8_len\<close> is the
  length of the valid sequence at the front of a string, 0 if there is none.
\<close>

definition byte_in :: "nat \<Rightarrow> nat \<Rightarrow> string \<Rightarrow> nat \<Rightarrow> bool" where
  "byte_in lo hi s i \<longleftrightarrow> i < length s \<and> lo \<le> byte_of (s ! i) \<and> byte_of (s ! i) \<le> hi"

definition utf8_len :: "string \<Rightarrow> nat" where
  "utf8_len s =
     (if byte_in 0x00 0x7F s 0 then 1
      else if byte_in 0xC2 0xDF s 0 then (if byte_in 0x80 0xBF s 1 then 2 else 0)
      else if byte_in 0xE0 0xE0 s 0 then (if byte_in 0xA0 0xBF s 1 \<and> byte_in 0x80 0xBF s 2 then 3 else 0)
      else if byte_in 0xED 0xED s 0 then (if byte_in 0x80 0x9F s 1 \<and> byte_in 0x80 0xBF s 2 then 3 else 0)
      else if byte_in 0xE1 0xEF s 0 then (if byte_in 0x80 0xBF s 1 \<and> byte_in 0x80 0xBF s 2 then 3 else 0)
      else if byte_in 0xF0 0xF0 s 0 then
        (if byte_in 0x90 0xBF s 1 \<and> byte_in 0x80 0xBF s 2 \<and> byte_in 0x80 0xBF s 3 then 4 else 0)
      else if byte_in 0xF1 0xF3 s 0 then
        (if byte_in 0x80 0xBF s 1 \<and> byte_in 0x80 0xBF s 2 \<and> byte_in 0x80 0xBF s 3 then 4 else 0)
      else if byte_in 0xF4 0xF4 s 0 then
        (if byte_in 0x80 0x8F s 1 \<and> byte_in 0x80 0xBF s 2 \<and> byte_in 0x80 0xBF s 3 then 4 else 0)
      else 0)"

function json_string :: "string \<Rightarrow> string" where
  "json_string [] = []"
| "json_string (c # s) =
     (case utf8_len (c # s) of
        0 \<Rightarrow> [CHR 0xEF, CHR 0xBF, CHR 0xBD] @ json_string s
      | Suc n \<Rightarrow> take (Suc n) (c # s) @ json_string (drop (Suc n) (c # s)))"
  by pat_completeness auto
termination by (relation "measure length") auto

lemma json_string_ascii: "(\<And>c. c \<in> set s \<Longrightarrow> byte_of c < 128) \<Longrightarrow> json_string s = s"
proof (induction s)
  case (Cons c s)
  have "utf8_len (c # s) = Suc 0" using Cons.prems [of c] by (simp add: utf8_len_def byte_in_def)
  with Cons show ?case by simp
qed simp

section \<open>Decoding\<close>

definition get_str :: "(string \<times> json) list \<Rightarrow> string \<Rightarrow> string option" where
  "get_str fs k = (case map_of fs k of None \<Rightarrow> Some [] | Some (JStr s) \<Rightarrow> Some s | Some _ \<Rightarrow> None)"

definition get_raw :: "(string \<times> json) list \<Rightarrow> string \<Rightarrow> bytes option" where
  "get_raw fs k = (case map_of fs k of None \<Rightarrow> Some [] | Some (JRaw s) \<Rightarrow> Some s | Some _ \<Rightarrow> None)"

definition get_time :: "(string \<times> json) list \<Rightarrow> string \<Rightarrow> time option option" where
  "get_time fs k =
     (case map_of fs k of None \<Rightarrow> Some None | Some (JTime t) \<Rightarrow> Some (Some t) | Some _ \<Rightarrow> None)"

fun unmarshal_error :: "json \<Rightarrow> batch_item_error option" where
  "unmarshal_error (JObj fs) =
     (case (get_str fs ''kind'', get_str fs ''code'', get_str fs ''message'', get_str fs ''action'') of
        (Some k, Some c, Some m, Some a) \<Rightarrow>
          Some \<lparr>be_Kind = k, be_Code = c, be_Message = m, be_Action = a\<rparr>
      | _ \<Rightarrow> None)"
| "unmarshal_error _ = None"

definition get_error :: "(string \<times> json) list \<Rightarrow> batch_item_error option option" where
  "get_error fs =
     (case map_of fs ''error'' of None \<Rightarrow> Some None | Some v \<Rightarrow> map_option Some (unmarshal_error v))"

definition get_int :: "(string \<times> json) list \<Rightarrow> string \<Rightarrow> int option" where
  "get_int fs k = (case map_of fs k of None \<Rightarrow> Some 0 | Some (JInt v) \<Rightarrow> Some v | Some _ \<Rightarrow> None)"

definition get_flag :: "(string \<times> json) list \<Rightarrow> string \<Rightarrow> bool option" where
  "get_flag fs k = (case map_of fs k of None \<Rightarrow> Some False | Some (JBool b) \<Rightarrow> Some b | Some _ \<Rightarrow> None)"

text \<open>Every element of an array decodes, or the document does not.\<close>

fun decode_all :: "(json \<Rightarrow> 'a option) \<Rightarrow> json list \<Rightarrow> 'a list option" where
  "decode_all f [] = Some []"
| "decode_all f (x # xs) =
     (case f x of None \<Rightarrow> None | Some v \<Rightarrow> map_option (\<lambda>vs. v # vs) (decode_all f xs))"

definition get_arr :: "(json \<Rightarrow> 'a option) \<Rightarrow> (string \<times> json) list \<Rightarrow> string \<Rightarrow> 'a list option" where
  "get_arr f fs k = (case map_of fs k of None \<Rightarrow> Some [] | Some (JArr vs) \<Rightarrow> decode_all f vs | Some _ \<Rightarrow> None)"

fun decode_str :: "json \<Rightarrow> string option" where
  "decode_str (JStr s) = Some s"
| "decode_str _ = None"

definition instant :: "time option \<Rightarrow> time" where
  "instant t = (case t of None \<Rightarrow> zero_time | Some u \<Rightarrow> u)"

section \<open>Round trips\<close>

text \<open>A lookup passes over the optional fields of other keys.\<close>

lemma map_of_str_field:
  "map_of (str_field k v) k' = (if k' = k \<and> v \<noteq> [] then Some (JStr v) else None)"
  by (simp add: str_field_def)

lemma map_of_raw_field:
  "map_of (raw_field k v) k' = (if k' = k \<and> v \<noteq> [] then Some (JRaw v) else None)"
  by (simp add: raw_field_def)

lemma map_of_time_field:
  "map_of (time_field k t) k' = (if k' = k then map_option JTime t else None)"
  by (simp add: time_field_def split: option.splits)

lemma map_of_error_field:
  "map_of (error_field t) k' = (if k' = ''error'' then map_option marshal_error t else None)"
  by (simp add: error_field_def split: option.splits)

lemmas map_of_fields = map_of_str_field map_of_raw_field map_of_time_field map_of_error_field
  map_add_def

lemma unmarshal_marshal_error [simp]: "unmarshal_error (marshal_error e) = Some e"
  by (simp add: marshal_error_def map_of_fields get_str_def)

lemma decode_all_map [simp]: "(\<And>v. dec (enc v) = Some v) \<Longrightarrow> decode_all dec (map enc vs) = Some vs"
  by (induction vs) auto

lemma map_of_int_field: "map_of (int_field k v) k' = (if k' = k \<and> v \<noteq> 0 then Some (JInt v) else None)"
  by (simp add: int_field_def)

lemma map_of_arr_field: "map_of (arr_field k v) k' = (if k' = k \<and> v \<noteq> [] then Some (JArr v) else None)"
  by (simp add: arr_field_def)

lemmas json_get_defs = get_str_def get_raw_def get_time_def get_flag_def get_int_def get_arr_def instant_def
  map_of_int_field map_of_arr_field map_of_fields

end
