(* ===== verification/Jobs_Store.thy ===== *)
theory Jobs_Store
  imports Json
begin

text \<open>
  The persisted record of an asynchronous job and the two implementations of the job store:
  the in-memory map (internal/jobs/memstore.go) and the bbolt bucket of JSON documents
  (internal/jobs/boltstore.go). A Go interface value is a record of operations, so the code
  that works against the \<^verbatim>\<open>Store\<close> interface takes that record as an argument; the locale
  \<open>job_store\<close> is the contract the interface documents, and both implementations satisfy it.
\<close>

section \<open>Jobs (internal/jobs/jobs.go)\<close>

datatype status =
  StatusQueued | StatusRunning | StatusSucceeded | StatusFailed | StatusCanceled

fun Terminal :: "status \<Rightarrow> bool" where
  "Terminal StatusSucceeded = True"
| "Terminal StatusFailed = True"
| "Terminal StatusCanceled = True"
| "Terminal _ = False"

record job =
  job_ID :: string
  job_Op :: string
  job_Status :: status
  job_SubmittedAt :: time
  job_StartedAt :: "time option"
  job_FinishedAt :: "time option"
  job_ExpiresAt :: "time option"
  job_Error :: "batch_item_error option"
  job_Request :: bytes
  job_Result :: bytes
  job_CallbackURL :: string

record view =
  vw_ID :: string
  vw_Op :: string
  vw_Status :: status
  vw_SubmittedAt :: time
  vw_StartedAt :: "time option"
  vw_FinishedAt :: "time option"
  vw_ExpiresAt :: "time option"
  vw_Error :: "batch_item_error option"

definition View :: "job \<Rightarrow> view" where
  "View j = \<lparr>vw_ID = job_ID j, vw_Op = job_Op j, vw_Status = job_Status j,
     vw_SubmittedAt = job_SubmittedAt j, vw_StartedAt = job_StartedAt j,
     vw_FinishedAt = job_FinishedAt j, vw_ExpiresAt = job_ExpiresAt j, vw_Error = job_Error j\<rparr>"

datatype store_error = ErrNotFound | ErrExists | ErrDecode

text \<open>The interface value: one field per method, the state passed explicitly.\<close>

record 's store_ops =
  st_Create :: "'s \<Rightarrow> job \<Rightarrow> store_error + 's"
  st_Get :: "'s \<Rightarrow> string \<Rightarrow> store_error + job"
  st_Save :: "'s \<Rightarrow> job \<Rightarrow> store_error + 's"
  st_Delete :: "'s \<Rightarrow> string \<Rightarrow> store_error + 's"
  st_Recover :: "'s \<Rightarrow> store_error + (string list \<times> 's)"
  st_Reap :: "'s \<Rightarrow> time \<Rightarrow> store_error + (nat \<times> 's)"

definition reapable :: "time \<Rightarrow> job \<Rightarrow> bool" where
  "reapable now j \<longleftrightarrow> Terminal (job_Status j) \<and>
     (case job_ExpiresAt j of None \<Rightarrow> False | Some t \<Rightarrow> \<not> After t now)"

definition requeued :: "job \<Rightarrow> job" where
  "requeued j = (if job_Status j = StatusRunning then j\<lparr>job_Status := StatusQueued\<rparr> else j)"

section \<open>The in-memory store (internal/jobs/memstore.go)\<close>

type_synonym mem_store = "(string, job) gomap"

definition mem_Create :: "mem_store \<Rightarrow> job \<Rightarrow> store_error + mem_store" where
  "mem_Create s j =
     (case map_of s (job_ID j) of Some _ \<Rightarrow> Inl ErrExists | None \<Rightarrow> Inr (kv_put (job_ID j) j s))"

definition mem_Get :: "mem_store \<Rightarrow> string \<Rightarrow> store_error + job" where
  "mem_Get s i = (case map_of s i of None \<Rightarrow> Inl ErrNotFound | Some j \<Rightarrow> Inr j)"

definition mem_Save :: "mem_store \<Rightarrow> job \<Rightarrow> store_error + mem_store" where
  "mem_Save s j = Inr (kv_put (job_ID j) j s)"

definition mem_Delete :: "mem_store \<Rightarrow> string \<Rightarrow> store_error + mem_store" where
  "mem_Delete s i = Inr (kv_del i s)"

definition mem_Recover :: "mem_store \<Rightarrow> store_error + (string list \<times> mem_store)" where
  "mem_Recover s =
     (let s' = kv_map requeued s
      in Inr (map (\<lambda>(i, j). job_ID j) (filter (\<lambda>(i, j). job_Status j = StatusQueued) s'), s'))"

definition mem_Reap :: "mem_store \<Rightarrow> time \<Rightarrow> store_error + (nat \<times> mem_store)" where
  "mem_Reap s now =
     Inr (length (filter (\<lambda>(i, j). reapable now j) s), kv_drop (reapable now) s)"

definition MemStore :: "mem_store store_ops" where
  "MemStore = \<lparr>st_Create = mem_Create, st_Get = mem_Get, st_Save = mem_Save,
     st_Delete = mem_Delete, st_Recover = mem_Recover, st_Reap = mem_Reap\<rparr>"

section \<open>The JSON document of a job\<close>

fun status_name :: "status \<Rightarrow> string" where
  "status_name StatusQueued = ''queued''"
| "status_name StatusRunning = ''running''"
| "status_name StatusSucceeded = ''succeeded''"
| "status_name StatusFailed = ''failed''"
| "status_name StatusCanceled = ''canceled''"

definition status_named :: "string \<Rightarrow> status option" where
  "status_named n = map_of (map (\<lambda>s. (status_name s, s))
     [StatusQueued, StatusRunning, StatusSucceeded, StatusFailed, StatusCanceled]) n"

definition marshal_fields :: "job \<Rightarrow> (string \<times> json) list" where
  "marshal_fields j = [(''id'', JStr (job_ID j)), (''op'', JStr (job_Op j)),
      (''status'', JStr (status_name (job_Status j))),
      (''submittedAt'', JTime (job_SubmittedAt j))] @
     time_field ''startedAt'' (job_StartedAt j) @
     time_field ''finishedAt'' (job_FinishedAt j) @
     time_field ''expiresAt'' (job_ExpiresAt j) @
     error_field (job_Error j) @
     raw_field ''request'' (job_Request j) @ raw_field ''result'' (job_Result j) @
     str_field ''callbackUrl'' (job_CallbackURL j)"

definition marshal_job :: "job \<Rightarrow> json" where
  "marshal_job j = JObj (marshal_fields j)"

fun unmarshal_job :: "json \<Rightarrow> job option" where
  "unmarshal_job (JObj fs) =
     (case (get_str fs ''id'', get_str fs ''op'',
            Option.bind (get_str fs ''status'') status_named, get_time fs ''submittedAt'') of
        (Some i, Some opn, Some st, Some sub) \<Rightarrow>
          (case (get_time fs ''startedAt'', get_time fs ''finishedAt'', get_time fs ''expiresAt'',
                 get_error fs) of
             (Some sa, Some fa, Some ea, Some er) \<Rightarrow>
               (case (get_raw fs ''request'', get_raw fs ''result'', get_str fs ''callbackUrl'') of
                  (Some rq, Some rs, Some cb) \<Rightarrow>
                    Some \<lparr>job_ID = i, job_Op = opn, job_Status = st,
                      job_SubmittedAt = (case sub of None \<Rightarrow> zero_time | Some t \<Rightarrow> t),
                      job_StartedAt = sa, job_FinishedAt = fa, job_ExpiresAt = ea,
                      job_Error = er, job_Request = rq, job_Result = rs, job_CallbackURL = cb\<rparr>
                | _ \<Rightarrow> None)
           | _ \<Rightarrow> None)
      | _ \<Rightarrow> None)"
| "unmarshal_job _ = None"

section \<open>The bbolt store (internal/jobs/boltstore.go)\<close>

text \<open>
  The bucket maps an id to its document. A transaction that returns an error is rolled back,
  so every failing operation leaves the bucket as it was.
\<close>

type_synonym bolt_store = "(string, json) gomap"

definition bolt_put :: "bolt_store \<Rightarrow> job \<Rightarrow> bolt_store" where
  "bolt_put b j = kv_put (job_ID j) (marshal_job j) b"

definition bolt_Create :: "bolt_store \<Rightarrow> job \<Rightarrow> store_error + bolt_store" where
  "bolt_Create b j =
     (case map_of b (job_ID j) of Some _ \<Rightarrow> Inl ErrExists | None \<Rightarrow> Inr (bolt_put b j))"

definition bolt_Get :: "bolt_store \<Rightarrow> string \<Rightarrow> store_error + job" where
  "bolt_Get b i =
     (case map_of b i of
        None \<Rightarrow> Inl ErrNotFound
      | Some raw \<Rightarrow> (case unmarshal_job raw of None \<Rightarrow> Inl ErrDecode | Some j \<Rightarrow> Inr j))"

definition bolt_Save :: "bolt_store \<Rightarrow> job \<Rightarrow> store_error + bolt_store" where
  "bolt_Save b j = Inr (bolt_put b j)"

definition bolt_Delete :: "bolt_store \<Rightarrow> string \<Rightarrow> store_error + bolt_store" where
  "bolt_Delete b i = Inr (kv_del i b)"

text \<open>The \<^verbatim>\<open>ForEach\<close> loops run over the entries of the bucket as they were at the start.\<close>

fun bolt_recover_loop :: "(string \<times> json) list \<Rightarrow> string list \<Rightarrow> bolt_store \<Rightarrow>
    store_error + (string list \<times> bolt_store)" where
  "bolt_recover_loop [] queued b = Inr (queued, b)"
| "bolt_recover_loop ((k, raw) # rest) queued b =
     (case unmarshal_job raw of
        None \<Rightarrow> Inl ErrDecode
      | Some j \<Rightarrow>
          (let b' = (if job_Status j = StatusRunning then bolt_put b (requeued j) else b);
               queued' = (if job_Status (requeued j) = StatusQueued
                          then queued @ [job_ID j] else queued)
           in bolt_recover_loop rest queued' b'))"

definition bolt_Recover :: "bolt_store \<Rightarrow> store_error + (string list \<times> bolt_store)" where
  "bolt_Recover b = bolt_recover_loop b [] b"

fun bolt_expired :: "time \<Rightarrow> (string \<times> json) list \<Rightarrow> store_error + string list" where
  "bolt_expired now [] = Inr []"
| "bolt_expired now ((k, raw) # rest) =
     (case unmarshal_job raw of
        None \<Rightarrow> Inl ErrDecode
      | Some j \<Rightarrow>
          (case bolt_expired now rest of
             Inl e \<Rightarrow> Inl e
           | Inr ks \<Rightarrow> Inr (if reapable now j then k # ks else ks)))"

definition bolt_Reap :: "bolt_store \<Rightarrow> time \<Rightarrow> store_error + (nat \<times> bolt_store)" where
  "bolt_Reap b now =
     (case bolt_expired now b of
        Inl e \<Rightarrow> Inl e
      | Inr ks \<Rightarrow> Inr (length ks, fold kv_del ks b))"

definition BoltStore :: "bolt_store store_ops" where
  "BoltStore = \<lparr>st_Create = bolt_Create, st_Get = bolt_Get, st_Save = bolt_Save,
     st_Delete = bolt_Delete, st_Recover = bolt_Recover, st_Reap = bolt_Reap\<rparr>"

lemma requeued_ID [simp]: "job_ID (requeued j) = job_ID j"
  by (simp add: requeued_def)

lemma requeued_Status [simp]:
  "job_Status (requeued j) =
     (if job_Status j = StatusRunning then StatusQueued else job_Status j)"
  by (simp add: requeued_def)

section \<open>The store contract\<close>

text \<open>
  \<open>jobs_of s\<close> is the abstract content of a store, a finite map from ids to jobs. Every entry is
  stored under its own id.
\<close>

locale job_store =
  fixes S :: "'s store_ops"
    and jobs_of :: "'s \<Rightarrow> string \<rightharpoonup> job"
    and ok :: "'s \<Rightarrow> bool"
  assumes create_fresh: "ok s \<Longrightarrow> jobs_of s (job_ID j) = None \<Longrightarrow>
      \<exists>s'. st_Create S s j = Inr s' \<and> ok s' \<and> jobs_of s' = (jobs_of s)(job_ID j \<mapsto> j)"
    and create_taken: "ok s \<Longrightarrow> jobs_of s (job_ID j) \<noteq> None \<Longrightarrow> st_Create S s j = Inl ErrExists"
    and get_absent: "ok s \<Longrightarrow> jobs_of s i = None \<Longrightarrow> st_Get S s i = Inl ErrNotFound"
    and get_present: "ok s \<Longrightarrow> jobs_of s i = Some j \<Longrightarrow> st_Get S s i = Inr j"
    and save: "ok s \<Longrightarrow>
      \<exists>s'. st_Save S s j = Inr s' \<and> ok s' \<and> jobs_of s' = (jobs_of s)(job_ID j \<mapsto> j)"
    and delete: "ok s \<Longrightarrow>
      \<exists>s'. st_Delete S s i = Inr s' \<and> ok s' \<and> jobs_of s' = (jobs_of s)(i := None)"
    and recover: "ok s \<Longrightarrow>
      \<exists>ids s'. st_Recover S s = Inr (ids, s') \<and> ok s' \<and>
        jobs_of s' = (\<lambda>i. map_option requeued (jobs_of s i)) \<and>
        set ids = {i. \<exists>j. jobs_of s' i = Some j \<and> job_Status j = StatusQueued}"
    and reap: "ok s \<Longrightarrow>
      \<exists>n s'. st_Reap S s now = Inr (n, s') \<and> ok s' \<and>
        n = card {i. \<exists>j. jobs_of s i = Some j \<and> reapable now j} \<and>
        jobs_of s' = (\<lambda>i. case jobs_of s i of None \<Rightarrow> None
                          | Some j \<Rightarrow> if reapable now j then None else Some j)"
    and keyed: "ok s \<Longrightarrow> jobs_of s i = Some j \<Longrightarrow> job_ID j = i"
begin

lemma get_iff: "ok s \<Longrightarrow> st_Get S s i = Inr j \<longleftrightarrow> jobs_of s i = Some j"
  by (cases "jobs_of s i") (auto dest: get_absent get_present)

lemma recover_leaves_no_running:
  assumes "ok s" and "st_Recover S s = Inr (ids, s')" and "jobs_of s' i = Some j"
  shows "job_Status j \<noteq> StatusRunning"
  using recover [OF assms(1)] assms(2,3) by (auto split: if_splits)

lemma reap_keeps_live:
  assumes "ok s" and "st_Reap S s now = Inr (n, s')" and "jobs_of s i = Some j"
    and "\<not> Terminal (job_Status j)"
  shows "jobs_of s' i = Some j"
  using reap [OF assms(1), of now] assms(2-4) by (auto simp: reapable_def)

end

subsection \<open>The in-memory store satisfies the contract\<close>

definition mem_ok :: "mem_store \<Rightarrow> bool" where
  "mem_ok s \<longleftrightarrow> kv_ok s \<and> (\<forall>(i, j) \<in> set s. job_ID j = i)"

lemma mem_ok_keyed: "mem_ok s \<Longrightarrow> map_of s i = Some j \<Longrightarrow> job_ID j = i"
  by (auto simp: mem_ok_def dest!: map_of_SomeD)

lemma set_kv_put: "kv_ok m \<Longrightarrow> set (kv_put k v m) = {(k', v') \<in> set m. k' \<noteq> k} \<union> {(k, v)}"
  by (induction m) (force simp: kv_put_def kv_ok_def)+

lemma mem_ok_put: "mem_ok s \<Longrightarrow> mem_ok (kv_put (job_ID j) j s)"
  by (auto simp: mem_ok_def wf_intros set_kv_put)

lemma card_entries:
  assumes "kv_ok m"
  shows "length (filter (\<lambda>(k, v). P v) m) = card {k. \<exists>v. map_of m k = Some v \<and> P v}"
proof -
  have d: "distinct (map fst (filter (\<lambda>(k, v). P v) m))"
    using assms by (induction m) (auto simp: kv_ok_def)
  have "{k. \<exists>v. map_of m k = Some v \<and> P v} = set (map fst (filter (\<lambda>(k, v). P v) m))"
    using assms by (auto simp: kv_ok_def image_iff)
  then show ?thesis using distinct_card [OF d] by simp
qed

lemma mem_ok_del: "mem_ok s \<Longrightarrow> mem_ok (kv_del i s)"
  by (auto simp: mem_ok_def wf_intros set_kv_del)

lemma mem_ok_requeued: "mem_ok s \<Longrightarrow> mem_ok (kv_map requeued s)"
  by (auto simp: mem_ok_def wf_intros) (auto simp: kv_map_def)

lemma mem_ok_drop: "mem_ok s \<Longrightarrow> mem_ok (kv_drop P s)"
  by (auto simp: mem_ok_def wf_intros) (auto simp: kv_drop_def)

lemma mem_recover_ids:
  assumes "mem_ok s"
  shows "set (map (\<lambda>(i, j). job_ID j) (filter (\<lambda>(i, j). job_Status j = StatusQueued) s)) =
    {i. \<exists>j. map_of s i = Some j \<and> job_Status j = StatusQueued}"
  using assms by (force simp: mem_ok_def kv_mem_get [symmetric] image_iff)

lemmas mem_defs = mem_Create_def mem_Get_def mem_Save_def mem_Delete_def mem_Recover_def mem_Reap_def
  MemStore_def

interpretation mem: job_store MemStore map_of mem_ok
proof (unfold_locales, goal_cases)
  case (1 s j) then show ?case by (simp add: mem_defs kv_simps mem_ok_put)
next
  case (7 s) then show ?case
    using mem_recover_ids [OF mem_ok_requeued]
    by (auto simp: mem_defs Let_def mem_ok_requeued kv_simps fun_eq_iff)
next
  case (8 s now) then show ?case
    using card_entries [of s "reapable now"]
    by (auto simp: mem_defs mem_ok_drop kv_simps fun_eq_iff mem_ok_def [of s])
qed (auto simp: mem_defs kv_simps mem_ok_put mem_ok_del mem_ok_keyed)

subsection \<open>The bbolt store refines the in-memory store\<close>

lemma status_named_name [simp]: "status_named (status_name s) = Some s"
  by (cases s) (simp_all add: status_named_def)

lemma get_marshal_str [simp]:
  "get_str (marshal_fields j) ''id'' = Some (job_ID j)"
  "get_str (marshal_fields j) ''op'' = Some (job_Op j)"
  "get_str (marshal_fields j) ''status'' = Some (status_name (job_Status j))"
  "get_str (marshal_fields j) ''callbackUrl'' = Some (job_CallbackURL j)"
  by (simp_all add: get_str_def marshal_fields_def map_of_fields)

lemma get_marshal_raw [simp]:
  "get_raw (marshal_fields j) ''request'' = Some (job_Request j)"
  "get_raw (marshal_fields j) ''result'' = Some (job_Result j)"
  by (simp_all add: get_raw_def marshal_fields_def map_of_fields)

lemma get_marshal_time [simp]:
  "get_time (marshal_fields j) ''submittedAt'' = Some (Some (job_SubmittedAt j))"
  "get_time (marshal_fields j) ''startedAt'' = Some (job_StartedAt j)"
  "get_time (marshal_fields j) ''finishedAt'' = Some (job_FinishedAt j)"
  "get_time (marshal_fields j) ''expiresAt'' = Some (job_ExpiresAt j)"
  by (simp_all add: get_time_def marshal_fields_def map_of_fields split: option.splits)

lemma get_marshal_error [simp]: "get_error (marshal_fields j) = Some (job_Error j)"
  by (simp add: get_error_def marshal_fields_def map_of_fields split: option.splits)

lemma unmarshal_marshal [simp]: "unmarshal_job (marshal_job j) = Some j"
  by (simp add: marshal_job_def)

text \<open>The bucket that holds the documents of the jobs of an in-memory store.\<close>

definition bolt_repr :: "mem_store \<Rightarrow> bolt_store" where
  "bolt_repr s = kv_map marshal_job s"

lemma bolt_repr_get [simp]: "map_of (bolt_repr s) i = map_option marshal_job (map_of s i)"
  by (simp add: bolt_repr_def kv_simps)

lemma bolt_repr_put: "bolt_put (bolt_repr s) j = bolt_repr (kv_put (job_ID j) j s)"
  by (induction s) (auto simp: bolt_put_def bolt_repr_def kv_map_def kv_put_def)

lemma bolt_repr_del: "kv_del i (bolt_repr s) = bolt_repr (kv_del i s)"
  by (induction s) (auto simp: bolt_repr_def kv_map_def kv_del_def)

lemma bolt_recover_loop_eq:
  assumes "mem_ok (xs @ ys)"
  shows "bolt_recover_loop (bolt_repr ys) q (bolt_repr (kv_map requeued xs @ ys)) =
    Inr (q @ map (\<lambda>(i, j). job_ID j) (filter (\<lambda>(i, j). job_Status j = StatusQueued) (kv_map requeued ys)),
         bolt_repr (kv_map requeued (xs @ ys)))"
  using assms
proof (induction ys arbitrary: xs q)
  case Nil
  show ?case by (simp add: bolt_repr_def kv_map_def)
next
  case (Cons a ys)
  obtain i j where a: "a = (i, j)" by (cases a)
  from Cons.prems a have i: "job_ID j = i" by (auto simp: mem_ok_def)
  from Cons.prems a have fresh: "i \<notin> fst ` set xs" by (auto simp: mem_ok_def kv_ok_def)
  have upd: "kv_put i (requeued j) (kv_map requeued xs @ (i, j) # ys) =
      kv_map requeued (xs @ [(i, j)]) @ ys"
    using fresh by (induction xs) (auto simp: kv_put_def kv_map_def)
  have same: "requeued j = j" if "job_Status j \<noteq> StatusRunning" using that by (simp add: requeued_def)
  let ?b = "bolt_repr (kv_map requeued xs @ (i, j) # ys)"
  have step: "(if job_Status j = StatusRunning then bolt_put ?b (requeued j) else ?b) =
      bolt_repr (kv_map requeued (xs @ [(i, j)]) @ ys)"
    using upd i same by (auto simp: bolt_repr_put kv_map_def)
  have IH: "bolt_recover_loop (bolt_repr ys) q' (bolt_repr (kv_map requeued (xs @ [(i, j)]) @ ys)) =
    Inr (q' @ map (\<lambda>(i, j). job_ID j) (filter (\<lambda>(i, j). job_Status j = StatusQueued) (kv_map requeued ys)),
         bolt_repr (kv_map requeued ((xs @ [(i, j)]) @ ys)))" for q'
    by (rule Cons.IH) (use Cons.prems a in simp)
  have unfold: "bolt_repr ((i, j) # ys) = (i, marshal_job j) # bolt_repr ys"
    by (simp add: bolt_repr_def kv_map_def)
  show ?case
    unfolding a unfold bolt_recover_loop.simps unmarshal_marshal option.case Let_def step IH
    by (auto simp: kv_map_def)
qed

lemma bolt_expired_eq:
  "bolt_expired now (bolt_repr s) = Inr (map fst (filter (\<lambda>(i, j). reapable now j) s))"
  by (induction s) (auto simp: bolt_repr_def kv_map_def)

lemma fold_kv_del_repr: "fold kv_del ks (bolt_repr s) = bolt_repr (fold kv_del ks s)"
  by (induction ks arbitrary: s) (simp_all add: bolt_repr_del)

lemma fold_kv_del: "fold kv_del ks m = filter (\<lambda>(k, v). k \<notin> set ks) m"
proof (induction ks arbitrary: m)
  case Nil
  show ?case by (simp add: case_prod_beta)
next
  case (Cons k ks)
  have "kv_del k m = filter (\<lambda>(k', v). k' \<noteq> k) m"
    by (induction m) (auto simp: kv_del_def)
  with Cons show ?case by (auto simp: case_prod_beta intro!: filter_cong)
qed

lemma fold_kv_del_drop:
  assumes "kv_ok s"
  shows "fold kv_del (map fst (filter (\<lambda>(i, v). P v) s)) s = kv_drop P s"
proof -
  have "(k \<notin> set (map fst (filter (\<lambda>(i, v). P v) s))) = (\<not> P v)" if "(k, v) \<in> set s" for k v
    using assms that by (auto simp: kv_mem_get image_iff)
  then show ?thesis unfolding fold_kv_del kv_drop_def by (intro filter_cong) auto
qed

lemmas bolt_defs = bolt_Create_def bolt_Get_def bolt_Save_def bolt_Delete_def bolt_Recover_def
  bolt_Reap_def BoltStore_def

lemma bolt_Create_repr:
  "st_Create BoltStore (bolt_repr s) j = map_sum id bolt_repr (st_Create MemStore s j)"
  by (simp add: bolt_defs mem_defs bolt_repr_put split: option.splits)

lemma bolt_Get_repr: "st_Get BoltStore (bolt_repr s) i = st_Get MemStore s i"
  by (simp add: bolt_defs mem_defs split: option.splits)

lemma bolt_Save_repr:
  "st_Save BoltStore (bolt_repr s) j = map_sum id bolt_repr (st_Save MemStore s j)"
  by (simp add: bolt_defs mem_defs bolt_repr_put)

lemma bolt_Delete_repr:
  "st_Delete BoltStore (bolt_repr s) i = map_sum id bolt_repr (st_Delete MemStore s i)"
  by (simp add: bolt_defs mem_defs bolt_repr_del)

lemma bolt_Recover_repr:
  "mem_ok s \<Longrightarrow> st_Recover BoltStore (bolt_repr s) =
     map_sum id (map_prod id bolt_repr) (st_Recover MemStore s)"
  using bolt_recover_loop_eq [of "[]" s "[]"] by (simp add: bolt_defs mem_defs Let_def kv_map_def)

lemma bolt_Reap_repr:
  "mem_ok s \<Longrightarrow> st_Reap BoltStore (bolt_repr s) now =
     map_sum id (map_prod id bolt_repr) (st_Reap MemStore s now)"
  by (simp add: bolt_defs mem_defs bolt_expired_eq fold_kv_del_repr fold_kv_del_drop mem_ok_def)

lemmas bolt_refines = bolt_Create_repr bolt_Get_repr bolt_Save_repr bolt_Delete_repr
  bolt_Recover_repr bolt_Reap_repr

definition bolt_jobs :: "bolt_store \<Rightarrow> string \<rightharpoonup> job" where
  "bolt_jobs b i = Option.bind (map_of b i) unmarshal_job"

definition bolt_ok :: "bolt_store \<Rightarrow> bool" where
  "bolt_ok b \<longleftrightarrow> (\<exists>s. mem_ok s \<and> b = bolt_repr s)"

lemma bolt_jobs_repr [simp]: "bolt_jobs (bolt_repr s) = map_of s"
  by (rule ext) (auto simp: bolt_jobs_def map_option_case split: option.splits)

lemma bolt_ok_repr: "mem_ok s \<Longrightarrow> bolt_ok (bolt_repr s)"
  by (auto simp: bolt_ok_def)

interpretation bolt: job_store BoltStore bolt_jobs bolt_ok
proof (unfold_locales, goal_cases)
  case (1 b j)
  then obtain s where "mem_ok s" "b = bolt_repr s" by (auto simp: bolt_ok_def)
  with 1 mem.create_fresh [of s j] show ?case by (auto simp: bolt_refines intro: bolt_ok_repr)
next
  case (2 b j) then show ?case by (auto simp: bolt_ok_def bolt_refines mem.create_taken)
next
  case (3 b i) then show ?case by (auto simp: bolt_ok_def bolt_refines mem.get_absent)
next
  case (4 b i j) then show ?case by (auto simp: bolt_ok_def bolt_refines mem.get_present)
next
  case (5 b j)
  then obtain s where "mem_ok s" "b = bolt_repr s" by (auto simp: bolt_ok_def)
  with mem.save [of s j] show ?case by (auto simp: bolt_refines intro: bolt_ok_repr)
next
  case (6 b i)
  then obtain s where "mem_ok s" "b = bolt_repr s" by (auto simp: bolt_ok_def)
  with mem.delete [of s i] show ?case by (auto simp: bolt_refines intro: bolt_ok_repr)
next
  case (7 b)
  then obtain s where s: "mem_ok s" "b = bolt_repr s" by (auto simp: bolt_ok_def)
  from mem.recover [OF s(1)] s show ?case by (auto simp: bolt_refines intro: bolt_ok_repr)
next
  case (8 b now)
  then obtain s where s: "mem_ok s" "b = bolt_repr s" by (auto simp: bolt_ok_def)
  from mem.reap [OF s(1), of now] s show ?case by (auto simp: bolt_refines intro: bolt_ok_repr)
next
  case (9 b i j) then show ?case by (auto simp: bolt_ok_def mem.keyed)
qed

end
