(* ===== verification/Jobs_Manager.thy ===== *)
theory Jobs_Manager
  imports Jobs_Store
begin

text \<open>
  The job manager (internal/jobs/manager.go): submission with backpressure and idempotency
  keys, execution, cancellation, recovery and reaping, over any store. Each Go function is
  one definition; \<open>run\<close> and \<open>Cancel\<close>, which read a job, work on a private copy and write it
  back, are composed of the parts that the step relation at the end interleaves.
\<close>

section \<open>Configuration and state\<close>

record config =
  cf_Workers :: int
  cf_QueueSize :: int
  cf_TTL :: dur
  cf_MaxInputBytes :: int
  cf_ReapInterval :: dur

definition withDefaults :: "config \<Rightarrow> config" where
  "withDefaults c =
     (let c1 = (if cf_Workers c < 1 then c\<lparr>cf_Workers := 1\<rparr> else c);
          c2 = (if cf_QueueSize c1 < 1 then c1\<lparr>cf_QueueSize := 128\<rparr> else c1);
          c3 = (if cf_TTL c2 \<le> 0 then c2\<lparr>cf_TTL := Hour\<rparr> else c2)
      in (if cf_ReapInterval c3 \<le> 0
          then (let r = cf_TTL c3
                in c3\<lparr>cf_ReapInterval := (if r > 5 * Minute then 5 * Minute else r)\<rparr>)
          else c3))"

record idem_ref =
  ref_id :: string
  ref_at :: time

definition idemMax :: nat where "idemMax = 8192"

text \<open>
  \<open>mg_cancels\<close> holds the ids whose cancel function is registered, \<open>mg_canceled\<close> those whose
  context has been cancelled, \<open>mg_recovered\<close> the ids that the requeue goroutine still has to
  feed into the queue, and \<open>mg_hooks\<close> the webhook deliveries fired so far.
\<close>

record 's manager =
  mg_store :: 's
  mg_validOp :: "string \<Rightarrow> bool"
  mg_webhook :: bool
  mg_cfg :: config
  mg_started :: bool
  mg_queue :: "string list"
  mg_recovered :: "string list"
  mg_cancels :: "string list"
  mg_canceled :: "string list"
  mg_idemKeys :: "(string, idem_ref) gomap"
  mg_hooks :: "(string \<times> view) list"

definition New :: "'s \<Rightarrow> (string \<Rightarrow> bool) \<Rightarrow> config \<Rightarrow> bool \<Rightarrow> 's manager" where
  "New s valid cfg webhook = \<lparr>mg_store = s, mg_validOp = valid, mg_webhook = webhook,
     mg_cfg = withDefaults cfg, mg_started = False, mg_queue = [], mg_recovered = [],
     mg_cancels = [], mg_canceled = [], mg_idemKeys = [], mg_hooks = []\<rparr>"

datatype manager_error =
  ErrStore store_error | ErrBusy | ErrTooLarge | ErrInvalidOp | ErrJobNotReady

section \<open>Starting and recovery\<close>

definition Start :: "'s store_ops \<Rightarrow> 's manager \<Rightarrow> store_error option \<times> 's manager" where
  "Start S m =
     (if mg_started m then (None, m)
      else case st_Recover S (mg_store m) of
             Inl e \<Rightarrow> (Some e, m\<lparr>mg_started := True\<rparr>)
           | Inr (ids, s') \<Rightarrow> (None, m\<lparr>mg_started := True, mg_store := s', mg_recovered := ids\<rparr>))"

definition has_room :: "'s manager \<Rightarrow> bool" where
  "has_room m \<longleftrightarrow> int (length (mg_queue m)) < cf_QueueSize (mg_cfg m)"

text \<open>One iteration of the requeue loop: the send blocks until the queue has room.\<close>

definition requeue_one :: "'s manager \<Rightarrow> 's manager option" where
  "requeue_one m =
     (case mg_recovered m of
        [] \<Rightarrow> None
      | i # rest \<Rightarrow> if has_room m
                    then Some (m\<lparr>mg_queue := mg_queue m @ [i], mg_recovered := rest\<rparr>) else None)"

section \<open>Submission\<close>

definition new_job :: "string \<Rightarrow> string \<Rightarrow> bytes \<Rightarrow> string \<Rightarrow> time \<Rightarrow> job" where
  "new_job i opn request callbackURL now =
     \<lparr>job_ID = i, job_Op = opn, job_Status = StatusQueued, job_SubmittedAt = now,
      job_StartedAt = None, job_FinishedAt = None, job_ExpiresAt = None, job_Error = None,
      job_Request = request, job_Result = [], job_CallbackURL = callbackURL\<rparr>"

definition submit :: "'s store_ops \<Rightarrow> 's manager \<Rightarrow> string \<Rightarrow> bytes \<Rightarrow> string \<Rightarrow> string \<Rightarrow> time \<Rightarrow>
    (manager_error + view) \<times> 's manager" where
  "submit S m opn request callbackURL i now =
     (if \<not> mg_validOp m opn then (Inl ErrInvalidOp, m)
      else if cf_MaxInputBytes (mg_cfg m) > 0 \<and> int (length request) > cf_MaxInputBytes (mg_cfg m)
        then (Inl ErrTooLarge, m)
      else (let j = new_job i opn request callbackURL now
            in case st_Create S (mg_store m) j of
                 Inl e \<Rightarrow> (Inl (ErrStore e), m)
               | Inr s' \<Rightarrow>
                   (if has_room m
                    then (Inr (View j), m\<lparr>mg_store := s', mg_queue := mg_queue m @ [i]\<rparr>)
                    else (Inl ErrBusy,
                          m\<lparr>mg_store := (case st_Delete S s' i of Inl _ \<Rightarrow> s' | Inr s'' \<Rightarrow> s'')\<rparr>))))"

text \<open>The scan for the oldest mapping: the accumulator starts with an empty key.\<close>

definition oldest_key :: "(string, idem_ref) gomap \<Rightarrow> string" where
  "oldest_key ks = oldest_scan ref_at ks [] zero_time"

definition rememberKeyLocked :: "'s manager \<Rightarrow> string \<Rightarrow> string \<Rightarrow> time \<Rightarrow> 's manager" where
  "rememberKeyLocked m key i now =
     (let ks = (if length (mg_idemKeys m) \<ge> idemMax
                then kv_del (oldest_key (mg_idemKeys m)) (mg_idemKeys m)
                else mg_idemKeys m)
      in m\<lparr>mg_idemKeys := kv_put key \<lparr>ref_id = i, ref_at = now\<rparr> ks\<rparr>)"

definition submit_and_remember :: "'s store_ops \<Rightarrow> 's manager \<Rightarrow> string \<Rightarrow> bytes \<Rightarrow> string \<Rightarrow>
    string \<Rightarrow> string \<Rightarrow> time \<Rightarrow> time \<Rightarrow> (manager_error + view) \<times> 's manager" where
  "submit_and_remember S m opn request callbackURL key i now nowKey =
     (case submit S m opn request callbackURL i now of
        (Inl e, m') \<Rightarrow> (Inl e, m')
      | (Inr v, m') \<Rightarrow> (Inr v, rememberKeyLocked m' key (vw_ID v) nowKey))"

definition SubmitIdempotent :: "'s store_ops \<Rightarrow> 's manager \<Rightarrow> string \<Rightarrow> bytes \<Rightarrow> string \<Rightarrow>
    string \<Rightarrow> string \<Rightarrow> time \<Rightarrow> time \<Rightarrow> (manager_error + view) \<times> 's manager" where
  "SubmitIdempotent S m opn request callbackURL key i now nowKey =
     (if key = [] then submit S m opn request callbackURL i now
      else case map_of (mg_idemKeys m) key of
             Some r \<Rightarrow>
               (case st_Get S (mg_store m) (ref_id r) of
                  Inr j \<Rightarrow> (Inr (View j), m)
                | Inl _ \<Rightarrow> submit_and_remember S (m\<lparr>mg_idemKeys := kv_del key (mg_idemKeys m)\<rparr>)
                            opn request callbackURL key i now nowKey)
           | None \<Rightarrow> submit_and_remember S m opn request callbackURL key i now nowKey)"

section \<open>Reading\<close>

definition GetView :: "'s store_ops \<Rightarrow> 's manager \<Rightarrow> string \<Rightarrow> store_error + view" where
  "GetView S m i = (case st_Get S (mg_store m) i of Inl e \<Rightarrow> Inl e | Inr j \<Rightarrow> Inr (View j))"

definition Result :: "'s store_ops \<Rightarrow> 's manager \<Rightarrow> string \<Rightarrow>
    (manager_error \<times> status option) + (bytes \<times> status)" where
  "Result S m i =
     (case st_Get S (mg_store m) i of
        Inl e \<Rightarrow> Inl (ErrStore e, None)
      | Inr j \<Rightarrow> if \<not> Terminal (job_Status j) then Inl (ErrJobNotReady, Some (job_Status j))
                else Inr (job_Result j, job_Status j))"

section \<open>Cancellation and execution\<close>

definition setExpiry :: "config \<Rightarrow> job \<Rightarrow> time \<Rightarrow> job" where
  "setExpiry cfg j from = (if cf_TTL cfg > 0 then j\<lparr>job_ExpiresAt := Some (from + cf_TTL cfg)\<rparr> else j)"

definition fireWebhook :: "'s manager \<Rightarrow> job \<Rightarrow> 's manager" where
  "fireWebhook m j =
     (if \<not> mg_webhook m \<or> job_CallbackURL j = [] then m
      else m\<lparr>mg_hooks := mg_hooks m @ [(job_CallbackURL j, View j)]\<rparr>)"

definition canceled_job :: "config \<Rightarrow> job \<Rightarrow> time \<Rightarrow> job" where
  "canceled_job cfg j now =
     setExpiry cfg (j\<lparr>job_Status := StatusCanceled, job_FinishedAt := Some now, job_Request := []\<rparr>) now"

text \<open>The part of \<open>Cancel\<close> after the job has been read and found not terminal.\<close>

definition cancel_commit :: "'s store_ops \<Rightarrow> 's manager \<Rightarrow> string \<Rightarrow> job \<Rightarrow> time \<Rightarrow>
    store_error option \<times> 's manager" where
  "cancel_commit S m i j now =
     (let m1 = (if i \<in> set (mg_cancels m) then m\<lparr>mg_canceled := i # mg_canceled m\<rparr> else m);
          j' = canceled_job (mg_cfg m) j now
      in case st_Save S (mg_store m1) j' of
           Inl e \<Rightarrow> (Some e, m1)
         | Inr s' \<Rightarrow> (None, fireWebhook (m1\<lparr>mg_store := s'\<rparr>) j'))"

definition Cancel :: "'s store_ops \<Rightarrow> 's manager \<Rightarrow> string \<Rightarrow> time \<Rightarrow>
    store_error option \<times> 's manager" where
  "Cancel S m i now =
     (case st_Get S (mg_store m) i of
        Inl e \<Rightarrow> (Some e, m)
      | Inr j \<Rightarrow> if Terminal (job_Status j) then (None, m) else cancel_commit S m i j now)"

text \<open>
  What the executor returns: an error, or a value together with its JSON encoding (\<open>None\<close>
  when it cannot be encoded).
\<close>

datatype outcome = ExecOK "bytes option" | ExecErr goerr

definition run_pick :: "'s store_ops \<Rightarrow> 's manager \<Rightarrow> string \<Rightarrow> job option" where
  "run_pick S m i =
     (case st_Get S (mg_store m) i of
        Inl _ \<Rightarrow> None
      | Inr j \<Rightarrow> if job_Status j \<noteq> StatusQueued then None else Some j)"

definition save_or_keep :: "'s store_ops \<Rightarrow> 's manager \<Rightarrow> job \<Rightarrow> 's manager" where
  "save_or_keep S m j =
     (case st_Save S (mg_store m) j of Inl _ \<Rightarrow> m | Inr s' \<Rightarrow> m\<lparr>mg_store := s'\<rparr>)"

definition running_job :: "job \<Rightarrow> time \<Rightarrow> job" where
  "running_job j start = j\<lparr>job_Status := StatusRunning, job_StartedAt := Some start\<rparr>"

definition run_begin :: "'s store_ops \<Rightarrow> 's manager \<Rightarrow> string \<Rightarrow> job \<Rightarrow> time \<Rightarrow> 's manager" where
  "run_begin S m i j start =
     (let m' = save_or_keep S m (running_job j start)
      in m'\<lparr>mg_cancels := i # mg_cancels m', mg_canceled := removeAll i (mg_canceled m')\<rparr>)"

definition finished_job :: "config \<Rightarrow> job \<Rightarrow> outcome \<Rightarrow> time \<Rightarrow> job" where
  "finished_job cfg j res fin =
     (let j1 = setExpiry cfg (j\<lparr>job_FinishedAt := Some fin, job_Request := []\<rparr>) fin
      in case res of
           ExecErr e \<Rightarrow> j1\<lparr>job_Status := StatusFailed, job_Error := Some (itemErrorFrom e)\<rparr>
         | ExecOK (Some raw) \<Rightarrow> j1\<lparr>job_Status := StatusSucceeded, job_Result := raw\<rparr>
         | ExecOK None \<Rightarrow>
             j1\<lparr>job_Status := StatusFailed,
                job_Error := Some \<lparr>be_Kind = KindName KindInternal, be_Code = [],
                  be_Message = ''encode result'', be_Action = []\<rparr>\<rparr>)"

definition interrupted :: "outcome \<Rightarrow> bool" where
  "interrupted res \<longleftrightarrow> (case res of ExecErr e \<Rightarrow> errors_is e ContextCanceled | ExecOK _ \<Rightarrow> False)"

definition run_end :: "'s store_ops \<Rightarrow> 's manager \<Rightarrow> string \<Rightarrow> job \<Rightarrow> outcome \<Rightarrow> time \<Rightarrow> 's manager" where
  "run_end S m i j res fin =
     (let m1 = m\<lparr>mg_cancels := removeAll i (mg_cancels m)\<rparr>
      in if interrupted res then m1
         else (let j' = finished_job (mg_cfg m) j res fin
               in fireWebhook (save_or_keep S m1 j') j'))"

definition run :: "'s store_ops \<Rightarrow> 's manager \<Rightarrow> string \<Rightarrow> (string \<Rightarrow> bytes \<Rightarrow> outcome) \<Rightarrow>
    time \<Rightarrow> time \<Rightarrow> 's manager" where
  "run S m i exec start fin =
     (case run_pick S m i of
        None \<Rightarrow> m
      | Some j \<Rightarrow>
          (let j' = running_job j start
           in run_end S (run_begin S m i j start) i j' (exec (job_Op j') (job_Request j')) fin))"

text \<open>One receive of the worker loop: the id leaves the queue and is run.\<close>

definition worker_once :: "'s store_ops \<Rightarrow> 's manager \<Rightarrow> (string \<Rightarrow> bytes \<Rightarrow> outcome) \<Rightarrow>
    time \<Rightarrow> time \<Rightarrow> 's manager option" where
  "worker_once S m exec start fin =
     (case mg_queue m of
        [] \<Rightarrow> None
      | i # rest \<Rightarrow> Some (run S (m\<lparr>mg_queue := rest\<rparr>) i exec start fin))"

definition reap_once :: "'s store_ops \<Rightarrow> 's manager \<Rightarrow> time \<Rightarrow> 's manager" where
  "reap_once S m now =
     (case st_Reap S (mg_store m) now of Inl _ \<Rightarrow> m | Inr (n, s') \<Rightarrow> m\<lparr>mg_store := s'\<rparr>)"

section \<open>Interleaved execution\<close>

text \<open>
  Workers and cancel requests run concurrently; a store call is atomic, the code between two
  store calls is not. \<open>sy_picked\<close> are workers that have read a queued job, \<open>sy_running\<close> those
  whose executor is running, with the private copy each holds, and \<open>sy_cancel\<close> cancel requests
  that have read a job and not yet written it.
\<close>

record 's sys =
  sy_m :: "'s manager"
  sy_picked :: "(string \<times> job) list"
  sy_running :: "(string \<times> job) list"
  sy_cancel :: "(string \<times> job) list"

definition init_sys :: "'s manager \<Rightarrow> 's sys" where
  "init_sys m = \<lparr>sy_m = m, sy_picked = [], sy_running = [], sy_cancel = []\<rparr>"

inductive job_step :: "'s store_ops \<Rightarrow> 's sys \<Rightarrow> 's sys \<Rightarrow> bool" for S :: "'s store_ops" where
  step_submit: "SubmitIdempotent S (sy_m y) opn req cb key i now nowKey = (r, m') \<Longrightarrow>
     job_step S y (y\<lparr>sy_m := m'\<rparr>)"
| step_start: "Start S (sy_m y) = (r, m') \<Longrightarrow> job_step S y (y\<lparr>sy_m := m'\<rparr>)"
| step_requeue: "requeue_one (sy_m y) = Some m' \<Longrightarrow> job_step S y (y\<lparr>sy_m := m'\<rparr>)"
| step_skip: "mg_queue (sy_m y) = i # q \<Longrightarrow> run_pick S (sy_m y) i = None \<Longrightarrow>
     job_step S y (y\<lparr>sy_m := (sy_m y)\<lparr>mg_queue := q\<rparr>\<rparr>)"
| step_pick: "mg_queue (sy_m y) = i # q \<Longrightarrow> run_pick S (sy_m y) i = Some j \<Longrightarrow>
     job_step S y (y\<lparr>sy_m := (sy_m y)\<lparr>mg_queue := q\<rparr>, sy_picked := (i, j) # sy_picked y\<rparr>)"
| step_begin: "(i, j) \<in> set (sy_picked y) \<Longrightarrow>
     job_step S y (y\<lparr>sy_m := run_begin S (sy_m y) i j start,
       sy_picked := remove1 (i, j) (sy_picked y),
       sy_running := (i, running_job j start) # sy_running y\<rparr>)"
| step_end: "(i, j) \<in> set (sy_running y) \<Longrightarrow>
     job_step S y (y\<lparr>sy_m := run_end S (sy_m y) i j res fin,
       sy_running := remove1 (i, j) (sy_running y)\<rparr>)"
| step_cancel_read: "st_Get S (mg_store (sy_m y)) i = Inr j \<Longrightarrow> \<not> Terminal (job_Status j) \<Longrightarrow>
     job_step S y (y\<lparr>sy_cancel := (i, j) # sy_cancel y\<rparr>)"
| step_cancel_write: "(i, j) \<in> set (sy_cancel y) \<Longrightarrow>
     cancel_commit S (sy_m y) i j now = (r, m') \<Longrightarrow>
     job_step S y (y\<lparr>sy_m := m', sy_cancel := remove1 (i, j) (sy_cancel y)\<rparr>)"
| step_reap: "job_step S y (y\<lparr>sy_m := reap_once S (sy_m y) now\<rparr>)"

inductive job_reachable :: "'s store_ops \<Rightarrow> 's sys \<Rightarrow> 's sys \<Rightarrow> bool"
  for S :: "'s store_ops" and y0 :: "'s sys" where
  reach_refl: "job_reachable S y0 y0"
| reach_step: "job_reachable S y0 y \<Longrightarrow> job_step S y z \<Longrightarrow> job_reachable S y0 z"

section \<open>Invariants\<close>

definition job_wf :: "dur \<Rightarrow> job \<Rightarrow> bool" where
  "job_wf ttl j \<longleftrightarrow>
     (Terminal (job_Status j) \<longleftrightarrow> job_FinishedAt j \<noteq> None) \<and>
     (Terminal (job_Status j) \<longrightarrow> job_Request j = []) \<and>
     (job_Status j = StatusFailed \<longleftrightarrow> job_Error j \<noteq> None) \<and>
     (job_Result j \<noteq> [] \<longrightarrow> job_Status j = StatusSucceeded) \<and>
     (job_Status j = StatusRunning \<longrightarrow> job_StartedAt j \<noteq> None) \<and>
     job_ExpiresAt j = map_option (\<lambda>t. t + ttl) (job_FinishedAt j)"

definition idem_ok :: "(string, idem_ref) gomap \<Rightarrow> bool" where
  "idem_ok ks \<longleftrightarrow> kv_ok ks \<and> length ks \<le> idemMax \<and> (\<forall>(k, r) \<in> set ks. k \<noteq> [])"

lemmas job_defs = new_job_def canceled_job_def running_job_def finished_job_def setExpiry_def
  requeued_def

lemma job_wf_new: "job_wf ttl (new_job i opn request cb now)"
  by (simp add: job_wf_def new_job_def)

lemma job_wf_requeued: "job_wf ttl j \<Longrightarrow> job_wf ttl (requeued j)"
  by (auto simp: job_wf_def requeued_def)

lemma job_wf_canceled:
  "job_wf (cf_TTL cfg) j \<Longrightarrow> 0 < cf_TTL cfg \<Longrightarrow> \<not> Terminal (job_Status j) \<Longrightarrow>
   job_wf (cf_TTL cfg) (canceled_job cfg j now)"
  by (cases "job_Status j") (auto simp: job_wf_def job_defs)

lemma job_wf_running:
  "job_wf ttl j \<Longrightarrow> job_Status j = StatusQueued \<Longrightarrow> job_wf ttl (running_job j start)"
  by (auto simp: job_wf_def job_defs)

lemma job_wf_finished:
  "job_wf (cf_TTL cfg) j \<Longrightarrow> 0 < cf_TTL cfg \<Longrightarrow> job_Status j = StatusRunning \<Longrightarrow>
   job_wf (cf_TTL cfg) (finished_job cfg j res fin)"
  by (cases res) (auto simp: job_wf_def job_defs Let_def split: option.splits)

lemma job_IDs [simp]:
  "job_ID (new_job i opn request cb now) = i"
  "job_ID (canceled_job cfg j now) = job_ID j"
  "job_ID (running_job j start) = job_ID j"
  "job_ID (finished_job cfg j res fin) = job_ID j"
  by (auto simp: job_defs Let_def split: outcome.splits option.splits)

lemma job_Statuses [simp]:
  "job_Status (new_job i opn request cb now) = StatusQueued"
  "job_Status (canceled_job cfg j now) = StatusCanceled"
  "job_Status (running_job j start) = StatusRunning"
  by (auto simp: job_defs)

text \<open>
  The invariant of the manager over a store with content \<open>J\<close>, and of a system with workers and
  cancel requests in flight.
\<close>

definition mgr_inv :: "('s \<Rightarrow> string \<rightharpoonup> job) \<Rightarrow> ('s \<Rightarrow> bool) \<Rightarrow> 's manager \<Rightarrow> bool" where
  "mgr_inv J ok m \<longleftrightarrow> ok (mg_store m) \<and> 0 < cf_TTL (mg_cfg m) \<and>
     (\<forall>i j. J (mg_store m) i = Some j \<longrightarrow> job_wf (cf_TTL (mg_cfg m)) j) \<and>
     int (length (mg_queue m)) \<le> cf_QueueSize (mg_cfg m) \<and> idem_ok (mg_idemKeys m)"

definition frames_ok :: "dur \<Rightarrow> (job \<Rightarrow> bool) \<Rightarrow> (string \<times> job) list \<Rightarrow> bool" where
  "frames_ok ttl P fs \<longleftrightarrow> (\<forall>(i, j) \<in> set fs. job_ID j = i \<and> job_wf ttl j \<and> P j)"

definition sys_inv :: "('s \<Rightarrow> string \<rightharpoonup> job) \<Rightarrow> ('s \<Rightarrow> bool) \<Rightarrow> 's sys \<Rightarrow> bool" where
  "sys_inv J ok y \<longleftrightarrow> mgr_inv J ok (sy_m y) \<and>
     (let ttl = cf_TTL (mg_cfg (sy_m y))
      in frames_ok ttl (\<lambda>j. job_Status j = StatusQueued) (sy_picked y) \<and>
         frames_ok ttl (\<lambda>j. job_Status j = StatusRunning) (sy_running y) \<and>
         frames_ok ttl (\<lambda>j. \<not> Terminal (job_Status j)) (sy_cancel y))"

lemma frames_ok_Nil [simp]: "frames_ok ttl P []"
  by (simp add: frames_ok_def)

lemma frames_ok_Cons [simp]:
  "frames_ok ttl P ((i, j) # fs) \<longleftrightarrow> job_ID j = i \<and> job_wf ttl j \<and> P j \<and> frames_ok ttl P fs"
  by (auto simp: frames_ok_def)

lemma frames_ok_remove1 [intro]: "frames_ok ttl P fs \<Longrightarrow> frames_ok ttl P (remove1 x fs)"
  using set_remove1_subset [of x fs] by (force simp: frames_ok_def)

lemma frames_okD: "frames_ok ttl P fs \<Longrightarrow> (i, j) \<in> set fs \<Longrightarrow> job_ID j = i \<and> job_wf ttl j \<and> P j"
  by (auto simp: frames_ok_def)

subsection \<open>The idempotency keys\<close>

lemma idem_ok_remember:
  assumes "idem_ok (mg_idemKeys m)" and "key \<noteq> []"
  shows "idem_ok (mg_idemKeys (rememberKeyLocked m key i now))"
proof -
  let ?ks = "mg_idemKeys m"
  let ?old = "oldest_key ?ks"
  define ks where "ks = (if length ?ks \<ge> idemMax then kv_del ?old ?ks else ?ks)"
  have len: "length ks < idemMax"
  proof (cases "length ?ks \<ge> idemMax")
    case True
    then have "?ks \<noteq> []" by (auto simp: idemMax_def)
    then have "?old \<in> fst ` set ?ks" by (simp add: oldest_key_def oldest_scan_in)
    then have "map_of ?ks ?old \<noteq> None" by (simp add: map_of_eq_None_iff)
    then have "length (kv_del ?old ?ks) = length ?ks - 1"
      using assms(1) by (intro kv_length_del) (auto simp: idem_ok_def)
    with True assms(1) show ?thesis by (auto simp: ks_def idem_ok_def idemMax_def)
  qed (simp add: ks_def)
  have ok: "kv_ok ks" and ne: "\<forall>(k, r) \<in> set ks. k \<noteq> []"
    using assms(1) by (auto simp: ks_def idem_ok_def wf_intros set_kv_del)
  have "length (kv_put key r ks) \<le> idemMax" for r
    using kv_length_put [OF ok, of key r] len by auto
  then have "idem_ok (kv_put key r ks)" for r
    using ok ne assms(2) by (auto simp: idem_ok_def wf_intros set_kv_put)
  then show ?thesis by (simp add: rememberKeyLocked_def ks_def)
qed

lemma rememberKeyLocked_frame [simp]:
  "mg_store (rememberKeyLocked m key i now) = mg_store m"
  "mg_cfg (rememberKeyLocked m key i now) = mg_cfg m"
  "mg_queue (rememberKeyLocked m key i now) = mg_queue m"
  by (simp_all add: rememberKeyLocked_def Let_def)

lemma idem_ok_del: "idem_ok ks \<Longrightarrow> idem_ok (kv_del k ks)"
  using kv_length_del_le [of k ks] by (auto simp: idem_ok_def wf_intros set_kv_del)

subsection \<open>Every operation keeps the invariant, over any store\<close>

lemma mg_cfg_unchanged [simp]:
  "mg_cfg (save_or_keep S m j) = mg_cfg m"
  "mg_cfg (fireWebhook m j) = mg_cfg m"
  "mg_cfg (run_begin S m i j t) = mg_cfg m"
  "mg_cfg (run_end S m i j res t) = mg_cfg m"
  "mg_cfg (snd (cancel_commit S m i j t)) = mg_cfg m"
  "mg_cfg (snd (submit S m opn req cb i t)) = mg_cfg m"
  "mg_cfg (snd (SubmitIdempotent S m opn req cb key i t t')) = mg_cfg m"
  "mg_cfg (snd (Start S m)) = mg_cfg m"
  "mg_cfg (reap_once S m t) = mg_cfg m"
  by (auto simp: save_or_keep_def fireWebhook_def run_begin_def run_end_def cancel_commit_def
      submit_def SubmitIdempotent_def submit_and_remember_def rememberKeyLocked_def Start_def
      reap_once_def Let_def split: sum.splits prod.splits option.splits)

context job_store
begin

lemma inv_store_update:
  assumes "mgr_inv jobs_of ok m" and "ok s'"
    and "\<And>i j. jobs_of s' i = Some j \<Longrightarrow> job_wf (cf_TTL (mg_cfg m)) j"
  shows "mgr_inv jobs_of ok (m\<lparr>mg_store := s'\<rparr>)"
  using assms by (auto simp: mgr_inv_def)

lemma inv_save:
  assumes "mgr_inv jobs_of ok m" and "job_wf (cf_TTL (mg_cfg m)) j"
  shows "mgr_inv jobs_of ok (save_or_keep S m j)"
proof -
  from assms(1) have "ok (mg_store m)" by (simp add: mgr_inv_def)
  from save [OF this, of j] obtain s' where
    s': "st_Save S (mg_store m) j = Inr s'" "ok s'" "jobs_of s' = (jobs_of (mg_store m))(job_ID j \<mapsto> j)"
    by blast
  have "job_wf (cf_TTL (mg_cfg m)) j'" if "jobs_of s' i = Some j'" for i j'
    using that assms s'(3) by (auto simp: mgr_inv_def split: if_splits)
  from inv_store_update [OF assms(1) s'(2) this] s'(1) show ?thesis by (simp add: save_or_keep_def)
qed

lemma inv_hooks: "mgr_inv jobs_of ok m \<Longrightarrow> mgr_inv jobs_of ok (fireWebhook m j)"
  by (simp add: fireWebhook_def mgr_inv_def)

lemma inv_remember:
  "mgr_inv jobs_of ok m \<Longrightarrow> key \<noteq> [] \<Longrightarrow> mgr_inv jobs_of ok (rememberKeyLocked m key i now)"
  by (simp add: mgr_inv_def idem_ok_remember)

lemma inv_submit:
  assumes inv: "mgr_inv jobs_of ok m"
  shows "mgr_inv jobs_of ok (snd (submit S m opn req cb i now))"
proof -
  let ?j = "new_job i opn req cb now"
  from inv have o: "ok (mg_store m)" by (simp add: mgr_inv_def)
  show ?thesis
  proof (cases "jobs_of (mg_store m) i")
    case (Some j)
    with create_taken [OF o, of ?j] inv show ?thesis by (simp add: submit_def)
  next
    case None
    with create_fresh [OF o, of ?j] obtain s' where
      s': "st_Create S (mg_store m) ?j = Inr s'" "ok s'"
        "jobs_of s' = (jobs_of (mg_store m))(i \<mapsto> ?j)" by auto
    from delete [OF s'(2), of i] obtain s'' where
      s'': "st_Delete S s' i = Inr s''" "ok s''" "jobs_of s'' = (jobs_of s')(i := None)" by auto
    have "job_wf (cf_TTL (mg_cfg m)) j" if "jobs_of s' k = Some j" for k j
      using that inv s'(3) by (auto simp: mgr_inv_def job_wf_new split: if_splits)
    moreover have "job_wf (cf_TTL (mg_cfg m)) j" if "jobs_of s'' k = Some j" for k j
      using that inv s'(3) s''(3) by (auto simp: mgr_inv_def split: if_splits)
    ultimately show ?thesis
      using inv s' s'' by (auto simp: submit_def Let_def mgr_inv_def has_room_def)
  qed
qed

lemma inv_submit_idempotent:
  assumes inv: "mgr_inv jobs_of ok m"
  shows "mgr_inv jobs_of ok (snd (SubmitIdempotent S m opn req cb key i now nowKey))"
proof -
  have remember: "mgr_inv jobs_of ok (snd (submit_and_remember S m' opn req cb key i now nowKey))"
    if "mgr_inv jobs_of ok m'" "key \<noteq> []" for m'
    using inv_submit [OF that(1), of opn req cb i now] that(2)
    by (cases "submit S m' opn req cb i now") (auto simp: submit_and_remember_def inv_remember split: sum.splits)
  have "mgr_inv jobs_of ok (m\<lparr>mg_idemKeys := kv_del key (mg_idemKeys m)\<rparr>)"
    using inv by (simp add: mgr_inv_def idem_ok_del)
  then show ?thesis
    using inv remember inv_submit [OF inv, of opn req cb i now]
    by (auto simp: SubmitIdempotent_def split: option.splits sum.splits)
qed

lemma inv_start:
  assumes inv: "mgr_inv jobs_of ok m"
  shows "mgr_inv jobs_of ok (snd (Start S m))"
proof -
  from inv have "ok (mg_store m)" by (simp add: mgr_inv_def)
  from recover [OF this] obtain ids s' where
    s': "st_Recover S (mg_store m) = Inr (ids, s')" "ok s'"
      "jobs_of s' = (\<lambda>i. map_option requeued (jobs_of (mg_store m) i))" by blast
  with inv show ?thesis
    by (auto simp: Start_def mgr_inv_def job_wf_requeued)
qed

lemma inv_reap:
  assumes inv: "mgr_inv jobs_of ok m"
  shows "mgr_inv jobs_of ok (reap_once S m now)"
proof -
  from inv have "ok (mg_store m)" by (simp add: mgr_inv_def)
  from reap [OF this, of now] obtain n s' where
    s': "st_Reap S (mg_store m) now = Inr (n, s')" "ok s'"
      "jobs_of s' = (\<lambda>i. case jobs_of (mg_store m) i of None \<Rightarrow> None
                     | Some j \<Rightarrow> if reapable now j then None else Some j)" by blast
  with inv show ?thesis
    by (auto simp: reap_once_def mgr_inv_def split: option.splits if_splits)
qed

lemma inv_begin:
  assumes "mgr_inv jobs_of ok m" and "job_wf (cf_TTL (mg_cfg m)) j" and "job_Status j = StatusQueued"
  shows "mgr_inv jobs_of ok (run_begin S m i j start)"
  using inv_save [OF assms(1) job_wf_running [OF assms(2,3)]]
  by (simp add: run_begin_def Let_def mgr_inv_def)

lemma inv_end:
  assumes "mgr_inv jobs_of ok m" and "job_wf (cf_TTL (mg_cfg m)) j" and "job_Status j = StatusRunning"
  shows "mgr_inv jobs_of ok (run_end S m i j res fin)"
proof -
  let ?m1 = "m\<lparr>mg_cancels := removeAll i (mg_cancels m)\<rparr>"
  have m1: "mgr_inv jobs_of ok ?m1" using assms(1) by (simp add: mgr_inv_def)
  have "0 < cf_TTL (mg_cfg m)" using assms(1) by (simp add: mgr_inv_def)
  with assms(2,3) have "job_wf (cf_TTL (mg_cfg ?m1)) (finished_job (mg_cfg m) j res fin)"
    by (simp add: job_wf_finished)
  from inv_hooks [OF inv_save [OF m1 this]] m1 show ?thesis
    by (simp add: run_end_def Let_def)
qed

lemma inv_cancel_commit:
  assumes "mgr_inv jobs_of ok m" and "job_wf (cf_TTL (mg_cfg m)) j" and "\<not> Terminal (job_Status j)"
  shows "mgr_inv jobs_of ok (snd (cancel_commit S m i j now))"
proof -
  define m1 where "m1 = (if i \<in> set (mg_cancels m) then m\<lparr>mg_canceled := i # mg_canceled m\<rparr> else m)"
  have m1: "mgr_inv jobs_of ok m1" "mg_cfg m1 = mg_cfg m"
    using assms(1) by (simp_all add: m1_def mgr_inv_def)
  have "0 < cf_TTL (mg_cfg m)" using assms(1) by (simp add: mgr_inv_def)
  with assms(2,3) have "job_wf (cf_TTL (mg_cfg m1)) (canceled_job (mg_cfg m) j now)"
    by (simp add: m1 job_wf_canceled)
  from inv_hooks [OF inv_save [OF m1(1) this]] m1 show ?thesis
    by (auto simp: cancel_commit_def Let_def m1_def save_or_keep_def split: sum.splits)
qed

lemma inv_step:
  assumes "job_step S y z" and "sys_inv jobs_of ok y"
  shows "sys_inv jobs_of ok z \<and> mg_cfg (sy_m z) = mg_cfg (sy_m y)"
  using assms
proof (induction rule: job_step.induct)
  case (step_submit y opn req cb key i now nowKey r m')
  then have m': "m' = snd (SubmitIdempotent S (sy_m y) opn req cb key i now nowKey)" by simp
  from step_submit(2) show ?case by (auto simp: sys_inv_def Let_def m' inv_submit_idempotent)
next
  case (step_start y r m')
  then have m': "m' = snd (Start S (sy_m y))" by simp
  from step_start(2) show ?case by (auto simp: sys_inv_def Let_def m' inv_start)
next
  case (step_requeue y m')
  then show ?case
    by (auto simp: requeue_one_def sys_inv_def mgr_inv_def has_room_def Let_def
        split: list.splits if_splits)
next
  case (step_skip y i q)
  then show ?case by (auto simp: sys_inv_def mgr_inv_def Let_def)
next
  case (step_pick y i q j)
  then have "jobs_of (mg_store (sy_m y)) i = Some j" "job_Status j = StatusQueued"
    by (auto simp: run_pick_def sys_inv_def mgr_inv_def get_iff split: sum.splits if_splits)
  with step_pick show ?case by (auto simp: sys_inv_def mgr_inv_def Let_def keyed)
next
  case (step_begin i j y start)
  then show ?case
    by (auto simp: sys_inv_def Let_def job_wf_running intro!: inv_begin dest: frames_okD)
next
  case (step_end i j y res fin)
  then show ?case by (auto simp: sys_inv_def Let_def intro!: inv_end dest: frames_okD)
next
  case (step_cancel_read y i j)
  then have "jobs_of (mg_store (sy_m y)) i = Some j"
    by (auto simp: sys_inv_def mgr_inv_def get_iff)
  with step_cancel_read show ?case by (auto simp: sys_inv_def mgr_inv_def Let_def keyed)
next
  case (step_cancel_write i j y now r m')
  then have m': "m' = snd (cancel_commit S (sy_m y) i j now)" by simp
  from step_cancel_write show ?case
    by (auto simp: sys_inv_def Let_def m' intro!: inv_cancel_commit dest: frames_okD)
next
  case (step_reap y now)
  then show ?case by (auto simp: sys_inv_def Let_def inv_reap)
qed

lemma reachable_inv:
  assumes "job_reachable S y0 y" and "sys_inv jobs_of ok y0"
  shows "sys_inv jobs_of ok y \<and> mg_cfg (sy_m y) = mg_cfg (sy_m y0)"
  using assms by (induction rule: job_reachable.induct) (auto dest: inv_step)

subsection \<open>Functional behaviour\<close>

lemma submit_accepts:
  assumes "ok (mg_store m)" and "mg_validOp m opn" and "has_room m"
    and "cf_MaxInputBytes (mg_cfg m) \<le> 0 \<or> int (length req) \<le> cf_MaxInputBytes (mg_cfg m)"
    and "jobs_of (mg_store m) i = None"
  shows "\<exists>s'. submit S m opn req cb i now =
      (Inr (View (new_job i opn req cb now)), m\<lparr>mg_store := s', mg_queue := mg_queue m @ [i]\<rparr>) \<and>
    ok s' \<and> jobs_of s' = (jobs_of (mg_store m))(i \<mapsto> new_job i opn req cb now)"
  using create_fresh [OF assms(1), of "new_job i opn req cb now"] assms(2-5)
  by (auto simp: submit_def Let_def)

lemma submit_rejects:
  assumes "ok (mg_store m)" and "submit S m opn req cb i now = (Inl e, m')"
  shows "\<exists>s'. m' = m\<lparr>mg_store := s'\<rparr> \<and> ok s' \<and> jobs_of s' = jobs_of (mg_store m)"
proof (cases "jobs_of (mg_store m) i")
  case (Some j)
  with create_taken [OF assms(1), of "new_job i opn req cb now"] assms have "m' = m"
    by (auto simp: submit_def Let_def split: if_splits)
  with assms(1) show ?thesis by (intro exI [of _ "mg_store m"]) simp
next
  case None
  with create_fresh [OF assms(1), of "new_job i opn req cb now"] obtain s' where
    s': "st_Create S (mg_store m) (new_job i opn req cb now) = Inr s'" "ok s'"
      "jobs_of s' = (jobs_of (mg_store m))(i \<mapsto> new_job i opn req cb now)" by auto
  from delete [OF s'(2), of i] obtain s'' where
    s'': "st_Delete S s' i = Inr s''" "ok s''" "jobs_of s'' = (jobs_of s')(i := None)" by auto
  from None have "(jobs_of s')(i := None) = jobs_of (mg_store m)"
    by (simp add: s'(3) fun_upd_idem)
  with s' s'' assms have "m' = m \<or> m' = m\<lparr>mg_store := s''\<rparr>" and "jobs_of s'' = jobs_of (mg_store m)"
    by (auto simp: submit_def Let_def split: if_splits)
  with s''(2) assms(1) show ?thesis by (metis manager.surjective manager.update_convs(1))
qed

lemma submit_idempotent_replays:
  assumes "ok (mg_store m)" and "key \<noteq> []"
    and "SubmitIdempotent S m opn req cb key i now nowKey = (Inr v, m')"
  shows "\<exists>j. jobs_of (mg_store m') (vw_ID v) = Some j \<and> View j = v \<and>
    SubmitIdempotent S m' opn' req' cb' key i' now' nowKey' = (Inr v, m')"
proof -
  have fresh: ?thesis
    if "submit_and_remember S m0 opn req cb key i now nowKey = (Inr v, m')" "ok (mg_store m0)" for m0
  proof -
    from that(1) obtain m1 where m1: "submit S m0 opn req cb i now = (Inr v, m1)"
      "m' = rememberKeyLocked m1 key (vw_ID v) nowKey"
      by (auto simp: submit_and_remember_def split: prod.splits sum.splits)
    from m1(1) obtain s' where s': "st_Create S (mg_store m0) (new_job i opn req cb now) = Inr s'"
      "m1 = m0\<lparr>mg_store := s', mg_queue := mg_queue m0 @ [i]\<rparr>" "v = View (new_job i opn req cb now)"
      by (auto simp: submit_def Let_def split: if_splits sum.splits)
    have "jobs_of (mg_store m0) i = None"
      using create_taken [OF that(2), of "new_job i opn req cb now"] s'(1)
      by (cases "jobs_of (mg_store m0) i") auto
    with create_fresh [OF that(2), of "new_job i opn req cb now"] s'(1)
    have "ok s'" "jobs_of s' i = Some (new_job i opn req cb now)" by auto
    then have "st_Get S s' i = Inr (new_job i opn req cb now)" by (rule get_present)
    moreover have "vw_ID v = i" by (simp add: s'(3) View_def)
    moreover have "map_of (mg_idemKeys m') key = Some \<lparr>ref_id = vw_ID v, ref_at = nowKey\<rparr>"
      by (simp add: m1(2) rememberKeyLocked_def Let_def kv_simps)
    ultimately show ?thesis
      using \<open>jobs_of s' i = _\<close> assms(2) s' m1(2) by (auto simp: SubmitIdempotent_def)
  qed
  show ?thesis
  proof (cases "map_of (mg_idemKeys m) key")
    case None
    with assms fresh [of m] show ?thesis by (simp add: SubmitIdempotent_def)
  next
    case (Some r)
    show ?thesis
    proof (cases "st_Get S (mg_store m) (ref_id r)")
      case (Inl e)
      with Some assms fresh [of "m\<lparr>mg_idemKeys := kv_del key (mg_idemKeys m)\<rparr>"] show ?thesis
        by (simp add: SubmitIdempotent_def)
    next
      case (Inr j)
      with Some assms have m': "m' = m" "v = View j" by (auto simp: SubmitIdempotent_def)
      from Inr have "jobs_of (mg_store m) (ref_id r) = Some j" by (simp add: get_iff [OF assms(1)])
      moreover have "vw_ID v = ref_id r" using keyed [OF assms(1) calculation] m' by (simp add: View_def)
      ultimately show ?thesis using Some Inr assms(2) m' by (simp add: SubmitIdempotent_def)
    qed
  qed
qed

lemma run_outcome:
  assumes "ok (mg_store m)" and "jobs_of (mg_store m) i = Some j" and "job_Status j = StatusQueued"
  shows "jobs_of (mg_store (run S m i exec start fin)) =
    (jobs_of (mg_store m))(i \<mapsto>
       (let j' = running_job j start; res = exec (job_Op j) (job_Request j)
        in if interrupted res then j' else finished_job (mg_cfg m) j' res fin))"
proof -
  let ?j' = "running_job j start"
  let ?res = "exec (job_Op j) (job_Request j)"
  from keyed [OF assms(1,2)] have i: "job_ID j = i" .
  have pick: "run_pick S m i = Some j"
    using assms by (simp add: run_pick_def get_present)
  from save [OF assms(1), of ?j'] i obtain s1 where
    s1: "st_Save S (mg_store m) ?j' = Inr s1" "ok s1" "jobs_of s1 = (jobs_of (mg_store m))(i \<mapsto> ?j')"
    by auto
  from save [OF s1(2), of "finished_job (mg_cfg m) ?j' ?res fin"] i obtain s2 where
    s2: "st_Save S s1 (finished_job (mg_cfg m) ?j' ?res fin) = Inr s2"
      "jobs_of s2 = (jobs_of s1)(i \<mapsto> finished_job (mg_cfg m) ?j' ?res fin)"
    by auto
  have args: "job_Op ?j' = job_Op j" "job_Request ?j' = job_Request j"
    by (simp_all add: running_job_def)
  have store: "mg_store (fireWebhook m' j'') = mg_store m'" for m' :: "'a manager" and j''
    by (simp add: fireWebhook_def)
  show ?thesis
    using s1 s2 by (simp add: run_def pick run_end_def run_begin_def save_or_keep_def store args Let_def)
qed

lemma run_skips:
  assumes "ok (mg_store m)" and "jobs_of (mg_store m) i = Some j" and "job_Status j \<noteq> StatusQueued"
  shows "run S m i exec start fin = m"
  using assms by (simp add: run_def run_pick_def get_present)

lemma cancel_terminal:
  assumes "ok (mg_store m)" and "jobs_of (mg_store m) i = Some j" and "Terminal (job_Status j)"
  shows "Cancel S m i now = (None, m)"
  using assms by (simp add: Cancel_def get_present)

lemma cancel_live:
  assumes "ok (mg_store m)" and "jobs_of (mg_store m) i = Some j" and "\<not> Terminal (job_Status j)"
  shows "fst (Cancel S m i now) = None \<and> ok (mg_store (snd (Cancel S m i now))) \<and>
    jobs_of (mg_store (snd (Cancel S m i now))) =
      (jobs_of (mg_store m))(i \<mapsto> canceled_job (mg_cfg m) j now)"
proof -
  from keyed [OF assms(1,2)] save [OF assms(1), of "canceled_job (mg_cfg m) j now"] obtain s1 where
    "st_Save S (mg_store m) (canceled_job (mg_cfg m) j now) = Inr s1" "ok s1"
      "jobs_of s1 = (jobs_of (mg_store m))(i \<mapsto> canceled_job (mg_cfg m) j now)"
    by auto
  with assms show ?thesis
    by (simp add: Cancel_def cancel_commit_def get_present Let_def fireWebhook_def)
qed

end

end
