(* ===== verification/Jobs_Properties.thy ===== *)
theory Jobs_Properties
  imports Jobs_Manager
begin

text \<open>
  The properties of the job subsystem, over the in-memory and the bbolt store, obtained from
  the store contract through the two interpretations of \<open>job_store\<close>.
\<close>

section \<open>The worker loop\<close>

text \<open>The receive loop of one worker, for at most \<open>n\<close> receives.\<close>

fun worker_loop :: "nat \<Rightarrow> 's store_ops \<Rightarrow> 's manager \<Rightarrow> (string \<Rightarrow> bytes \<Rightarrow> outcome) \<Rightarrow>
    time \<Rightarrow> time \<Rightarrow> 's manager" where
  "worker_loop 0 S m exec start fin = m"
| "worker_loop (Suc n) S m exec start fin =
     (case worker_once S m exec start fin of
        None \<Rightarrow> m
      | Some m' \<Rightarrow> worker_loop n S m' exec start fin)"

lemma run_queue [simp]: "mg_queue (run S m i exec start fin) = mg_queue m"
  by (simp add: run_def run_end_def run_begin_def save_or_keep_def fireWebhook_def Let_def
      split: option.splits sum.splits)

lemma run_cfg [simp]: "mg_cfg (run S m i exec start fin) = mg_cfg m"
  by (simp add: run_def Let_def split: option.splits)

lemma finished_Terminal: "Terminal (job_Status (finished_job cfg j res fin))"
  by (auto simp: finished_job_def setExpiry_def Let_def split: outcome.splits option.splits)

context job_store
begin

lemma save_or_keep_ok: "ok (mg_store m) \<Longrightarrow> ok (mg_store (save_or_keep S m j))"
  using save [of "mg_store m" j] by (auto simp: save_or_keep_def)

lemma run_ok:
  assumes "ok (mg_store m)" shows "ok (mg_store (run S m i exec start fin))"
proof -
  have hook: "mg_store (fireWebhook m' j) = mg_store m'" for m' :: "'a manager" and j
    by (simp add: fireWebhook_def)
  show ?thesis
    using assms by (auto simp: run_def run_end_def run_begin_def Let_def hook save_or_keep_ok
        split: option.splits)
qed

lemma run_other:
  assumes "ok (mg_store m)" and "k \<noteq> i"
  shows "jobs_of (mg_store (run S m i exec start fin)) k = jobs_of (mg_store m) k"
proof (cases "run_pick S m i")
  case None
  then show ?thesis by (simp add: run_def)
next
  case (Some j)
  then have "jobs_of (mg_store m) i = Some j" "job_Status j = StatusQueued"
    using get_iff [OF assms(1), of i j]
    by (auto simp: run_pick_def split: sum.splits if_splits)
  from run_outcome [OF assms(1) this] assms(2) show ?thesis by simp
qed

lemma run_terminal:
  assumes "ok (mg_store m)" and "jobs_of (mg_store m) i = Some j" and "job_Status j \<noteq> StatusRunning"
    and "\<And>opn req. \<not> interrupted (exec opn req)"
  shows "\<exists>j'. jobs_of (mg_store (run S m i exec start fin)) i = Some j' \<and> Terminal (job_Status j')"
proof (cases "job_Status j = StatusQueued")
  case True
  from run_outcome [OF assms(1,2) True, of exec start fin] assms(4) show ?thesis
    by (simp add: Let_def finished_Terminal)
next
  case False
  with assms(3) have "Terminal (job_Status j)" by (cases "job_Status j") auto
  with False assms(1,2) show ?thesis by (auto simp: run_skips)
qed

lemma run_keeps_terminal:
  assumes "ok (mg_store m)" and "jobs_of (mg_store m) k = Some j" and "Terminal (job_Status j)"
  shows "jobs_of (mg_store (run S m i exec start fin)) k = Some j"
proof (cases "k = i")
  case True
  moreover have "job_Status j \<noteq> StatusQueued" using assms(3) by (cases "job_Status j") auto
  ultimately show ?thesis using assms(1,2) by (simp add: run_skips)
next
  case False
  with assms show ?thesis by (simp add: run_other)
qed

lemma worker_loop_drains:
  assumes "ok (mg_store m)" and "length (mg_queue m) \<le> n"
    and "\<And>i. i \<in> set (mg_queue m) \<Longrightarrow>
       \<exists>j. jobs_of (mg_store m) i = Some j \<and> job_Status j \<noteq> StatusRunning"
    and "\<And>opn req. \<not> interrupted (exec opn req)"
  shows "mg_queue (worker_loop n S m exec start fin) = [] \<and>
    (\<forall>i. i \<in> set (mg_queue m) \<or>
         (\<exists>j. jobs_of (mg_store m) i = Some j \<and> Terminal (job_Status j)) \<longrightarrow>
       (\<exists>j. jobs_of (mg_store (worker_loop n S m exec start fin)) i = Some j \<and> Terminal (job_Status j)))"
  using assms(1-3)
proof (induction n arbitrary: m)
  case 0
  then show ?case by simp
next
  case (Suc n)
  show ?case
  proof (cases "mg_queue m")
    case Nil
    then show ?thesis by (simp add: worker_once_def)
  next
    case (Cons i rest)
    define m1 where "m1 = m\<lparr>mg_queue := rest\<rparr>"
    define m2 where "m2 = run S m1 i exec start fin"
    have m1: "mg_store m1 = mg_store m" "ok (mg_store m1)" using Suc.prems(1) by (simp_all add: m1_def)
    obtain j where j: "jobs_of (mg_store m) i = Some j" "job_Status j \<noteq> StatusRunning"
      using Suc.prems(3) [of i] Cons by auto
    have hit: "\<exists>j'. jobs_of (mg_store m2) i = Some j' \<and> Terminal (job_Status j')"
      unfolding m2_def using run_terminal [OF m1(2) _ j(2) assms(4)] j(1) m1(1) by auto
    have rest: "\<exists>j. jobs_of (mg_store m2) k = Some j \<and> job_Status j \<noteq> StatusRunning"
      if "k \<in> set rest" for k
    proof (cases "k = i")
      case True
      with hit obtain j' where "jobs_of (mg_store m2) k = Some j'" "Terminal (job_Status j')" by blast
      then show ?thesis by (intro exI [of _ j']) auto
    next
      case False
      from run_other [OF m1(2) False] m1(1) Suc.prems(3) [of k] that Cons show ?thesis
        by (simp add: m2_def)
    qed
    have keep: "\<exists>j. jobs_of (mg_store m2) k = Some j \<and> Terminal (job_Status j)"
      if "jobs_of (mg_store m) k = Some j'" "Terminal (job_Status j')" for k j'
      using run_keeps_terminal [OF m1(2)] that m1(1) by (auto simp: m2_def)
    have q2: "mg_queue m2 = rest" "ok (mg_store m2)"
      using run_ok [OF m1(2)] by (simp_all add: m2_def m1_def)
    have "mg_queue (worker_loop n S m2 exec start fin) = [] \<and>
      (\<forall>i. i \<in> set (mg_queue m2) \<or>
         (\<exists>j. jobs_of (mg_store m2) i = Some j \<and> Terminal (job_Status j)) \<longrightarrow>
       (\<exists>j. jobs_of (mg_store (worker_loop n S m2 exec start fin)) i = Some j \<and> Terminal (job_Status j)))"
      using Suc.prems(2) Cons rest q2 by (intro Suc.IH) simp_all
    moreover have "worker_loop (Suc n) S m exec start fin = worker_loop n S m2 exec start fin"
      by (simp add: worker_once_def Cons m2_def m1_def)
    ultimately show ?thesis using Cons hit keep q2(1) by auto
  qed
qed

end

section \<open>Properties\<close>

lemma withDefaults_bounds:
  "1 \<le> cf_Workers (withDefaults c)" "1 \<le> cf_QueueSize (withDefaults c)" "0 < cf_TTL (withDefaults c)"
  "0 < cf_ReapInterval (withDefaults c)"
  by (auto simp: withDefaults_def Let_def)

lemma sys_inv_init:
  "ok s \<Longrightarrow> (\<And>i. J s i = None) \<Longrightarrow> sys_inv J ok (init_sys (New s valid cfg wh))"
  using withDefaults_bounds [of cfg]
  by (simp add: sys_inv_def mgr_inv_def init_sys_def New_def idem_ok_def)

text \<open>
  Claim C31: in every state that submissions, workers, cancel requests, recovery and the reaper
  can reach from an empty in-memory store, in any interleaving of their store calls, every
  stored job is well formed (a terminal job has a finish time, an expiry and no request
  payload, a failed job and only a failed job carries an error, only a succeeded job carries a
  result), the queue never exceeds its configured size and at most 8192 idempotency keys are
  remembered.
\<close>

theorem jobs_reachable_wf:
  assumes "job_reachable MemStore (init_sys (New [] valid cfg wh)) y"
  shows "(\<forall>i j. map_of (mg_store (sy_m y)) i = Some j \<longrightarrow> job_wf (cf_TTL (withDefaults cfg)) j) \<and>
    int (length (mg_queue (sy_m y))) \<le> cf_QueueSize (withDefaults cfg) \<and>
    length (mg_idemKeys (sy_m y)) \<le> 8192"
proof -
  have "sys_inv map_of mem_ok (init_sys (New [] valid cfg wh))"
    by (rule sys_inv_init) (simp_all add: mem_ok_def)
  from mem.reachable_inv [OF assms this]
  have inv: "mgr_inv map_of mem_ok (sy_m y)" and cfg: "mg_cfg (sy_m y) = withDefaults cfg"
    by (simp_all add: sys_inv_def init_sys_def New_def)
  from inv show ?thesis by (simp add: mgr_inv_def idem_ok_def idemMax_def cfg)
qed

theorem jobs_reachable_wf_witness:
  "int (length (mg_queue (snd (SubmitIdempotent MemStore
     (New [] (\<lambda>_. True) \<lparr>cf_Workers = 1, cf_QueueSize = 1, cf_TTL = 1, cf_MaxInputBytes = 0,
        cf_ReapInterval = 1\<rparr> False) ''sign'' ''{}'' [] ''key'' ''j1'' 0 0)))) \<le> 1"
proof -
  let ?cfg = "\<lparr>cf_Workers = 1, cf_QueueSize = 1, cf_TTL = 1, cf_MaxInputBytes = 0, cf_ReapInterval = 1\<rparr>"
  let ?m = "New [] (\<lambda>_. True) ?cfg False"
  have "job_reachable MemStore (init_sys ?m) (init_sys ?m)" by (rule reach_refl)
  moreover have "job_step MemStore (init_sys ?m) ((init_sys ?m)\<lparr>sy_m :=
      snd (SubmitIdempotent MemStore (sy_m (init_sys ?m)) ''sign'' ''{}'' [] ''key'' ''j1'' 0 0)\<rparr>)"
    by (rule step_submit) (rule prod.collapse [symmetric])
  ultimately have "job_reachable MemStore (init_sys ?m) ((init_sys ?m)\<lparr>sy_m :=
      snd (SubmitIdempotent MemStore (sy_m (init_sys ?m)) ''sign'' ''{}'' [] ''key'' ''j1'' 0 0)\<rparr>)"
    by (rule reach_step)
  from jobs_reachable_wf [OF this] show ?thesis
    by (simp add: init_sys_def withDefaults_def)
qed


definition full_manager :: "bolt_store manager" where
  "full_manager = (New [] (\<lambda>_. True) \<lparr>cf_Workers = 1, cf_QueueSize = 1, cf_TTL = 1,
     cf_MaxInputBytes = 0, cf_ReapInterval = 1\<rparr> False)\<lparr>mg_queue := [''j0'']\<rparr>"


text \<open>
  A retry with the same non-empty idempotency key returns the job that the first
  successful submission created, and changes nothing: no second job is created and nothing is
  enqueued, whatever else the retry carries.
\<close>

theorem submit_idempotent_replay:
  assumes "bolt_ok (mg_store m)" and "key \<noteq> []"
    and "SubmitIdempotent BoltStore m opn req cb key i now nowKey = (Inr v, m')"
  shows "SubmitIdempotent BoltStore m' opn' req' cb' key i' now' nowKey' = (Inr v, m') \<and>
    (\<exists>j. bolt_jobs (mg_store m') (vw_ID v) = Some j \<and> View j = v)"
  using bolt.submit_idempotent_replays [OF assms, of opn' req' cb' i' now' nowKey'] by blast

definition empty_manager :: "bolt_store manager" where
  "empty_manager = New [] (\<lambda>_. True) \<lparr>cf_Workers = 1, cf_QueueSize = 1, cf_TTL = 1,
     cf_MaxInputBytes = 0, cf_ReapInterval = 1\<rparr> False"

lemma bolt_ok_Nil: "bolt_ok []"
  by (simp add: bolt_ok_def bolt_repr_def kv_map_def mem_ok_def exI [of _ "[]"])

theorem submit_idempotent_replay_witness:
  "fst (SubmitIdempotent BoltStore
     (snd (SubmitIdempotent BoltStore empty_manager ''sign'' ''{}'' [] ''k'' ''j1'' 5 5))
     ''sign'' ''{}'' [] ''k'' ''j2'' 6 6) =
   Inr (View (new_job ''j1'' ''sign'' ''{}'' [] 5))"
proof -
  let ?r = "SubmitIdempotent BoltStore empty_manager ''sign'' ''{}'' [] ''k'' ''j1'' 5 5"
  have v: "fst ?r = Inr (View (new_job ''j1'' ''sign'' ''{}'' [] 5))"
    by (simp add: SubmitIdempotent_def submit_and_remember_def submit_def empty_manager_def New_def
        withDefaults_def bolt_defs has_room_def Let_def)
  have ok: "bolt_ok (mg_store empty_manager)"
    by (simp add: empty_manager_def New_def bolt_ok_Nil)
  have "?r = (Inr (View (new_job ''j1'' ''sign'' ''{}'' [] 5)), snd ?r)"
    using v by (metis prod.collapse)
  from submit_idempotent_replay [OF ok _ this, of "''sign''" "''{}''" "[]" "''j2''" 6 6]
  show ?thesis by simp
qed

text \<open>
  Running a queued job writes exactly one final record for it and touches no other
  job: after an executor error the job is failed with the rendered error, after a result it is
  succeeded with that result, after a result that cannot be encoded it is failed; an executor
  that reports a cancelled context leaves the job running, to be re-run after a restart.
\<close>

theorem run_queued_job:
  assumes "bolt_ok (mg_store m)" and "bolt_jobs (mg_store m) i = Some j"
    and "job_Status j = StatusQueued"
  shows "bolt_jobs (mg_store (run BoltStore m i exec start fin)) =
    (bolt_jobs (mg_store m))(i \<mapsto>
      (let j' = running_job j start
       in case exec (job_Op j) (job_Request j) of
            ExecErr e \<Rightarrow> if errors_is e ContextCanceled then j'
                         else finished_job (mg_cfg m) j' (ExecErr e) fin
          | ExecOK r \<Rightarrow> finished_job (mg_cfg m) j' (ExecOK r) fin))"
  unfolding bolt.run_outcome [OF assms, of exec start fin]
  by (simp add: interrupted_def Let_def split: outcome.splits)

definition one_job_manager :: "bolt_store manager" where
  "one_job_manager = empty_manager\<lparr>mg_store := bolt_repr [(''j1'', new_job ''j1'' ''sign'' ''{}'' [] 5)]\<rparr>"

lemma one_job_ok:
  "bolt_ok (mg_store one_job_manager)"
  "bolt_jobs (mg_store one_job_manager) ''j1'' = Some (new_job ''j1'' ''sign'' ''{}'' [] 5)"
  by (simp_all add: one_job_manager_def mem_ok_def bolt_ok_repr kv_ok_def)

theorem run_queued_job_witness:
  "map_option job_Status (bolt_jobs (mg_store
     (run BoltStore one_job_manager ''j1'' (\<lambda>opn req. ExecOK (Some ''1'')) 6 7)) ''j1'') =
   Some StatusSucceeded"
  using run_queued_job [OF one_job_ok, of "\<lambda>opn req. ExecOK (Some ''1'')" 6 7]
  by (simp add: finished_job_def Let_def setExpiry_def running_job_def new_job_def)


definition queued_manager :: "mem_store manager" where
  "queued_manager = (New [(''j1'', new_job ''j1'' ''sign'' ''{}'' [] 5)] (\<lambda>_. True)
     \<lparr>cf_Workers = 1, cf_QueueSize = 1, cf_TTL = 1, cf_MaxInputBytes = 0, cf_ReapInterval = 1\<rparr>
     False)\<lparr>mg_queue := [''j1'']\<rparr>"


text \<open>
  Cancelling is idempotent and running respects it, as long as each call runs to its
  end before the next: a cancel of a live job makes it cancelled with its payload scrubbed, a
  second cancel changes nothing, and a worker that receives its id afterwards skips it.
\<close>

theorem cancel_then_run_skips:
  fixes m :: "mem_store manager" and now :: time
  assumes "mem_ok (mg_store m)" and "map_of (mg_store m) i = Some j" and "\<not> Terminal (job_Status j)"
  defines "m1 \<equiv> snd (Cancel MemStore m i now)"
  shows "map_of (mg_store m1) = (map_of (mg_store m))(i \<mapsto> canceled_job (mg_cfg m) j now) \<and>
    job_Request (canceled_job (mg_cfg m) j now) = [] \<and>
    Cancel MemStore m1 i now' = (None, m1) \<and> run MemStore m1 i exec start fin = m1"
proof -
  from mem.cancel_live [OF assms(1-3), of now] have
    ok1: "mem_ok (mg_store m1)" and
    s1: "map_of (mg_store m1) = (map_of (mg_store m))(i \<mapsto> canceled_job (mg_cfg m) j now)"
    by (simp_all add: m1_def)
  then have j1: "map_of (mg_store m1) i = Some (canceled_job (mg_cfg m) j now)" by simp
  have "job_Request (canceled_job (mg_cfg m) j now) = []"
    by (simp add: canceled_job_def setExpiry_def)
  moreover have "Cancel MemStore m1 i now' = (None, m1)"
    by (rule mem.cancel_terminal [OF ok1 j1]) simp
  moreover have "run MemStore m1 i exec start fin = m1"
    by (rule mem.run_skips [OF ok1 j1]) simp
  ultimately show ?thesis using s1 by blast
qed

theorem cancel_then_run_skips_witness:
  "run MemStore (snd (Cancel MemStore queued_manager ''j1'' 6)) ''j1'' (\<lambda>opn req. ExecOK None) 7 8 =
   snd (Cancel MemStore queued_manager ''j1'' 6)"
proof -
  have ok: "mem_ok (mg_store queued_manager)"
    by (simp add: queued_manager_def New_def mem_ok_def kv_ok_def)
  have j: "map_of (mg_store queued_manager) ''j1'' = Some (new_job ''j1'' ''sign'' ''{}'' [] 5)"
    by (simp add: queued_manager_def New_def)
  from cancel_then_run_skips [OF ok j, of 6 9 "\<lambda>opn req. ExecOK None" 7 8] show ?thesis by simp
qed

text \<open>
  A terminal state is not final under concurrency. A cancel request that completes
  while the executor of the job is running records the job as cancelled; if the executor then
  returns a result instead of a cancellation error, the worker's write replaces the cancelled
  record by a succeeded one.
\<close>

theorem canceled_job_overwritten:
  fixes m :: "mem_store manager" and start now :: time
  assumes "mem_ok (mg_store m)" and "map_of (mg_store m) i = Some j" and "job_Status j = StatusQueued"
  defines "m1 \<equiv> run_begin MemStore m i j start"
  defines "m2 \<equiv> snd (Cancel MemStore m1 i now)"
  shows "map_option job_Status (map_of (mg_store m2) i) = Some StatusCanceled \<and>
    map_option job_Status (map_of (mg_store
      (run_end MemStore m2 i (running_job j start) (ExecOK (Some raw)) fin)) i) = Some StatusSucceeded"
proof -
  have i: "job_ID j = i" using assms(1,2) by (rule mem_ok_keyed)
  have ok1: "mem_ok (mg_store m1)"
    using mem_ok_put [OF assms(1), of "running_job j start"]
    by (simp add: m1_def run_begin_def save_or_keep_def mem_defs Let_def)
  have j1: "map_of (mg_store m1) i = Some (running_job j start)"
    by (simp add: m1_def run_begin_def save_or_keep_def mem_defs Let_def i)
  from mem.cancel_live [OF ok1 j1, of now] have
    "map_of (mg_store m2) i = Some (canceled_job (mg_cfg m1) (running_job j start) now)"
    by (simp add: m2_def)
  moreover have "job_ID (finished_job cfg (running_job j start) (ExecOK (Some raw)) fin) = i" for cfg
    by (simp add: i)
  moreover have "job_Status (finished_job cfg (running_job j start) (ExecOK (Some raw)) fin) =
      StatusSucceeded" for cfg
    by (simp add: finished_job_def Let_def)
  ultimately show ?thesis
    by (simp add: run_end_def save_or_keep_def mem_defs fireWebhook_def interrupted_def Let_def kv_simps)
qed

theorem canceled_job_overwritten_witness:
  "map_option job_Status (map_of (mg_store (run_end MemStore
      (snd (Cancel MemStore (run_begin MemStore queued_manager ''j1''
         (new_job ''j1'' ''sign'' ''{}'' [] 5) 6) ''j1'' 7))
      ''j1'' (running_job (new_job ''j1'' ''sign'' ''{}'' [] 5) 6) (ExecOK (Some ''1'')) 8)) ''j1'') =
   Some StatusSucceeded"
proof -
  have ok: "mem_ok (mg_store queued_manager)"
    by (simp add: queued_manager_def New_def mem_ok_def kv_ok_def)
  have j: "map_of (mg_store queued_manager) ''j1'' = Some (new_job ''j1'' ''sign'' ''{}'' [] 5)"
    by (simp add: queued_manager_def New_def)
  from canceled_job_overwritten [OF ok j, of 6 7 "''1''" 8] show ?thesis by simp
qed





end
