(* ===== verification/Idempotency.thy ===== *)
theory Idempotency
  imports Errors
begin

text \<open>
  The idempotency cache (internal/idempotency/cache.go): at most one execution per key and
  lifetime, with concurrent duplicates waiting for the first call. Entries are shared between
  the cache and the calls that hold them, so they live in an explicit heap; the two indexes of
  the source, the map by key and the recency list, hold references. A call takes the lock twice,
  once before and once after the work, and closes the entry's channel outside the lock: these
  are the three steps \<open>do_begin\<close>, \<open>do_finish\<close> and \<open>do_close\<close>, which other calls interleave with.
\<close>

section \<open>State\<close>

record idem_entry =
  ie_key :: string
  ie_done :: bool
  ie_data :: bytes
  ie_err :: "goerr option"
  ie_expiry :: time

record idem_cache =
  ic_ttl :: dur
  ic_max :: int
  ic_byKey :: "(string, nat) gomap"
  ic_lru :: "nat list"
  ic_heap :: "nat \<Rightarrow> idem_entry"
  ic_next :: nat

definition fresh_entry :: "string \<Rightarrow> idem_entry" where
  "fresh_entry key = \<lparr>ie_key = key, ie_done = False, ie_data = [], ie_err = None, ie_expiry = zero_time\<rparr>"

definition idem_New :: "dur \<Rightarrow> int \<Rightarrow> idem_cache" where
  "idem_New ttl mx = \<lparr>ic_ttl = ttl, ic_max = (if mx < 1 then 1024 else mx), ic_byKey = [], ic_lru = [],
     ic_heap = (\<lambda>_. fresh_entry []), ic_next = 0\<rparr>"

section \<open>Operations\<close>

definition removeLocked :: "idem_cache \<Rightarrow> nat \<Rightarrow> idem_cache" where
  "removeLocked c el = c\<lparr>ic_byKey := kv_del (ie_key (ic_heap c el)) (ic_byKey c),
     ic_lru := remove1 el (ic_lru c)\<rparr>"

function idem_evict :: "idem_cache \<Rightarrow> idem_cache" where
  "idem_evict c =
     (if int (length (ic_lru c)) > ic_max c then
        (if ic_lru c = [] then c else idem_evict (removeLocked c (last (ic_lru c))))
      else c)"
  by auto
termination
proof (relation "measure (\<lambda>c. length (ic_lru c))")
  fix c :: idem_cache
  assume "ic_lru c \<noteq> []"
  then have "length (remove1 (last (ic_lru c)) (ic_lru c)) < length (ic_lru c)"
    by (simp add: length_remove1)
  then show "(removeLocked c (last (ic_lru c)), c) \<in> measure (\<lambda>c. length (ic_lru c))"
    by (simp add: removeLocked_def)
qed simp

declare idem_evict.simps [simp del]

text \<open>What the work returns: data, an error, or a panic that \<^verbatim>\<open>runGuarded\<close> turns into an error.\<close>

datatype work = WorkOK bytes | WorkErr goerr | WorkPanic string

fun runGuarded :: "work \<Rightarrow> goerr + bytes" where
  "runGuarded (WorkOK d) = Inr d"
| "runGuarded (WorkErr e) = Inl e"
| "runGuarded (WorkPanic r) = Inl (PlainError (''idempotency: work panicked: '' @ r))"

text \<open>What the first critical section of \<^verbatim>\<open>Do\<close> decides for a non-empty key.\<close>

datatype decision = Replay bytes | Wait nat | Execute nat

definition do_register :: "idem_cache \<Rightarrow> string \<Rightarrow> decision \<times> idem_cache" where
  "do_register c key =
     (let el = ic_next c
      in (Execute el,
          idem_evict (c\<lparr>ic_heap := (ic_heap c)(el := fresh_entry key), ic_next := Suc el,
            ic_lru := el # ic_lru c, ic_byKey := kv_put key el (ic_byKey c)\<rparr>)))"

definition do_begin :: "idem_cache \<Rightarrow> string \<Rightarrow> time \<Rightarrow> decision \<times> idem_cache" where
  "do_begin c key now =
     (case map_of (ic_byKey c) key of
        None \<Rightarrow> do_register c key
      | Some el \<Rightarrow>
          (let e = ic_heap c el
           in if ie_done e then
                (if IsZero (ie_expiry e) \<or> Before now (ie_expiry e)
                 then (Replay (ie_data e), c\<lparr>ic_lru := el # remove1 el (ic_lru c)\<rparr>)
                 else do_register (removeLocked c el) key)
              else (Wait el, c)))"

definition do_finish :: "idem_cache \<Rightarrow> nat \<Rightarrow> goerr + bytes \<Rightarrow> time \<Rightarrow> idem_cache" where
  "do_finish c el res now =
     (let e = ic_heap c el
      in case res of
           Inl err \<Rightarrow>
             (let c' = c\<lparr>ic_heap := (ic_heap c)(el := e\<lparr>ie_err := Some err\<rparr>)\<rparr>
              in if map_of (ic_byKey c') (ie_key e) = Some el then removeLocked c' el else c')
         | Inr data \<Rightarrow>
             c\<lparr>ic_heap := (ic_heap c)(el := e\<lparr>ie_data := data, ie_expiry := now + ic_ttl c\<rparr>)\<rparr>)"

definition do_close :: "idem_cache \<Rightarrow> nat \<Rightarrow> idem_cache" where
  "do_close c el = c\<lparr>ic_heap := (ic_heap c)(el := (ic_heap c el)\<lparr>ie_done := True\<rparr>)\<rparr>"

text \<open>What a coalesced caller returns once the channel is closed; \<open>None\<close> while it blocks.\<close>

definition do_wait :: "idem_cache \<Rightarrow> nat \<Rightarrow> ((goerr + bytes) \<times> bool) option" where
  "do_wait c el =
     (let e = ic_heap c el
      in if ie_done e then
           Some ((case ie_err e of Some err \<Rightarrow> Inl err | None \<Rightarrow> Inr (ie_data e)), True)
         else None)"

text \<open>
  A whole call whose steps no other call interrupts. The result carries the replayed flag; a
  call that finds an execution in flight would block, which is \<open>None\<close> here.
\<close>

definition Do :: "idem_cache \<Rightarrow> string \<Rightarrow> work \<Rightarrow> time \<Rightarrow> time \<Rightarrow>
    (((goerr + bytes) \<times> bool) \<times> idem_cache) option" where
  "Do c key fn now fin =
     (if key = [] then Some ((runGuarded fn, False), c)
      else case do_begin c key now of
             (Replay d, c') \<Rightarrow> Some ((Inr d, True), c')
           | (Wait el, c') \<Rightarrow> map_option (\<lambda>r. (r, c')) (do_wait c' el)
           | (Execute el, c') \<Rightarrow>
               Some ((runGuarded fn, False), do_close (do_finish c' el (runGuarded fn) fin) el))"

definition idem_Len :: "idem_cache \<Rightarrow> nat" where
  "idem_Len c = length (ic_lru c)"

section \<open>Interleaved calls\<close>

text \<open>
  The calls in flight: those whose work runs, and those that left the second critical section
  and have not closed the channel yet.
\<close>

record idem_sys =
  is_cache :: idem_cache
  is_running :: "nat set"
  is_closing :: "nat set"

inductive idem_step :: "idem_sys \<Rightarrow> idem_sys \<Rightarrow> bool" where
  begin_execute: "do_begin (is_cache s) key now = (Execute el, c') \<Longrightarrow>
    idem_step s (s\<lparr>is_cache := c', is_running := insert el (is_running s)\<rparr>)"
| begin_other: "do_begin (is_cache s) key now = (d, c') \<Longrightarrow> (\<forall>el. d \<noteq> Execute el) \<Longrightarrow>
    idem_step s (s\<lparr>is_cache := c'\<rparr>)"
| finish: "el \<in> is_running s \<Longrightarrow>
    idem_step s (s\<lparr>is_cache := do_finish (is_cache s) el res now,
      is_running := is_running s - {el}, is_closing := insert el (is_closing s)\<rparr>)"
| close: "el \<in> is_closing s \<Longrightarrow>
    idem_step s (s\<lparr>is_cache := do_close (is_cache s) el, is_closing := is_closing s - {el}\<rparr>)"

inductive idem_reachable :: "idem_sys \<Rightarrow> idem_sys \<Rightarrow> bool" for s0 where
  idem_refl: "idem_reachable s0 s0"
| idem_trans: "idem_reachable s0 s \<Longrightarrow> idem_step s s' \<Longrightarrow> idem_reachable s0 s'"

section \<open>Invariant\<close>

text \<open>
  The two indexes agree, the recency list has no duplicates and every entry the cache still
  holds is free of an error.
\<close>

definition idx_ok :: "idem_cache \<Rightarrow> bool" where
  "idx_ok c \<longleftrightarrow> kv_ok (ic_byKey c) \<and> distinct (ic_lru c) \<and>
     (\<forall>k el. map_of (ic_byKey c) k = Some el \<longleftrightarrow> el \<in> set (ic_lru c) \<and> ie_key (ic_heap c el) = k) \<and>
     (\<forall>el \<in> set (ic_lru c). el < ic_next c \<and> ie_err (ic_heap c el) = None)"

definition idem_inv :: "idem_sys \<Rightarrow> bool" where
  "idem_inv s \<longleftrightarrow> idx_ok (is_cache s) \<and> 1 \<le> ic_max (is_cache s) \<and>
     int (length (ic_lru (is_cache s))) \<le> ic_max (is_cache s) \<and> is_running s \<inter> is_closing s = {} \<and>
     (\<forall>el \<in> is_running s \<union> is_closing s. el < ic_next (is_cache s) \<and> \<not> ie_done (ic_heap (is_cache s) el))"

lemma idx_ok_unique:
  "idx_ok c \<Longrightarrow> el \<in> set (ic_lru c) \<Longrightarrow> el' \<in> set (ic_lru c) \<Longrightarrow>
   ie_key (ic_heap c el) = ie_key (ic_heap c el') \<Longrightarrow> el = el'"
  unfolding idx_ok_def by (metis option.inject)

lemma removeLocked_fields [simp]:
  "ic_heap (removeLocked c el) = ic_heap c" "ic_next (removeLocked c el) = ic_next c"
  "ic_max (removeLocked c el) = ic_max c" "ic_ttl (removeLocked c el) = ic_ttl c"
  "ic_lru (removeLocked c el) = remove1 el (ic_lru c)"
  by (simp_all add: removeLocked_def)

lemma removeLocked_idx:
  assumes "idx_ok c" and "el \<in> set (ic_lru c)"
  shows "idx_ok (removeLocked c el)"
proof -
  have dist: "distinct (ic_lru c)" using assms(1) by (simp add: idx_ok_def)
  have "map_of (ic_byKey (removeLocked c el)) k = Some el' \<longleftrightarrow>
      el' \<in> set (remove1 el (ic_lru c)) \<and> ie_key (ic_heap c el') = k" for k el'
  proof (cases "k = ie_key (ic_heap c el)")
    case True
    have "el' = el" if "el' \<in> set (ic_lru c)" "ie_key (ic_heap c el') = ie_key (ic_heap c el)"
      using idx_ok_unique [OF assms that(1)] that(2) by simp
    with True dist show ?thesis by (auto simp: removeLocked_def kv_simps)
  next
    case False
    with assms(1) dist show ?thesis
      by (auto simp: removeLocked_def kv_simps idx_ok_def)
  qed
  moreover have "kv_ok (ic_byKey (removeLocked c el))"
    using assms(1) by (simp add: removeLocked_def idx_ok_def wf_intros)
  ultimately show ?thesis using assms(1) dist by (simp add: idx_ok_def)
qed

lemma removeLocked_gone:
  "idx_ok c \<Longrightarrow> el \<in> set (ic_lru c) \<Longrightarrow> map_of (ic_byKey (removeLocked c el)) (ie_key (ic_heap c el)) = None"
  by (simp add: removeLocked_def kv_simps)

lemma idem_evict_step:
  "int (length (ic_lru c)) > ic_max c \<Longrightarrow> ic_lru c \<noteq> [] \<Longrightarrow>
   idem_evict c = idem_evict (removeLocked c (last (ic_lru c)))"
  by (subst idem_evict.simps) simp

lemma idem_evict_stop:
  "\<not> (int (length (ic_lru c)) > ic_max c \<and> ic_lru c \<noteq> []) \<Longrightarrow> idem_evict c = c"
  by (subst idem_evict.simps) auto

lemma idem_evict_props:
  assumes "idx_ok c"
  shows "idx_ok (idem_evict c) \<and> ic_heap (idem_evict c) = ic_heap c \<and>
    ic_next (idem_evict c) = ic_next c \<and> ic_max (idem_evict c) = ic_max c \<and>
    ic_ttl (idem_evict c) = ic_ttl c \<and> set (ic_lru (idem_evict c)) \<subseteq> set (ic_lru c) \<and>
    (0 \<le> ic_max c \<longrightarrow> int (length (ic_lru (idem_evict c))) \<le> ic_max c)"
  using assms
proof (induction c rule: idem_evict.induct)
  case (1 c)
  show ?case
  proof (cases "int (length (ic_lru c)) > ic_max c \<and> ic_lru c \<noteq> []")
    case True
    then have "idx_ok (removeLocked c (last (ic_lru c)))"
      using "1.prems" by (intro removeLocked_idx) auto
    with True "1.IH" have IH: "idx_ok (idem_evict (removeLocked c (last (ic_lru c)))) \<and>
        ic_heap (idem_evict (removeLocked c (last (ic_lru c)))) = ic_heap c \<and>
        ic_next (idem_evict (removeLocked c (last (ic_lru c)))) = ic_next c \<and>
        ic_max (idem_evict (removeLocked c (last (ic_lru c)))) = ic_max c \<and>
        ic_ttl (idem_evict (removeLocked c (last (ic_lru c)))) = ic_ttl c \<and>
        set (ic_lru (idem_evict (removeLocked c (last (ic_lru c))))) \<subseteq> set (remove1 (last (ic_lru c)) (ic_lru c)) \<and>
        (0 \<le> ic_max c \<longrightarrow> int (length (ic_lru (idem_evict (removeLocked c (last (ic_lru c)))))) \<le> ic_max c)"
      by simp
    with True show ?thesis
      using set_remove1_subset [of "last (ic_lru c)" "ic_lru c"] by (simp add: idem_evict_step) blast
  next
    case False
    with "1.prems" show ?thesis by (auto simp: idem_evict_stop)
  qed
qed

text \<open>The most recent entry is never evicted.\<close>

lemma idem_evict_front:
  assumes "1 \<le> ic_max c" and "distinct (ic_lru c)" and "ic_lru c = el # rest"
  shows "el \<in> set (ic_lru (idem_evict c))"
  using assms
proof (induction c arbitrary: rest rule: idem_evict.induct)
  case (1 c)
  show ?case
  proof (cases "int (length (ic_lru c)) > ic_max c")
    case True
    with "1.prems" have ne: "rest \<noteq> []" by auto
    then have last: "last (ic_lru c) = last rest" "last rest \<noteq> el" using "1.prems" by auto
    then have "ic_lru (removeLocked c (last (ic_lru c))) = el # remove1 (last rest) rest"
      using "1.prems"(3) by simp
    then have "el \<in> set (ic_lru (idem_evict (removeLocked c (last (ic_lru c)))))"
      using True "1.prems" by (intro "1.IH" [of "remove1 (last rest) rest"]) auto
    with True "1.prems"(3) show ?thesis by (simp add: idem_evict_step)
  next
    case False
    with "1.prems" show ?thesis by (simp add: idem_evict_stop)
  qed
qed

lemma do_register_props:
  assumes "idx_ok c" and "1 \<le> ic_max c" and "map_of (ic_byKey c) key = None"
    and "do_register c key = (d, c')"
  shows "d = Execute (ic_next c) \<and> idx_ok c' \<and> ic_next c' = Suc (ic_next c) \<and>
    ic_heap c' = (ic_heap c)(ic_next c := fresh_entry key) \<and> ic_max c' = ic_max c \<and> ic_ttl c' = ic_ttl c \<and>
    int (length (ic_lru c')) \<le> ic_max c \<and> map_of (ic_byKey c') key = Some (ic_next c)"
proof -
  let ?el = "ic_next c"
  define c1 where "c1 = c\<lparr>ic_heap := (ic_heap c)(?el := fresh_entry key), ic_next := Suc ?el,
     ic_lru := ?el # ic_lru c, ic_byKey := kv_put key ?el (ic_byKey c)\<rparr>"
  have old: "el < ?el" if "el \<in> set (ic_lru c)" for el using assms(1) that by (auto simp: idx_ok_def)
  then have new: "?el \<notin> set (ic_lru c)" by blast
  have "idx_ok c1"
    unfolding idx_ok_def
  proof (intro conjI allI ballI)
    show "kv_ok (ic_byKey c1)" using assms(1) by (simp add: c1_def idx_ok_def wf_intros)
    show "distinct (ic_lru c1)" using assms(1) new by (simp add: c1_def idx_ok_def)
  next
    fix k el
    have "map_of (ic_byKey c) k = Some el \<longleftrightarrow> el \<in> set (ic_lru c) \<and> ie_key (ic_heap c el) = k"
      using assms(1) by (simp add: idx_ok_def)
    with assms(3) new old show
      "map_of (ic_byKey c1) k = Some el \<longleftrightarrow> el \<in> set (ic_lru c1) \<and> ie_key (ic_heap c1 el) = k"
      by (auto simp: c1_def kv_simps fresh_entry_def)
  next
    fix el assume "el \<in> set (ic_lru c1)"
    with assms(1) show "el < ic_next c1" "ie_err (ic_heap c1 el) = None"
      using old [of el] by (auto simp: c1_def fresh_entry_def idx_ok_def)
  qed
  note ev = idem_evict_props [OF this]
  have front: "?el \<in> set (ic_lru (idem_evict c1))"
    using idem_evict_front [of c1 ?el "ic_lru c"] assms(2) \<open>idx_ok c1\<close>
    by (simp add: c1_def idx_ok_def)
  have heap: "ic_heap (idem_evict c1) = (ic_heap c)(?el := fresh_entry key)"
    using ev by (simp add: c1_def)
  have "map_of (ic_byKey (idem_evict c1)) key = Some ?el \<longleftrightarrow> ie_key (fresh_entry key) = key"
    using ev front heap by (metis fun_upd_same idx_ok_def)
  then have "map_of (ic_byKey (idem_evict c1)) key = Some ?el" by (simp add: fresh_entry_def)
  moreover have "d = Execute ?el" "c' = idem_evict c1"
    using assms(4) by (simp_all add: do_register_def c1_def Let_def)
  moreover have "ic_next c1 = Suc ?el"
    "ic_max c1 = ic_max c" "ic_ttl c1 = ic_ttl c" by (simp_all add: c1_def)
  ultimately show ?thesis using ev heap assms(2) by simp
qed

lemma do_begin_inv:
  assumes "idx_ok c" and "1 \<le> ic_max c" and "int (length (ic_lru c)) \<le> ic_max c"
    and "do_begin c key now = (d, c')"
  shows "idx_ok c' \<and> ic_max c' = ic_max c \<and> int (length (ic_lru c')) \<le> ic_max c \<and>
    (\<forall>el < ic_next c. ic_heap c' el = ic_heap c el) \<and> ic_next c \<le> ic_next c' \<and>
    (\<forall>el. d = Execute el \<longrightarrow> el = ic_next c \<and> ic_next c' = Suc el \<and> ic_heap c' el = fresh_entry key)"
proof -
  have reg: ?thesis if "do_register c0 key = (d, c')" "idx_ok c0" "map_of (ic_byKey c0) key = None"
      "ic_heap c0 = ic_heap c" "ic_next c0 = ic_next c" "ic_max c0 = ic_max c" for c0
    using do_register_props [OF that(2) _ that(3,1)] that(4-6) assms(2) by simp
  show ?thesis
  proof (cases "map_of (ic_byKey c) key")
    case None
    then show ?thesis using assms(1,4) by (intro reg [of c]) (simp_all add: do_begin_def)
  next
    case (Some el)
    with assms(1) have el: "el \<in> set (ic_lru c)" "ie_key (ic_heap c el) = key"
      by (auto simp: idx_ok_def)
    consider (wait) "\<not> ie_done (ic_heap c el)"
      | (replay) "ie_done (ic_heap c el)" "IsZero (ie_expiry (ic_heap c el)) \<or> Before now (ie_expiry (ic_heap c el))"
      | (expired) "ie_done (ic_heap c el)" "\<not> (IsZero (ie_expiry (ic_heap c el)) \<or> Before now (ie_expiry (ic_heap c el)))"
      by blast
    then show ?thesis
    proof cases
      case wait
      with Some assms show ?thesis by (auto simp: do_begin_def)
    next
      case replay
      with Some assms(4) have c': "c' = c\<lparr>ic_lru := el # remove1 el (ic_lru c)\<rparr>" "d = Replay (ie_data (ic_heap c el))"
        by (auto simp: do_begin_def Let_def)
      have "length (ic_lru c') = length (ic_lru c)" "set (ic_lru c') = set (ic_lru c)" "distinct (ic_lru c')"
        using length_pos_if_in_set [OF el(1)] el(1) assms(1)
        by (auto simp: c'(1) idx_ok_def length_remove1)
      with assms(1,3) c'(2) show ?thesis by (simp add: idx_ok_def c'(1))
    next
      case expired
      show ?thesis
      proof (rule reg [of "removeLocked c el"])
        show "do_register (removeLocked c el) key = (d, c')"
          using Some expired assms(4) by (simp add: do_begin_def Let_def)
        show "map_of (ic_byKey (removeLocked c el)) key = None"
          using removeLocked_gone [OF assms(1) el(1)] el(2) by simp
      qed (simp_all add: removeLocked_idx assms(1) el(1))
    qed
  qed
qed

lemma do_finish_inv:
  assumes "idx_ok c" and "int (length (ic_lru c)) \<le> ic_max c"
  shows "idx_ok (do_finish c el res now)" (is ?idx)
    and "ic_max (do_finish c el res now) = ic_max c" (is ?max)
    and "int (length (ic_lru (do_finish c el res now))) \<le> ic_max c" (is ?len)
    and "ic_next (do_finish c el res now) = ic_next c" (is ?next)
    and "ie_done (ic_heap (do_finish c el res now) x) = ie_done (ic_heap c x)" (is ?done)
proof -
  have key: "ie_key (((ic_heap c)(el := (ic_heap c el)\<lparr>ie_data := d, ie_expiry := t\<rparr>)) y) = ie_key (ic_heap c y)"
    and err: "ie_err (((ic_heap c)(el := (ic_heap c el)\<lparr>ie_data := d, ie_expiry := t\<rparr>)) y) = ie_err (ic_heap c y)"
    for d t y by simp_all
  have "?idx \<and> ?max \<and> ?len \<and> ?next \<and> ?done"
  proof (cases res)
    case (Inr d)
    with assms key err show ?thesis by (auto simp: do_finish_def Let_def idx_ok_def)
  next
    case (Inl e)
    let ?h = "(ic_heap c)(el := (ic_heap c el)\<lparr>ie_err := Some e\<rparr>)"
    let ?c = "c\<lparr>ic_heap := ?h\<rparr>"
    have keys: "ie_key (?h y) = ie_key (ic_heap c y)" for y by simp
    show ?thesis
    proof (cases "map_of (ic_byKey c) (ie_key (ic_heap c el)) = Some el")
      case True
      then have el: "el \<in> set (ic_lru c)" using assms(1) by (auto simp: idx_ok_def)
      from removeLocked_idx [OF assms(1) el] have "idx_ok (removeLocked ?c el)"
        using keys assms(1) by (auto simp: idx_ok_def removeLocked_def)
      moreover have "do_finish c el res now = removeLocked ?c el"
        using True Inl by (simp add: do_finish_def Let_def)
      ultimately show ?thesis using assms(2) by (auto simp: length_remove1)
    next
      case False
      then have "el \<notin> set (ic_lru c)" using assms(1) by (auto simp: idx_ok_def)
      then have "idx_ok ?c" using assms(1) keys by (auto simp: idx_ok_def)
      moreover have "do_finish c el res now = ?c" using False Inl by (simp add: do_finish_def Let_def)
      ultimately show ?thesis using assms(2) by simp
    qed
  qed
  then show ?idx ?max ?len ?next ?done by auto
qed

lemma do_close_idx: "idx_ok c \<Longrightarrow> idx_ok (do_close c el)"
  by (auto simp: idx_ok_def do_close_def)

lemma idem_step_inv:
  assumes "idem_step s s'" and "idem_inv s"
  shows "idem_inv s' \<and> ic_max (is_cache s') = ic_max (is_cache s)"
  using assms
proof (induction rule: idem_step.induct)
  case (begin_execute s key now el c')
  then have inv: "idx_ok (is_cache s)" "1 \<le> ic_max (is_cache s)"
    "int (length (ic_lru (is_cache s))) \<le> ic_max (is_cache s)" by (simp_all add: idem_inv_def)
  from do_begin_inv [OF inv begin_execute(1)] begin_execute(2) show ?case
    by (auto simp: idem_inv_def fresh_entry_def less_Suc_eq)
next
  case (begin_other s key now d c')
  then have inv: "idx_ok (is_cache s)" "1 \<le> ic_max (is_cache s)"
    "int (length (ic_lru (is_cache s))) \<le> ic_max (is_cache s)" by (simp_all add: idem_inv_def)
  from do_begin_inv [OF inv begin_other(1)] begin_other(3) show ?case
    by (auto simp: idem_inv_def intro: less_le_trans)
next
  case (finish el s res now)
  then have "idx_ok (is_cache s)" "int (length (ic_lru (is_cache s))) \<le> ic_max (is_cache s)"
    by (simp_all add: idem_inv_def)
  note fin = do_finish_inv [OF this, of el res now]
  from finish show ?case by (auto simp: idem_inv_def fin)
next
  case (close el s)
  then show ?case
    by (auto simp: idem_inv_def do_close_idx) (auto simp: do_close_def split: if_splits)
qed

lemma idem_reachable_inv:
  "idem_reachable s0 s \<Longrightarrow> idem_inv s0 \<Longrightarrow> idem_inv s \<and> ic_max (is_cache s) = ic_max (is_cache s0)"
  by (induction rule: idem_reachable.induct) (auto dest: idem_step_inv)

section \<open>Properties\<close>

lemma idem_New_inv:
  "idem_inv \<lparr>is_cache = idem_New ttl mx, is_running = {}, is_closing = {}\<rparr>"
  by (simp add: idem_inv_def idem_New_def idx_ok_def)

text \<open>
  Claim C29: in every state that interleaved calls can reach from a new cache, the cache holds at
  most its bound of entries, the map by key and the recency list hold the same entries, and an
  entry that is present carries no error: a failed call is never replayed.
\<close>

theorem idem_reachable_consistent:
  assumes "idem_reachable \<lparr>is_cache = idem_New ttl mx, is_running = {}, is_closing = {}\<rparr> s"
  shows "int (idem_Len (is_cache s)) \<le> (if mx < 1 then 1024 else mx) \<and>
    (\<forall>k el. map_of (ic_byKey (is_cache s)) k = Some el \<longleftrightarrow>
       el \<in> set (ic_lru (is_cache s)) \<and> ie_key (ic_heap (is_cache s) el) = k) \<and>
    (\<forall>el \<in> set (ic_lru (is_cache s)). ie_err (ic_heap (is_cache s) el) = None)"
  using idem_reachable_inv [OF assms idem_New_inv]
  by (auto simp: idem_inv_def idx_ok_def idem_Len_def idem_New_def)

theorem idem_reachable_consistent_witness:
  "idem_Len (snd (do_begin (idem_New 10 1) ''k'' 0)) \<le> 1"
proof -
  let ?s = "\<lparr>is_cache = idem_New 10 1, is_running = {}, is_closing = {}\<rparr>"
  let ?c = "snd (do_begin (idem_New 10 1) ''k'' 0)"
  have "do_begin (is_cache ?s) ''k'' 0 = (Execute 0, ?c)"
    by (simp add: do_begin_def do_register_def idem_New_def Let_def)
  then have "idem_reachable ?s (?s\<lparr>is_cache := ?c, is_running := insert 0 (is_running ?s)\<rparr>)"
    by (intro idem_trans [OF idem_refl] begin_execute)
  from idem_reachable_consistent [OF this] show ?thesis by simp
qed

lemma Do_executes:
  assumes "key \<noteq> []" and "do_begin c key now = (Execute el, c')"
  shows "Do c key fn now fin =
    Some ((runGuarded fn, False), do_close (do_finish c' el (runGuarded fn) fin) el)"
  using assms by (simp add: Do_def)

lemma do_begin_Execute:
  assumes "idx_ok c" and "1 \<le> ic_max c" and "int (length (ic_lru c)) \<le> ic_max c"
    and "do_begin c key now = (Execute el, c')"
  shows "map_of (ic_byKey c') key = Some el \<and> ic_heap c' el = fresh_entry key \<and> ic_ttl c' = ic_ttl c"
proof -
  have reg: ?thesis if "do_register c0 key = (Execute el, c')" "idx_ok c0" "map_of (ic_byKey c0) key = None"
      "ic_max c0 = ic_max c" "ic_ttl c0 = ic_ttl c" for c0
    using do_register_props [OF that(2) _ that(3,1)] that(4,5) assms(2) by auto
  show ?thesis
  proof (cases "map_of (ic_byKey c) key")
    case None
    with assms(1,4) show ?thesis by (intro reg [of c]) (simp_all add: do_begin_def)
  next
    case (Some el0)
    with assms(1) have el0: "el0 \<in> set (ic_lru c)" "ie_key (ic_heap c el0) = key"
      by (auto simp: idx_ok_def)
    show ?thesis
    proof (rule reg [of "removeLocked c el0"])
      show "do_register (removeLocked c el0) key = (Execute el, c')"
        using Some assms(4) by (auto simp: do_begin_def Let_def split: if_splits)
      show "map_of (ic_byKey (removeLocked c el0)) key = None"
        using removeLocked_gone [OF assms(1) el0(1)] el0(2) by simp
    qed (simp_all add: removeLocked_idx assms(1) el0(1))
  qed
qed



text \<open>
  Concurrent duplicates coalesce. While the execution of a key is in flight and its
  entry is in the cache, another call under that key does not execute: it waits for that
  execution and, once it has finished, returns that execution's data or error.
\<close>

theorem idem_coalesce:
  assumes "map_of (ic_byKey c) key = Some el" and "ic_heap c el = fresh_entry key"
  shows "do_begin c key now = (Wait el, c) \<and> do_wait c el = None \<and>
    do_wait (do_close (do_finish c el res fin) el) el = Some (res, True)"
  using assms
  by (auto simp: do_begin_def do_wait_def do_close_def do_finish_def Let_def fresh_entry_def
      removeLocked_def split: sum.splits)

theorem idem_coalesce_witness:
  "fst (do_begin (snd (do_begin (idem_New 10 1) ''k'' 0)) ''k'' 1) = Wait 0"
proof -
  let ?c = "snd (do_begin (idem_New 10 1) ''k'' 0)"
  have "do_begin (idem_New 10 1) ''k'' 0 = (Execute 0, ?c)"
    by (simp add: do_begin_def do_register_def idem_New_def Let_def)
  moreover have "idx_ok (idem_New 10 1)" "1 \<le> ic_max (idem_New 10 1)"
    "int (length (ic_lru (idem_New 10 1))) \<le> ic_max (idem_New 10 1)"
    using idem_New_inv [of 10 1] by (simp_all add: idem_inv_def)
  ultimately have "map_of (ic_byKey ?c) ''k'' = Some 0" "ic_heap ?c 0 = fresh_entry ''k''"
    using do_begin_Execute by blast+
  from idem_coalesce [OF this, of 1] show ?thesis by simp
qed

text \<open>
  Eviction can break single flight. With room for one entry, a call under another key
  evicts the entry of an execution still in flight, and a duplicate of that first call then
  executes a second time while the first is running.
\<close>

theorem idem_evicts_in_flight:
  "let (d1, c1) = do_begin (idem_New ttl 1) ''a'' t1;
       (d2, c2) = do_begin c1 ''b'' t2;
       (d3, c3) = do_begin c2 ''a'' t3
   in d1 = Execute 0 \<and> d2 = Execute 1 \<and> d3 = Execute 2"
  by (simp add: do_begin_def do_register_def idem_New_def Let_def idem_evict.simps removeLocked_def
      kv_put_def kv_del_def fresh_entry_def)

end
