(* ===== verification/Batch.thy ===== *)
theory Batch
  imports Errors "HOL-Library.Multiset"
begin

text \<open>
  Batches (internal/core/batch.go): one operation over many items, with bounded concurrency, a
  failure policy and a streaming sink. \<open>runBatch\<close> starts a goroutine per item; the model makes
  the loop and every goroutine advance by single events, so that a list of events is one
  interleaving, and a context that is cancelled in between is an event too. The operation is
  an argument: the answers it may give to an item.
\<close>

section \<open>Options and results\<close>

definition PolicyContinue :: string where "PolicyContinue = ''continue-on-error''"
definition PolicyFailFast :: string where "PolicyFailFast = ''fail-fast''"

definition normalized :: "string \<Rightarrow> string" where
  "normalized p = (if p = PolicyFailFast then PolicyFailFast else PolicyContinue)"

record batch_options =
  bo_Policy :: string
  bo_Concurrency :: int

datatype item_status = ItemOK | ItemError | ItemSkipped

record 'o batch_item =
  bi_Index :: nat
  bi_Status :: item_status
  bi_Output :: "'o option"
  bi_Error :: "batch_item_error option"

record 'o batch_output =
  bx_Total :: nat
  bx_Succeeded :: nat
  bx_Failed :: nat
  bx_Results :: "'o batch_item list"

definition batchConcurrency :: "int \<Rightarrow> int" where
  "batchConcurrency poolSize = (if poolSize > 0 then poolSize else 1)"

definition effective_concurrency :: "batch_options \<Rightarrow> int \<Rightarrow> nat" where
  "effective_concurrency opts defaultConc =
     (let conc = bo_Concurrency opts;
          conc = (if conc \<le> 0 then defaultConc else conc);
          conc = (if conc < 1 then 1 else conc)
      in nat conc)"

definition skipped_item :: "nat \<Rightarrow> 'o batch_item" where
  "skipped_item i = \<lparr>bi_Index = i, bi_Status = ItemSkipped, bi_Output = None, bi_Error = None\<rparr>"

definition item_of :: "nat \<Rightarrow> goerr + 'o \<Rightarrow> 'o batch_item" where
  "item_of idx r =
     (case r of
        Inl e \<Rightarrow> \<lparr>bi_Index = idx, bi_Status = ItemError, bi_Output = None, bi_Error = Some (itemErrorFrom e)\<rparr>
      | Inr out \<Rightarrow> \<lparr>bi_Index = idx, bi_Status = ItemOK, bi_Output = Some out, bi_Error = None\<rparr>)"

section \<open>The running batch\<close>

text \<open>
  The goroutine of an item: inside the operation, after its slot is written (holding the
  locals \<open>out\<close> and \<open>err\<close>), after the counters and the sink, after the semaphore, after the
  wait group. The loop: at its test, at the semaphore, at the second test, waiting, returned.
\<close>

datatype 'o stage = Idle | Calling | Stored "goerr + 'o" | Counted "goerr + 'o" | Released "goerr + 'o" | Finished "goerr + 'o"

datatype loop_point = AtTest | AtAcquire | AtRetest | AtWait | AtReturn

record 'o batch_run =
  br_results :: "'o batch_item list"
  br_tasks :: "'o stage list"
  br_point :: loop_point
  br_next :: nat
  br_sem :: nat
  br_failed :: bool
  br_canceled :: bool
  br_succeeded :: nat
  br_failedN :: nat
  br_sunk :: "'o batch_item list"

definition batch_start :: "nat \<Rightarrow> 'o batch_run" where
  "batch_start n = \<lparr>br_results = map skipped_item [0..<n], br_tasks = replicate n Idle, br_point = AtTest,
     br_next = 0, br_sem = 0, br_failed = False, br_canceled = False, br_succeeded = 0, br_failedN = 0, br_sunk = []\<rparr>"

definition settled :: "'o stage \<Rightarrow> bool" where
  "settled t = (case t of Idle \<Rightarrow> True | Finished _ \<Rightarrow> True | _ \<Rightarrow> False)"

text \<open>The dispatch loop; None where it blocks.\<close>

definition loop_step :: "bool \<Rightarrow> nat \<Rightarrow> 'o batch_run \<Rightarrow> 'o batch_run option" where
  "loop_step failFast conc b =
     (case br_point b of
        AtTest \<Rightarrow>
          if length (br_tasks b) \<le> br_next b \<or> br_canceled b \<or> (failFast \<and> br_failed b)
          then Some (b\<lparr>br_point := AtWait\<rparr>) else Some (b\<lparr>br_point := AtAcquire\<rparr>)
      | AtAcquire \<Rightarrow>
          if br_sem b < conc then Some (b\<lparr>br_sem := Suc (br_sem b), br_point := AtRetest\<rparr>) else None
      | AtRetest \<Rightarrow>
          if failFast \<and> br_failed b then Some (b\<lparr>br_sem := br_sem b - 1, br_point := AtWait\<rparr>)
          else Some (b\<lparr>br_tasks := (br_tasks b)[br_next b := Calling], br_next := Suc (br_next b), br_point := AtTest\<rparr>)
      | AtWait \<Rightarrow> if list_all settled (br_tasks b) then Some (b\<lparr>br_point := AtReturn\<rparr>) else None
      | AtReturn \<Rightarrow> None)"

datatype 'o batch_event =
    CancelContext | Loop | Answer nat "goerr + 'o" | Count nat | Release nat | WorkerDone nat

definition is_error :: "goerr + 'o \<Rightarrow> bool" where
  "is_error r = (case r of Inl _ \<Rightarrow> True | Inr _ \<Rightarrow> False)"

definition advance :: "'o batch_run \<Rightarrow> nat \<Rightarrow> 'o stage \<Rightarrow> 'o batch_run" where
  "advance b i t = b\<lparr>br_tasks := (br_tasks b)[i := t]\<rparr>"

definition answer_step :: "bool \<Rightarrow> nat \<Rightarrow> goerr + 'o \<Rightarrow> 'o batch_run \<Rightarrow> 'o batch_run" where
  "answer_step failFast i r b =
     (advance b i (Stored r))\<lparr>br_failed := (br_failed b \<or> (is_error r \<and> failFast)),
        br_results := (br_results b)[i := item_of i r]\<rparr>"

definition count_step :: "nat \<Rightarrow> goerr + 'o \<Rightarrow> 'o batch_run \<Rightarrow> 'o batch_run" where
  "count_step i r b =
     (advance b i (Counted r))\<lparr>br_succeeded := (if is_error r then br_succeeded b else Suc (br_succeeded b)),
        br_failedN := (if is_error r then Suc (br_failedN b) else br_failedN b),
        br_sunk := br_sunk b @ [item_of i r]\<rparr>"

definition fire :: "('i \<Rightarrow> goerr + 'o \<Rightarrow> bool) \<Rightarrow> 'i list \<Rightarrow> bool \<Rightarrow> nat \<Rightarrow> 'o batch_event \<Rightarrow> 'o batch_run \<Rightarrow>
    'o batch_run option" where
  "fire answers items failFast conc ev b =
     (case ev of
        CancelContext \<Rightarrow> if br_canceled b then None else Some (b\<lparr>br_canceled := True\<rparr>)
      | Loop \<Rightarrow> loop_step failFast conc b
      | Answer i r \<Rightarrow>
          if i < length (br_tasks b) \<and> answers (items ! i) r
          then (case br_tasks b ! i of Calling \<Rightarrow> Some (answer_step failFast i r b) | _ \<Rightarrow> None) else None
      | Count i \<Rightarrow>
          if i < length (br_tasks b)
          then (case br_tasks b ! i of Stored r \<Rightarrow> Some (count_step i r b) | _ \<Rightarrow> None) else None
      | Release i \<Rightarrow>
          if i < length (br_tasks b)
          then (case br_tasks b ! i of Counted r \<Rightarrow> Some ((advance b i (Released r))\<lparr>br_sem := br_sem b - 1\<rparr>) | _ \<Rightarrow> None)
          else None
      | WorkerDone i \<Rightarrow>
          if i < length (br_tasks b)
          then (case br_tasks b ! i of Released r \<Rightarrow> Some (advance b i (Finished r)) | _ \<Rightarrow> None) else None)"

fun play :: "('i \<Rightarrow> goerr + 'o \<Rightarrow> bool) \<Rightarrow> 'i list \<Rightarrow> bool \<Rightarrow> nat \<Rightarrow> 'o batch_event list \<Rightarrow> 'o batch_run \<Rightarrow>
    'o batch_run option" where
  "play answers items failFast conc [] b = Some b"
| "play answers items failFast conc (ev # evs) b =
     (case fire answers items failFast conc ev b of None \<Rightarrow> None | Some b' \<Rightarrow> play answers items failFast conc evs b')"

text \<open>The run of a batch under one interleaving, and what it returns once the loop has returned.\<close>

definition batch_state :: "('i \<Rightarrow> goerr + 'o \<Rightarrow> bool) \<Rightarrow> batch_options \<Rightarrow> int \<Rightarrow> 'i list \<Rightarrow> 'o batch_event list \<Rightarrow>
    'o batch_run option" where
  "batch_state answers opts defaultConc items evs =
     play answers items (normalized (bo_Policy opts) = PolicyFailFast) (effective_concurrency opts defaultConc) evs
       (batch_start (length items))"

definition batch_result :: "'o batch_run \<Rightarrow> 'o batch_output" where
  "batch_result b = \<lparr>bx_Total = length (br_tasks b), bx_Succeeded = br_succeeded b, bx_Failed = br_failedN b,
     bx_Results = br_results b\<rparr>"

definition runBatch :: "('i \<Rightarrow> goerr + 'o \<Rightarrow> bool) \<Rightarrow> batch_options \<Rightarrow> int \<Rightarrow> 'i list \<Rightarrow> 'o batch_event list \<Rightarrow>
    ('o batch_output \<times> 'o batch_item list) option" where
  "runBatch answers opts defaultConc items evs =
     (case batch_state answers opts defaultConc items evs of
        None \<Rightarrow> None
      | Some b \<Rightarrow> if br_point b = AtReturn then Some (batch_result b, br_sunk b) else None)"

section \<open>The invariant\<close>

definition holding :: "'o stage \<Rightarrow> bool" where
  "holding t = (case t of Calling \<Rightarrow> True | Stored _ \<Rightarrow> True | Counted _ \<Rightarrow> True | _ \<Rightarrow> False)"

definition outcome_of :: "'o stage \<Rightarrow> (goerr + 'o) option" where
  "outcome_of t = (case t of Idle \<Rightarrow> None | Calling \<Rightarrow> None | Stored r \<Rightarrow> Some r | Counted r \<Rightarrow> Some r
     | Released r \<Rightarrow> Some r | Finished r \<Rightarrow> Some r)"

definition counted :: "bool \<Rightarrow> 'o stage \<Rightarrow> bool" where
  "counted err t = (case t of Counted r \<Rightarrow> is_error r = err | Released r \<Rightarrow> is_error r = err
     | Finished r \<Rightarrow> is_error r = err | _ \<Rightarrow> False)"

definition slot :: "nat \<Rightarrow> 'o stage \<Rightarrow> 'o batch_item" where
  "slot i t = (case outcome_of t of None \<Rightarrow> skipped_item i | Some r \<Rightarrow> item_of i r)"

definition delivered :: "'o stage \<Rightarrow> bool" where
  "delivered t = (case t of Counted _ \<Rightarrow> True | Released _ \<Rightarrow> True | Finished _ \<Rightarrow> True | _ \<Rightarrow> False)"

text \<open>The slots hold the answers, the counters and the sink follow the counted items, and the semaphore the running ones.\<close>

definition slots_ok :: "('i \<Rightarrow> goerr + 'o \<Rightarrow> bool) \<Rightarrow> 'i list \<Rightarrow> 'o batch_run \<Rightarrow> bool" where
  "slots_ok answers items b \<longleftrightarrow> length (br_tasks b) = length items \<and> length (br_results b) = length items \<and>
     (\<forall>i < length items. br_results b ! i = slot i (br_tasks b ! i) \<and>
        (\<forall>r. outcome_of (br_tasks b ! i) = Some r \<longrightarrow> answers (items ! i) r))"

definition counters_ok :: "'o batch_run \<Rightarrow> bool" where
  "counters_ok b \<longleftrightarrow> br_succeeded b = length (filter (counted False) (br_tasks b)) \<and>
     br_failedN b = length (filter (counted True) (br_tasks b)) \<and>
     distinct (map bi_Index (br_sunk b)) \<and>
     set (br_sunk b) = (\<lambda>i. slot i (br_tasks b ! i)) ` {i. i < length (br_tasks b) \<and> delivered (br_tasks b ! i)}"

definition sem_ok :: "nat \<Rightarrow> 'o batch_run \<Rightarrow> bool" where
  "sem_ok conc b \<longleftrightarrow> br_sem b \<le> conc \<and>
     br_sem b = length (filter holding (br_tasks b)) + (if br_point b = AtRetest then 1 else 0)"

definition dispatch_ok :: "bool \<Rightarrow> 'o batch_run \<Rightarrow> bool" where
  "dispatch_ok failFast b \<longleftrightarrow> br_next b \<le> length (br_tasks b) \<and>
     (\<forall>i < length (br_tasks b). br_tasks b ! i = Idle \<longleftrightarrow> br_next b \<le> i) \<and>
     (br_point b \<in> {AtAcquire, AtRetest} \<longrightarrow> br_next b < length (br_tasks b)) \<and>
     (br_failed b \<longrightarrow> failFast \<and> (\<exists>i < length (br_tasks b). \<exists>e. outcome_of (br_tasks b ! i) = Some (Inl e))) \<and>
     (br_point b \<in> {AtWait, AtReturn} \<longrightarrow> br_next b = length (br_tasks b) \<or> br_canceled b \<or> br_failed b) \<and>
     (br_point b = AtReturn \<longrightarrow> list_all settled (br_tasks b))"

definition batch_inv :: "('i \<Rightarrow> goerr + 'o \<Rightarrow> bool) \<Rightarrow> 'i list \<Rightarrow> bool \<Rightarrow> nat \<Rightarrow> 'o batch_run \<Rightarrow> bool" where
  "batch_inv answers items failFast conc b \<longleftrightarrow>
     slots_ok answers items b \<and> counters_ok b \<and> sem_ok conc b \<and> dispatch_ok failFast b"

section \<open>Every event keeps the invariant\<close>

lemma stage_simps [simp]:
  "\<not> holding Idle" "holding Calling" "holding (Stored r)" "holding (Counted r)" "\<not> holding (Released r)" "\<not> holding (Finished r)"
  "outcome_of Idle = None" "outcome_of Calling = None" "outcome_of (Stored r) = Some r" "outcome_of (Counted r) = Some r"
  "outcome_of (Released r) = Some r" "outcome_of (Finished r) = Some r"
  "\<not> counted e Idle" "\<not> counted e Calling" "\<not> counted e (Stored r)" "counted e (Counted r) \<longleftrightarrow> is_error r = e"
  "counted e (Released r) \<longleftrightarrow> is_error r = e" "counted e (Finished r) \<longleftrightarrow> is_error r = e"
  "\<not> delivered Idle" "\<not> delivered Calling" "\<not> delivered (Stored r)" "delivered (Counted r)" "delivered (Released r)" "delivered (Finished r)"
  "settled Idle" "\<not> settled Calling" "\<not> settled (Stored r)" "\<not> settled (Counted r)" "\<not> settled (Released r)" "settled (Finished r)"
  by (simp_all add: holding_def outcome_of_def counted_def delivered_def settled_def)

lemma slot_simps [simp]:
  "slot i Idle = skipped_item i" "slot i Calling = skipped_item i" "slot i (Stored r) = item_of i r"
  "slot i (Counted r) = item_of i r" "slot i (Released r) = item_of i r" "slot i (Finished r) = item_of i r"
  by (simp_all add: slot_def)

lemma filter_update:
  "i < length xs \<Longrightarrow> length (filter P (xs[i := y])) + (if P (xs ! i) then 1 else 0) = length (filter P xs) + (if P y then 1 else 0)"
proof (induction xs arbitrary: i)
  case (Cons x xs)
  then show ?case
  proof (cases i)
    case (Suc j)
    with Cons.IH [of j] Cons.prems show ?thesis by (simp split: if_splits)
  qed simp
qed simp

lemma filter_length_mono: "(\<And>x. P x \<Longrightarrow> Q x) \<Longrightarrow> length (filter P xs) \<le> length (filter Q xs)"
  by (induction xs) (auto intro: le_SucI)

text \<open>What an event does, given the stage it applies to.\<close>

lemma fire_cases [consumes 1, case_names cancel test_stop test_go acquire retest_stop start wait answer count release finish]:
  assumes "fire answers items failFast conc ev b = Some b'"
  obtains "\<not> br_canceled b" "b' = b\<lparr>br_canceled := True\<rparr>"
  | "br_point b = AtTest" "length (br_tasks b) \<le> br_next b \<or> br_canceled b \<or> (failFast \<and> br_failed b)" "b' = b\<lparr>br_point := AtWait\<rparr>"
  | "br_point b = AtTest" "br_next b < length (br_tasks b)" "b' = b\<lparr>br_point := AtAcquire\<rparr>"
  | "br_point b = AtAcquire" "br_sem b < conc" "b' = b\<lparr>br_sem := Suc (br_sem b), br_point := AtRetest\<rparr>"
  | "br_point b = AtRetest" "failFast" "br_failed b" "b' = b\<lparr>br_sem := br_sem b - 1, br_point := AtWait\<rparr>"
  | "br_point b = AtRetest" "b' = (advance b (br_next b) Calling)\<lparr>br_next := Suc (br_next b), br_point := AtTest\<rparr>"
  | "br_point b = AtWait" "list_all settled (br_tasks b)" "b' = b\<lparr>br_point := AtReturn\<rparr>"
  | i r where "i < length (br_tasks b)" "br_tasks b ! i = Calling" "answers (items ! i) r" "b' = answer_step failFast i r b"
  | i r where "i < length (br_tasks b)" "br_tasks b ! i = Stored r" "b' = count_step i r b"
  | i r where "i < length (br_tasks b)" "br_tasks b ! i = Counted r" "b' = (advance b i (Released r))\<lparr>br_sem := br_sem b - 1\<rparr>"
  | i r where "i < length (br_tasks b)" "br_tasks b ! i = Released r" "b' = advance b i (Finished r)"
proof (cases ev)
  case CancelContext
  with assms have "\<not> br_canceled b" "b' = b\<lparr>br_canceled := True\<rparr>" by (simp_all add: fire_def split: if_splits)
  then show ?thesis by (rule that(1))
next
  case Loop
  with assms have step: "loop_step failFast conc b = Some b'" by (simp add: fire_def)
  show ?thesis
  proof (cases "br_point b")
    case AtTest
    with step that(2,3) show ?thesis by (simp add: loop_step_def split: if_splits)
  next
    case AtAcquire
    with step that(4) show ?thesis by (simp add: loop_step_def split: if_splits)
  next
    case AtRetest
    with step that(5,6) show ?thesis by (simp add: loop_step_def advance_def split: if_splits)
  next
    case AtWait
    with step that(7) show ?thesis by (simp add: loop_step_def split: if_splits)
  next
    case AtReturn
    with step show ?thesis by (simp add: loop_step_def)
  qed
next
  case (Answer i r)
  with assms have "i < length (br_tasks b)" "br_tasks b ! i = Calling" "answers (items ! i) r" "b' = answer_step failFast i r b"
    by (simp_all add: fire_def split: if_splits stage.splits)
  then show ?thesis by (rule that(8))
next
  case (Count i)
  with assms have i: "i < length (br_tasks b)" by (simp add: fire_def split: if_splits)
  with Count assms that(9) show ?thesis by (cases "br_tasks b ! i") (simp_all add: fire_def)
next
  case (Release i)
  with assms have i: "i < length (br_tasks b)" by (simp add: fire_def split: if_splits)
  with Release assms that(10) show ?thesis by (cases "br_tasks b ! i") (simp_all add: fire_def)
next
  case (WorkerDone i)
  with assms have i: "i < length (br_tasks b)" by (simp add: fire_def split: if_splits)
  with WorkerDone assms that(11) show ?thesis by (cases "br_tasks b ! i") (simp_all add: fire_def)
qed

lemma advance_simps [simp]:
  "br_results (advance b i t) = br_results b" "br_tasks (advance b i t) = (br_tasks b)[i := t]"
  "br_point (advance b i t) = br_point b" "br_next (advance b i t) = br_next b" "br_sem (advance b i t) = br_sem b"
  "br_failed (advance b i t) = br_failed b" "br_canceled (advance b i t) = br_canceled b"
  "br_succeeded (advance b i t) = br_succeeded b" "br_failedN (advance b i t) = br_failedN b" "br_sunk (advance b i t) = br_sunk b"
  by (simp_all add: advance_def)

lemma slots_ok_fire:
  assumes "fire answers items failFast conc ev b = Some b'" and "slots_ok answers items b" and "dispatch_ok failFast b"
  shows "slots_ok answers items b'"
  using assms
  by (cases rule: fire_cases)
    (auto simp: slots_ok_def dispatch_ok_def answer_step_def count_step_def nth_list_update)

lemma sem_ok_fire:
  assumes "fire answers items failFast conc ev b = Some b'" and "sem_ok conc b" and "dispatch_ok failFast b"
  shows "sem_ok conc b'"
  using assms
proof (cases rule: fire_cases)
  case start
  with assms have "br_next b < length (br_tasks b)" "br_tasks b ! br_next b = Idle" by (auto simp: dispatch_ok_def)
  with start assms filter_update [of "br_next b" "br_tasks b" holding Calling] show ?thesis
    by (auto simp: sem_ok_def)
next
  case (answer i r)
  with assms filter_update [of i "br_tasks b" holding "Stored r"] show ?thesis
    by (auto simp: sem_ok_def answer_step_def split: if_splits)
next
  case (count i r)
  with assms filter_update [of i "br_tasks b" holding "Counted r"] show ?thesis
    by (auto simp: sem_ok_def count_step_def split: if_splits)
next
  case (release i r)
  with assms filter_update [of i "br_tasks b" holding "Released r"] show ?thesis
    by (auto simp: sem_ok_def split: if_splits)
next
  case (finish i r)
  with assms filter_update [of i "br_tasks b" holding "Finished r"] show ?thesis
    by (auto simp: sem_ok_def split: if_splits)
qed (auto simp: sem_ok_def)

lemma counters_ok_keep:
  assumes "counters_ok b" and "br_tasks b' = (br_tasks b)[i := t]" and "i < length (br_tasks b)"
    and "\<And>e. counted e t = counted e (br_tasks b ! i)" "delivered t = delivered (br_tasks b ! i)"
    and "delivered t \<Longrightarrow> slot i t = slot i (br_tasks b ! i)"
    and "br_succeeded b' = br_succeeded b" "br_failedN b' = br_failedN b" "br_sunk b' = br_sunk b"
  shows "counters_ok b'"
proof -
  have count: "length (filter (counted e) ((br_tasks b)[i := t])) = length (filter (counted e) (br_tasks b))" for e
    using filter_update [OF assms(3), of "counted e" t] assms(4) by (simp split: if_splits)
  have "delivered ((br_tasks b)[i := t] ! j) = delivered (br_tasks b ! j)" for j
    using assms(3,5) by (cases "j = i") auto
  moreover have "slot j ((br_tasks b)[i := t] ! j) = slot j (br_tasks b ! j)" if "delivered (br_tasks b ! j)" for j
    using assms(3,5,6) that by (cases "j = i") auto
  ultimately have "(\<lambda>j. slot j ((br_tasks b)[i := t] ! j)) ` {j. j < length (br_tasks b) \<and> delivered ((br_tasks b)[i := t] ! j)}
    = (\<lambda>j. slot j (br_tasks b ! j)) ` {j. j < length (br_tasks b) \<and> delivered (br_tasks b ! j)}"
    by (intro image_cong) auto
  with count show ?thesis using assms(1,2,7-9) by (simp add: counters_ok_def)
qed

lemma bi_Index_slot [simp]: "bi_Index (slot i t) = i" "bi_Index (item_of i r) = i" "bi_Index (skipped_item i) = i"
  by (simp_all add: slot_def item_of_def skipped_item_def split: option.splits sum.splits)

lemma counters_ok_count:
  assumes "counters_ok b" and "i < length (br_tasks b)" and "br_tasks b ! i = Stored r"
  shows "counters_ok (count_step i r b)"
proof -
  let ?ts = "(br_tasks b)[i := Counted r]"
  let ?old = "{j. j < length (br_tasks b) \<and> delivered (br_tasks b ! j)}"
  have count: "length (filter (counted e) ?ts) = length (filter (counted e) (br_tasks b)) + (if is_error r = e then 1 else 0)" for e
    using filter_update [OF assms(2), of "counted e" "Counted r"] assms(3) by simp
  have "i \<notin> ?old" using assms(3) by simp
  then have "{j. j < length (br_tasks b) \<and> delivered (?ts ! j)} = insert i ?old"
    and "(\<lambda>j. slot j (?ts ! j)) ` ?old = (\<lambda>j. slot j (br_tasks b ! j)) ` ?old"
    using assms(2) by (auto simp: nth_list_update intro!: image_cong)
  then have "set (br_sunk b @ [item_of i r]) = (\<lambda>j. slot j (?ts ! j)) ` {j. j < length (br_tasks b) \<and> delivered (?ts ! j)}"
    using assms by (simp add: counters_ok_def)
  moreover have "i \<notin> bi_Index ` set (br_sunk b)"
    using assms(1,3) by (auto simp: counters_ok_def)
  ultimately show ?thesis
    using assms(1) count by (simp add: counters_ok_def count_step_def)
qed

lemma counters_ok_fire:
  assumes "fire answers items failFast conc ev b = Some b'" and "counters_ok b" and "dispatch_ok failFast b"
  shows "counters_ok b'"
  using assms
proof (cases rule: fire_cases)
  case start
  with assms(3) have "br_next b < length (br_tasks b)" "br_tasks b ! br_next b = Idle" by (auto simp: dispatch_ok_def)
  with start show ?thesis
    by (intro counters_ok_keep [OF assms(2), where i = "br_next b" and t = Calling]) simp_all
next
  case (answer i r)
  then show ?thesis
    by (intro counters_ok_keep [OF assms(2), where i = i and t = "Stored r"]) (simp_all add: answer_step_def)
next
  case (count i r)
  with assms(2) show ?thesis by (simp add: counters_ok_count)
next
  case (release i r)
  then show ?thesis by (intro counters_ok_keep [OF assms(2), where i = i and t = "Released r"]) simp_all
next
  case (finish i r)
  then show ?thesis by (intro counters_ok_keep [OF assms(2), where i = i and t = "Finished r"]) simp_all
qed (use assms(2) in \<open>simp_all add: counters_ok_def\<close>)

text \<open>Advancing a started item changes nothing the dispatch loop relies on.\<close>

lemma dispatch_ok_advance:
  assumes "dispatch_ok failFast b" and "br_tasks b' = (br_tasks b)[i := t]" and "i < length (br_tasks b)"
    and "br_tasks b ! i \<noteq> Idle" "\<not> settled (br_tasks b ! i)" "t \<noteq> Idle"
    and "\<forall>e. outcome_of (br_tasks b ! i) = Some e \<longrightarrow> outcome_of t = Some e"
    and "br_failed b' \<longrightarrow> br_failed b \<or> (failFast \<and> (\<exists>e. outcome_of t = Some (Inl e)))" "br_failed b \<longrightarrow> br_failed b'"
    and "br_point b' = br_point b" "br_next b' = br_next b" "br_canceled b' = br_canceled b"
  shows "dispatch_ok failFast b'"
proof -
  have "br_point b \<noteq> AtReturn" using assms(1,3,5) by (auto simp: dispatch_ok_def list_all_length)
  moreover have "\<exists>j < length (br_tasks b). \<exists>e. outcome_of ((br_tasks b)[i := t] ! j) = Some (Inl e)" if failed: "br_failed b'"
  proof (cases "br_failed b")
    case True
    with assms(1) obtain j e where "j < length (br_tasks b)" "outcome_of (br_tasks b ! j) = Some (Inl e)"
      by (auto simp: dispatch_ok_def)
    with assms(3,7) have "outcome_of ((br_tasks b)[i := t] ! j) = Some (Inl e)" by (cases "j = i") auto
    with \<open>j < length (br_tasks b)\<close> show ?thesis by blast
  next
    case False
    with failed assms(3,8) show ?thesis by (intro exI [of _ i]) auto
  qed
  ultimately show ?thesis using assms by (auto simp: dispatch_ok_def nth_list_update)
qed

lemma dispatch_ok_fire:
  assumes "fire answers items failFast conc ev b = Some b'" and "dispatch_ok failFast b"
  shows "dispatch_ok failFast b'"
  using assms
proof (cases rule: fire_cases)
  case start
  have "\<exists>j < length (br_tasks b). \<exists>e. outcome_of ((br_tasks b)[br_next b := Calling] ! j) = Some (Inl e)" if "br_failed b"
  proof -
    from assms(2) that obtain j e where j: "j < length (br_tasks b)" "outcome_of (br_tasks b ! j) = Some (Inl e)"
      by (auto simp: dispatch_ok_def)
    with assms(2) have "j \<noteq> br_next b" by (auto simp: dispatch_ok_def)
    with j show ?thesis by (intro exI [of _ j] exI [of _ e]) simp
  qed
  with start assms(2) show ?thesis by (auto simp: dispatch_ok_def nth_list_update)
next
  case (answer i r)
  then show ?thesis
    by (intro dispatch_ok_advance [OF assms(2), where i = i and t = "Stored r"])
      (auto simp: answer_step_def is_error_def split: sum.splits)
next
  case (count i r)
  then show ?thesis
    by (intro dispatch_ok_advance [OF assms(2), where i = i and t = "Counted r"]) (simp_all add: count_step_def)
next
  case (release i r)
  then show ?thesis by (intro dispatch_ok_advance [OF assms(2), where i = i and t = "Released r"]) simp_all
next
  case (finish i r)
  then show ?thesis by (intro dispatch_ok_advance [OF assms(2), where i = i and t = "Finished r"]) simp_all
qed (use assms(2) in \<open>auto simp: dispatch_ok_def\<close>)

lemma batch_inv_fire:
  "fire answers items failFast conc ev b = Some b' \<Longrightarrow> batch_inv answers items failFast conc b \<Longrightarrow>
   batch_inv answers items failFast conc b'"
  unfolding batch_inv_def by (metis slots_ok_fire counters_ok_fire sem_ok_fire dispatch_ok_fire)

lemma batch_inv_start: "batch_inv answers items failFast conc (batch_start (length items))"
proof -
  have "filter P (replicate n Idle) = []" if "\<not> P (Idle :: 'b stage)" for P and n by (simp add: that)
  then show ?thesis
    by (auto simp: batch_inv_def slots_ok_def counters_ok_def sem_ok_def dispatch_ok_def batch_start_def)
qed

lemma batch_inv_play:
  "play answers items failFast conc evs b = Some b' \<Longrightarrow> batch_inv answers items failFast conc b \<Longrightarrow>
   batch_inv answers items failFast conc b'"
  by (induction evs arbitrary: b) (auto dest: batch_inv_fire split: option.splits)

lemma batch_state_inv:
  "batch_state answers opts defaultConc items evs = Some b \<Longrightarrow>
   batch_inv answers items (normalized (bo_Policy opts) = PolicyFailFast) (effective_concurrency opts defaultConc) b"
  unfolding batch_state_def by (rule batch_inv_play [OF _ batch_inv_start])

section \<open>What a batch returns\<close>

lemma fire_canceled:
  "fire answers items failFast conc ev b = Some b' \<Longrightarrow> br_canceled b' \<Longrightarrow> br_canceled b \<or> ev = CancelContext"
  by (auto simp: fire_def loop_step_def answer_step_def count_step_def
      split: batch_event.splits loop_point.splits stage.splits if_splits)

lemma play_canceled:
  "play answers items failFast conc evs b = Some b' \<Longrightarrow> br_canceled b' \<Longrightarrow> br_canceled b \<or> CancelContext \<in> set evs"
  by (induction evs arbitrary: b) (auto dest: fire_canceled split: option.splits)

definition has_status :: "item_status \<Rightarrow> 'o batch_item \<Rightarrow> bool" where
  "has_status st it \<longleftrightarrow> bi_Status it = st"

lemma has_status_slot [simp]:
  "has_status ItemSkipped (skipped_item i)" "\<not> has_status ItemOK (skipped_item i)" "\<not> has_status ItemError (skipped_item i)"
  "\<not> has_status ItemSkipped (item_of i r)" "has_status ItemOK (item_of i r) \<longleftrightarrow> \<not> is_error r"
  "has_status ItemError (item_of i r) \<longleftrightarrow> is_error r"
  by (auto simp: has_status_def skipped_item_def item_of_def is_error_def split: sum.splits)

lemma filter_length_nth: "length xs = length ys \<Longrightarrow> (\<And>i. i < length xs \<Longrightarrow> P (xs ! i) = Q (ys ! i)) \<Longrightarrow>
   length (filter P xs) = length (filter Q ys)"
proof (induction xs ys rule: list_induct2)
  case (Cons x xs y ys)
  from Cons.prems [of 0] have "P x = Q y" by simp
  moreover have "length (filter P xs) = length (filter Q ys)" using Cons.prems [of "Suc _"] by (intro Cons.IH) simp
  ultimately show ?case by simp
qed simp

text \<open>A returned batch: a prefix of the items has run and is settled, the rest is untouched.\<close>

lemma returned_tasks:
  assumes "batch_inv answers items failFast conc b" and "br_point b = AtReturn"
  shows "(\<forall>i < br_next b. \<exists>r. br_tasks b ! i = Finished r \<and> answers (items ! i) r \<and> br_results b ! i = item_of i r) \<and>
    (\<forall>i. br_next b \<le> i \<longrightarrow> i < length items \<longrightarrow> br_tasks b ! i = Idle \<and> br_results b ! i = skipped_item i)"
proof (intro conjI allI impI)
  fix i assume i: "i < br_next b"
  then have "i < length (br_tasks b)" "br_tasks b ! i \<noteq> Idle" "settled (br_tasks b ! i)"
    using assms by (auto simp: batch_inv_def dispatch_ok_def list_all_length)
  then obtain r where r: "br_tasks b ! i = Finished r" by (cases "br_tasks b ! i") auto
  moreover have "answers (items ! i) r" "br_results b ! i = item_of i r"
    using r assms(1) \<open>i < length (br_tasks b)\<close> by (auto simp: batch_inv_def slots_ok_def)
  ultimately show "\<exists>r. br_tasks b ! i = Finished r \<and> answers (items ! i) r \<and> br_results b ! i = item_of i r" by blast
next
  fix i assume i: "br_next b \<le> i" "i < length items"
  from assms(1) have disp: "dispatch_ok failFast b" and slots: "slots_ok answers items b" by (simp_all add: batch_inv_def)
  from slots have len: "length (br_tasks b) = length items" by (simp add: slots_ok_def)
  with disp i show idle: "br_tasks b ! i = Idle" by (simp add: dispatch_ok_def)
  from slots i(2) have "br_results b ! i = slot i (br_tasks b ! i)" by (simp add: slots_ok_def)
  with idle show "br_results b ! i = skipped_item i" by simp
qed

lemma returned_sunk:
  assumes "batch_inv answers items failFast conc b" and "br_point b = AtReturn"
  shows "mset (br_sunk b) = mset (take (br_next b) (br_results b))"
proof -
  note ran = returned_tasks [OF assms]
  have len: "br_next b \<le> length (br_tasks b)" "length (br_results b) = length (br_tasks b)" "length items = length (br_tasks b)"
    using assms(1) by (auto simp: batch_inv_def dispatch_ok_def slots_ok_def)
  have results: "br_results b ! i = slot i (br_tasks b ! i)" if "i < length (br_tasks b)" for i
    using assms(1) that len by (simp add: batch_inv_def slots_ok_def)
  have "delivered (br_tasks b ! i) \<longleftrightarrow> i < br_next b" if "i < length (br_tasks b)" for i
    using ran len that by (cases "i < br_next b") (force, simp)
  then have "{i. i < length (br_tasks b) \<and> delivered (br_tasks b ! i)} = {..<br_next b}" using len by auto
  then have "set (br_sunk b) = (\<lambda>i. slot i (br_tasks b ! i)) ` {..<br_next b}"
    using assms(1) by (simp add: batch_inv_def counters_ok_def)
  also have "\<dots> = (\<lambda>i. br_results b ! i) ` {..<br_next b}" using len results by (intro image_cong) auto
  also have "\<dots> = set (take (br_next b) (br_results b))" using len nth_image [of "br_next b" "br_results b"] by (simp add: lessThan_atLeast0)
  finally have "set (br_sunk b) = set (take (br_next b) (br_results b))" .
  moreover have "distinct (br_sunk b)"
    using assms(1) by (auto simp: batch_inv_def counters_ok_def distinct_map)
  moreover have "map bi_Index (br_results b) = [0..<length (br_results b)]"
    using len results by (intro nth_equalityI) auto
  then have "distinct (br_results b)" by (metis distinct_map distinct_upt)
  ultimately show ?thesis by (simp add: set_eq_iff_mset_eq_distinct)
qed

lemma returned_counts:
  assumes "batch_inv answers items failFast conc b" and "br_point b = AtReturn"
  shows "br_succeeded b = length (filter (has_status ItemOK) (br_results b)) \<and>
    br_failedN b = length (filter (has_status ItemError) (br_results b))"
proof -
  note ran = returned_tasks [OF assms]
  have len: "length (br_results b) = length (br_tasks b)" "length items = length (br_tasks b)"
    using assms(1) by (auto simp: batch_inv_def slots_ok_def)
  have "counted False (br_tasks b ! i) = has_status ItemOK (br_results b ! i) \<and>
    counted True (br_tasks b ! i) = has_status ItemError (br_results b ! i)" if "i < length (br_tasks b)" for i
    using ran len that by (cases "i < br_next b") (fastforce, simp)
  with len assms(1) show ?thesis
    by (simp add: batch_inv_def counters_ok_def filter_length_nth [where xs = "br_tasks b" and ys = "br_results b"])
qed

lemma runBatch_slots:
  assumes "runBatch answers opts defaultConc items evs = Some (out, sunk)"
  shows "bx_Total out = length items" "length (bx_Results out) = length items"
    "i < length items \<Longrightarrow> bx_Results out ! i = skipped_item i \<or> (\<exists>r. answers (items ! i) r \<and> bx_Results out ! i = item_of i r)"
proof -
  from assms obtain b where st: "batch_state answers opts defaultConc items evs = Some b" and out: "out = batch_result b"
    by (auto simp: runBatch_def split: option.splits if_splits)
  from batch_state_inv [OF st] have ok: "slots_ok answers items b" by (simp add: batch_inv_def)
  then show "bx_Total out = length items" "length (bx_Results out) = length items"
    by (simp_all add: out batch_result_def slots_ok_def)
  assume "i < length items"
  with ok show "bx_Results out ! i = skipped_item i \<or> (\<exists>r. answers (items ! i) r \<and> bx_Results out ! i = item_of i r)"
    by (auto simp: out batch_result_def slots_ok_def slot_def split: option.splits)
qed

text \<open>
  Claim C23: a batch answers every item with its own result, under any interleaving. When the batch
  returns, the results are in request order; a prefix of the items has run, each with an answer
  its operation gave to that item, and the rest is marked skipped; the rest is empty unless the
  context was cancelled, or the policy is fail-fast and an item that ran has failed. The
  counters are the numbers of ok and error results, and the sink received every item that ran
  exactly once, and nothing else.
\<close>

theorem batch_answers_each_item:
  assumes "runBatch answers opts defaultConc items evs = Some (out, sunk)"
  shows "bx_Total out = length items \<and> length (bx_Results out) = length items \<and>
    (\<exists>k \<le> length items.
       (\<forall>i < k. \<exists>r. answers (items ! i) r \<and> bx_Results out ! i = item_of i r) \<and>
       (\<forall>i. k \<le> i \<longrightarrow> i < length items \<longrightarrow> bx_Results out ! i = skipped_item i) \<and>
       (k < length items \<longrightarrow> CancelContext \<in> set evs \<or>
          normalized (bo_Policy opts) = PolicyFailFast \<and> (\<exists>i < k. has_status ItemError (bx_Results out ! i))) \<and>
       mset sunk = mset (take k (bx_Results out))) \<and>
    bx_Succeeded out = length (filter (has_status ItemOK) (bx_Results out)) \<and>
    bx_Failed out = length (filter (has_status ItemError) (bx_Results out))"
proof -
  from assms obtain b where st: "batch_state answers opts defaultConc items evs = Some b"
    and ret: "br_point b = AtReturn" and out: "out = batch_result b" "sunk = br_sunk b"
    by (auto simp: runBatch_def split: option.splits if_splits)
  let ?ff = "normalized (bo_Policy opts) = PolicyFailFast"
  note inv = batch_state_inv [OF st]
  note ran = returned_tasks [OF inv ret]
  have len: "length (br_tasks b) = length items" "length (br_results b) = length items" "br_next b \<le> length items"
    using inv by (auto simp: batch_inv_def slots_ok_def dispatch_ok_def)
  have cancel: "br_canceled b \<longrightarrow> CancelContext \<in> set evs"
    using st play_canceled by (fastforce simp: batch_state_def batch_start_def)
  have failed: "?ff \<and> (\<exists>i < br_next b. has_status ItemError (br_results b ! i))" if "br_failed b"
  proof -
    from inv that obtain i e where i: "i < length (br_tasks b)" "outcome_of (br_tasks b ! i) = Some (Inl e)" and ff: ?ff
      by (auto simp: batch_inv_def dispatch_ok_def)
    then have "i < br_next b" using ran len by (metis not_less option.simps(3) stage_simps(7))
    with ran i have "has_status ItemError (br_results b ! i)" by (fastforce simp: is_error_def)
    with ff \<open>i < br_next b\<close> show ?thesis by blast
  qed
  have "br_next b < length items \<longrightarrow> br_canceled b \<or> br_failed b"
    using inv ret len by (auto simp: batch_inv_def dispatch_ok_def)
  with cancel failed have stopped: "br_next b < length items \<longrightarrow> CancelContext \<in> set evs \<or>
      ?ff \<and> (\<exists>i < br_next b. has_status ItemError (br_results b ! i))" by blast
  from ran len stopped returned_sunk [OF inv ret] have
    "\<exists>k \<le> length items. (\<forall>i < k. \<exists>r. answers (items ! i) r \<and> br_results b ! i = item_of i r) \<and>
       (\<forall>i. k \<le> i \<longrightarrow> i < length items \<longrightarrow> br_results b ! i = skipped_item i) \<and>
       (k < length items \<longrightarrow> CancelContext \<in> set evs \<or> ?ff \<and> (\<exists>i < k. has_status ItemError (br_results b ! i))) \<and>
       mset (br_sunk b) = mset (take k (br_results b))"
    by (intro exI [of _ "br_next b"]) blast
  with returned_counts [OF inv ret] len show ?thesis by (simp add: out batch_result_def)
qed

text \<open>Three items, of which the second fails, two at a time; the second finishes before the first.\<close>

definition demo_answers :: "nat \<Rightarrow> goerr + nat \<Rightarrow> bool" where
  "demo_answers x r \<longleftrightarrow> r = (if x = 0 then Inl (PlainError ''zero'') else Inr (2 * x))"

definition demo_events :: "nat batch_event list" where
  "demo_events = [Loop, Loop, Loop, Loop, Loop, Loop, Answer 1 (Inl (PlainError ''zero'')), Count 1, Loop, Answer 0 (Inr 14),
     Release 1, Count 0, Release 0, WorkerDone 0, WorkerDone 1, Loop]"

lemma demo_batch_returns:
  "case runBatch demo_answers \<lparr>bo_Policy = ''fail-fast'', bo_Concurrency = 0\<rparr> 2 [7, 0, 3] demo_events of
     Some (out, sunk) \<Rightarrow> bx_Succeeded out = 1 \<and> bx_Failed out = 1 \<and> map bi_Index sunk = [1, 0] \<and>
       map bi_Status (bx_Results out) = [ItemOK, ItemError, ItemSkipped]
   | None \<Rightarrow> False"
  by code_simp

theorem batch_answers_each_item_witness:
  "case runBatch demo_answers \<lparr>bo_Policy = ''fail-fast'', bo_Concurrency = 0\<rparr> 2 [7, 0, 3] demo_events of
     Some (out, sunk) \<Rightarrow> bx_Total out = 3 \<and> length (bx_Results out) = 3
   | None \<Rightarrow> False"
  using demo_batch_returns batch_answers_each_item [of demo_answers "\<lparr>bo_Policy = ''fail-fast'', bo_Concurrency = 0\<rparr>" 2 "[7, 0, 3]" demo_events]
  by (auto split: option.splits)

section \<open>Every batch returns\<close>

fun stage_work :: "'o stage \<Rightarrow> nat" where
  "stage_work Idle = 0"
| "stage_work Calling = 4"
| "stage_work (Stored _) = 3"
| "stage_work (Counted _) = 2"
| "stage_work (Released _) = 1"
| "stage_work (Finished _) = 0"

definition loop_work :: "'o batch_run \<Rightarrow> nat" where
  "loop_work b = (case br_point b of
       AtTest \<Rightarrow> 7 * (length (br_tasks b) - br_next b) + 2
     | AtAcquire \<Rightarrow> 7 * (length (br_tasks b) - br_next b) + 1
     | AtRetest \<Rightarrow> 7 * (length (br_tasks b) - br_next b)
     | AtWait \<Rightarrow> 1
     | AtReturn \<Rightarrow> 0)"

definition batch_work :: "'o batch_run \<Rightarrow> nat" where
  "batch_work b = (if br_canceled b then 0 else 1) + sum_list (map stage_work (br_tasks b)) + loop_work b"

lemma stage_work_update:
  "i < length xs \<Longrightarrow> sum_list (map stage_work (xs[i := y])) + stage_work (xs ! i) = sum_list (map stage_work xs) + stage_work y"
  by (induction xs arbitrary: i) (auto split: nat.splits)

lemma fire_decreases:
  assumes "fire answers items failFast conc ev b = Some b'" and "dispatch_ok failFast b"
  shows "batch_work b' < batch_work b"
  using assms
proof (cases rule: fire_cases)
  case start
  with assms(2) have "br_next b < length (br_tasks b)" "br_tasks b ! br_next b = Idle" by (auto simp: dispatch_ok_def)
  with start stage_work_update [of "br_next b" "br_tasks b" Calling] show ?thesis
    by (simp add: batch_work_def loop_work_def)
next
  case (answer i r)
  with stage_work_update [of i "br_tasks b" "Stored r"] show ?thesis
    by (simp add: batch_work_def loop_work_def answer_step_def split: loop_point.splits)
next
  case (count i r)
  with stage_work_update [of i "br_tasks b" "Counted r"] show ?thesis
    by (simp add: batch_work_def loop_work_def count_step_def split: loop_point.splits)
next
  case (release i r)
  with stage_work_update [of i "br_tasks b" "Released r"] show ?thesis
    by (simp add: batch_work_def loop_work_def split: loop_point.splits)
next
  case (finish i r)
  with stage_work_update [of i "br_tasks b" "Finished r"] show ?thesis
    by (simp add: batch_work_def loop_work_def split: loop_point.splits)
qed (use assms(2) in \<open>auto simp: batch_work_def loop_work_def dispatch_ok_def split: loop_point.splits\<close>)

lemma play_bounded:
  "play answers items failFast conc evs b = Some b' \<Longrightarrow> dispatch_ok failFast b \<Longrightarrow>
   length evs + batch_work b' \<le> batch_work b"
proof (induction evs arbitrary: b)
  case (Cons ev evs)
  then obtain b1 where b1: "fire answers items failFast conc ev b = Some b1" "play answers items failFast conc evs b1 = Some b'"
    by (auto split: option.splits)
  from Cons.IH [OF b1(2) dispatch_ok_fire [OF b1(1) Cons.prems(2)]] fire_decreases [OF b1(1) Cons.prems(2)] show ?case by simp
qed simp

lemma unsettled_fires:
  assumes "i < length items" and "length (br_tasks b) = length items" and "\<not> settled (br_tasks b ! i)"
    and "\<forall>it \<in> set items. \<exists>r. answers it r"
  shows "\<exists>ev b'. fire answers items failFast conc ev b = Some b'"
proof (cases "br_tasks b ! i")
  case Calling
  from assms(1,4) obtain r where "answers (items ! i) r" by fastforce
  with Calling assms(1,2) have "fire answers items failFast conc (Answer i r) b = Some (answer_step failFast i r b)"
    by (simp add: fire_def)
  then show ?thesis by blast
next
  case (Stored r)
  with assms(1,2) have "fire answers items failFast conc (Count i) b = Some (count_step i r b)" by (simp add: fire_def)
  then show ?thesis by blast
next
  case (Counted r)
  with assms(1,2) have "fire answers items failFast conc (Release i) b = Some ((advance b i (Released r))\<lparr>br_sem := br_sem b - 1\<rparr>)"
    by (simp add: fire_def)
  then show ?thesis by blast
next
  case (Released r)
  with assms(1,2) have "fire answers items failFast conc (WorkerDone i) b = Some (advance b i (Finished r))" by (simp add: fire_def)
  then show ?thesis by blast
qed (use assms(3) in auto)

lemma batch_progress:
  assumes inv: "batch_inv answers items failFast conc b" and "0 < conc" and "br_point b \<noteq> AtReturn"
    and answered: "\<forall>it \<in> set items. \<exists>r. answers it r"
  shows "\<exists>ev b'. fire answers items failFast conc ev b = Some b'"
proof (cases "loop_step failFast conc b")
  case (Some b')
  then have "fire answers items failFast conc Loop b = Some b'" by (simp add: fire_def)
  then show ?thesis by blast
next
  case None
  have len: "length (br_tasks b) = length items" using inv by (simp add: batch_inv_def slots_ok_def)
  have "\<exists>i < length (br_tasks b). \<not> settled (br_tasks b ! i)"
  proof (cases "br_point b = AtAcquire")
    case True
    with None inv \<open>0 < conc\<close> have "filter holding (br_tasks b) \<noteq> []"
      by (auto simp: loop_step_def batch_inv_def sem_ok_def split: if_splits)
    then obtain t where "t \<in> set (br_tasks b)" "holding t" by (auto simp: filter_empty_conv)
    moreover from this(2) have "\<not> settled t" by (cases t) simp_all
    ultimately obtain i where "i < length (br_tasks b)" "\<not> settled (br_tasks b ! i)" by (auto simp: in_set_conv_nth)
    then show ?thesis by blast
  next
    case False
    with None assms(3) have "\<not> list_all settled (br_tasks b)"
      by (auto simp: loop_step_def split: loop_point.splits if_splits)
    then show ?thesis by (simp add: list_all_length)
  qed
  with len answered unsettled_fires show ?thesis by metis
qed

lemma batch_completes:
  assumes "0 < conc" and "\<forall>it \<in> set items. \<exists>r. answers it r"
  shows "batch_inv answers items failFast conc b \<Longrightarrow>
    \<exists>evs b'. play answers items failFast conc evs b = Some b' \<and> br_point b' = AtReturn"
proof (induction "batch_work b" arbitrary: b rule: less_induct)
  case less
  show ?case
  proof (cases "br_point b = AtReturn")
    case True
    then show ?thesis by (intro exI [of _ "[]"]) simp
  next
    case False
    from batch_progress [OF less.prems assms(1) False assms(2)] obtain ev b1 where
      b1: "fire answers items failFast conc ev b = Some b1" by blast
    then have "batch_work b1 < batch_work b" using fire_decreases less.prems by (auto simp: batch_inv_def)
    from less.hyps [OF this batch_inv_fire [OF b1 less.prems]] obtain evs b' where
      "play answers items failFast conc evs b1 = Some b'" "br_point b' = AtReturn" by blast
    with b1 show ?thesis by (intro exI [of _ "ev # evs"]) simp
  qed
qed

lemma play_append:
  "play answers items failFast conc (evs @ evs') b =
     (case play answers items failFast conc evs b of None \<Rightarrow> None | Some b' \<Rightarrow> play answers items failFast conc evs' b')"
  by (induction evs arbitrary: b) (auto split: option.splits)

lemma effective_concurrency_pos: "0 < effective_concurrency opts defaultConc"
  by (simp add: effective_concurrency_def Let_def)

text \<open>
  Claim C24: a batch always returns and never runs more at once than it may. Whatever the
  interleaving so far, at most the effective concurrency of items is inside the operation, at
  most seven events per item and three more have happened, and, as long as the
  operation answers every item, the run can be continued until the batch returns: it is never
  stuck on its semaphore or its wait group.
\<close>

theorem batch_always_returns:
  assumes "batch_state answers opts defaultConc items evs = Some b"
    and "\<forall>it \<in> set items. \<exists>r. answers it r"
  shows "length (filter (\<lambda>t. t = Calling) (br_tasks b)) \<le> effective_concurrency opts defaultConc \<and>
    length evs \<le> 7 * length items + 3 \<and>
    (\<exists>evs' out. runBatch answers opts defaultConc items (evs @ evs') = Some out)"
proof (intro conjI)
  let ?ff = "normalized (bo_Policy opts) = PolicyFailFast" and ?conc = "effective_concurrency opts defaultConc"
  note inv = batch_state_inv [OF assms(1)]
  have "length (filter (\<lambda>t. t = Calling) (br_tasks b)) \<le> length (filter holding (br_tasks b))"
    by (intro filter_length_mono) auto
  also have "\<dots> \<le> ?conc" using inv by (auto simp: batch_inv_def sem_ok_def split: if_splits)
  finally show "length (filter (\<lambda>t. t = Calling) (br_tasks b)) \<le> ?conc" .
  have "dispatch_ok ?ff (batch_start (length items))"
    using batch_inv_start by (auto simp: batch_inv_def)
  from play_bounded [OF assms(1) [unfolded batch_state_def] this] show "length evs \<le> 7 * length items + 3"
    by (simp add: batch_work_def loop_work_def batch_start_def sum_list_replicate)
  from batch_completes [OF effective_concurrency_pos assms(2) inv] obtain evs' b' where
    "play answers items ?ff ?conc evs' b = Some b'" "br_point b' = AtReturn" by blast
  with assms(1) have "runBatch answers opts defaultConc items (evs @ evs') = Some (batch_result b', br_sunk b')"
    by (simp add: runBatch_def batch_state_def play_append)
  then show "\<exists>evs' out. runBatch answers opts defaultConc items (evs @ evs') = Some out" by blast
qed

theorem batch_always_returns_witness:
  "\<exists>evs' out. runBatch demo_answers \<lparr>bo_Policy = [], bo_Concurrency = 1\<rparr> 2 [7, 0, 3] ([Loop, Loop, Loop, CancelContext] @ evs') = Some out"
proof -
  let ?o = "\<lparr>bo_Policy = [], bo_Concurrency = 1\<rparr>"
  have "batch_state demo_answers ?o 2 [7, 0, 3] [Loop, Loop, Loop, CancelContext] \<noteq> None" by code_simp
  then obtain b where b: "batch_state demo_answers ?o 2 [7, 0, 3] [Loop, Loop, Loop, CancelContext] = Some b" by blast
  have "\<forall>it \<in> set [7, 0, 3]. \<exists>r. demo_answers it r" by (simp add: demo_answers_def)
  from batch_always_returns [OF b this] show ?thesis by blast
qed

end
