(* ===== verification/Ocsp_Cache.thy ===== *)
theory Ocsp_Cache
  imports Prelude
begin

text \<open>
  The OCSP answer cache (internal/ocspcache/cache.go): a bounded map from certificate and
  responder to the last answer, with a lifetime taken from the answer and the configuration.
  The digest that builds the key is an argument, since it is \<^verbatim>\<open>sha256\<close> of the standard
  library followed by a hexadecimal rendering.
\<close>

section \<open>State\<close>

record ocsp_config =
  oc_TTL :: dur
  oc_RevokedTTL :: dur
  oc_MaxEntries :: int

record ocsp_answer =
  oe_Revoked :: bool
  oe_Reason :: string
  oe_RevocationTime :: "time option"
  oe_ThisUpdate :: "time option"
  oe_NextUpdate :: "time option"
  oe_ProducedAt :: "time option"
  oe_Response :: bytes

record ocsp_entry =
  en_value :: ocsp_answer
  en_expires :: time
  en_seq :: "64 word"

record ocsp_cache =
  oc_cfg :: ocsp_config
  oc_entries :: "(string, ocsp_entry) gomap"
  oc_seq :: "64 word"
  oc_hits :: "64 word"
  oc_misses :: "64 word"
  oc_stapled :: "64 word"

definition ocsp_New :: "ocsp_config \<Rightarrow> ocsp_cache" where
  "ocsp_New cfg =
     (let cfg = (if oc_TTL cfg \<le> 0 then cfg\<lparr>oc_TTL := 10 * Minute\<rparr> else cfg);
          cfg = (if oc_RevokedTTL cfg \<le> 0 then cfg\<lparr>oc_RevokedTTL := 24 * Hour\<rparr> else cfg);
          cfg = (if oc_MaxEntries cfg \<le> 0 then cfg\<lparr>oc_MaxEntries := 4096\<rparr> else cfg)
      in \<lparr>oc_cfg = cfg, oc_entries = [], oc_seq = 0, oc_hits = 0, oc_misses = 0, oc_stapled = 0\<rparr>)"

section \<open>Operations\<close>

definition cache_key :: "(bytes \<Rightarrow> string) \<Rightarrow> bytes \<Rightarrow> string \<Rightarrow> string" where
  "cache_key sumhex certDER responder = sumhex certDER @ [CHR 0x00] @ responder"

definition ocsp_Lookup :: "(bytes \<Rightarrow> string) \<Rightarrow> ocsp_cache \<Rightarrow> bytes \<Rightarrow> string \<Rightarrow> time \<Rightarrow>
    ocsp_answer option \<times> ocsp_cache" where
  "ocsp_Lookup sumhex c certDER responder now =
     (let k = cache_key sumhex certDER responder
      in case map_of (oc_entries c) k of
           None \<Rightarrow> (None, c\<lparr>oc_misses := oc_misses c + 1\<rparr>)
         | Some e \<Rightarrow>
             if \<not> After (en_expires e) now then
               (None, c\<lparr>oc_entries := kv_del k (oc_entries c), oc_misses := oc_misses c + 1\<rparr>)
             else
               (Some (en_value e),
                c\<lparr>oc_hits := oc_hits c + 1,
                  oc_stapled := (if 0 < length (oe_Response (en_value e))
                                 then oc_stapled c + 1 else oc_stapled c)\<rparr>))"

definition ocsp_expiry :: "ocsp_config \<Rightarrow> ocsp_answer \<Rightarrow> time \<Rightarrow> time" where
  "ocsp_expiry cfg v now =
     (let ttl = (if oe_Revoked v then oc_RevokedTTL cfg else oc_TTL cfg);
          expires = now + ttl
      in case oe_NextUpdate v of
           Some nu \<Rightarrow> if Before nu expires then nu else expires
         | None \<Rightarrow> expires)"

definition evict_oldest :: "(string, ocsp_entry) gomap \<Rightarrow> (string, ocsp_entry) gomap" where
  "evict_oldest es = kv_del (oldest_scan en_seq es [] 0) es"

lemma evict_oldest_shrinks: "es \<noteq> [] \<Longrightarrow> length (evict_oldest es) < length es"
  by (simp add: evict_oldest_def kv_length_del_less oldest_scan_in)

text \<open>
  The second loop of the eviction. The source tests the length only; the bound is at least one
  once \<^verbatim>\<open>New\<close> has applied the defaults, so the map is never empty when the test holds.
\<close>

function evict_over :: "int \<Rightarrow> (string, ocsp_entry) gomap \<Rightarrow> (string, ocsp_entry) gomap" where
  "evict_over mx es = (if es \<noteq> [] \<and> int (length es) > mx then evict_over mx (evict_oldest es) else es)"
  by auto
termination by (relation "measure (\<lambda>(mx, es). length es)") (auto simp: evict_oldest_shrinks)

declare evict_over.simps [simp del]

definition evictLocked :: "ocsp_cache \<Rightarrow> time \<Rightarrow> ocsp_cache" where
  "evictLocked c now =
     (if int (length (oc_entries c)) \<le> oc_MaxEntries (oc_cfg c) then c
      else c\<lparr>oc_entries := evict_over (oc_MaxEntries (oc_cfg c))
               (kv_drop (\<lambda>e. \<not> After (en_expires e) now) (oc_entries c))\<rparr>)"

definition ocsp_Store :: "(bytes \<Rightarrow> string) \<Rightarrow> ocsp_cache \<Rightarrow> bytes \<Rightarrow> string \<Rightarrow> ocsp_answer \<Rightarrow>
    time \<Rightarrow> ocsp_cache" where
  "ocsp_Store sumhex c certDER responder v now =
     (let expires = ocsp_expiry (oc_cfg c) v now
      in if \<not> After expires now then c
         else evictLocked
           (c\<lparr>oc_seq := oc_seq c + 1,
              oc_entries := kv_put (cache_key sumhex certDER responder)
                \<lparr>en_value = v, en_expires = expires, en_seq = oc_seq c + 1\<rparr> (oc_entries c)\<rparr>) now)"

definition ocsp_Stats :: "ocsp_cache \<Rightarrow> 64 word \<times> 64 word" where
  "ocsp_Stats c = (oc_hits c, oc_misses c)"

definition ocsp_Len :: "ocsp_cache \<Rightarrow> nat" where
  "ocsp_Len c = length (oc_entries c)"

section \<open>Invariant\<close>

text \<open>
  The map has distinct non-empty keys and at most \<open>MaxEntries\<close> of them; no entry outlives the
  lifetime its answer allows; the sequence numbers in use do not exceed the counter.
\<close>

definition ocsp_inv :: "ocsp_cache \<Rightarrow> bool" where
  "ocsp_inv c \<longleftrightarrow> kv_ok (oc_entries c) \<and> [] \<notin> fst ` set (oc_entries c) \<and>
     1 \<le> oc_MaxEntries (oc_cfg c) \<and> int (length (oc_entries c)) \<le> oc_MaxEntries (oc_cfg c) \<and>
     (\<forall>(k, e) \<in> set (oc_entries c). unat (en_seq e) \<le> unat (oc_seq c))"

lemma cache_key_ne [simp]: "cache_key h d r \<noteq> []"
  by (simp add: cache_key_def)

lemma ocsp_New_inv: "ocsp_inv (ocsp_New cfg)"
  by (auto simp: ocsp_New_def ocsp_inv_def Let_def)

lemma set_evict_oldest_subset: "set (evict_oldest es) \<subseteq> set es"
  by (auto simp: evict_oldest_def set_kv_del)

lemma evict_over_props:
  "kv_ok es \<Longrightarrow> kv_ok (evict_over mx es) \<and> set (evict_over mx es) \<subseteq> set es \<and>
     (0 \<le> mx \<longrightarrow> int (length (evict_over mx es)) \<le> mx)"
proof (induction mx es rule: evict_over.induct)
  case (1 mx es)
  have ok: "kv_ok (evict_oldest es)" using "1.prems" by (simp add: evict_oldest_def wf_intros)
  show ?case
  proof (cases "es \<noteq> [] \<and> int (length es) > mx")
    case True
    with "1.IH" [OF True ok] set_evict_oldest_subset [of es] show ?thesis
      by (simp add: evict_over.simps [of mx es]) blast
  next
    case False
    with "1.prems" show ?thesis by (auto simp: evict_over.simps [of mx es])
  qed
qed

text \<open>The entry with the largest sequence number survives as long as one entry may stay.\<close>

lemma evict_oldest_keeps_newest:
  assumes "kv_ok es" and "[] \<notin> fst ` set es" and "(k, e) \<in> set es" and "2 \<le> length es"
    and "\<And>k' e'. (k', e') \<in> set es \<Longrightarrow> k' \<noteq> k \<Longrightarrow> en_seq e' < en_seq e"
  shows "(k, e) \<in> set (evict_oldest es)"
proof -
  let ?o = "oldest_scan en_seq es [] 0"
  have "es \<noteq> []" using assms(4) by auto
  with assms(2) obtain v where v: "(?o, v) \<in> set es" "\<And>k' v'. (k', v') \<in> set es \<Longrightarrow> en_seq v \<le> en_seq v'"
    using oldest_scan_least [of es en_seq 0] by blast
  have "\<exists>k' e'. (k', e') \<in> set es \<and> k' \<noteq> k"
  proof (rule ccontr)
    assume "\<not> ?thesis"
    then have "fst ` set es \<subseteq> {k}" by auto
    then have "card (fst ` set es) \<le> 1" using card_mono [of "{k}"] by fastforce
    moreover have "card (fst ` set es) = length es"
      using assms(1) distinct_card [of "map fst es"] by (simp add: kv_ok_def)
    ultimately show False using assms(4) by simp
  qed
  then obtain k' e' where other: "(k', e') \<in> set es" "k' \<noteq> k" by blast
  have "?o \<noteq> k"
  proof
    assume "?o = k"
    with v(1) assms(1,3) have "v = e" by (simp add: kv_mem_get)
    with v(2) [OF other(1)] assms(5) [OF other] show False by simp
  qed
  with assms(3) show ?thesis by (simp add: evict_oldest_def set_kv_del)
qed

lemma evict_over_keeps_newest:
  assumes "1 \<le> mx"
  shows "kv_ok es \<Longrightarrow> [] \<notin> fst ` set es \<Longrightarrow> (k, e) \<in> set es \<Longrightarrow>
    (\<And>k' e'. (k', e') \<in> set es \<Longrightarrow> k' \<noteq> k \<Longrightarrow> en_seq e' < en_seq e) \<Longrightarrow>
    (k, e) \<in> set (evict_over mx es)"
  using assms
proof (induction mx es rule: evict_over.induct)
  case (1 mx es)
  show ?case
  proof (cases "es \<noteq> [] \<and> int (length es) > mx")
    case True
    with "1.prems"(5) have "2 \<le> length es" by linarith
    with "1.prems" have keep: "(k, e) \<in> set (evict_oldest es)" by (intro evict_oldest_keeps_newest) auto
    have "(k, e) \<in> set (evict_over mx (evict_oldest es))"
    proof (rule "1.IH" [OF True])
      show "kv_ok (evict_oldest es)" using "1.prems"(1) by (simp add: evict_oldest_def wf_intros)
      show "[] \<notin> fst ` set (evict_oldest es)" using "1.prems"(2) set_evict_oldest_subset [of es] by auto
    qed (use keep "1.prems"(4,5) set_evict_oldest_subset [of es] in auto)
    with True show ?thesis by (simp add: evict_over.simps [of mx es])
  next
    case False
    then have "evict_over mx es = es" by (subst evict_over.simps) auto
    with "1.prems"(3) show ?thesis by simp
  qed
qed

lemma ocsp_Store_cases:
  obtains (stale) "\<not> After (ocsp_expiry (oc_cfg c) v now) now" "ocsp_Store h c d r v now = c"
  | (fresh) "After (ocsp_expiry (oc_cfg c) v now) now"
      "ocsp_Store h c d r v now = evictLocked (c\<lparr>oc_seq := oc_seq c + 1,
         oc_entries := kv_put (cache_key h d r) \<lparr>en_value = v,
           en_expires = ocsp_expiry (oc_cfg c) v now, en_seq = oc_seq c + 1\<rparr> (oc_entries c)\<rparr>) now"
  by (cases "After (ocsp_expiry (oc_cfg c) v now) now") (auto simp: ocsp_Store_def Let_def)

lemma set_kv_put_subset: "set (kv_put k v m) \<subseteq> insert (k, v) (set m)"
  by (induction m) (auto simp: kv_put_def)

lemma set_kv_drop_subset: "set (kv_drop P m) \<subseteq> set m"
  by (auto simp: kv_drop_def)

lemma evictLocked_inv:
  assumes "kv_ok (oc_entries c)" and "[] \<notin> fst ` set (oc_entries c)"
    and "1 \<le> oc_MaxEntries (oc_cfg c)"
    and "\<forall>(k, e) \<in> set (oc_entries c). unat (en_seq e) \<le> unat (oc_seq c)"
  shows "ocsp_inv (evictLocked c now)"
proof (cases "int (length (oc_entries c)) \<le> oc_MaxEntries (oc_cfg c)")
  case True
  with assms show ?thesis by (simp add: evictLocked_def ocsp_inv_def)
next
  case False
  let ?es = "kv_drop (\<lambda>e. \<not> After (en_expires e) now) (oc_entries c)"
  let ?r = "evict_over (oc_MaxEntries (oc_cfg c)) ?es"
  have "kv_ok ?es" using assms(1) by (rule kv_ok_drop)
  from evict_over_props [OF this, of "oc_MaxEntries (oc_cfg c)"] set_kv_drop_subset [of _ "oc_entries c"]
  have r: "kv_ok ?r" "set ?r \<subseteq> set (oc_entries c)" "int (length ?r) \<le> oc_MaxEntries (oc_cfg c)"
    using assms(3) by fastforce+
  have "[] \<notin> fst ` set ?r" using r(2) assms(2) by auto
  moreover have "\<forall>(k, e) \<in> set ?r. unat (en_seq e) \<le> unat (oc_seq c)" using r(2) assms(4) by blast
  ultimately show ?thesis using r(1,3) assms(3) False by (simp add: evictLocked_def ocsp_inv_def)
qed

lemma ocsp_Store_inv:
  assumes "ocsp_inv c" and "oc_seq c \<noteq> - 1"
  shows "ocsp_inv (ocsp_Store h c d r v now)"
proof (cases rule: ocsp_Store_cases [where c = c and v = v and now = now and h = h and d = d and r = r])
  case fresh
  have "unat (oc_seq c + 1) = Suc (unat (oc_seq c))"
    using unatSuc [of "oc_seq c"] assms(2) by (metis add.commute add_eq_0_iff)
  with assms(1) have "\<forall>(k, e) \<in> set (kv_put (cache_key h d r) \<lparr>en_value = v,
      en_expires = ocsp_expiry (oc_cfg c) v now, en_seq = oc_seq c + 1\<rparr> (oc_entries c)).
      unat (en_seq e) \<le> unat (oc_seq c + 1)"
    using set_kv_put_subset [of "cache_key h d r" _ "oc_entries c"] by (fastforce simp: ocsp_inv_def)
  moreover have "[] \<notin> fst ` set (kv_put (cache_key h d r) e (oc_entries c))" for e
    using assms(1) cache_key_ne [of h d r] by (simp add: ocsp_inv_def del: cache_key_ne)
  ultimately show ?thesis
    unfolding fresh(2) using assms(1) by (intro evictLocked_inv) (simp_all add: ocsp_inv_def wf_intros)
qed (simp add: assms)

lemma ocsp_Lookup_inv:
  assumes "ocsp_inv c" shows "ocsp_inv (snd (ocsp_Lookup h c d r now))"
  using assms kv_length_del_le [of "cache_key h d r" "oc_entries c"]
  by (auto simp: ocsp_Lookup_def ocsp_inv_def Let_def set_kv_del wf_intros split: option.splits)

section \<open>Properties\<close>

lemma evictLocked_keeps:
  fixes v :: ocsp_answer and k :: string
  assumes "ocsp_inv c" and "oc_seq c \<noteq> - 1" and "After x now"
  defines "e \<equiv> \<lparr>en_value = v, en_expires = x, en_seq = oc_seq c + 1\<rparr>"
  defines "c' \<equiv> c\<lparr>oc_seq := oc_seq c + 1, oc_entries := kv_put k e (oc_entries c)\<rparr>"
  assumes "k \<noteq> []"
  shows "map_of (oc_entries (evictLocked c' now)) k = Some e"
proof (cases "int (length (oc_entries c')) \<le> oc_MaxEntries (oc_cfg c')")
  case True
  then show ?thesis by (simp add: evictLocked_def c'_def)
next
  case False
  let ?es = "kv_drop (\<lambda>e. \<not> After (en_expires e) now) (kv_put k e (oc_entries c))"
  let ?r = "evict_over (oc_MaxEntries (oc_cfg c)) ?es"
  have ok: "kv_ok (kv_put k e (oc_entries c))" using assms(1) by (simp add: ocsp_inv_def wf_intros)
  have up: "unat (oc_seq c + 1) = Suc (unat (oc_seq c))"
    using unatSuc [of "oc_seq c"] assms(2) by (metis add.commute add_eq_0_iff)
  have here: "(k, e) \<in> set ?es"
    using kv_mem_get [OF ok, of k e] assms(3) by (simp add: kv_drop_def e_def)
  have newest: "en_seq e' < en_seq e" if "(k', e') \<in> set ?es" "k' \<noteq> k" for k' e'
  proof -
    have "(k', e') \<in> set (oc_entries c)"
      using that set_kv_put_subset [of k e "oc_entries c"] by (auto simp: kv_drop_def)
    with assms(1) have "unat (en_seq e') \<le> unat (oc_seq c)" by (auto simp: ocsp_inv_def)
    with up show ?thesis by (simp add: e_def word_less_nat_alt)
  qed
  have ne: "[] \<notin> fst ` set ?es"
    using assms(1,6) set_kv_drop_subset [of _ "kv_put k e (oc_entries c)"]
    by (metis (no_types, lifting) image_iff insertE kv_keys_put ocsp_inv_def subsetD)
  have "(k, e) \<in> set ?r"
    using kv_ok_drop [OF ok] ne here newest assms(1)
    by (intro evict_over_keeps_newest) (auto simp: ocsp_inv_def)
  moreover have "kv_ok ?r" using evict_over_props [OF kv_ok_drop [OF ok]] by blast
  ultimately show ?thesis using False by (simp add: evictLocked_def c'_def kv_mem_get)
qed

lemma evictLocked_cfg [simp]: "oc_cfg (evictLocked c now) = oc_cfg c"
  by (simp add: evictLocked_def)

lemma ocsp_Store_get:
  assumes "ocsp_inv c" and "oc_seq c \<noteq> - 1" and "After (ocsp_expiry (oc_cfg c) v now) now"
  shows "map_of (oc_entries (ocsp_Store h c d r v now)) (cache_key h d r) =
    Some \<lparr>en_value = v, en_expires = ocsp_expiry (oc_cfg c) v now, en_seq = oc_seq c + 1\<rparr>"
  using evictLocked_keeps [OF assms, of "cache_key h d r" v] assms(3)
  by (simp add: ocsp_Store_def Let_def)


definition tiny_cache :: ocsp_cache where
  "tiny_cache = ocsp_New \<lparr>oc_TTL = 10, oc_RevokedTTL = 100, oc_MaxEntries = 1\<rparr>"

definition good_answer :: ocsp_answer where
  "good_answer = \<lparr>oe_Revoked = False, oe_Reason = [], oe_RevocationTime = None,
     oe_ThisUpdate = Some 0, oe_NextUpdate = Some 7, oe_ProducedAt = None, oe_Response = ''r''\<rparr>"


text \<open>A history of cache calls.\<close>

datatype ocsp_op = OpStore bytes string ocsp_answer time | OpLookup bytes string time

fun ocsp_apply :: "(bytes \<Rightarrow> string) \<Rightarrow> ocsp_op \<Rightarrow> ocsp_cache \<Rightarrow> ocsp_cache" where
  "ocsp_apply h (OpStore d r v now) c = ocsp_Store h c d r v now"
| "ocsp_apply h (OpLookup d r now) c = snd (ocsp_Lookup h c d r now)"

lemma ocsp_apply_cfg: "oc_cfg (ocsp_apply h x c) = oc_cfg c"
  by (cases x) (auto simp: ocsp_Store_def ocsp_Lookup_def Let_def split: option.splits)

lemma ocsp_apply_seq:
  "oc_seq (ocsp_apply h x c) = oc_seq c \<or> oc_seq (ocsp_apply h x c) = oc_seq c + 1"
  by (cases x) (auto simp: ocsp_Store_def ocsp_Lookup_def evictLocked_def Let_def split: option.splits)

lemma ocsp_history_inv:
  "ocsp_inv c \<Longrightarrow> unat (oc_seq c) + length ops < 2 ^ 64 \<Longrightarrow>
   ocsp_inv (fold (ocsp_apply h) ops c) \<and> oc_cfg (fold (ocsp_apply h) ops c) = oc_cfg c"
proof (induction ops arbitrary: c)
  case (Cons x ops)
  from Cons.prems(2) have ne: "oc_seq c \<noteq> - 1"
    by (auto simp: unsigned_minus_1_eq_mask mask_eq_exp_minus_1)
  then have up: "unat (oc_seq c + 1) = Suc (unat (oc_seq c))"
    using unatSuc [of "oc_seq c"] by (metis add.commute add_eq_0_iff)
  have "ocsp_inv (ocsp_apply h x c)"
    using Cons.prems(1) ne by (cases x) (simp_all add: ocsp_Store_inv ocsp_Lookup_inv)
  moreover have "unat (oc_seq (ocsp_apply h x c)) + length ops < 2 ^ 64"
    using ocsp_apply_seq [of h x c] Cons.prems(2) up by auto
  ultimately show ?case using Cons.IH [of "ocsp_apply h x c"] by (simp add: ocsp_apply_cfg)
qed simp

text \<open>
  Claim C37: the cache stays within its bound. From a new cache, any history of stores and
  lookups (fewer than \<open>2^64\<close> calls, the width of the sequence counter) keeps at most the
  configured number of entries, at least one, under distinct keys.
\<close>

theorem ocsp_cache_bounded:
  assumes "length ops < 2 ^ 64"
  shows "let c = fold (ocsp_apply h) ops (ocsp_New cfg)
    in int (ocsp_Len c) \<le> oc_MaxEntries (oc_cfg c) \<and> kv_ok (oc_entries c) \<and>
       oc_MaxEntries (oc_cfg c) = (if oc_MaxEntries cfg \<le> 0 then 4096 else oc_MaxEntries cfg)"
proof -
  have "unat (oc_seq (ocsp_New cfg)) + length ops < 2 ^ 64"
    using assms by (simp add: ocsp_New_def Let_def)
  from ocsp_history_inv [OF ocsp_New_inv this, of h]
  have "ocsp_inv (fold (ocsp_apply h) ops (ocsp_New cfg))"
    "oc_cfg (fold (ocsp_apply h) ops (ocsp_New cfg)) = oc_cfg (ocsp_New cfg)" by blast+
  then show ?thesis by (auto simp: ocsp_inv_def ocsp_Len_def Let_def) (simp_all add: ocsp_New_def Let_def)
qed

theorem ocsp_cache_bounded_witness:
  "ocsp_Len (fold (ocsp_apply (\<lambda>d. d)) [OpStore ''A'' [] good_answer 0, OpStore ''B'' [] good_answer 0]
     (ocsp_New \<lparr>oc_TTL = 10, oc_RevokedTTL = 100, oc_MaxEntries = 1\<rparr>)) \<le> 1"
  using ocsp_cache_bounded [of "[OpStore ''A'' [] good_answer 0, OpStore ''B'' [] good_answer 0]"
      "\<lambda>d. d" "\<lparr>oc_TTL = 10, oc_RevokedTTL = 100, oc_MaxEntries = 1\<rparr>"]
  by (simp add: Let_def)

text \<open>
  A revoked answer is not kept longer than a good one when the responder gives a
  near nextUpdate. Both then expire at that nextUpdate, so the long lifetime configured for
  revoked answers has no effect.
\<close>

theorem ocsp_revoked_capped:
  assumes "oe_NextUpdate v = Some nu" and "nu < now + oc_TTL cfg" and "nu < now + oc_RevokedTTL cfg"
  shows "ocsp_expiry cfg (v\<lparr>oe_Revoked := True\<rparr>) now = nu \<and>
    ocsp_expiry cfg (v\<lparr>oe_Revoked := False\<rparr>) now = nu"
  using assms by (simp add: ocsp_expiry_def)

theorem ocsp_revoked_capped_witness:
  "ocsp_expiry \<lparr>oc_TTL = 10, oc_RevokedTTL = 100, oc_MaxEntries = 1\<rparr>
     (good_answer\<lparr>oe_Revoked := True\<rparr>) 0 = 7"
  using ocsp_revoked_capped [of good_answer 7 0 "\<lparr>oc_TTL = 10, oc_RevokedTTL = 100, oc_MaxEntries = 1\<rparr>"]
  by (simp add: good_answer_def)

end
