(* ===== verification/Core_Types.thy ===== *)
theory Core_Types
  imports Errors Ocsp_Cache
begin

text \<open>
  The domain contract (internal/core/contract.go, cert_types.go, policy.go, algorithm.go,
  claims.go, warnings.go, maps.go, keysource.go, dataref.go) and the driver port it is served
  through (internal/provider/types.go). Go's string-typed enumerations stay strings, because a
  request can carry a value outside the listed constants and the code has a branch for it.
\<close>

section \<open>Formats, encodings and methods\<close>

abbreviation FormatCMS :: string where "FormatCMS \<equiv> ''cms''"
abbreviation FormatXML :: string where "FormatXML \<equiv> ''xml''"
abbreviation FormatWSSE :: string where "FormatWSSE \<equiv> ''wsse''"

definition Format_Valid :: "string \<Rightarrow> bool" where
  "Format_Valid f \<longleftrightarrow> f = FormatCMS \<or> f = FormatXML \<or> f = FormatWSSE"

abbreviation EncodingPEM :: string where "EncodingPEM \<equiv> ''pem''"
abbreviation EncodingDER :: string where "EncodingDER \<equiv> ''der''"
abbreviation EncodingB64 :: string where "EncodingB64 \<equiv> ''base64''"

abbreviation MethodOCSP :: string where "MethodOCSP \<equiv> ''ocsp''"
abbreviation MethodCRL :: string where "MethodCRL \<equiv> ''crl''"

datatype cert_format = CertPEM | CertDER | CertB64
datatype validation_method = ValidateOCSP | ValidateCRL | ValidateNone
datatype cert_status = CertUnknown | CertGood | CertRevoked

definition certFormat :: "string \<Rightarrow> cert_format" where
  "certFormat e = (if e = EncodingDER then CertDER else if e = EncodingB64 then CertB64 else CertPEM)"

definition validationMethod :: "string \<Rightarrow> validation_method" where
  "validationMethod m = (if m = MethodCRL then ValidateCRL else ValidateOCSP)"

section \<open>Certificates\<close>

record subject =
  sj_CommonName :: string
  sj_LastName :: string
  sj_GivenName :: string
  sj_Email :: string
  sj_Organization :: string
  sj_OrgUnit :: string
  sj_Country :: string
  sj_Locality :: string
  sj_State :: string
  sj_BusinessCategory :: string
  sj_DomainComponent :: string
  sj_DN :: string
  sj_IIN :: string
  sj_BIN :: string
  sj_Gender :: string

definition no_subject :: subject where
  "no_subject = \<lparr>sj_CommonName = [], sj_LastName = [], sj_GivenName = [], sj_Email = [],
     sj_Organization = [], sj_OrgUnit = [], sj_Country = [], sj_Locality = [], sj_State = [],
     sj_BusinessCategory = [], sj_DomainComponent = [], sj_DN = [], sj_IIN = [], sj_BIN = [],
     sj_Gender = []\<rparr>"

record certificate =
  ct_Subject :: subject
  ct_Issuer :: subject
  ct_SerialNumber :: string
  ct_NotBefore :: "time option"
  ct_NotAfter :: "time option"
  ct_SignatureAlgorithm :: string
  ct_SignatureAlgorithmOID :: string
  ct_KeyAlgorithm :: string
  ct_PublicKey :: bytes
  ct_AuthorityKeyID :: string
  ct_SubjectKeyID :: string
  ct_KeyUsage :: "string list"
  ct_KeyUsageKind :: string
  ct_ExtendedKeyUsage :: "string list"
  ct_PolicyOIDs :: "string list"
  ct_OwnerType :: string
  ct_Roles :: "string list"
  ct_CAIssuerURLs :: "string list"
  ct_OCSPURLs :: "string list"
  ct_CRLURLs :: "string list"
  ct_IsCA :: bool
  ct_PEM :: bytes

definition no_certificate :: certificate where
  "no_certificate = \<lparr>ct_Subject = no_subject, ct_Issuer = no_subject, ct_SerialNumber = [],
     ct_NotBefore = None, ct_NotAfter = None, ct_SignatureAlgorithm = [],
     ct_SignatureAlgorithmOID = [], ct_KeyAlgorithm = [], ct_PublicKey = [],
     ct_AuthorityKeyID = [], ct_SubjectKeyID = [], ct_KeyUsage = [], ct_KeyUsageKind = [],
     ct_ExtendedKeyUsage = [], ct_PolicyOIDs = [], ct_OwnerType = [], ct_Roles = [],
     ct_CAIssuerURLs = [], ct_OCSPURLs = [], ct_CRLURLs = [], ct_IsCA = False, ct_PEM = []\<rparr>"

record trusted_cert =
  tc_Cert :: bytes
  tc_Intermediate :: bool

record timestamp =
  ts_SerialNumber :: string
  ts_GenTime :: "time option"
  ts_Policy :: string
  ts_TSA :: string
  ts_HashAlgorithm :: string
  ts_Hash :: bytes
  ts_ImprintVerified :: "bool option"
  ts_ImprintNote :: string
  ts_SignatureVerified :: "bool option"
  ts_SignatureNote :: string
  ts_PolicyName :: string
  ts_PolicyAccepted :: "bool option"
  ts_PolicyNote :: string

section \<open>Claims (internal/core/claims.go)\<close>

record claims =
  cl_Sub :: string
  cl_Name :: string
  cl_GivenName :: string
  cl_FamilyName :: string
  cl_Email :: string
  cl_IIN :: string
  cl_BIN :: string
  cl_Organization :: string
  cl_Roles :: "string list"
  cl_OwnerType :: string
  cl_Gender :: string

definition subjectID :: "subject \<Rightarrow> string" where
  "subjectID s = (if sj_IIN s \<noteq> [] then sj_IIN s else sj_BIN s)"

definition displayName :: "subject \<Rightarrow> string" where
  "displayName s =
     (if sj_CommonName s \<noteq> [] then sj_CommonName s
      else if sj_LastName s \<noteq> [] \<and> sj_GivenName s \<noteq> [] then sj_LastName s @ '' '' @ sj_GivenName s
      else if sj_LastName s \<noteq> [] then sj_LastName s
      else sj_GivenName s)"

definition oidcGender :: "string \<Rightarrow> string" where
  "oidcGender g = (if g = ''MALE'' then ''male'' else if g = ''FEMALE'' then ''female'' else [])"

definition ClaimsFromCertificate :: "certificate \<Rightarrow> claims" where
  "ClaimsFromCertificate cert =
     (let s = ct_Subject cert
      in \<lparr>cl_Sub = subjectID s, cl_Name = displayName s, cl_GivenName = sj_GivenName s,
          cl_FamilyName = sj_LastName s, cl_Email = sj_Email s, cl_IIN = sj_IIN s, cl_BIN = sj_BIN s,
          cl_Organization = sj_Organization s, cl_Roles = ct_Roles cert,
          cl_OwnerType = ct_OwnerType cert, cl_Gender = oidcGender (sj_Gender s)\<rparr>)"

section \<open>Algorithm generations (internal/core/algorithm.go)\<close>

datatype generation = GenerationCurrent | GenerationLegacy | GenerationWeak | GenerationUnknown

record algorithm_info =
  ai_KeyAlgorithm :: string
  ai_SignatureOID :: string
  ai_Generation :: generation
  ai_Advice :: string

abbreviation SignSHA1RSA :: string where "SignSHA1RSA \<equiv> ''1.2.840.113549.1.1.5''"
abbreviation SignSHA256RSA :: string where "SignSHA256RSA \<equiv> ''1.2.840.113549.1.1.11''"
abbreviation SignGOST2015_256 :: string where "SignGOST2015_256 \<equiv> ''1.2.398.3.10.1.1.2.3.1''"
abbreviation SignGOST2015_512 :: string where "SignGOST2015_512 \<equiv> ''1.2.398.3.10.1.1.2.3.2''"

definition algorithmInfo :: "certificate \<Rightarrow> algorithm_info" where
  "algorithmInfo cert =
     (let info = \<lparr>ai_KeyAlgorithm = ct_KeyAlgorithm cert, ai_SignatureOID = ct_SignatureAlgorithmOID cert,
                  ai_Generation = GenerationUnknown, ai_Advice = []\<rparr>
      in if ct_KeyAlgorithm cert = ''gost2015-256'' \<or> ct_KeyAlgorithm cert = ''gost2015-512'' then
           info\<lparr>ai_Generation := GenerationCurrent\<rparr>
         else if ct_KeyAlgorithm cert = ''gost2004'' then
           info\<lparr>ai_Generation := GenerationLegacy,
             ai_Advice := ''This certificate uses the superseded GOST 34.310/34.311 profile. '' @
               ''Existing signatures stay verifiable; reissue the certificate under GOST 34.10-2015 for new ones.''\<rparr>
         else if ct_KeyAlgorithm cert = ''rsa'' then
           (if ct_SignatureAlgorithmOID cert = SignSHA1RSA then
              info\<lparr>ai_Generation := GenerationWeak,
                ai_Advice := ''This certificate is signed with SHA-1, which is no longer collision-resistant. '' @
                  ''Reissue it under GOST 34.10-2015 before signing anything new.''\<rparr>
            else
              info\<lparr>ai_Generation := GenerationLegacy,
                ai_Advice := ''This certificate uses an RSA profile rather than the GOST 34.10-2015 one the NUC issues today. '' @
                  ''Existing signatures stay verifiable; reissue for new ones.''\<rparr>)
         else if ct_KeyAlgorithm cert = [] then
           info\<lparr>ai_Advice := ''The signature algorithm could not be determined from the certificate.''\<rparr>
         else info)"

section \<open>Warnings (internal/core/warnings.go)\<close>

record warning =
  wn_Field :: string
  wn_Reason :: string

type_synonym warnings = "warning list"

definition w_add :: "warnings \<Rightarrow> string \<Rightarrow> string \<Rightarrow> warnings" where
  "w_add w field reason = w @ [\<lparr>wn_Field = field, wn_Reason = reason\<rparr>]"

definition w_addErr :: "warnings \<Rightarrow> string \<Rightarrow> goerr \<Rightarrow> warnings" where
  "w_addErr w field e =
     (case errors_as_native e of
        Some (code, detail) \<Rightarrow> w_add w field (hex8 code)
      | None \<Rightarrow> w_add w field (err_text e))"

section \<open>Signing policies (internal/core/policy.go)\<close>

record data_ref =
  dr_Path :: string
  dr_URL :: string

definition IsRef :: "data_ref \<Rightarrow> bool" where
  "IsRef r \<longleftrightarrow> dr_Path r \<noteq> [] \<or> dr_URL r \<noteq> []"

record inline_key =
  ik_P12 :: bytes
  ik_Password :: string
  ik_Alias :: string

record path_key =
  pk_Path :: string
  pk_Password :: string
  pk_Alias :: string

record token_key =
  tk_Storage :: string
  tk_PIN :: string
  tk_Alias :: string

record key_spec =
  ks_Inline :: "inline_key option"
  ks_Path :: "path_key option"
  ks_Token :: "token_key option"
  ks_KeyID :: string

definition KeySpec_Empty :: "key_spec \<Rightarrow> bool" where
  "KeySpec_Empty k \<longleftrightarrow> ks_Inline k = None \<and> ks_Path k = None \<and> ks_Token k = None \<and> ks_KeyID k = []"

record sign_input =
  si_Policy :: string
  si_Format :: string
  si_Data :: bytes
  si_DataRef :: data_ref
  si_Key :: key_spec
  si_Detached :: bool
  si_WithTimestamp :: "bool option"
  si_TSAURL :: string
  si_NoCheckCertTime :: bool
  si_InputPEM :: bool
  si_OutputPEM :: bool
  si_TrustedCerts :: "trusted_cert list"
  si_NodeID :: string
  si_ParentNode :: string
  si_ParentNS :: string
  si_ExistingSignature :: "bytes option"

record sign_output =
  so_Signature :: bytes
  so_Format :: string
  so_Timestamp :: "timestamp option"
  so_CAdESLevel :: string
  so_LibError :: "lib_error option"

definition policyProfiles :: "(string \<times> string \<times> bool) list" where
  "policyProfiles =
     [(''cades-b'', FormatCMS, False), (''cades-t'', FormatCMS, True),
      (''xades-b'', FormatXML, False), (''xades-t'', FormatXML, True)]"

definition Policies :: "string list" where
  "Policies = [''cades-b'', ''cades-t'', ''xades-b'', ''xades-t'']"

definition Policy_Valid :: "string \<Rightarrow> bool" where
  "Policy_Valid p \<longleftrightarrow> map_of policyProfiles p \<noteq> None"

fun join_comma :: "string list \<Rightarrow> string" where
  "join_comma [] = []"
| "join_comma [p] = p"
| "join_comma (p # ps) = p @ '', '' @ join_comma ps"

definition policyList :: string where
  "policyList = join_comma Policies"

text \<open>
  \<^verbatim>\<open>%q\<close>: the ASCII escapes of \<^verbatim>\<open>strconv.Quote\<close>. Bytes from 0x80 on are kept, as for printable
  characters outside ASCII.
\<close>

definition quote_char :: "char \<Rightarrow> string" where
  "quote_char c =
     (if c = CHR 0x22 \<or> c = CHR 0x5C then [CHR 0x5C, c]
      else if c = CHR 0x07 then [CHR 0x5C, CHR ''a''] else if c = CHR 0x08 then [CHR 0x5C, CHR ''b'']
      else if c = CHR 0x0C then [CHR 0x5C, CHR ''f''] else if c = CHR 0x0A then [CHR 0x5C, CHR ''n'']
      else if c = CHR 0x0D then [CHR 0x5C, CHR ''r''] else if c = CHR 0x09 then [CHR 0x5C, CHR ''t'']
      else if c = CHR 0x0B then [CHR 0x5C, CHR ''v'']
      else if byte_of c < 32 \<or> byte_of c = 127 then [CHR 0x5C, CHR ''x''] @ hexpair_lower c
      else [c])"

definition quoted :: "string \<Rightarrow> string" where
  "quoted s = [CHR 0x22] @ concat (map quote_char s) @ [CHR 0x22]"

definition applyPolicy :: "sign_input \<Rightarrow> goerr + sign_input" where
  "applyPolicy inp =
     (if si_Policy inp = [] then Inr inp
      else case map_of policyProfiles (si_Policy inp) of
             None \<Rightarrow> Inl (PlainError (''unknown signature policy '' @ quoted (si_Policy inp) @
                       '' (supported: '' @ policyList @ '')''))
           | Some (format, ts) \<Rightarrow>
               if si_Format inp \<noteq> [] \<and> si_Format inp \<noteq> format then
                 Inl (PlainError (''policy '' @ quoted (si_Policy inp) @ '' signs '' @ format @
                   '', but the request asks for '' @ si_Format inp))
               else Inr (inp\<lparr>si_Format := format,
                      si_WithTimestamp := (case si_WithTimestamp inp of None \<Rightarrow> Some ts | Some b \<Rightarrow> Some b)\<rparr>))"

section \<open>Verification and validation\<close>

record revocation_status =
  rs_Revoked :: bool
  rs_Determinate :: bool
  rs_Method :: string
  rs_RevocationTime :: "time option"
  rs_Reason :: string
  rs_CheckedAt :: "time option"
  rs_ThisUpdate :: "time option"
  rs_NextUpdate :: "time option"
  rs_ProducedAt :: "time option"
  rs_LibError :: "lib_error option"

definition no_status :: revocation_status where
  "no_status = \<lparr>rs_Revoked = False, rs_Determinate = False, rs_Method = [], rs_RevocationTime = None,
     rs_Reason = [], rs_CheckedAt = None, rs_ThisUpdate = None, rs_NextUpdate = None,
     rs_ProducedAt = None, rs_LibError = None\<rparr>"

record signer =
  sg_Certificate :: certificate
  sg_Chain :: "certificate list"
  sg_Valid :: bool
  sg_SigningTime :: "time option"
  sg_SignatureAlgorithm :: string
  sg_Timestamp :: "timestamp option"
  sg_ChainComplete :: bool
  sg_TrustAnchorFound :: bool
  sg_ChainSignaturesVerified :: bool
  sg_CAdESLevel :: string
  sg_VerifyInfo :: string
  sg_Claims :: "claims option"
  sg_Revocation :: "revocation_status option"

record verify_input =
  vi_Format :: string
  vi_Signature :: bytes
  vi_Data :: bytes
  vi_DataRef :: data_ref
  vi_Detached :: bool
  vi_InputPEM :: bool
  vi_CheckCertTime :: bool
  vi_ExtractContent :: bool
  vi_ExtractClaims :: bool
  vi_Explain :: bool
  vi_Report :: bool
  vi_Receipt :: bool
  vi_TrustedCerts :: "trusted_cert list"
  vi_RevocationCheck :: "bool option"
  vi_RevocationMethod :: string
  vi_ResponderURL :: string
  vi_Archive :: bool

definition RevocationRequested :: "verify_input \<Rightarrow> bool" where
  "RevocationRequested inp = (case vi_RevocationCheck inp of None \<Rightarrow> True | Some b \<Rightarrow> b)"

record validate_input =
  va_Cert :: bytes
  va_Format :: string
  va_Method :: string
  va_CheckTime :: time
  va_WantOCSP :: bool
  va_TrustedCerts :: "trusted_cert list"
  va_ResponderURL :: string
  va_CRL :: bytes

record validate_output =
  vt_Status :: revocation_status
  vt_Info :: string
  vt_OCSPResponse :: bytes
  vt_Warnings :: warnings

definition no_validate_output :: validate_output where
  "no_validate_output = \<lparr>vt_Status = no_status, vt_Info = [], vt_OCSPResponse = [], vt_Warnings = []\<rparr>"

section \<open>The driver port (internal/provider/types.go)\<close>

record key_ref =
  kr_Storage :: int
  kr_Path :: string
  kr_Password :: string

record sign_request =
  sr_Key :: key_ref
  sr_Data :: bytes
  sr_Path :: string
  sr_Detached :: bool
  sr_InputPEM :: bool
  sr_OutPEM :: bool
  sr_CheckCertTime :: bool
  sr_WithTimestamp :: bool
  sr_TSAURL :: string
  sr_ExistingSignature :: "bytes option"
  sr_TrustedCerts :: "trusted_cert list"

record sign_xml_request =
  sx_Key :: key_ref
  sx_XML :: bytes
  sx_CheckCertTime :: bool
  sx_WithTimestamp :: bool
  sx_TSAURL :: string
  sx_NodeID :: string
  sx_ParentNode :: string
  sx_ParentNS :: string
  sx_TrustedCerts :: "trusted_cert list"

record sign_wsse_request =
  sw_Key :: key_ref
  sw_XML :: bytes
  sw_NodeID :: string
  sw_CheckCertTime :: bool
  sw_WithTimestamp :: bool
  sw_TSAURL :: string
  sw_TrustedCerts :: "trusted_cert list"

record verify_request =
  vq_Signature :: bytes
  vq_Data :: bytes
  vq_Path :: string
  vq_Detached :: bool
  vq_InputPEM :: bool
  vq_OutPEM :: bool
  vq_CheckCertTime :: bool
  vq_SignerIndex :: int
  vq_TrustedCerts :: "trusted_cert list"

record driver_verify_result =
  dv_Valid :: bool
  dv_Info :: string
  dv_Content :: bytes
  dv_SignerCert :: bytes
  dv_Signers :: "bytes list"
  dv_Timestamp :: time
  dv_RawCode :: "32 word"

record validate_request =
  dq_Cert :: bytes
  dq_Format :: cert_format
  dq_Method :: validation_method
  dq_Path :: string
  dq_CheckTime :: time
  dq_WantOCSP :: bool
  dq_TrustedCerts :: "trusted_cert list"

record validate_result =
  dr_Status :: cert_status
  dr_Info :: string
  dr_OCSPResponse :: bytes
  dr_RawCode :: "32 word"

record cert_field =
  cf_ID :: "32 word"
  cf_Name :: string
  cf_Value :: string
  cf_Raw :: bytes
  cf_OK :: bool

type_synonym cert_properties = "cert_field list"

fun props_Get :: "cert_properties \<Rightarrow> string \<Rightarrow> string \<times> bool" where
  "props_Get [] name = ([], False)"
| "props_Get (f # fs) name = (if cf_Name f = name then (cf_Value f, cf_OK f) else props_Get fs name)"

text \<open>
  A driver call returns its result beside its error, as Go functions do: the result fields are
  set even when the error is not nil. Within one operation the driver is a function of the
  request.
\<close>

record driver =
  pv_SignCMS :: "sign_request \<Rightarrow> bytes \<times> goerr option"
  pv_SignXML :: "sign_xml_request \<Rightarrow> bytes \<times> goerr option"
  pv_SignWSSE :: "sign_wsse_request \<Rightarrow> bytes \<times> goerr option"
  pv_VerifyCMS :: "verify_request \<Rightarrow> driver_verify_result \<times> goerr option"
  pv_VerifyXML :: "verify_request \<Rightarrow> driver_verify_result \<times> goerr option"
  pv_CertProperties :: "bytes \<Rightarrow> cert_format \<Rightarrow> cert_properties \<times> goerr option"
  pv_ValidateCert :: "validate_request \<Rightarrow> validate_result \<times> goerr option"
  pv_ExportOwnerCert :: "key_ref \<Rightarrow> cert_format \<Rightarrow> bytes \<times> goerr option"
  pv_HashCapable :: bool
  pv_Hash :: "string \<Rightarrow> bytes \<Rightarrow> bytes \<times> goerr option"

section \<open>The container parser (internal/cms)\<close>

record cms_timestamp =
  ct_tsPolicy :: string
  ct_tsSerialNumberHex :: string
  ct_tsGenTime :: "time option"
  ct_tsHashAlgorithmOID :: string
  ct_tsHash :: bytes
  ct_tsTSA :: string
  ct_tsRaw :: bytes

record cms_signer =
  cs_SerialNumberHex :: string
  cs_SubjectKeyIDHex :: string
  cs_SignatureAlgorithmOID :: string
  cs_DigestAlgorithmOID :: string
  cs_SigningTime :: "time option"
  cs_Timestamp :: "cms_timestamp option"
  cs_Signature :: bytes

record cms_evidence =
  ce_OCSPResponses :: "bytes list"
  ce_CRLs :: "bytes list"
  ce_Certificates :: "bytes list"

definition Evidence_Empty :: "cms_evidence \<Rightarrow> bool" where
  "Evidence_Empty e \<longleftrightarrow> ce_OCSPResponses e = [] \<and> ce_CRLs e = [] \<and> ce_Certificates e = []"

text \<open>
  What the service calls around the container: the ASN.1 reader and writer, the digests, the PEM
  armour of a container and the registry of OID names, which is a data file.
\<close>

record cmslib =
  cm_ParseSigners :: "bytes \<Rightarrow> cms_signer list option"
  cm_AddLTV :: "bytes \<Rightarrow> cms_evidence \<Rightarrow> goerr + bytes"
  cm_EmbeddedEvidence :: "bytes \<Rightarrow> goerr + cms_evidence"
  cm_PemEncode :: "bytes \<Rightarrow> bytes"
  cm_OidName :: "string \<Rightarrow> string"
  cm_Sha1 :: "bytes \<Rightarrow> bytes"
  cm_Sha256 :: "bytes \<Rightarrow> bytes"
  cm_Sha384 :: "bytes \<Rightarrow> bytes"
  cm_Sha512 :: "bytes \<Rightarrow> bytes"
  cm_Streebog256 :: "bytes \<Rightarrow> bytes"
  cm_Streebog512 :: "bytes \<Rightarrow> bytes"
  cm_RangeOrder :: "(string, cms_signer) gomap \<Rightarrow> cms_signer list"

end
