(* ===== verification/Cert_Parse.thy ===== *)
theory Cert_Parse
  imports Core_Types
begin

text \<open>
  Deriving the structured certificate from the driver's flat property set
  (internal/core/certparse.go), the RK-specific classification it rests on
  (internal/pki/oids.go), and the parts of Go's standard library both use: the X.509 parser and
  the PEM and base64 codecs are the fields of a record, so that everything below holds for
  whatever they return.
\<close>

section \<open>The standard library\<close>

record xname =
  xn_CommonName :: string
  xn_Organization :: "string list"
  xn_OrganizationalUnit :: "string list"
  xn_Country :: "string list"
  xn_Locality :: "string list"
  xn_Province :: "string list"
  xn_String :: string

text \<open>A parsed \<^verbatim>\<open>x509.Certificate\<close>, as far as the service reads it.\<close>

record xcert =
  xc_Raw :: bytes
  xc_RawSubject :: bytes
  xc_RawIssuer :: bytes
  xc_Subject :: xname
  xc_Issuer :: xname
  xc_SerialNumber :: nat
  xc_NotBefore :: time
  xc_NotAfter :: time
  xc_IsCA :: bool
  xc_KeyUsage :: nat
  xc_AuthorityKeyId :: bytes
  xc_SubjectKeyId :: bytes
  xc_OCSPServer :: "string list"
  xc_IssuingCertificateURL :: "string list"
  xc_CRLDistributionPoints :: "string list"
  xc_PolicyIdentifiers :: "string list"

datatype sigcheck = SigOK | SigUnsupported | SigBad

record golib =
  gl_ParseTime :: "string \<Rightarrow> time option"
  gl_Base64 :: "string \<Rightarrow> bytes option"
  gl_PemDecode :: "bytes \<Rightarrow> bytes option"
  gl_PemEncode :: "bytes \<Rightarrow> bytes"
  gl_ParseCertificate :: "bytes \<Rightarrow> xcert option"
  gl_CheckSignatureFrom :: "xcert \<Rightarrow> xcert \<Rightarrow> sigcheck"

definition toDER :: "golib \<Rightarrow> bytes \<Rightarrow> string \<Rightarrow> bytes" where
  "toDER G raw enc =
     (if enc = EncodingDER then raw
      else if enc = EncodingB64 then (case gl_Base64 G raw of Some d \<Rightarrow> d | None \<Rightarrow> [])
      else (case gl_PemDecode G raw of Some d \<Rightarrow> d | None \<Rightarrow> raw))"

section \<open>The RK classification (internal/pki/oids.go)\<close>

definition ekuRoleExact :: "(string \<times> string) list" where
  "ekuRoleExact =
     [(''1.2.398.3.3.4.1.1'', ''INDIVIDUAL''), (''1.2.398.3.3.4.1.2'', ''ORGANIZATION''),
      (''1.2.398.3.3.4.1.2.1'', ''CEO''), (''1.2.398.3.3.4.1.2.2'', ''CAN_SIGN''),
      (''1.2.398.3.3.4.1.2.3'', ''CAN_SIGN_FINANCIAL''), (''1.2.398.3.3.4.1.2.4'', ''HR''),
      (''1.2.398.3.3.4.1.2.5'', ''EMPLOYEE''), (''1.2.398.3.3.4.1.2.6'', ''INFOSYSTEM''),
      (''1.2.398.3.3.4.2.1'', ''NCA_ADMIN''), (''1.2.398.3.3.4.2.2'', ''NCA_MANAGER''),
      (''1.2.398.3.3.4.2.3'', ''NCA_OPERATOR''), (''1.2.398.3.3.4.3.1'', ''IDENTIFICATION_CON''),
      (''1.2.398.3.3.4.3.2'', ''IDENTIFICATION_REMOTE''),
      (''1.2.398.3.3.4.3.2.1'', ''IDENTIFICATION_DIGITAL_ID''),
      (''1.2.398.3.3.4.3.2.2'', ''IDENTIFICATION_AI_PLATFORM''),
      (''1.2.398.5.19.1.2.2.1'', ''TREASURY_CLIENT'')]"

definition infosystemPrefix :: string where
  "infosystemPrefix = ''1.2.398.3.3.4.1.2.6''"

definition KeyUserForOID :: "string \<Rightarrow> string" where
  "KeyUserForOID oid =
     (case map_of ekuRoleExact oid of
        Some r \<Rightarrow> r
      | None \<Rightarrow> if oid = infosystemPrefix \<or> HasPrefix oid (infosystemPrefix @ ''.'') then ''INFOSYSTEM'' else [])"

fun key_users_loop :: "string list \<Rightarrow> string list \<Rightarrow> string list" where
  "key_users_loop out [] = out"
| "key_users_loop out (oid # oids) =
     (let r = KeyUserForOID (TrimSpace oid)
      in if r \<noteq> [] \<and> r \<notin> set out then key_users_loop (out @ [r]) oids else key_users_loop out oids)"

definition KeyUsersFromEKU :: "string list \<Rightarrow> string list" where
  "KeyUsersFromEKU oids = key_users_loop [] oids"

definition OwnerTypeFrom :: "bool \<Rightarrow> bool \<Rightarrow> string" where
  "OwnerTypeFrom hasBIN hasNameOrIIN =
     (if \<not> hasBIN \<and> hasNameOrIIN then ''INDIVIDUAL''
      else if hasBIN \<and> hasNameOrIIN then ''LEGAL_PERSON''
      else if hasBIN \<and> \<not> hasNameOrIIN then ''INFOSYSTEM''
      else ''UNKNOWN'')"

definition GenderFromIIN :: "string \<Rightarrow> string" where
  "GenderFromIIN iin =
     (if length iin < 7 then ''NONE''
      else let c = byte_of (iin ! 6)
           in if c < 48 \<or> 57 < c then ''NONE''
              else if (c - 48) mod 2 = 1 then ''MALE''
              else if c = 48 then ''NONE''
              else ''FEMALE'')"

definition tsaPolicyByOID :: "(string \<times> string) list" where
  "tsaPolicyByOID =
     [(''1.2.398.3.3.2.6.1'', ''TSA_GOST_POLICY''), (''1.2.398.3.3.2.6.2'', ''TSA_RSA_POLICY''),
      (''1.2.398.3.3.2.6.3'', ''TSA_GOSTGT_POLICY''), (''1.2.398.3.3.2.6.4'', ''TSA_GOST2015_POLICY'')]"

definition TSAPolicyName :: "string \<Rightarrow> string" where
  "TSAPolicyName oid = (case map_of tsaPolicyByOID oid of Some n \<Rightarrow> n | None \<Rightarrow> [])"

definition hashNameByOID :: "(string \<times> string) list" where
  "hashNameByOID =
     [(''1.2.840.113549.2.5'', ''MD5''), (''1.3.14.3.2.26'', ''SHA1''),
      (''2.16.840.1.101.3.4.2.4'', ''SHA224''), (''2.16.840.1.101.3.4.2.1'', ''SHA256''),
      (''2.16.840.1.101.3.4.2.2'', ''SHA384''), (''2.16.840.1.101.3.4.2.3'', ''SHA512''),
      (''1.3.36.3.2.2'', ''RIPEMD128''), (''1.3.36.3.2.1'', ''RIPEMD160''), (''1.3.36.3.2.3'', ''RIPEMD256''),
      (''1.2.398.3.10.1.1.1.1'', ''GOST34311GT''), (''1.2.398.3.10.1.1.1'', ''GOST34311''),
      (''1.2.398.3.10.1.3.1'', ''GOST34311''), (''1.2.398.3.10.1.3.2'', ''GOST3411_2015_256''),
      (''1.2.398.3.10.1.3.3'', ''GOST3411_2015_512'')]"

definition HashNameForOID :: "string \<Rightarrow> string" where
  "HashNameForOID oid = (case map_of hashNameByOID oid of Some n \<Rightarrow> n | None \<Rightarrow> [])"

section \<open>Property values\<close>

text \<open>
  The pattern \<^verbatim>\<open>\d+(?:\.\d+){2,}\<close>: a maximal run of digits followed by as many dotted runs as
  there are, at least two. A start position that fails is followed by the next one.
\<close>

definition is_digit :: "char \<Rightarrow> bool" where
  "is_digit c \<longleftrightarrow> 48 \<le> byte_of c \<and> byte_of c \<le> 57"

function dotted_groups :: "string \<Rightarrow> string list \<times> string" where
  "dotted_groups s =
     (case s of
        c # rest \<Rightarrow>
          if c = CHR ''.'' \<and> takeWhile is_digit rest \<noteq> [] then
            (case dotted_groups (dropWhile is_digit rest) of
               (gs, r) \<Rightarrow> (takeWhile is_digit rest # gs, r))
          else ([], s)
      | [] \<Rightarrow> ([], s))"
  by auto
termination
  by (relation "measure length") (auto simp: le_imp_less_Suc length_dropWhile_le)

declare dotted_groups.simps [simp del]

definition oid_at :: "string \<Rightarrow> (string \<times> string) option" where
  "oid_at s =
     (let d = takeWhile is_digit s
      in if d = [] then None
         else case dotted_groups (dropWhile is_digit s) of
                (gs, r) \<Rightarrow> if 2 \<le> length gs then Some (d @ concat (map (\<lambda>g. CHR ''.'' # g) gs), r) else None)"

lemma dotted_groups_length: "length (snd (dotted_groups s)) \<le> length s"
proof (induction s rule: dotted_groups.induct)
  case (1 s)
  show ?case
  proof (cases s)
    case Nil
    then show ?thesis by (subst dotted_groups.simps) simp
  next
    case (Cons c rest)
    show ?thesis
    proof (cases "c = CHR ''.'' \<and> takeWhile is_digit rest \<noteq> []")
      case True
      with 1 Cons have "length (snd (dotted_groups (dropWhile is_digit rest))) \<le> length rest"
        using length_dropWhile_le [of is_digit rest] by fastforce
      with True Cons show ?thesis by (subst dotted_groups.simps) (auto split: prod.splits)
    next
      case False
      with Cons show ?thesis by (subst dotted_groups.simps) auto
    qed
  qed
qed

lemma oid_at_shrinks: "oid_at s = Some (m, r) \<Longrightarrow> length r < length s"
proof -
  assume "oid_at s = Some (m, r)"
  then have d: "takeWhile is_digit s \<noteq> []" and r: "r = snd (dotted_groups (dropWhile is_digit s))"
    by (auto simp: oid_at_def Let_def split: if_splits prod.splits)
  have "length (takeWhile is_digit s) + length (dropWhile is_digit s) = length s"
    by (metis length_append takeWhile_dropWhile_id)
  with d have "length (dropWhile is_digit s) < length s" by (cases "takeWhile is_digit s") auto
  with r dotted_groups_length [of "dropWhile is_digit s"] show ?thesis by simp
qed

function find_oids :: "string \<Rightarrow> string list" where
  "find_oids [] = []"
| "find_oids (c # s) =
     (case oid_at (c # s) of
        Some (m, r) \<Rightarrow> m # find_oids r
      | None \<Rightarrow> find_oids s)"
  by pat_completeness auto
termination
  by (relation "measure length") (auto dest: oid_at_shrinks)

definition lastOID :: "string \<Rightarrow> string" where
  "lastOID v = (let all = find_oids v in if all = [] then [] else last all)"

text \<open>The part before the last opening parenthesis, unless that is the first character.\<close>

definition stripParenOID :: "string \<Rightarrow> string" where
  "stripParenOID v =
     (let r = dropWhile (\<lambda>c. c \<noteq> CHR ''('') (rev v)
      in if length r > 1 then TrimSpace (rev (tl r)) else v)"

definition splitEKU :: "string \<Rightarrow> string list" where
  "splitEKU v = filter (\<lambda>p. p \<noteq> []) (map TrimSpace (Split v CHR '';''))"

definition trimPrefix :: "string \<Rightarrow> string \<Rightarrow> string" where
  "trimPrefix v prefix =
     (let v = TrimSpace v
      in if v = [] \<or> \<not> HasPrefix v prefix then [] else TrimSpace (drop (length prefix) v))"

definition simplifyKeyUsage :: "string list \<Rightarrow> string" where
  "simplifyKeyUsage bits =
     (if ''digitalSignature'' \<in> set bits \<and> ''nonRepudiation'' \<in> set bits then ''SIGN''
      else if ''digitalSignature'' \<in> set bits \<and> ''keyEncipherment'' \<in> set bits then ''AUTH''
      else ''UNKNOWN'')"

definition deriveKeyAlgorithm :: "string \<Rightarrow> string" where
  "deriveKeyAlgorithm signOID =
     (if signOID = SignSHA1RSA \<or> signOID = SignSHA256RSA then ''rsa''
      else if signOID = SignGOST2015_256 then ''gost2015-256''
      else if signOID = SignGOST2015_512 then ''gost2015-512''
      else if signOID = [] then []
      else ''gost2004'')"

definition parseKalkanTime :: "golib \<Rightarrow> string \<Rightarrow> string \<Rightarrow> warnings \<Rightarrow> time option \<times> warnings" where
  "parseKalkanTime G v field w =
     (let v = TrimSpace v
      in if v = [] then (None, w)
         else case gl_ParseTime G v of
                None \<Rightarrow> (None, w_add w field (''unparseable time: '' @ v))
              | Some t \<Rightarrow> (Some t, w))"

fun mergeUnique :: "string list \<Rightarrow> string list \<Rightarrow> string list" where
  "mergeUnique base [] = base"
| "mergeUnique base (v # vs) =
     (if v \<noteq> [] \<and> v \<notin> set base then mergeUnique (base @ [v]) vs else mergeUnique base vs)"

definition enrichFromDER :: "golib \<Rightarrow> certificate \<Rightarrow> bytes \<Rightarrow> certificate" where
  "enrichFromDER G cert der =
     (case gl_ParseCertificate G der of
        None \<Rightarrow> cert
      | Some c \<Rightarrow>
          cert\<lparr>ct_OCSPURLs := mergeUnique (ct_OCSPURLs cert) (xc_OCSPServer c),
               ct_CAIssuerURLs := mergeUnique (ct_CAIssuerURLs cert) (xc_IssuingCertificateURL c),
               ct_CRLURLs := mergeUnique (ct_CRLURLs cert) (xc_CRLDistributionPoints c),
               ct_AuthorityKeyID := (if ct_AuthorityKeyID cert = [] \<and> xc_AuthorityKeyId c \<noteq> []
                 then hex_upper (xc_AuthorityKeyId c) else ct_AuthorityKeyID cert),
               ct_SubjectKeyID := (if ct_SubjectKeyID cert = [] \<and> xc_SubjectKeyId c \<noteq> []
                 then hex_upper (xc_SubjectKeyId c) else ct_SubjectKeyID cert),
               ct_IsCA := (if xc_IsCA c then True else ct_IsCA cert),
               ct_PolicyOIDs := mergeUnique (ct_PolicyOIDs cert) (xc_PolicyIdentifiers c)\<rparr>)"

definition deriveSubjectIDs :: "subject \<Rightarrow> string \<Rightarrow> subject" where
  "deriveSubjectIDs s serial =
     (let iin = trimPrefix serial ''IIN'';
          s = (if iin \<noteq> [] then s\<lparr>sj_IIN := iin, sj_Gender := GenderFromIIN iin\<rparr> else s);
          ou = trimPrefix (sj_OrgUnit s) ''BIN'';
          bin = trimPrefix serial ''BIN''
      in if ou \<noteq> [] then s\<lparr>sj_BIN := ou\<rparr> else if bin \<noteq> [] then s\<lparr>sj_BIN := bin\<rparr> else s)"

definition subject_of_props :: "cert_properties \<Rightarrow> subject" where
  "subject_of_props props =
     (let get = (\<lambda>name. fst (props_Get props name))
      in no_subject\<lparr>sj_CommonName := get ''SUBJECT_COMMONNAME'', sj_LastName := get ''SUBJECT_SURNAME'',
           sj_GivenName := get ''SUBJECT_GIVENNAME'', sj_Email := get ''SUBJECT_EMAIL'',
           sj_Organization := get ''SUBJECT_ORG_NAME'', sj_OrgUnit := get ''SUBJECT_ORGUNIT_NAME'',
           sj_Country := get ''SUBJECT_COUNTRYNAME'', sj_Locality := get ''SUBJECT_LOCALITYNAME'',
           sj_State := get ''SUBJECT_SOPN'', sj_BusinessCategory := get ''SUBJECT_BC'',
           sj_DomainComponent := get ''SUBJECT_DC'', sj_DN := get ''SUBJECT_DN''\<rparr>)"

definition issuer_of_props :: "cert_properties \<Rightarrow> subject" where
  "issuer_of_props props =
     (let get = (\<lambda>name. fst (props_Get props name))
      in no_subject\<lparr>sj_CommonName := get ''ISSUER_COMMONNAME'', sj_Organization := get ''ISSUER_ORG_NAME'',
           sj_OrgUnit := get ''ISSUER_ORGUNIT_NAME'', sj_Country := get ''ISSUER_COUNTRYNAME'',
           sj_Locality := get ''ISSUER_LOCALITYNAME'', sj_State := get ''ISSUER_SOPN'',
           sj_DN := get ''ISSUER_DN''\<rparr>)"

definition parseCertificate :: "golib \<Rightarrow> cert_properties \<Rightarrow> bytes \<Rightarrow> string \<Rightarrow> warnings \<Rightarrow>
    certificate \<times> warnings" where
  "parseCertificate G props der prefix w =
     (let get = (\<lambda>name. fst (props_Get props name));
          subj = deriveSubjectIDs (subject_of_props props) (get ''SUBJECT_SERIALNUMBER'');
          hasNameOrIIN = (sj_CommonName subj \<noteq> [] \<or> sj_IIN subj \<noteq> []);
          (nb, w) = parseKalkanTime G (get ''NOTBEFORE'') (prefix @ ''notBefore'') w;
          (na, w) = parseKalkanTime G (get ''NOTAFTER'') (prefix @ ''notAfter'') w;
          cert = no_certificate\<lparr>ct_Subject := subj, ct_Issuer := issuer_of_props props,
            ct_SerialNumber := get ''CERT_SN'', ct_AuthorityKeyID := get ''AUTH_KEY_ID'',
            ct_SubjectKeyID := get ''SUBJ_KEY_ID'',
            ct_OwnerType := OwnerTypeFrom (sj_BIN subj \<noteq> []) hasNameOrIIN,
            ct_NotBefore := nb, ct_NotAfter := na\<rparr>;
          ku = Fields (get ''KEY_USAGE'');
          cert = (if get ''KEY_USAGE'' \<noteq> [] then
            cert\<lparr>ct_KeyUsage := ku, ct_KeyUsageKind := simplifyKeyUsage ku,
                 ct_IsCA := ''keyCertSign'' \<in> set ku\<rparr> else cert);
          eku = get ''EXT_KEY_USAGE'';
          cert = (if eku \<noteq> [] then
            cert\<lparr>ct_ExtendedKeyUsage := splitEKU eku, ct_Roles := KeyUsersFromEKU (find_oids eku),
                 ct_IsCA := False\<rparr> else cert);
          sa = get ''SIGNATURE_ALG'';
          cert = (if sa \<noteq> [] then
            cert\<lparr>ct_SignatureAlgorithm := TrimSpace (stripParenOID sa), ct_SignatureAlgorithmOID := lastOID sa,
                 ct_KeyAlgorithm := deriveKeyAlgorithm (lastOID sa)\<rparr> else cert);
          cert = (if get ''PUBKEY'' \<noteq> [] then
            (case gl_Base64 G (get ''PUBKEY'') of Some raw \<Rightarrow> cert\<lparr>ct_PublicKey := raw\<rparr> | None \<Rightarrow> cert) else cert);
          cert = (if get ''POLICIES_ID'' \<noteq> [] then cert\<lparr>ct_PolicyOIDs := find_oids (get ''POLICIES_ID'')\<rparr> else cert);
          cert = (if der \<noteq> [] then enrichFromDER G (cert\<lparr>ct_PEM := gl_PemEncode G der\<rparr>) der else cert)
      in (cert, w))"

definition ocspURLFromCert :: "golib \<Rightarrow> bytes \<Rightarrow> string" where
  "ocspURLFromCert G der =
     (case gl_ParseCertificate G der of
        None \<Rightarrow> []
      | Some c \<Rightarrow>
          (case find (\<lambda>u. HasPrefix u ''http://'' \<or> HasPrefix u ''https://'') (xc_OCSPServer c) of
             Some u \<Rightarrow> u | None \<Rightarrow> []))"

end
