(* ===== verification/Chain.thy ===== *)
theory Chain
  imports Cert_Parse
begin

text \<open>
  Building a certificate chain (internal/core/chain.go): the walk from a leaf to its issuers
  through the trusted set and, when enabled, through issuers downloaded over AIA. The walk is
  bounded by \<open>maxChainDepth\<close>, so it is a recursion on the remaining depth.
\<close>

section \<open>Operations\<close>

definition maxChainDepth :: nat where "maxChainDepth = 16"

type_synonym issuer_fetcher = "bytes \<Rightarrow> bytes option"

text \<open>A Go computation that may panic.\<close>

datatype 'a go = Panics | Returns 'a

definition isSelfIssued :: "xcert \<Rightarrow> bool" where
  "isSelfIssued c \<longleftrightarrow> xc_RawIssuer c = xc_RawSubject c"

definition issues :: "golib \<Rightarrow> xcert \<Rightarrow> xcert \<Rightarrow> bool" where
  "issues G current cand \<longleftrightarrow>
     (case gl_CheckSignatureFrom G current cand of SigOK \<Rightarrow> True | SigUnsupported \<Rightarrow> True | SigBad \<Rightarrow> False)"

definition may_issue :: "golib \<Rightarrow> xcert \<Rightarrow> xcert \<Rightarrow> bool" where
  "may_issue G current c \<longleftrightarrow> xc_RawIssuer current = xc_RawSubject c \<and> issues G current c"

definition fetchIssuer :: "golib \<Rightarrow> xcert \<Rightarrow> issuer_fetcher \<Rightarrow> xcert option" where
  "fetchIssuer G current fetcher =
     (case fetcher (xc_Raw current) of
        None \<Rightarrow> None
      | Some der \<Rightarrow>
          if der = [] then None
          else case gl_ParseCertificate G der of
                 None \<Rightarrow> None
               | Some c \<Rightarrow>
                   if xc_RawIssuer current \<noteq> xc_RawSubject c \<or> \<not> issues G current c then None else Some c)"

fun find_issuer_loop :: "golib \<Rightarrow> xcert \<Rightarrow> xcert option \<Rightarrow> xcert option \<Rightarrow> xcert list \<Rightarrow> xcert option" where
  "find_issuer_loop G current byKeyID byName [] =
     (case byKeyID of Some c \<Rightarrow> Some c | None \<Rightarrow> byName)"
| "find_issuer_loop G current byKeyID byName (c # cs) =
     (if xc_RawIssuer current \<noteq> xc_RawSubject c \<or> \<not> issues G current c then
        find_issuer_loop G current byKeyID byName cs
      else if gl_CheckSignatureFrom G current c = SigOK then Some c
      else if xc_AuthorityKeyId current \<noteq> [] \<and> xc_AuthorityKeyId current = xc_SubjectKeyId c then
        find_issuer_loop G current (case byKeyID of None \<Rightarrow> Some c | Some k \<Rightarrow> Some k) byName cs
      else
        find_issuer_loop G current byKeyID (case byName of None \<Rightarrow> Some c | Some k \<Rightarrow> Some k) cs)"

definition findIssuer :: "golib \<Rightarrow> xcert \<Rightarrow> xcert list \<Rightarrow> xcert option" where
  "findIssuer G current candidates = find_issuer_loop G current None None candidates"

definition nodeIsRoot :: "golib \<Rightarrow> bytes \<Rightarrow> bool" where
  "nodeIsRoot G pemBytes =
     (case gl_ParseCertificate G (toDER G pemBytes EncodingPEM) of None \<Rightarrow> False | Some c \<Rightarrow> isSelfIssued c)"

definition first_of :: "string list \<Rightarrow> string" where
  "first_of s = (case s of [] \<Rightarrow> [] | x # xs \<Rightarrow> x)"

definition subjectFromName :: "xname \<Rightarrow> subject" where
  "subjectFromName n = no_subject\<lparr>sj_CommonName := xn_CommonName n,
     sj_Organization := first_of (xn_Organization n), sj_OrgUnit := first_of (xn_OrganizationalUnit n),
     sj_Country := first_of (xn_Country n), sj_Locality := first_of (xn_Locality n),
     sj_State := first_of (xn_Province n), sj_DN := xn_String n\<rparr>"

definition keyUsageStrings :: "nat \<Rightarrow> string list" where
  "keyUsageStrings ku =
     map snd (filter (\<lambda>(b, name). bit ku b)
       [(0, ''digitalSignature''), (1, ''nonRepudiation''), (2, ''keyEncipherment''),
        (3, ''dataEncipherment''), (4, ''keyAgreement''), (5, ''keyCertSign''), (6, ''cRLSign'')])"

text \<open>\<^verbatim>\<open>big.Int.Bytes\<close>: the minimal big-endian bytes of a number.\<close>

fun nat_bytes :: "nat \<Rightarrow> bytes" where
  "nat_bytes n = (if n = 0 then [] else nat_bytes (n div 256) @ [char_of (n mod 256)])"

declare nat_bytes.simps [simp del]

definition certFromX509 :: "golib \<Rightarrow> xcert \<Rightarrow> bytes \<Rightarrow> certificate" where
  "certFromX509 G c pemBytes =
     (let cert = no_certificate\<lparr>ct_Subject := subjectFromName (xc_Subject c),
            ct_Issuer := subjectFromName (xc_Issuer c),
            ct_SerialNumber := hex_upper (nat_bytes (xc_SerialNumber c)),
            ct_NotBefore := Some (xc_NotBefore c), ct_NotAfter := Some (xc_NotAfter c),
            ct_IsCA := xc_IsCA c, ct_KeyUsage := keyUsageStrings (xc_KeyUsage c), ct_PEM := pemBytes\<rparr>;
          cert = (if xc_SubjectKeyId c \<noteq> [] then cert\<lparr>ct_SubjectKeyID := hex_upper (xc_SubjectKeyId c)\<rparr> else cert);
          cert = (if xc_AuthorityKeyId c \<noteq> [] then cert\<lparr>ct_AuthorityKeyID := hex_upper (xc_AuthorityKeyId c)\<rparr> else cert)
      in enrichFromDER G cert (xc_Raw c))"

text \<open>The trusted set: the certificates that parse, and their DER as the anchor lookup.\<close>

definition trusted_ders :: "golib \<Rightarrow> trusted_cert list \<Rightarrow> (bytes \<times> xcert) list" where
  "trusted_ders G trusted =
     concat (map (\<lambda>tc. let der = toDER G (tc_Cert tc) EncodingPEM
                       in if der = [] then []
                          else case gl_ParseCertificate G der of Some c \<Rightarrow> [(der, c)] | None \<Rightarrow> []) trusted)"

definition next_issuer :: "golib \<Rightarrow> xcert list \<Rightarrow> issuer_fetcher option \<Rightarrow> xcert \<Rightarrow> xcert option" where
  "next_issuer G candidates fetcher current =
     (case findIssuer G current candidates of
        Some c \<Rightarrow> Some c
      | None \<Rightarrow> (case fetcher of None \<Rightarrow> None | Some f \<Rightarrow> fetchIssuer G current f))"

fun chain_loop :: "nat \<Rightarrow> golib \<Rightarrow> xcert list \<Rightarrow> bytes set \<Rightarrow> issuer_fetcher option \<Rightarrow> xcert \<Rightarrow>
    bytes set \<Rightarrow> certificate list \<Rightarrow> bool \<Rightarrow> certificate list \<times> bool \<times> bool" where
  "chain_loop 0 G candidates anchorDERs fetcher current seen chain anchored = (chain, False, anchored)"
| "chain_loop (Suc depth) G candidates anchorDERs fetcher current seen chain anchored =
     (if isSelfIssued current then (chain, True, anchored)
      else case next_issuer G candidates fetcher current of
             None \<Rightarrow> (chain, False, anchored)
           | Some issuer \<Rightarrow>
               if xc_RawSubject issuer \<in> seen then (chain, False, anchored)
               else chain_loop depth G candidates anchorDERs fetcher issuer
                      (insert (xc_RawSubject issuer) seen)
                      (chain @ [certFromX509 G issuer (gl_PemEncode G (xc_Raw issuer))])
                      (anchored \<or> xc_Raw issuer \<in> anchorDERs))"

definition buildChain :: "golib \<Rightarrow> certificate \<Rightarrow> bytes \<Rightarrow> trusted_cert list \<Rightarrow> issuer_fetcher option \<Rightarrow>
    certificate list \<times> bool \<times> bool" where
  "buildChain G leafFull leafDER trusted fetcher =
     (if leafDER = [] then ([], False, False)
      else case gl_ParseCertificate G leafDER of
             None \<Rightarrow> ([], False, False)
           | Some leaf \<Rightarrow>
               (let candidates = map snd (trusted_ders G trusted);
                    anchorDERs = set (map fst (trusted_ders G trusted))
                in chain_loop maxChainDepth G candidates anchorDERs fetcher leaf {xc_RawSubject leaf}
                     [leafFull] (leafDER \<in> anchorDERs)))"

section \<open>The callers that slice the chain (internal/core/service.go)\<close>

definition mergedTrusted :: "trusted_cert list option \<Rightarrow> trusted_cert list \<Rightarrow> trusted_cert list" where
  "mergedTrusted trust extra = (case trust of Some anchors \<Rightarrow> anchors | None \<Rightarrow> []) @ extra"

text \<open>\<^verbatim>\<open>chain[1:]\<close> on a chain without a leaf is out of range.\<close>

definition ca_nodes :: "certificate list \<Rightarrow> certificate list go" where
  "ca_nodes chain = (case chain of [] \<Rightarrow> Panics | leaf # nodes \<Rightarrow> Returns nodes)"

definition as_trusted :: "golib \<Rightarrow> certificate \<Rightarrow> trusted_cert" where
  "as_trusted G node = \<lparr>tc_Cert = ct_PEM node, tc_Intermediate = \<not> nodeIsRoot G (ct_PEM node)\<rparr>"

fun discover_nodes :: "golib \<Rightarrow> bytes set \<Rightarrow> certificate list \<Rightarrow> trusted_cert list \<times> bytes set" where
  "discover_nodes G have_ders [] = ([], have_ders)"
| "discover_nodes G have_ders (node # nodes) =
     (let key = toDER G (ct_PEM node) EncodingPEM
      in if key \<in> have_ders then discover_nodes G have_ders nodes
         else case discover_nodes G (insert key have_ders) nodes of
                (extra, h) \<Rightarrow> (as_trusted G node # extra, h))"

fun discover_loop :: "golib \<Rightarrow> trusted_cert list \<Rightarrow> issuer_fetcher \<Rightarrow> bytes set \<Rightarrow> bytes list \<Rightarrow>
    trusted_cert list go" where
  "discover_loop G trusted f have_ders [] = Returns []"
| "discover_loop G trusted f have_ders (der # ders) =
     (case ca_nodes (fst (buildChain G no_certificate der trusted (Some f))) of
        Panics \<Rightarrow> Panics
      | Returns nodes \<Rightarrow>
          (case discover_nodes G have_ders nodes of
             (extra, h) \<Rightarrow>
               (case discover_loop G trusted f h ders of
                  Panics \<Rightarrow> Panics
                | Returns rest \<Rightarrow> Returns (extra @ rest))))"

definition discoverAnchors :: "golib \<Rightarrow> issuer_fetcher option \<Rightarrow> bytes list \<Rightarrow> trusted_cert list \<Rightarrow>
    trusted_cert list go" where
  "discoverAnchors G fetcher leavesDER trusted =
     (case fetcher of
        None \<Rightarrow> Returns []
      | Some f \<Rightarrow>
          discover_loop G trusted f (set (map (\<lambda>tc. toDER G (tc_Cert tc) EncodingPEM) trusted)) leavesDER)"

section \<open>The issuer of a certificate\<close>

lemma find_issuer_loop_sound:
  "find_issuer_loop G current k n cs = Some c \<Longrightarrow>
   (\<And>x. k = Some x \<Longrightarrow> may_issue G current x \<and> x \<in> S) \<Longrightarrow>
   (\<And>x. n = Some x \<Longrightarrow> may_issue G current x \<and> x \<in> S) \<Longrightarrow> set cs \<subseteq> S \<Longrightarrow>
   may_issue G current c \<and> c \<in> S"
proof (induction G current k n cs rule: find_issuer_loop.induct)
  case (1 G current k n)
  then show ?case by (auto split: option.splits)
next
  case (2 G current k n x cs)
  have x: "x \<in> S" "set cs \<subseteq> S" using "2.prems"(4) by auto
  show ?case
  proof (cases "xc_RawIssuer current \<noteq> xc_RawSubject x \<or> \<not> issues G current x")
    case True
    with 2 x show ?thesis by simp
  next
    case False
    then have m: "may_issue G current x" by (simp add: may_issue_def)
    consider (ok) "gl_CheckSignatureFrom G current x = SigOK"
      | (key) "gl_CheckSignatureFrom G current x \<noteq> SigOK"
          "xc_AuthorityKeyId current \<noteq> [] \<and> xc_AuthorityKeyId current = xc_SubjectKeyId x"
      | (name) "gl_CheckSignatureFrom G current x \<noteq> SigOK"
          "\<not> (xc_AuthorityKeyId current \<noteq> [] \<and> xc_AuthorityKeyId current = xc_SubjectKeyId x)"
      by blast
    then show ?thesis
    proof cases
      case ok
      with False "2.prems"(1) m x show ?thesis by simp
    next
      case key
      have "find_issuer_loop G current (case k of None \<Rightarrow> Some x | Some y \<Rightarrow> Some y) n cs = Some c"
        using False key "2.prems"(1) by auto
      from False key this show ?thesis
        by (rule "2.IH"(2)) (use "2.prems"(2,3) m x in \<open>auto split: option.splits\<close>)
    next
      case name
      have "find_issuer_loop G current k (case n of None \<Rightarrow> Some x | Some y \<Rightarrow> Some y) cs = Some c"
        using False name "2.prems"(1) by (simp split: if_splits)
      from False name this show ?thesis
        by (rule "2.IH"(3)) (use "2.prems"(2,3) m x in \<open>auto split: option.splits\<close>)
    qed
  qed
qed

lemma findIssuer_sound: "findIssuer G current cs = Some c \<Longrightarrow> may_issue G current c \<and> c \<in> set cs"
  unfolding findIssuer_def by (rule find_issuer_loop_sound [where S = "set cs"]) auto

lemma fetchIssuer_sound: "fetchIssuer G current f = Some c \<Longrightarrow> may_issue G current c"
  by (auto simp: fetchIssuer_def may_issue_def split: option.splits if_splits)

lemma next_issuer_sound: "next_issuer G cs fetcher current = Some c \<Longrightarrow> may_issue G current c"
  by (auto simp: next_issuer_def dest: findIssuer_sound fetchIssuer_sound split: option.splits)

text \<open>
  A candidate whose signature verifies wins over every other, and a certificate without an
  issuer among the candidates has no candidate that could be one.
\<close>

lemma find_issuer_loop_verified:
  "x \<in> set cs \<Longrightarrow> xc_RawIssuer current = xc_RawSubject x \<Longrightarrow> gl_CheckSignatureFrom G current x = SigOK \<Longrightarrow>
   \<exists>c. find_issuer_loop G current k n cs = Some c \<and> gl_CheckSignatureFrom G current c = SigOK"
proof (induction G current k n cs rule: find_issuer_loop.induct)
  case (2 G current k n y cs)
  show ?case
  proof (cases "y = x")
    case True
    with 2 have "issues G current y" by (simp add: issues_def)
    with True 2 show ?thesis by simp
  next
    case False
    with 2 show ?thesis by auto
  qed
qed simp

lemma find_issuer_loop_keeps:
  "k \<noteq> None \<or> n \<noteq> None \<Longrightarrow> find_issuer_loop G current k n cs \<noteq> None"
proof (induction cs arbitrary: k n)
  case Nil
  then show ?case by (auto split: option.splits)
next
  case (Cons c cs)
  have "(case k of None \<Rightarrow> Some c | Some y \<Rightarrow> Some y) \<noteq> None" "(case n of None \<Rightarrow> Some c | Some y \<Rightarrow> Some y) \<noteq> None"
    by (simp_all split: option.splits)
  with Cons show ?case by simp
qed

lemma findIssuer_None: "findIssuer G current cs = None \<Longrightarrow> x \<in> set cs \<Longrightarrow> \<not> may_issue G current x"
proof (induction cs)
  case (Cons c cs)
  have "\<not> may_issue G current c"
  proof
    assume "may_issue G current c"
    then have m: "xc_RawIssuer current = xc_RawSubject c" "issues G current c" by (simp_all add: may_issue_def)
    have "findIssuer G current (c # cs) \<noteq> None"
      using m find_issuer_loop_keeps [of "Some c" None G current cs] find_issuer_loop_keeps [of None "Some c" G current cs]
      by (simp add: findIssuer_def)
    with Cons.prems(1) show False by simp
  qed
  moreover from this Cons.prems(1) have "findIssuer G current cs = None"
    by (simp add: findIssuer_def may_issue_def split: if_splits)
  ultimately show ?case using Cons by auto
qed simp

section \<open>The walk\<close>

definition chain_node :: "golib \<Rightarrow> xcert \<Rightarrow> certificate" where
  "chain_node G x = certFromX509 G x (gl_PemEncode G (xc_Raw x))"

text \<open>A path from a certificate: each certificate may have issued the one before it.\<close>

definition issuer_path :: "golib \<Rightarrow> xcert \<Rightarrow> xcert list \<Rightarrow> bool" where
  "issuer_path G x xs \<longleftrightarrow> successively (may_issue G) (x # xs)"

lemma issuer_path_simps [simp]:
  "issuer_path G x []" "issuer_path G x (y # ys) \<longleftrightarrow> may_issue G x y \<and> issuer_path G y ys"
  by (simp_all add: issuer_path_def)

definition chain_spec :: "golib \<Rightarrow> xcert list \<Rightarrow> issuer_fetcher option \<Rightarrow> bytes set \<Rightarrow> nat \<Rightarrow> xcert \<Rightarrow>
    bytes set \<Rightarrow> bool \<Rightarrow> bool \<Rightarrow> bool \<Rightarrow> xcert list \<Rightarrow> bool" where
  "chain_spec G cs fetcher A n current seen anchored complete anchored' xs \<longleftrightarrow>
     length xs \<le> n \<and> issuer_path G current xs \<and>
     distinct (map xc_RawSubject xs) \<and> xc_RawSubject ` set xs \<inter> seen = {} \<and>
     (anchored' \<longleftrightarrow> anchored \<or> (\<exists>x \<in> set xs. xc_Raw x \<in> A)) \<and>
     (complete \<longrightarrow> isSelfIssued (last (current # xs))) \<and>
     (\<not> complete \<and> length xs < n \<longrightarrow> \<not> isSelfIssued (last (current # xs)) \<and>
        (\<forall>i. next_issuer G cs fetcher (last (current # xs)) = Some i \<longrightarrow>
           xc_RawSubject i \<in> seen \<union> xc_RawSubject ` set xs))"

lemma chain_spec_stop:
  assumes "complete \<longrightarrow> isSelfIssued current"
    and "\<not> complete \<Longrightarrow> 0 < n \<Longrightarrow> \<not> isSelfIssued current \<and>
      (\<forall>i. next_issuer G cs fetcher current = Some i \<longrightarrow> xc_RawSubject i \<in> seen)"
  shows "chain_spec G cs fetcher A n current seen anchored complete anchored []"
  using assms by (simp add: chain_spec_def)

lemma chain_spec_step:
  assumes "chain_spec G cs fetcher A n i (insert (xc_RawSubject i) seen) (anchored \<or> xc_Raw i \<in> A) complete anchored' xs"
    and "may_issue G current i" and "xc_RawSubject i \<notin> seen"
  shows "chain_spec G cs fetcher A (Suc n) current seen anchored complete anchored' (i # xs)"
  unfolding chain_spec_def
proof (intro conjI)
  note spec = assms(1) [unfolded chain_spec_def]
  show "length (i # xs) \<le> Suc n" "issuer_path G current (i # xs)" "distinct (map xc_RawSubject (i # xs))"
    using spec assms(2) by auto
  show "xc_RawSubject ` set (i # xs) \<inter> seen = {}" using spec assms(3) by auto
  show "anchored' \<longleftrightarrow> anchored \<or> (\<exists>x \<in> set (i # xs). xc_Raw x \<in> A)" using spec by auto
  show "complete \<longrightarrow> isSelfIssued (last (current # i # xs))" using spec by simp
  show "\<not> complete \<and> length (i # xs) < Suc n \<longrightarrow> \<not> isSelfIssued (last (current # i # xs)) \<and>
      (\<forall>j. next_issuer G cs fetcher (last (current # i # xs)) = Some j \<longrightarrow>
         xc_RawSubject j \<in> seen \<union> xc_RawSubject ` set (i # xs))"
    using spec by simp
qed

lemma chain_loop_spec:
  "chain_loop n G cs A fetcher current seen chain anchored = (chain', complete, anchored') \<Longrightarrow>
   \<exists>xs. chain' = chain @ map (chain_node G) xs \<and>
     chain_spec G cs fetcher A n current seen anchored complete anchored' xs"
proof (induction n G cs A fetcher current seen chain anchored
    arbitrary: chain' complete anchored' rule: chain_loop.induct)
  case (1 G cs A fetcher current seen chain anchored)
  then show ?case by (intro exI [of _ "[]"]) (simp add: chain_spec_stop)
next
  case (2 n G cs A fetcher current seen chain anchored)
  consider (self) "isSelfIssued current"
    | (stop) "\<not> isSelfIssued current"
        "\<forall>i. next_issuer G cs fetcher current = Some i \<longrightarrow> xc_RawSubject i \<in> seen"
    | (step) i where "\<not> isSelfIssued current" "next_issuer G cs fetcher current = Some i" "xc_RawSubject i \<notin> seen"
    by blast
  then show ?case
  proof cases
    case self
    with "2.prems" show ?thesis by (intro exI [of _ "[]"]) (auto intro!: chain_spec_stop)
  next
    case stop
    with "2.prems" show ?thesis
      by (intro exI [of _ "[]"]) (auto intro!: chain_spec_stop split: option.splits)
  next
    case (step i)
    have "chain_loop n G cs A fetcher i (insert (xc_RawSubject i) seen)
        (chain @ [certFromX509 G i (gl_PemEncode G (xc_Raw i))]) (anchored \<or> xc_Raw i \<in> A) =
        (chain', complete, anchored')"
      using step "2.prems" by simp
    from "2.IH" [OF step this] obtain xs where
      "chain' = (chain @ [certFromX509 G i (gl_PemEncode G (xc_Raw i))]) @ map (chain_node G) xs" and
      spec: "chain_spec G cs fetcher A n i (insert (xc_RawSubject i) seen) (anchored \<or> xc_Raw i \<in> A) complete anchored' xs"
      by blast
    then have "chain' = chain @ map (chain_node G) (i # xs)" by (simp add: chain_node_def)
    with chain_spec_step [OF spec next_issuer_sound [OF step(2)] step(3)] show ?thesis by blast
  qed
qed

lemma buildChain_chain:
  assumes "buildChain G leafFull leafDER trusted fetcher = (chain, complete, anchored)"
    and "leafDER \<noteq> []" and "gl_ParseCertificate G leafDER = Some leaf"
  shows "\<exists>xs. chain = leafFull # map (chain_node G) xs"
  using assms chain_loop_spec by (fastforce simp: buildChain_def Let_def)

section \<open>Properties\<close>

text \<open>
  Claim C26: what a built chain is. For a leaf that parses, the chain starts with the leaf's own
  view and continues with at most sixteen CA nodes, one per certificate of a path in which each
  certificate names the next as its issuer with a signature Go does not refute; no subject
  occurs twice. A chain reported complete ends in a self-issued certificate; one reported
  incomplete before the depth bound ends where no further issuer is known or a cycle would
  begin; anchored holds exactly if the leaf or a node is one of the trusted certificates.
\<close>

theorem buildChain_path:
  assumes "buildChain G leafFull leafDER trusted fetcher = (chain, complete, anchored)"
    and "leafDER \<noteq> []" and "gl_ParseCertificate G leafDER = Some leaf"
  defines "anchorDERs \<equiv> set (map fst (trusted_ders G trusted))"
    and "candidates \<equiv> map snd (trusted_ders G trusted)"
  shows "\<exists>xs. chain = leafFull # map (chain_node G) xs \<and> length xs \<le> 16 \<and> issuer_path G leaf xs \<and>
    distinct (map xc_RawSubject (leaf # xs)) \<and>
    (complete \<longrightarrow> isSelfIssued (last (leaf # xs))) \<and>
    (\<not> complete \<and> length xs < 16 \<longrightarrow> \<not> isSelfIssued (last (leaf # xs)) \<and>
       (\<forall>i. next_issuer G candidates fetcher (last (leaf # xs)) = Some i \<longrightarrow>
          xc_RawSubject i \<in> xc_RawSubject ` set (leaf # xs))) \<and>
    (anchored \<longleftrightarrow> leafDER \<in> anchorDERs \<or> (\<exists>x \<in> set xs. xc_Raw x \<in> anchorDERs))"
proof -
  have "chain_loop 16 G candidates anchorDERs fetcher leaf {xc_RawSubject leaf} [leafFull]
      (leafDER \<in> anchorDERs) = (chain, complete, anchored)"
    using assms(1-3) by (simp add: buildChain_def maxChainDepth_def anchorDERs_def candidates_def)
  from chain_loop_spec [OF this] obtain xs where
    chain: "chain = [leafFull] @ map (chain_node G) xs" and
    spec: "chain_spec G candidates fetcher anchorDERs 16 leaf {xc_RawSubject leaf} (leafDER \<in> anchorDERs)
      complete anchored xs" by blast
  note facts = spec [unfolded chain_spec_def]
  have "distinct (map xc_RawSubject (leaf # xs))" using facts by auto
  with chain facts show ?thesis by (intro exI [of _ xs]) simp
qed

text \<open>A concrete parser: the first byte is the subject, the rest the issuer.\<close>

definition demo_name :: xname where
  "demo_name = \<lparr>xn_CommonName = [], xn_Organization = [], xn_OrganizationalUnit = [], xn_Country = [],
     xn_Locality = [], xn_Province = [], xn_String = []\<rparr>"

definition demo_xcert :: "bytes \<Rightarrow> bytes \<Rightarrow> bytes \<Rightarrow> xcert" where
  "demo_xcert raw subj iss = \<lparr>xc_Raw = raw, xc_RawSubject = subj, xc_RawIssuer = iss, xc_Subject = demo_name,
     xc_Issuer = demo_name, xc_SerialNumber = 1, xc_NotBefore = 0, xc_NotAfter = 100, xc_IsCA = False,
     xc_KeyUsage = 0, xc_AuthorityKeyId = [], xc_SubjectKeyId = [], xc_OCSPServer = [''http://ocsp''],
     xc_IssuingCertificateURL = [], xc_CRLDistributionPoints = [], xc_PolicyIdentifiers = []\<rparr>"

definition demo_golib :: golib where
  "demo_golib = \<lparr>gl_ParseTime = (\<lambda>_. None), gl_Base64 = (\<lambda>_. None), gl_PemDecode = (\<lambda>_. None),
     gl_PemEncode = (\<lambda>d. d),
     gl_ParseCertificate = (\<lambda>d. case d of [] \<Rightarrow> None | c # cs \<Rightarrow> if cs = [] then None else Some (demo_xcert d [c] cs)),
     gl_CheckSignatureFrom = (\<lambda>a b. SigUnsupported)\<rparr>"

theorem buildChain_path_witness:
  "\<exists>xs. fst (buildChain demo_golib no_certificate ''LR'' [\<lparr>tc_Cert = ''RR'', tc_Intermediate = False\<rparr>] None) =
     no_certificate # map (chain_node demo_golib) xs"
proof -
  let ?b = "buildChain demo_golib no_certificate ''LR'' [\<lparr>tc_Cert = ''RR'', tc_Intermediate = False\<rparr>] None"
  have "?b = (fst ?b, fst (snd ?b), snd (snd ?b))" by simp
  moreover have "gl_ParseCertificate demo_golib ''LR'' = Some (demo_xcert ''LR'' ''L'' ''R'')"
    by (simp add: demo_golib_def)
  ultimately show ?thesis using buildChain_path by blast
qed

text \<open>
  The issuer the walk picks. It is one of the candidates, names match and Go does not
  refute its signature; if some candidate's signature verifies, the picked one's does; and if
  none is picked, no candidate could have issued the certificate.
\<close>

theorem findIssuer_picks:
  "(\<forall>c. findIssuer G current cs = Some c \<longrightarrow> c \<in> set cs \<and> may_issue G current c) \<and>
   ((\<exists>x \<in> set cs. xc_RawIssuer current = xc_RawSubject x \<and> gl_CheckSignatureFrom G current x = SigOK) \<longrightarrow>
      (\<exists>c. findIssuer G current cs = Some c \<and> gl_CheckSignatureFrom G current c = SigOK)) \<and>
   (findIssuer G current cs = None \<longrightarrow> (\<forall>x \<in> set cs. \<not> may_issue G current x))"
proof (intro conjI allI impI)
  fix c assume "findIssuer G current cs = Some c"
  then show "c \<in> set cs" "may_issue G current c" using findIssuer_sound by blast+
next
  assume "\<exists>x \<in> set cs. xc_RawIssuer current = xc_RawSubject x \<and> gl_CheckSignatureFrom G current x = SigOK"
  then show "\<exists>c. findIssuer G current cs = Some c \<and> gl_CheckSignatureFrom G current c = SigOK"
    using find_issuer_loop_verified unfolding findIssuer_def by blast
next
  assume "findIssuer G current cs = None"
  then show "\<forall>x \<in> set cs. \<not> may_issue G current x" using findIssuer_None by blast
qed

theorem findIssuer_picks_witness:
  "findIssuer demo_golib (demo_xcert ''LR'' ''L'' ''R'') [demo_xcert ''RR'' ''R'' ''R''] \<noteq> None"
proof
  assume "findIssuer demo_golib (demo_xcert ''LR'' ''L'' ''R'') [demo_xcert ''RR'' ''R'' ''R''] = None"
  then have "\<forall>x \<in> set [demo_xcert ''RR'' ''R'' ''R'']. \<not> may_issue demo_golib (demo_xcert ''LR'' ''L'' ''R'') x"
    using findIssuer_picks by blast
  then show False by (simp add: may_issue_def issues_def demo_golib_def demo_xcert_def)
qed

text \<open>
  Discovering issuers panics exactly when a leaf cannot be used. With AIA fetching
  enabled, the discovery of a single leaf slices the chain of that leaf; an empty or unparsable
  leaf has no chain and the slice is out of range, any other leaf has one.
\<close>

theorem discoverAnchors_panics_iff:
  "discoverAnchors G (Some f) [der] trusted = Panics \<longleftrightarrow> der = [] \<or> gl_ParseCertificate G der = None"
proof (cases "der = [] \<or> gl_ParseCertificate G der = None")
  case True
  then show ?thesis by (auto simp: discoverAnchors_def buildChain_def ca_nodes_def)
next
  case False
  then obtain leaf where leaf: "der \<noteq> []" "gl_ParseCertificate G der = Some leaf" by auto
  obtain chain complete anchored where
    b: "buildChain G no_certificate der trusted (Some f) = (chain, complete, anchored)" by (metis prod_cases3)
  from buildChain_chain [OF b leaf] show ?thesis
    using False b by (auto simp: discoverAnchors_def ca_nodes_def split: prod.splits)
qed

end
