(* ===== verification/Report.thy ===== *)
theory Report
  imports Core_Types
begin

text \<open>
  The plain-language views of a verification: the ordered diagnosis (internal/core/explain.go),
  the verification card with its three-valued verdict (internal/core/report.go) and the receipt
  that attests to it (internal/core/receipt.go). All three are functions of a completed
  verification; the digest is an argument.
\<close>

section \<open>The diagnosis\<close>

datatype diag_status = DiagPass | DiagFail | DiagWarn | DiagSkipped | DiagUnknown

fun severity :: "diag_status \<Rightarrow> nat" where
  "severity DiagFail = 4"
| "severity DiagUnknown = 3"
| "severity DiagWarn = 2"
| "severity DiagPass = 1"
| "severity DiagSkipped = 0"

record diag_step =
  dp_Step :: string
  dp_Status :: diag_status
  dp_Summary :: string
  dp_Action :: string

record diagnosis =
  dx_Valid :: bool
  dx_Summary :: string
  dx_Steps :: "diag_step list"

section \<open>The card\<close>

datatype verdict = VerdictValid | VerdictInvalid | VerdictIndeterminate

record report_signer =
  pg_Name :: string
  pg_IIN :: string
  pg_BIN :: string
  pg_Organization :: string
  pg_OwnerType :: string
  pg_Roles :: "string list"
  pg_Valid :: bool
  pg_SignedAt :: "time option"
  pg_SignedAtSource :: string
  pg_SignatureAlgorithm :: string
  pg_Algorithm :: algorithm_info
  pg_CAdESLevel :: string
  pg_SerialNumber :: string
  pg_Issuer :: string
  pg_NotBefore :: "time option"
  pg_NotAfter :: "time option"
  pg_Expired :: bool
  pg_Complete :: bool
  pg_AnchoredInTrust :: bool
  pg_SignaturesVerified :: bool
  pg_CertificatesInChain :: nat

record report =
  rp_Verdict :: verdict
  rp_Summary :: string
  rp_CheckedAt :: time
  rp_Format :: string
  rp_Detached :: bool
  rp_SignatureSHA256 :: string
  rp_ContentSHA256 :: string
  rp_ContentBytes :: nat
  rp_Signers :: "report_signer list"
  rp_Steps :: "diag_step list"
  rp_Warnings :: "string list"

record archive_output =
  ao_Signature :: bytes
  ao_OCSPResponses :: nat
  ao_CRLs :: nat
  ao_Certificates :: nat
  ao_Level :: string
  ao_Warnings :: warnings

record verify_output =
  vo_Valid :: bool
  vo_Format :: string
  vo_Detached :: bool
  vo_Signers :: "signer list"
  vo_Content :: bytes
  vo_Warnings :: warnings
  vo_LibError :: "lib_error option"
  vo_Explanation :: "diagnosis option"
  vo_Report :: "report option"
  vo_Receipt :: string
  vo_Archive :: "archive_output option"

section \<open>Building the diagnosis\<close>

definition mk_step :: "string \<Rightarrow> diag_status \<Rightarrow> string \<Rightarrow> string \<Rightarrow> diag_step" where
  "mk_step k st summary action = \<lparr>dp_Step = k, dp_Status = st, dp_Summary = summary, dp_Action = action\<rparr>"

definition step_merge :: "diag_step \<Rightarrow> diag_status \<Rightarrow> string \<Rightarrow> string \<Rightarrow> diag_step" where
  "step_merge s status summary action =
     (if severity status > severity (dp_Status s)
      then s\<lparr>dp_Status := status, dp_Summary := summary, dp_Action := action\<rparr> else s)"

definition signatureStep :: "verify_output \<Rightarrow> diag_step" where
  "signatureStep out =
     (if vo_Valid out then mk_step ''signature'' DiagPass ''The signature is cryptographically valid.'' []
      else if vo_Signers out = [] \<and> vo_LibError out = None then
        mk_step ''signature'' DiagFail ''No signature was found in the input.''
          ''Check that the payload is a signed container in the declared format (cms/xml/wsse).''
      else
        (let step = mk_step ''signature'' DiagFail ''The signature did not verify cryptographically.'' [];
             step = (case vo_LibError out of
                       None \<Rightarrow> step
                     | Some le \<Rightarrow> step\<lparr>dp_Summary := (if le_Message le \<noteq> [] then le_Message le else dp_Summary step),
                                       dp_Action := le_Action le\<rparr>)
         in if dp_Action step = [] then
              step\<lparr>dp_Action := ''The content may have been altered, or the wrong original data / format was supplied.''\<rparr>
            else step))"

definition cert_time_merge :: "bool \<Rightarrow> time \<Rightarrow> signer \<Rightarrow> diag_step \<Rightarrow> diag_step" where
  "cert_time_merge checkCertTime now sg step =
     (let failStatus = (if checkCertTime then DiagFail else DiagWarn)
      in case (ct_NotBefore (sg_Certificate sg), ct_NotAfter (sg_Certificate sg)) of
           (Some nb, Some na) \<Rightarrow>
             if Before now nb then
               step_merge step failStatus ''A signer certificate was not yet valid at verification time.''
                 ''Verify against the signing time, or confirm the certificate's notBefore.''
             else if After now na then
               step_merge step failStatus ''A signer certificate had expired at verification time.''
                 ''Use point-in-time verification (/verify/at) to check validity as of the signing time.''
             else step
         | _ \<Rightarrow> step_merge step DiagUnknown ''A signer certificate's validity window is unavailable.''
                 ''Parse the certificate (cert/info) to inspect notBefore/notAfter.'')"

definition certificateTimeStep :: "signer list \<Rightarrow> bool \<Rightarrow> time \<Rightarrow> diag_step" where
  "certificateTimeStep signers checkCertTime now =
     (if signers = [] then mk_step ''certificateTime'' DiagSkipped ''No signer certificate to check.'' []
      else fold (cert_time_merge checkCertTime now) signers
        (mk_step ''certificateTime'' DiagPass ''Every signer certificate was within its validity period.'' []))"

definition chainCompleteStep :: "signer list \<Rightarrow> diag_step" where
  "chainCompleteStep signers =
     (if signers = [] then mk_step ''chainComplete'' DiagSkipped ''No signer to build a chain for.'' []
      else fold (\<lambda>sg step. if \<not> sg_ChainComplete sg then
          step_merge step DiagWarn ''The certificate chain is incomplete (no self-signed root reached).''
            ''Supply the issuing CA(s) via trustedCerts, or enable AIA fetch / the RK CA registry.'' else step) signers
        (mk_step ''chainComplete'' DiagPass ''The certificate chain was built to a self-signed root.'' []))"

definition trustAnchorStep :: "signer list \<Rightarrow> diag_step" where
  "trustAnchorStep signers =
     (if signers = [] then mk_step ''trustAnchor'' DiagSkipped ''No signer to anchor.'' []
      else fold (\<lambda>sg step. if \<not> sg_TrustAnchorFound sg then
          step_merge step DiagWarn ''The chain is not anchored to any configured trust anchor.''
            ''Load the RK CA trust store (trust.use-rk-registry or trust.ca-dir) so the signer can be trusted.'' else step) signers
        (mk_step ''trustAnchor'' DiagPass ''The chain is anchored to a configured trusted root.'' []))"

definition chainSignaturesStep :: "signer list \<Rightarrow> bool \<Rightarrow> diag_step" where
  "chainSignaturesStep signers chainVerifyOn =
     (if \<not> chainVerifyOn then
        mk_step ''chainSignatures'' DiagSkipped ''Chain-signature verification was not enabled.''
          ''Enable trust.verify-chain to cryptographically validate the chain (incl. GOST).''
      else if signers = [] then mk_step ''chainSignatures'' DiagSkipped ''No signer chain to verify.'' []
      else fold (\<lambda>sg step. if \<not> sg_ChainSignaturesVerified sg then
          step_merge step DiagFail ''A signer chain did not cryptographically validate against the anchors.''
            ''Confirm the correct issuing CAs and trust anchors are loaded.'' else step) signers
        (mk_step ''chainSignatures'' DiagPass ''The chain signatures were cryptographically verified.'' []))"

definition revocation_merge :: "signer \<Rightarrow> diag_step \<times> nat \<Rightarrow> diag_step \<times> nat" where
  "revocation_merge sg p =
     (case p of (step, checked) \<Rightarrow>
        case sg_Revocation sg of
          None \<Rightarrow> (step_merge step DiagUnknown ''Revocation status was not checked as part of verification.''
            ''Leave revocationCheck on, or check separately via /cert/validate (now) or /verify/at (as of a past instant).'', checked)
        | Some r \<Rightarrow>
            if \<not> rs_Determinate r then
              (step_merge step DiagUnknown ''Revocation status could not be established (the responder did not answer).''
                (''Retry when the responder is reachable; do not read an unanswered check as '' @ quoted ''not revoked'' @ ''.''), checked)
            else if rs_Revoked r then
              (step_merge step DiagFail ''A signer certificate has been revoked.''
                ''Reject the signature: the key it was made with has been repudiated.'', checked)
            else (step, Suc checked))"

definition revocationStep :: "verify_output \<Rightarrow> diag_step" where
  "revocationStep out =
     (case fold revocation_merge (vo_Signers out)
             (mk_step ''revocation'' DiagPass ''No signer certificate has been revoked.'' [], 0) of
        (step, checked) \<Rightarrow>
          if \<not> vo_Valid out \<and> checked = 0 \<and> dp_Status step = DiagUnknown then
            mk_step ''revocation'' DiagSkipped ''Revocation was not checked: the signature did not verify.''
              ''Fix the signature first; revocation is only meaningful for a signature that verifies.''
          else if vo_Signers out = [] then
            mk_step ''revocation'' DiagSkipped ''No signer to check revocation for.'' []
          else step)"

definition firstStepOf :: "diag_step list \<Rightarrow> diag_status \<Rightarrow> diag_step option" where
  "firstStepOf steps status = find (\<lambda>s. dp_Status s = status) steps"

definition diagnosisSummary :: "bool \<Rightarrow> diag_step list \<Rightarrow> string" where
  "diagnosisSummary valid steps =
     (if valid then
        (case firstStepOf steps DiagWarn of
           Some w \<Rightarrow> ''Signature is valid, with a caveat: '' @ dp_Summary w
         | None \<Rightarrow> ''Signature is valid.'')
      else (case firstStepOf steps DiagFail of Some f \<Rightarrow> dp_Summary f | None \<Rightarrow> ''Signature is not valid.''))"

definition buildDiagnosis :: "verify_output \<Rightarrow> bool \<Rightarrow> bool \<Rightarrow> time \<Rightarrow> diagnosis" where
  "buildDiagnosis out checkCertTime chainVerifyOn now =
     (let steps = [signatureStep out, certificateTimeStep (vo_Signers out) checkCertTime now,
                   chainCompleteStep (vo_Signers out), trustAnchorStep (vo_Signers out),
                   chainSignaturesStep (vo_Signers out) chainVerifyOn, revocationStep out]
      in \<lparr>dx_Valid = vo_Valid out, dx_Summary = diagnosisSummary (vo_Valid out) steps, dx_Steps = steps\<rparr>)"

section \<open>Building the card\<close>

fun first_verdict :: "diag_step list \<Rightarrow> verdict" where
  "first_verdict [] = VerdictValid"
| "first_verdict (s # ss) =
     (case dp_Status s of DiagFail \<Rightarrow> VerdictInvalid | DiagUnknown \<Rightarrow> VerdictIndeterminate | _ \<Rightarrow> first_verdict ss)"

definition verdictFrom :: "verify_output \<Rightarrow> diagnosis \<Rightarrow> verdict" where
  "verdictFrom out diag = (if \<not> vo_Valid out then VerdictInvalid else first_verdict (dx_Steps diag))"

definition signerName :: "subject \<Rightarrow> string" where
  "signerName s = (if displayName s \<noteq> [] then displayName s else sj_Organization s)"

definition signed_at :: "signer \<Rightarrow> time option \<times> string" where
  "signed_at s =
     (case (case sg_Timestamp s of None \<Rightarrow> None | Some ts \<Rightarrow> ts_GenTime ts) of
        Some t \<Rightarrow> (Some t, ''timestamp'')
      | None \<Rightarrow> (case sg_SigningTime s of Some t \<Rightarrow> (Some t, ''signingTime'') | None \<Rightarrow> (None, [])))"

definition reportSigner :: "signer \<Rightarrow> time \<Rightarrow> report_signer" where
  "reportSigner s now =
     (let cert = sg_Certificate s; subj = ct_Subject cert
      in \<lparr>pg_Name = signerName subj, pg_IIN = sj_IIN subj, pg_BIN = sj_BIN subj,
          pg_Organization = sj_Organization subj, pg_OwnerType = ct_OwnerType cert, pg_Roles = ct_Roles cert,
          pg_Valid = sg_Valid s, pg_SignedAt = fst (signed_at s), pg_SignedAtSource = snd (signed_at s),
          pg_SignatureAlgorithm = sg_SignatureAlgorithm s, pg_Algorithm = algorithmInfo cert,
          pg_CAdESLevel = sg_CAdESLevel s, pg_SerialNumber = ct_SerialNumber cert,
          pg_Issuer = sj_CommonName (ct_Issuer cert), pg_NotBefore = ct_NotBefore cert,
          pg_NotAfter = ct_NotAfter cert,
          pg_Expired = (case ct_NotAfter cert of Some na \<Rightarrow> After now na | None \<Rightarrow> False),
          pg_Complete = sg_ChainComplete s, pg_AnchoredInTrust = sg_TrustAnchorFound s,
          pg_SignaturesVerified = sg_ChainSignaturesVerified s,
          pg_CertificatesInChain = length (sg_Chain s)\<rparr>)"

definition reportSummary :: "verdict \<Rightarrow> report_signer list \<Rightarrow> diagnosis \<Rightarrow> string" where
  "reportSummary v signers diag =
     (let who = (case signers of
                   [] \<Rightarrow> []
                 | s # rest \<Rightarrow> if rest = [] then pg_Name s
                              else pg_Name s @ '' and '' @ decimal (length rest) @ '' more'')
      in case v of
           VerdictValid \<Rightarrow> if who = [] then ''Signature is valid.'' else ''Signature is valid; signed by '' @ who @ ''.''
         | VerdictIndeterminate \<Rightarrow> ''Signature could not be fully confirmed: '' @ dx_Summary diag
         | VerdictInvalid \<Rightarrow> ''Signature is not valid: '' @ dx_Summary diag)"

definition digestOf :: "(bytes \<Rightarrow> bytes) \<Rightarrow> bytes \<Rightarrow> string" where
  "digestOf sha b = (if b = [] then [] else hex_lower (sha b))"

definition buildReport :: "(bytes \<Rightarrow> bytes) \<Rightarrow> verify_output \<Rightarrow> bool \<Rightarrow> bool \<Rightarrow> bytes \<Rightarrow> bytes \<Rightarrow> time \<Rightarrow> report" where
  "buildReport sha out checkCertTime chainVerifyOn sig content checkedAt =
     (let diag = (case vo_Explanation out of
                    Some d \<Rightarrow> d | None \<Rightarrow> buildDiagnosis out checkCertTime chainVerifyOn checkedAt);
          v = verdictFrom out diag;
          signers = map (\<lambda>s. reportSigner s checkedAt) (vo_Signers out)
      in \<lparr>rp_Verdict = v, rp_Summary = reportSummary v signers diag, rp_CheckedAt = checkedAt,
          rp_Format = vo_Format out, rp_Detached = vo_Detached out, rp_SignatureSHA256 = digestOf sha sig,
          rp_ContentSHA256 = digestOf sha content, rp_ContentBytes = length content, rp_Signers = signers,
          rp_Steps = dx_Steps diag,
          rp_Warnings = map (\<lambda>w. wn_Field w @ '': '' @ wn_Reason w) (vo_Warnings out)\<rparr>)"

section \<open>The receipt\<close>

record receipt_claims =
  rc_Type :: string
  rc_Issuer :: string
  rc_IssuedAt :: int
  rc_ID :: string
  rc_Verdict :: verdict
  rc_Report :: report

text \<open>The sixteen random bytes of the identifier, or the error of the random source, are an argument.\<close>

definition receiptID :: "goerr + bytes \<Rightarrow> goerr + string" where
  "receiptID random =
     (case random of Inl e \<Rightarrow> Inl (WrapError ''receipt id'' e) | Inr b \<Rightarrow> Inr (hex_lower b))"

definition issueReceipt :: "(receipt_claims \<Rightarrow> goerr + string) option \<Rightarrow> string \<Rightarrow> goerr + bytes \<Rightarrow>
    report option \<Rightarrow> time \<Rightarrow> goerr + string" where
  "issueReceipt signer issuer random rep now =
     (case (signer, rep) of
        (Some sign, Some r) \<Rightarrow>
          (case receiptID random of
             Inl e \<Rightarrow> Inl e
           | Inr i \<Rightarrow>
               (case sign \<lparr>rc_Type = ''qoltanba.verification-receipt.v1'', rc_Issuer = issuer,
                           rc_IssuedAt = now div Second, rc_ID = i, rc_Verdict = rp_Verdict r, rc_Report = r\<rparr> of
                  Inl e \<Rightarrow> Inl (WrapError ''sign receipt'' e)
                | Inr token \<Rightarrow> Inr token))
      | _ \<Rightarrow> Inr [])"

section \<open>When a step counts against the signature\<close>

definition bad :: "diag_status \<Rightarrow> bool" where
  "bad st \<longleftrightarrow> st = DiagFail \<or> st = DiagUnknown"

lemma bad_severity: "bad st \<longleftrightarrow> 3 \<le> severity st"
  by (cases st) (simp_all add: bad_def)

lemma first_verdict_Valid: "first_verdict steps = VerdictValid \<longleftrightarrow> (\<forall>s \<in> set steps. \<not> bad (dp_Status s))"
  by (induction steps) (auto simp: bad_def split: diag_status.splits)

lemma step_merge_bad [simp]:
  "bad (dp_Status (step_merge s st summary action)) \<longleftrightarrow> bad (dp_Status s) \<or> bad st"
  by (auto simp: step_merge_def bad_severity)

lemma fold_bad:
  assumes "\<And>x s. B (f x s) \<longleftrightarrow> B s \<or> P x"
  shows "B (fold f xs s) \<longleftrightarrow> B s \<or> (\<exists>x \<in> set xs. P x)"
  by (induction xs arbitrary: s) (auto simp: assms)

definition in_window :: "bool \<Rightarrow> time \<Rightarrow> certificate \<Rightarrow> bool" where
  "in_window strict now c \<longleftrightarrow> (\<exists>nb na. ct_NotBefore c = Some nb \<and> ct_NotAfter c = Some na \<and>
     (strict \<longrightarrow> \<not> Before now nb \<and> \<not> After now na))"

definition not_revoked :: "signer \<Rightarrow> bool" where
  "not_revoked sg \<longleftrightarrow> (\<exists>r. sg_Revocation sg = Some r \<and> rs_Determinate r \<and> \<not> rs_Revoked r)"

lemma certificateTimeStep_bad:
  "bad (dp_Status (certificateTimeStep signers strict now)) \<longleftrightarrow>
     (\<exists>sg \<in> set signers. \<not> in_window strict now (sg_Certificate sg))"
proof (cases "signers = []")
  case False
  have "bad (dp_Status (cert_time_merge strict now sg step)) \<longleftrightarrow>
      bad (dp_Status step) \<or> \<not> in_window strict now (sg_Certificate sg)" for sg step
    by (auto simp: cert_time_merge_def in_window_def Let_def bad_def [of DiagFail] bad_def [of DiagWarn]
        bad_def [of DiagUnknown] split: option.splits)
  with False show ?thesis
    by (simp add: certificateTimeStep_def mk_step_def bad_def [of DiagPass]
        fold_bad [where B = "\<lambda>s. bad (dp_Status s)" and P = "\<lambda>sg. \<not> in_window strict now (sg_Certificate sg)"])
qed (simp add: certificateTimeStep_def mk_step_def bad_def)

lemma chain_steps_bad:
  "\<not> bad (dp_Status (chainCompleteStep signers))" "\<not> bad (dp_Status (trustAnchorStep signers))"
  "bad (dp_Status (chainSignaturesStep signers on)) \<longleftrightarrow> on \<and> (\<exists>sg \<in> set signers. \<not> sg_ChainSignaturesVerified sg)"
proof -
  note no_more = fold_bad [where B = "\<lambda>s. bad (dp_Status s)" and P = "\<lambda>_. False"]
  show "\<not> bad (dp_Status (chainCompleteStep signers))"
    by (auto simp: chainCompleteStep_def mk_step_def bad_def [of DiagSkipped] bad_def [of DiagWarn] bad_def [of DiagPass]
        no_more)
  show "\<not> bad (dp_Status (trustAnchorStep signers))"
    by (auto simp: trustAnchorStep_def mk_step_def bad_def [of DiagSkipped] bad_def [of DiagWarn] bad_def [of DiagPass]
        no_more)
  note more_if = fold_bad [where B = "\<lambda>s. bad (dp_Status s)" and P = "\<lambda>sg. \<not> sg_ChainSignaturesVerified sg"]
  show "bad (dp_Status (chainSignaturesStep signers on)) \<longleftrightarrow> on \<and> (\<exists>sg \<in> set signers. \<not> sg_ChainSignaturesVerified sg)"
    by (auto simp: chainSignaturesStep_def mk_step_def bad_def [of DiagSkipped] bad_def [of DiagFail] bad_def [of DiagPass]
        more_if)
qed

lemma revocationStep_bad:
  assumes "vo_Valid out"
  shows "bad (dp_Status (revocationStep out)) \<longleftrightarrow> (\<exists>sg \<in> set (vo_Signers out). \<not> not_revoked sg)"
proof -
  have "bad (dp_Status (fst (revocation_merge sg p))) \<longleftrightarrow> bad (dp_Status (fst p)) \<or> \<not> not_revoked sg" for sg p
    by (auto simp: revocation_merge_def not_revoked_def bad_def [of DiagFail] bad_def [of DiagUnknown]
        split: option.splits prod.splits)
  then have "bad (dp_Status (fst (fold revocation_merge (vo_Signers out) p))) \<longleftrightarrow>
      bad (dp_Status (fst p)) \<or> (\<exists>sg \<in> set (vo_Signers out). \<not> not_revoked sg)" for p
    by (rule fold_bad [where B = "\<lambda>p. bad (dp_Status (fst p))"])
  from this [of "(mk_step ''revocation'' DiagPass ''No signer certificate has been revoked.'' [], 0)"] assms
  show ?thesis
    by (auto simp: revocationStep_def mk_step_def bad_def [of DiagPass] bad_def [of DiagSkipped] split: prod.splits)
qed

lemma signatureStep_bad: "vo_Valid out \<Longrightarrow> \<not> bad (dp_Status (signatureStep out))"
  by (simp add: signatureStep_def mk_step_def bad_def)

text \<open>The card of a verification says valid exactly when nothing is left to doubt.\<close>

definition nothing_doubtful :: "bool \<Rightarrow> bool \<Rightarrow> time \<Rightarrow> verify_output \<Rightarrow> bool" where
  "nothing_doubtful strict chain_on now out \<longleftrightarrow> vo_Valid out \<and>
     (\<forall>sg \<in> set (vo_Signers out). in_window strict now (sg_Certificate sg) \<and> not_revoked sg \<and>
        (chain_on \<longrightarrow> sg_ChainSignaturesVerified sg))"

lemma buildReport_valid_iff:
  assumes "vo_Explanation out = None \<or> vo_Explanation out = Some (buildDiagnosis out strict chain_on now)"
  shows "rp_Verdict (buildReport sha out strict chain_on sig content now) = VerdictValid \<longleftrightarrow>
    nothing_doubtful strict chain_on now out"
proof -
  have "rp_Verdict (buildReport sha out strict chain_on sig content now) =
      verdictFrom out (buildDiagnosis out strict chain_on now)"
    using assms by (auto simp: buildReport_def Let_def)
  also have "\<dots> = VerdictValid \<longleftrightarrow> nothing_doubtful strict chain_on now out"
    using signatureStep_bad [of out] revocationStep_bad [of out]
    by (auto simp: verdictFrom_def buildDiagnosis_def Let_def first_verdict_Valid nothing_doubtful_def
        certificateTimeStep_bad chain_steps_bad simp del: first_verdict.simps)
  finally show ?thesis .
qed

section \<open>Properties\<close>

definition demo_signer :: signer where
  "demo_signer = \<lparr>sg_Certificate = no_certificate, sg_Chain = [], sg_Valid = True, sg_SigningTime = None,
     sg_SignatureAlgorithm = [], sg_Timestamp = None, sg_ChainComplete = True, sg_TrustAnchorFound = True,
     sg_ChainSignaturesVerified = False, sg_CAdESLevel = ''BES'', sg_VerifyInfo = [], sg_Claims = None,
     sg_Revocation = Some (no_status\<lparr>rs_Determinate := True\<rparr>)\<rparr>"

definition demo_output :: "signer list \<Rightarrow> verify_output" where
  "demo_output signers = \<lparr>vo_Valid = True, vo_Format = FormatCMS, vo_Detached = False, vo_Signers = signers,
     vo_Content = [], vo_Warnings = [], vo_LibError = None, vo_Explanation = None, vo_Report = None,
     vo_Receipt = [], vo_Archive = None\<rparr>"

text \<open>
  An undeterminable check hides a failed one. The card of a signature whose chain
  signatures were checked and failed reads indeterminate, not invalid, when an earlier step is
  unknown, here because the certificate's window is unavailable.
\<close>

theorem report_unknown_hides_fail:
  "let r = buildReport sha (demo_output [demo_signer]) True True sig content now
   in (\<exists>s \<in> set (rp_Steps r). dp_Step s = ''chainSignatures'' \<and> dp_Status s = DiagFail) \<and>
      rp_Verdict r = VerdictIndeterminate"
  by (simp add: buildReport_def demo_output_def demo_signer_def buildDiagnosis_def verdictFrom_def signatureStep_def
      certificateTimeStep_def cert_time_merge_def chainCompleteStep_def trustAnchorStep_def chainSignaturesStep_def
      step_merge_def mk_step_def no_certificate_def Let_def)

text \<open>
  A revoked signer is reported as broken cryptography. When the output is invalid only
  because a signer was revoked, with no library error, the signature step fails with the text of
  a signature that did not verify, whatever the signature mathematics said.
\<close>

theorem revoked_reads_as_broken_signature:
  "let out = (demo_output [demo_signer\<lparr>sg_Valid := False,
                sg_Revocation := Some (no_status\<lparr>rs_Determinate := True, rs_Revoked := True\<rparr>)\<rparr>])\<lparr>vo_Valid := False\<rparr>;
       d = buildDiagnosis out strict chain_on now
   in dp_Summary (hd (dx_Steps d)) = ''The signature did not verify cryptographically.'' \<and>
      dx_Summary d = dp_Summary (hd (dx_Steps d))"
  by (simp add: demo_output_def demo_signer_def buildDiagnosis_def signatureStep_def diagnosisSummary_def
      firstStepOf_def mk_step_def Let_def)

end
