(* ===== verification/Validate.thy ===== *)
theory Validate
  imports Chain Report
begin

text \<open>
  Certificate validation (internal/core/service.go, \<^verbatim>\<open>Validate\<close>) with the enrichment from OCSP
  responses and CRLs (internal/core/revocation.go), over the ports of the service: the driver,
  the trust store, the issuer fetcher, the CRL source and the OCSP answer cache. The cache is
  threaded as state; everything else is a field of the service record.
\<close>

section \<open>Revocation material\<close>

record ocsp_resp =
  or_Revoked :: bool
  or_ThisUpdate :: time
  or_NextUpdate :: time
  or_ProducedAt :: time
  or_RevokedAt :: time
  or_RevocationReason :: int

record crl_entry =
  ce_SerialNumber :: "nat option"
  ce_RevocationTime :: time
  ce_ReasonCode :: int

record crl =
  crl_ThisUpdate :: time
  crl_NextUpdate :: time
  crl_Entries :: "crl_entry list"

text \<open>The parsers of the standard library and of \<^verbatim>\<open>golang.org/x/crypto/ocsp\<close>.\<close>

record revlib =
  rl_ParseOCSP :: "bytes \<Rightarrow> ocsp_resp option"
  rl_ParseCRL :: "bytes \<Rightarrow> crl option"

definition reasonNames :: "(int \<times> string) list" where
  "reasonNames =
     [(0, ''unspecified''), (1, ''keyCompromise''), (2, ''cACompromise''), (3, ''affiliationChanged''),
      (4, ''superseded''), (5, ''cessationOfOperation''), (6, ''certificateHold''), (8, ''removeFromCRL''),
      (9, ''privilegeWithdrawn''), (10, ''aACompromise'')]"

definition reasonName :: "int \<Rightarrow> string" where
  "reasonName code = (case map_of reasonNames code of Some n \<Rightarrow> n | None \<Rightarrow> [])"

text \<open>The pattern \<^verbatim>\<open>(?i)reason:\s*([A-Za-z]+)\<close>: the word of its leftmost match.\<close>

definition is_letter :: "char \<Rightarrow> bool" where
  "is_letter c \<longleftrightarrow> (65 \<le> byte_of c \<and> byte_of c \<le> 90) \<or> (97 \<le> byte_of c \<and> byte_of c \<le> 122)"

definition re_space :: "char \<Rightarrow> bool" where
  "re_space c \<longleftrightarrow> c \<in> {CHR 0x20, CHR 0x09, CHR 0x0A, CHR 0x0C, CHR 0x0D}"

definition reason_at :: "string \<Rightarrow> string option" where
  "reason_at s =
     (let word = takeWhile is_letter (dropWhile re_space (drop 7 s))
      in if map to_upper (take 7 s) = ''REASON:'' \<and> word \<noteq> [] then Some word else None)"

fun find_reason :: "string \<Rightarrow> string option" where
  "find_reason [] = None"
| "find_reason (c # s) = (case reason_at (c # s) of Some w \<Rightarrow> Some w | None \<Rightarrow> find_reason s)"

definition enrichFromOCSP :: "revlib \<Rightarrow> revocation_status \<Rightarrow> bytes \<Rightarrow> string \<Rightarrow> revocation_status" where
  "enrichFromOCSP R status respDER info =
     (case (if respDER \<noteq> [] then rl_ParseOCSP R respDER else None) of
        Some r \<Rightarrow>
          (let st = status\<lparr>rs_ThisUpdate := Some (or_ThisUpdate r)\<rparr>;
               st = (if \<not> IsZero (or_NextUpdate r) then st\<lparr>rs_NextUpdate := Some (or_NextUpdate r)\<rparr> else st);
               st = (if \<not> IsZero (or_ProducedAt r) then st\<lparr>rs_ProducedAt := Some (or_ProducedAt r)\<rparr> else st)
           in if or_Revoked r then
                (let st = st\<lparr>rs_Revoked := True\<rparr>;
                     st = (if \<not> IsZero (or_RevokedAt r) then st\<lparr>rs_RevocationTime := Some (or_RevokedAt r)\<rparr> else st)
                 in if reasonName (or_RevocationReason r) \<noteq> []
                    then st\<lparr>rs_Reason := reasonName (or_RevocationReason r)\<rparr> else st)
              else st)
      | None \<Rightarrow>
          if rs_Reason status = [] then
            (case find_reason info of Some m \<Rightarrow> status\<lparr>rs_Reason := m\<rparr> | None \<Rightarrow> status)
          else status)"

definition enrichFromCRL :: "golib \<Rightarrow> revlib \<Rightarrow> revocation_status \<Rightarrow> bytes \<Rightarrow> bytes \<Rightarrow> revocation_status" where
  "enrichFromCRL G R status crlb certDER =
     (case rl_ParseCRL R (toDER G crlb EncodingPEM) of
        None \<Rightarrow> status
      | Some rl \<Rightarrow>
          (let st = (if \<not> IsZero (crl_ThisUpdate rl) then status\<lparr>rs_ThisUpdate := Some (crl_ThisUpdate rl)\<rparr> else status);
               st = (if \<not> IsZero (crl_NextUpdate rl) then st\<lparr>rs_NextUpdate := Some (crl_NextUpdate rl)\<rparr> else st)
           in case gl_ParseCertificate G certDER of
                None \<Rightarrow> st
              | Some cert \<Rightarrow>
                  (case find (\<lambda>e. ce_SerialNumber e = Some (xc_SerialNumber cert)) (crl_Entries rl) of
                     None \<Rightarrow> st
                   | Some e \<Rightarrow>
                       (let st = st\<lparr>rs_Revoked := True, rs_RevocationTime := Some (ce_RevocationTime e)\<rparr>
                        in if reasonName (ce_ReasonCode e) \<noteq> []
                           then st\<lparr>rs_Reason := reasonName (ce_ReasonCode e)\<rparr> else st))))"

section \<open>The service and its ports\<close>

record crl_result =
  cr_Base :: bytes
  cr_Delta :: bytes
  cr_Reliable :: bool
  cr_Reason :: string

datatype crl_fail_policy = CRLFailSoft | CRLFailHard

text \<open>The OCSP cache port (contract.go, \<^verbatim>\<open>OCSPCache\<close>); the cache has its own clock.\<close>

record 'c ocsp_port =
  cp_Lookup :: "'c \<Rightarrow> bytes \<Rightarrow> string \<Rightarrow> time \<Rightarrow> ocsp_answer option \<times> 'c"
  cp_Store :: "'c \<Rightarrow> bytes \<Rightarrow> string \<Rightarrow> ocsp_answer \<Rightarrow> time \<Rightarrow> 'c"

record 'c service =
  sv_prov :: driver
  sv_keys :: "(key_spec \<Rightarrow> goerr + key_ref) option"
  sv_trust :: "trusted_cert list option"
  sv_fetcher :: "issuer_fetcher option"
  sv_crl :: "(bytes \<Rightarrow> crl_result option) option"
  sv_crlFailPolicy :: crl_fail_policy
  sv_verifyChain :: bool
  sv_defaultTimestamp :: bool
  sv_defaultTSAURL :: string
  sv_verifyOnly :: bool
  sv_dataResolver :: "(data_ref \<Rightarrow> goerr + string) option"
  sv_ocspCache :: "'c ocsp_port option"
  sv_audit :: bool
  sv_receiptSigner :: "(receipt_claims \<Rightarrow> goerr + string) option"
  sv_receiptIssuer :: string
  sv_random :: "goerr + bytes"
  sv_tsaPolicies :: "string list"
  sv_golib :: golib
  sv_revlib :: revlib
  sv_cms :: cmslib
  sv_writeTempCRL :: "bytes \<Rightarrow> goerr + string"

text \<open>\<^verbatim>\<open>CRLFor\<close> returns the zero result when no CRL is available.\<close>

definition crlReason :: "crl_result option \<Rightarrow> string" where
  "crlReason res =
     (case res of
        None \<Rightarrow> ''unavailable''
      | Some r \<Rightarrow> if cr_Reason r \<noteq> [] then cr_Reason r else ''unreliable'')"

section \<open>Validate\<close>

record crl_plan =
  pl_method :: string
  pl_wantOCSP :: bool
  pl_crl :: bytes
  pl_delta :: bytes
  pl_warnings :: warnings

text \<open>
  The resolution of the method and the CRL material: \<open>Inl\<close> is the refusal under the hard policy.
\<close>

definition plan_crl :: "'c service \<Rightarrow> validate_input \<Rightarrow> string \<Rightarrow> bytes \<Rightarrow> string + crl_plan" where
  "plan_crl s inp method certDER =
     (let plan = \<lparr>pl_method = method, pl_wantOCSP = (va_WantOCSP inp \<or> method = MethodOCSP), pl_crl = [],
                  pl_delta = [], pl_warnings = []\<rparr>
      in if method = MethodCRL then
           (if va_CRL inp \<noteq> [] then Inr (plan\<lparr>pl_crl := va_CRL inp\<rparr>)
            else case sv_crl s of
                   None \<Rightarrow> Inr plan
                 | Some crlFor \<Rightarrow>
                     (case crlFor certDER of
                        Some res \<Rightarrow>
                          if cr_Reliable res then Inr (plan\<lparr>pl_crl := cr_Base res, pl_delta := cr_Delta res\<rparr>)
                          else if sv_crlFailPolicy s = CRLFailHard then Inl (crlReason (Some res))
                          else Inr (plan\<lparr>pl_method := MethodOCSP, pl_wantOCSP := True,
                                 pl_warnings := w_add [] ''crl'' (''fallback-to-ocsp:'' @ crlReason (Some res))\<rparr>)
                      | None \<Rightarrow>
                          if sv_crlFailPolicy s = CRLFailHard then Inl (crlReason None)
                          else Inr (plan\<lparr>pl_method := MethodOCSP, pl_wantOCSP := True,
                                 pl_warnings := w_add [] ''crl'' (''fallback-to-ocsp:'' @ crlReason None)\<rparr>)))
         else Inr plan)"

definition cachedValidateOutput :: "validate_input \<Rightarrow> string \<Rightarrow> time \<Rightarrow> ocsp_answer \<Rightarrow> warnings \<Rightarrow> validate_output" where
  "cachedValidateOutput inp method checkTime a w =
     \<lparr>vt_Status = no_status\<lparr>rs_Method := method, rs_Determinate := True, rs_Revoked := oe_Revoked a,
        rs_Reason := oe_Reason a, rs_RevocationTime := oe_RevocationTime a, rs_CheckedAt := Some checkTime,
        rs_ThisUpdate := oe_ThisUpdate a, rs_NextUpdate := oe_NextUpdate a, rs_ProducedAt := oe_ProducedAt a\<rparr>,
      vt_Info = [], vt_OCSPResponse = (if va_WantOCSP inp then oe_Response a else []), vt_Warnings = w\<rparr>"

text \<open>The status derived from one driver answer.\<close>

definition answer_status :: "'c service \<Rightarrow> crl_plan \<Rightarrow> bytes \<Rightarrow> time \<Rightarrow> validate_result \<Rightarrow> revocation_status" where
  "answer_status s plan certDER checkTime res =
     (let st = no_status\<lparr>rs_Method := pl_method plan, rs_Revoked := (dr_Status res = CertRevoked),
            rs_Determinate := (dr_Status res \<noteq> CertUnknown), rs_CheckedAt := Some checkTime\<rparr>
      in if pl_method plan = MethodOCSP then
           enrichFromOCSP (sv_revlib s) st (dr_OCSPResponse res) (dr_Info res)
         else if pl_crl plan \<noteq> [] then
           (let st = enrichFromCRL (sv_golib s) (sv_revlib s) st (pl_crl plan) certDER
            in if \<not> rs_Revoked st \<and> pl_delta plan \<noteq> []
               then enrichFromCRL (sv_golib s) (sv_revlib s) st (pl_delta plan) certDER else st)
         else st)"

definition to_answer :: "revocation_status \<Rightarrow> bytes \<Rightarrow> ocsp_answer" where
  "to_answer st resp = \<lparr>oe_Revoked = rs_Revoked st, oe_Reason = rs_Reason st,
     oe_RevocationTime = rs_RevocationTime st, oe_ThisUpdate = rs_ThisUpdate st,
     oe_NextUpdate = rs_NextUpdate st, oe_ProducedAt = rs_ProducedAt st, oe_Response = resp\<rparr>"

definition validate_request_of :: "validate_input \<Rightarrow> crl_plan \<Rightarrow> string \<Rightarrow> trusted_cert list \<Rightarrow> time \<Rightarrow> validate_request" where
  "validate_request_of inp plan path trusted checkTime =
     \<lparr>dq_Cert = va_Cert inp, dq_Format = certFormat (va_Format inp),
      dq_Method = validationMethod (pl_method plan), dq_Path = path, dq_CheckTime = checkTime,
      dq_WantOCSP = pl_wantOCSP plan, dq_TrustedCerts = trusted\<rparr>"

text \<open>The driver call and everything after it, once the method and the path are settled.\<close>

definition validate_call :: "'c service \<Rightarrow> lang \<Rightarrow> 'c \<Rightarrow> validate_input \<Rightarrow> crl_plan \<Rightarrow> string \<Rightarrow> bytes \<Rightarrow>
    trusted_cert list \<Rightarrow> time \<Rightarrow> time \<Rightarrow> (validate_output \<times> goerr option) \<times> 'c" where
  "validate_call s ctx c inp plan path certDER trusted checkTime now =
     (let (res, err) = pv_ValidateCert (sv_prov s) (validate_request_of inp plan path trusted checkTime);
          status = answer_status s plan certDER checkTime res;
          out = no_validate_output\<lparr>vt_Status := status, vt_Info := dr_Info res,
            vt_OCSPResponse := (if va_WantOCSP inp then dr_OCSPResponse res else [])\<rparr>
      in case err of
           Some e \<Rightarrow>
             if isSoftVerifyFailure e then
               ((out\<lparr>vt_Status := status\<lparr>rs_LibError := Some (libErrorFrom ctx e), rs_Determinate := False\<rparr>,
                     vt_Warnings := pl_warnings plan\<rparr>, None), c)
             else ((out, Some (domainErr ''Validate'' e)), c)
         | None \<Rightarrow>
             (let c' = (case sv_ocspCache s of
                          Some port \<Rightarrow>
                            if pl_method plan = MethodOCSP
                            then cp_Store port c certDER path (to_answer status (dr_OCSPResponse res)) now else c
                        | None \<Rightarrow> c)
              in ((out\<lparr>vt_Warnings := pl_warnings plan\<rparr>, None), c')))"

text \<open>The cache in front of the call, and the temporary file for a CRL.\<close>

definition validate_lookup :: "'c service \<Rightarrow> lang \<Rightarrow> 'c \<Rightarrow> validate_input \<Rightarrow> crl_plan \<Rightarrow> string \<Rightarrow> bytes \<Rightarrow>
    trusted_cert list \<Rightarrow> time \<Rightarrow> time \<Rightarrow> (validate_output \<times> goerr option) \<times> 'c" where
  "validate_lookup s ctx c inp plan path certDER trusted checkTime now =
     (case (if pl_method plan = MethodOCSP then sv_ocspCache s else None) of
        Some port \<Rightarrow>
          (case cp_Lookup port c certDER path now of
             (Some answer, c') \<Rightarrow>
               ((cachedValidateOutput inp (pl_method plan) checkTime answer (pl_warnings plan), None), c')
           | (None, c') \<Rightarrow> validate_call s ctx c' inp plan path certDER trusted checkTime now)
      | None \<Rightarrow>
          if pl_method plan = MethodCRL \<and> pl_crl plan \<noteq> [] then
            (case sv_writeTempCRL s (pl_crl plan) of
               Inl e \<Rightarrow> ((no_validate_output, Some (domainErr ''Validate'' e)), c)
             | Inr p \<Rightarrow> validate_call s ctx c inp plan p certDER trusted checkTime now)
          else validate_call s ctx c inp plan path certDER trusted checkTime now)"

text \<open>The choice of the responder; a certificate that publishes none is left undetermined.\<close>

definition validate_planned :: "'c service \<Rightarrow> lang \<Rightarrow> 'c \<Rightarrow> validate_input \<Rightarrow> crl_plan \<Rightarrow> bytes \<Rightarrow>
    trusted_cert list \<Rightarrow> time \<Rightarrow> time \<Rightarrow> (validate_output \<times> goerr option) \<times> 'c" where
  "validate_planned s ctx c inp plan certDER trusted checkTime now =
     (let path = (if pl_method plan = MethodOCSP \<and> va_ResponderURL inp = []
                  then ocspURLFromCert (sv_golib s) certDER else va_ResponderURL inp)
      in if pl_method plan = MethodOCSP \<and> path = [] then
           ((no_validate_output\<lparr>
               vt_Status := no_status\<lparr>rs_Method := pl_method plan, rs_CheckedAt := Some checkTime\<rparr>,
               vt_Warnings := w_add (pl_warnings plan) ''revocation''
                 ''the certificate publishes no OCSP responder (AIA); pass responderUrl to name one''\<rparr>,
             None), c)
         else validate_lookup s ctx c inp plan path certDER trusted checkTime now)"

definition Validate :: "'c service \<Rightarrow> lang \<Rightarrow> 'c \<Rightarrow> validate_input \<Rightarrow> time \<Rightarrow>
    ((validate_output \<times> goerr option) \<times> 'c) go" where
  "Validate s ctx c inp now =
     (let method = (if va_Method inp = [] then MethodOCSP else va_Method inp);
          checkTime = (if IsZero (va_CheckTime inp) then now else va_CheckTime inp);
          certDER = toDER (sv_golib s) (va_Cert inp) (va_Format inp);
          trusted = mergedTrusted (sv_trust s) (va_TrustedCerts inp)
      in case discoverAnchors (sv_golib s) (sv_fetcher s) [certDER] trusted of
           Panics \<Rightarrow> Panics
         | Returns extra \<Rightarrow>
             Returns (case plan_crl s inp method certDER of
               Inl reason \<Rightarrow>
                 ((no_validate_output, Some (DomainError KindInvalid ''Validate'' (Some (PlainError
                    (''CRL revocation status could not be established ('' @ reason @ ''); fail policy is hard''))))), c)
             | Inr plan \<Rightarrow> validate_planned s ctx c inp plan certDER (trusted @ extra) checkTime now))"

section \<open>What the enrichment can change\<close>

definition ocsp_says_revoked :: "revlib \<Rightarrow> bytes \<Rightarrow> bool" where
  "ocsp_says_revoked R resp \<longleftrightarrow> resp \<noteq> [] \<and> (\<exists>r. rl_ParseOCSP R resp = Some r \<and> or_Revoked r)"

definition crl_lists :: "golib \<Rightarrow> revlib \<Rightarrow> bytes \<Rightarrow> bytes \<Rightarrow> bool" where
  "crl_lists G R crlb certDER \<longleftrightarrow> (\<exists>rl cert e. rl_ParseCRL R (toDER G crlb EncodingPEM) = Some rl \<and>
     gl_ParseCertificate G certDER = Some cert \<and> e \<in> set (crl_Entries rl) \<and>
     ce_SerialNumber e = Some (xc_SerialNumber cert))"

lemma enrichFromOCSP_Revoked:
  "rs_Revoked (enrichFromOCSP R st resp info) \<longleftrightarrow> rs_Revoked st \<or> ocsp_says_revoked R resp"
  by (auto simp: enrichFromOCSP_def ocsp_says_revoked_def Let_def split: option.splits)

lemma enrichFromOCSP_fields [simp]:
  "rs_Determinate (enrichFromOCSP R st resp info) = rs_Determinate st"
  "rs_Method (enrichFromOCSP R st resp info) = rs_Method st"
  "rs_LibError (enrichFromOCSP R st resp info) = rs_LibError st"
  by (simp_all add: enrichFromOCSP_def Let_def split: option.splits)

lemma find_Some_iff_mem: "(\<exists>e. find P xs = Some e) \<longleftrightarrow> (\<exists>e \<in> set xs. P e)"
  by (induction xs) auto

lemma enrichFromCRL_Revoked:
  "rs_Revoked (enrichFromCRL G R st crlb certDER) \<longleftrightarrow> rs_Revoked st \<or> crl_lists G R crlb certDER"
proof (cases "rl_ParseCRL R (toDER G crlb EncodingPEM)")
  case (Some rl)
  show ?thesis
  proof (cases "gl_ParseCertificate G certDER")
    case (Some cert)
    note lists = find_Some_iff_mem [of "\<lambda>e. ce_SerialNumber e = Some (xc_SerialNumber cert)" "crl_Entries rl"]
    show ?thesis
    proof (cases "find (\<lambda>e. ce_SerialNumber e = Some (xc_SerialNumber cert)) (crl_Entries rl)")
      case None
      then have "\<not> crl_lists G R crlb certDER"
        using lists Some \<open>rl_ParseCRL R (toDER G crlb EncodingPEM) = Some rl\<close> by (auto simp: crl_lists_def)
      with None Some \<open>rl_ParseCRL R (toDER G crlb EncodingPEM) = Some rl\<close> show ?thesis
        by (simp add: enrichFromCRL_def Let_def)
    next
      case (Some e)
      then have "crl_lists G R crlb certDER"
        using lists \<open>gl_ParseCertificate G certDER = Some cert\<close> \<open>rl_ParseCRL R (toDER G crlb EncodingPEM) = Some rl\<close>
        by (auto simp: crl_lists_def)
      with Some \<open>gl_ParseCertificate G certDER = Some cert\<close> \<open>rl_ParseCRL R (toDER G crlb EncodingPEM) = Some rl\<close>
      show ?thesis by (simp add: enrichFromCRL_def Let_def)
    qed
  next
    case None
    with \<open>rl_ParseCRL R (toDER G crlb EncodingPEM) = Some rl\<close> show ?thesis
      by (simp add: enrichFromCRL_def crl_lists_def Let_def)
  qed
next
  case None
  then show ?thesis by (simp add: enrichFromCRL_def crl_lists_def)
qed

lemma enrichFromCRL_fields [simp]:
  "rs_Determinate (enrichFromCRL G R st crlb certDER) = rs_Determinate st"
  "rs_LibError (enrichFromCRL G R st crlb certDER) = rs_LibError st"
  by (simp_all add: enrichFromCRL_def Let_def split: option.splits)

text \<open>The evidence of a revocation in one driver answer.\<close>

definition revoked_evidence :: "'c service \<Rightarrow> crl_plan \<Rightarrow> bytes \<Rightarrow> validate_result \<Rightarrow> bool" where
  "revoked_evidence s plan certDER res \<longleftrightarrow> dr_Status res = CertRevoked \<or>
     (pl_method plan = MethodOCSP \<and> ocsp_says_revoked (sv_revlib s) (dr_OCSPResponse res)) \<or>
     (pl_method plan \<noteq> MethodOCSP \<and> pl_crl plan \<noteq> [] \<and>
        (crl_lists (sv_golib s) (sv_revlib s) (pl_crl plan) certDER \<or>
         pl_delta plan \<noteq> [] \<and> crl_lists (sv_golib s) (sv_revlib s) (pl_delta plan) certDER))"

lemma answer_status_Revoked:
  "rs_Revoked (answer_status s plan certDER t res) \<longleftrightarrow> revoked_evidence s plan certDER res"
  by (auto simp: answer_status_def revoked_evidence_def enrichFromOCSP_Revoked enrichFromCRL_Revoked Let_def)

lemma answer_status_fields [simp]:
  "rs_Determinate (answer_status s plan certDER t res) \<longleftrightarrow> dr_Status res \<noteq> CertUnknown"
  "rs_LibError (answer_status s plan certDER t res) = None"
  by (simp_all add: answer_status_def no_status_def Let_def)

section \<open>The contract of an answer cache\<close>

text \<open>
  What validation relies on: a lookup only returns an answer the cache holds, and the cache only
  comes to hold what is stored under the key of the store.
\<close>

locale answer_cache =
  fixes port :: "'c ocsp_port"
    and key :: "bytes \<Rightarrow> string \<Rightarrow> 'k"
    and holds :: "'c \<Rightarrow> 'k \<Rightarrow> ocsp_answer \<Rightarrow> bool"
  assumes lookup_held: "cp_Lookup port c d r t = (Some a, c') \<Longrightarrow> holds c (key d r) a"
    and lookup_keeps: "cp_Lookup port c d r t = (x, c') \<Longrightarrow> holds c' k a \<Longrightarrow> holds c k a"
    and store_holds: "holds (cp_Store port c d r v t) k a \<Longrightarrow> holds c k a \<or> k = key d r \<and> a = v"

definition OcspPort :: "(bytes \<Rightarrow> string) \<Rightarrow> ocsp_cache ocsp_port" where
  "OcspPort h = \<lparr>cp_Lookup = ocsp_Lookup h, cp_Store = ocsp_Store h\<rparr>"

definition ocsp_holds :: "ocsp_cache \<Rightarrow> string \<Rightarrow> ocsp_answer \<Rightarrow> bool" where
  "ocsp_holds c k a \<longleftrightarrow> (\<exists>e. (k, e) \<in> set (oc_entries c) \<and> en_value e = a)"

lemma evict_over_subset: "set (evict_over mx es) \<subseteq> set es"
proof (induction mx es rule: evict_over.induct)
  case (1 mx es)
  show ?case
  proof (cases "es \<noteq> [] \<and> int (length es) > mx")
    case True
    then have "evict_over mx es = evict_over mx (evict_oldest es)" by (subst evict_over.simps) simp
    with 1 [OF True] set_evict_oldest_subset [of es] show ?thesis by auto
  next
    case False
    then have "evict_over mx es = es" by (subst evict_over.simps) auto
    then show ?thesis by simp
  qed
qed

lemma evictLocked_subset: "set (oc_entries (evictLocked c now)) \<subseteq> set (oc_entries c)"
proof -
  have "set (evict_over mx (kv_drop P (oc_entries c))) \<subseteq> set (oc_entries c)" for mx P
    using evict_over_subset set_kv_drop_subset by (rule subset_trans)
  then show ?thesis by (simp add: evictLocked_def)
qed

interpretation ocsp: answer_cache "OcspPort h" "cache_key h" ocsp_holds for h
proof
  fix c c' d r t a
  assume "cp_Lookup (OcspPort h) c d r t = (Some a, c')"
  then show "ocsp_holds c (cache_key h d r) a"
    by (auto simp: OcspPort_def ocsp_Lookup_def ocsp_holds_def Let_def dest!: map_of_SomeD
        split: option.splits if_splits)
next
  fix c c' d r t x k a
  assume "cp_Lookup (OcspPort h) c d r t = (x, c')" "ocsp_holds c' k a"
  then show "ocsp_holds c k a"
    by (auto simp: OcspPort_def ocsp_Lookup_def ocsp_holds_def Let_def set_kv_del
        split: option.splits if_splits)
next
  fix c d r v t k a
  assume held: "ocsp_holds (cp_Store (OcspPort h) c d r v t) k a"
  show "ocsp_holds c k a \<or> k = cache_key h d r \<and> a = v"
  proof (cases rule: ocsp_Store_cases [where c = c and v = v and now = t and h = h and d = d and r = r])
    case stale
    with held show ?thesis by (simp add: OcspPort_def)
  next
    case fresh
    let ?e = "\<lparr>en_value = v, en_expires = ocsp_expiry (oc_cfg c) v t, en_seq = oc_seq c + 1\<rparr>"
    have "set (oc_entries (ocsp_Store h c d r v t)) \<subseteq> insert (cache_key h d r, ?e) (set (oc_entries c))"
      unfolding fresh(2) by (rule subset_trans [OF evictLocked_subset]) (simp add: set_kv_put_subset)
    with held show ?thesis by (auto simp: OcspPort_def ocsp_holds_def)
  qed
qed

subsection \<open>Validation over any answer cache\<close>

lemma validate_call_cases:
  assumes "validate_call s ctx c inp plan path certDER trusted checkTime now = ((out, err), c')"
  obtains (clean) res where
      "pv_ValidateCert (sv_prov s) (validate_request_of inp plan path trusted checkTime) = (res, None)" "err = None"
      "vt_Status out = answer_status s plan certDER checkTime res"
      "c' = (case sv_ocspCache s of
               Some port \<Rightarrow> if pl_method plan = MethodOCSP
                 then cp_Store port c certDER path (to_answer (vt_Status out) (dr_OCSPResponse res)) now else c
             | None \<Rightarrow> c)"
  | (soft) res e where
      "pv_ValidateCert (sv_prov s) (validate_request_of inp plan path trusted checkTime) = (res, Some e)"
      "isSoftVerifyFailure e" "err = None"
      "vt_Status out = (answer_status s plan certDER checkTime res)\<lparr>rs_LibError := Some (libErrorFrom ctx e),
         rs_Determinate := False\<rparr>" "c' = c"
  | (hard) res e where
      "pv_ValidateCert (sv_prov s) (validate_request_of inp plan path trusted checkTime) = (res, Some e)"
      "\<not> isSoftVerifyFailure e" "err = Some (domainErr ''Validate'' e)" "c' = c"
  using assms unfolding validate_call_def Let_def
  by (auto split: prod.splits option.splits if_splits)

abbreviation input_der :: "'c service \<Rightarrow> validate_input \<Rightarrow> bytes" where
  "input_der s inp \<equiv> toDER (sv_golib s) (va_Cert inp) (va_Format inp)"

text \<open>How a validation that returns came about.\<close>

lemma Validate_cases:
  assumes "Validate s ctx c inp now = Returns ((out, err), c')"
  obtains (refused) "err \<noteq> None" "c' = c"
  | (undetermined) "err = None" "\<not> rs_Determinate (vt_Status out)" "\<not> rs_Revoked (vt_Status out)" "c' = c"
  | (cached) port r a t where "err = None" "sv_ocspCache s = Some port"
      "cp_Lookup port c (input_der s inp) r now = (Some a, c')"
      "vt_Status out = vt_Status (cachedValidateOutput inp MethodOCSP t a [])"
  | (called) c0 plan path trusted t where
      "c0 = c \<or> (\<exists>port r. sv_ocspCache s = Some port \<and> cp_Lookup port c (input_der s inp) r now = (None, c0))"
      "validate_call s ctx c0 inp plan path (input_der s inp) trusted t now = ((out, err), c')"
proof -
  let ?der = "input_der s inp"
  from assms have "(err \<noteq> None \<and> c' = c) \<or>
     (\<exists>plan trusted t. validate_planned s ctx c inp plan ?der trusted t now = ((out, err), c'))"
    unfolding Validate_def Let_def by (force split: go.split_asm sum.split_asm)
  then show thesis
  proof
    assume "err \<noteq> None \<and> c' = c"
    then show thesis by (intro refused) auto
  next
    assume "\<exists>plan trusted t. validate_planned s ctx c inp plan ?der trusted t now = ((out, err), c')"
    then obtain plan trusted t where planned: "validate_planned s ctx c inp plan ?der trusted t now = ((out, err), c')"
      by blast
    define path where "path = (if pl_method plan = MethodOCSP \<and> va_ResponderURL inp = []
      then ocspURLFromCert (sv_golib s) ?der else va_ResponderURL inp)"
    show thesis
    proof (cases "pl_method plan = MethodOCSP \<and> path = []")
      case True
      with planned have "vt_Status out = no_status\<lparr>rs_Method := pl_method plan, rs_CheckedAt := Some t\<rparr>" "c' = c"
          "err = None"
        by (auto simp: validate_planned_def path_def no_validate_output_def)
      then show thesis by (intro undetermined) (simp_all add: no_status_def)
    next
      case False
      with planned have lk: "validate_lookup s ctx c inp plan path ?der trusted t now = ((out, err), c')"
        by (simp only: validate_planned_def path_def [symmetric] Let_def if_False)
      show thesis
      proof (cases "if pl_method plan = MethodOCSP then sv_ocspCache s else None")
        case None
        with lk show thesis
          by (auto simp: validate_lookup_def split: if_splits sum.splits intro: called refused)
      next
        case (Some port)
        then have port: "sv_ocspCache s = Some port" "pl_method plan = MethodOCSP" by (auto split: if_splits)
        obtain x c0 where look: "cp_Lookup port c ?der path now = (x, c0)" by (cases "cp_Lookup port c ?der path now")
        show thesis
        proof (cases x)
          case None
          with lk port look show thesis by (intro called [of c0]) (auto simp: validate_lookup_def)
        next
          case (Some a)
          with lk port look show thesis
            by (intro cached [of port path a t]) (auto simp: validate_lookup_def cachedValidateOutput_def)
        qed
      qed
    qed
  qed
qed

text \<open>
  A revocation the driver has shown for a certificate at a responder, and a cache that holds no
  other revocations.
\<close>

definition ocsp_shown :: "'c service \<Rightarrow> bytes \<Rightarrow> string \<Rightarrow> bool" where
  "ocsp_shown s d r \<longleftrightarrow> (\<exists>inp plan trusted t res. input_der s inp = d \<and> pl_method plan = MethodOCSP \<and>
     pv_ValidateCert (sv_prov s) (validate_request_of inp plan r trusted t) = (res, None) \<and>
     revoked_evidence s plan d res)"

definition cache_backed :: "'c service \<Rightarrow> (bytes \<Rightarrow> string \<Rightarrow> 'k) \<Rightarrow> ('c \<Rightarrow> 'k \<Rightarrow> ocsp_answer \<Rightarrow> bool) \<Rightarrow> 'c \<Rightarrow> bool" where
  "cache_backed s key holds c \<longleftrightarrow>
     (\<forall>k a. holds c k a \<and> oe_Revoked a \<longrightarrow> (\<exists>d r. k = key d r \<and> ocsp_shown s d r))"

context answer_cache
begin

lemma Validate_keeps_backed:
  assumes "sv_ocspCache s = Some port" and "cache_backed s key holds c"
    and "Validate s ctx c inp now = Returns ((out, err), c')"
  shows "cache_backed s key holds c'"
  using assms(3)
proof (cases rule: Validate_cases)
  case (cached port' r a t)
  with assms(1,2) show ?thesis using lookup_keeps by (fastforce simp: cache_backed_def)
next
  case (called c0 plan path trusted t)
  have c0: "cache_backed s key holds c0"
    using called(1) assms(1,2) lookup_keeps by (fastforce simp: cache_backed_def)
  from called(2) show ?thesis
  proof (cases rule: validate_call_cases)
    case (clean res)
    show ?thesis
    proof (cases "pl_method plan = MethodOCSP")
      case True
      have "\<exists>d r. k = key d r \<and> ocsp_shown s d r" if "holds c' k a" "oe_Revoked a" for k a
      proof -
        from that(1) clean(4) True assms(1) have
          "holds c0 k a \<or> k = key (input_der s inp) path \<and> a = to_answer (vt_Status out) (dr_OCSPResponse res)"
          by (auto dest: store_holds)
        then show ?thesis
        proof
          assume "holds c0 k a"
          with c0 that(2) show ?thesis by (auto simp: cache_backed_def)
        next
          assume new: "k = key (input_der s inp) path \<and> a = to_answer (vt_Status out) (dr_OCSPResponse res)"
          with that(2) clean(3) have "revoked_evidence s plan (input_der s inp) res"
            by (simp add: to_answer_def answer_status_Revoked)
          with True clean(1) have "ocsp_shown s (input_der s inp) path" unfolding ocsp_shown_def by blast
          with new show ?thesis by blast
        qed
      qed
      then show ?thesis by (auto simp: cache_backed_def)
    next
      case False
      with clean(4) assms(1) c0 show ?thesis by simp
    qed
  qed (simp_all add: c0)
qed (use assms in simp_all)

lemma Validate_revoked_backed:
  assumes "sv_ocspCache s = Some port" and "cache_backed s key holds c"
    and "Validate s ctx c inp now = Returns ((out, None), c')"
    and "rs_Determinate (vt_Status out)" and "rs_Revoked (vt_Status out)"
  shows "(\<exists>path d r. key d r = key (input_der s inp) path \<and> ocsp_shown s d r) \<or>
    (\<exists>plan path trusted t res. pv_ValidateCert (sv_prov s) (validate_request_of inp plan path trusted t) = (res, None) \<and>
       revoked_evidence s plan (input_der s inp) res)"
  using assms(3)
proof (cases rule: Validate_cases)
  case (cached port' r a t)
  then have "holds c (key (input_der s inp) r) a" using assms(1) lookup_held by simp
  moreover have "oe_Revoked a" using cached(4) assms(5) by (simp add: cachedValidateOutput_def)
  ultimately obtain d r' where "key (input_der s inp) r = key d r'" "ocsp_shown s d r'"
    using assms(2) unfolding cache_backed_def by blast
  then show ?thesis by metis
next
  case (called c0 plan path trusted t)
  from called(2) show ?thesis
  proof (cases rule: validate_call_cases)
    case (clean res)
    with assms(5) show ?thesis by (auto simp: answer_status_Revoked)
  qed (use assms(4) in auto)
qed (use assms(4,5) in auto)

end

section \<open>Properties\<close>

text \<open>
  Claim C4: a revoked verdict is always backed. Over the service's own OCSP cache, a validation
  that establishes a revocation rests on an answer the driver gave without an error: either on
  this call, with a revoked status, a revoked OCSP response or a CRL entry for the certificate,
  or on an earlier call for the same cache key; and validation keeps the cache in the state in
  which that holds.
\<close>

theorem validate_revoked_backed:
  assumes "sv_ocspCache s = Some (OcspPort h)" and "cache_backed s (cache_key h) ocsp_holds c"
    and "Validate s ctx c inp now = Returns ((out, None), c')"
  shows "cache_backed s (cache_key h) ocsp_holds c' \<and>
    (rs_Determinate (vt_Status out) \<and> rs_Revoked (vt_Status out) \<longrightarrow>
      (\<exists>path d r. cache_key h d r = cache_key h (input_der s inp) path \<and> ocsp_shown s d r) \<or>
      (\<exists>plan path trusted t res.
         pv_ValidateCert (sv_prov s) (validate_request_of inp plan path trusted t) = (res, None) \<and>
         revoked_evidence s plan (input_der s inp) res))"
  using ocsp.Validate_keeps_backed [OF assms] ocsp.Validate_revoked_backed [OF assms] by blast

definition idle_driver :: "validate_result \<times> goerr option \<Rightarrow> driver" where
  "idle_driver ans = \<lparr>pv_SignCMS = (\<lambda>_. ([], None)), pv_SignXML = (\<lambda>_. ([], None)), pv_SignWSSE = (\<lambda>_. ([], None)),
     pv_VerifyCMS = (\<lambda>_. (\<lparr>dv_Valid = False, dv_Info = [], dv_Content = [], dv_SignerCert = [], dv_Signers = [],
        dv_Timestamp = zero_time, dv_RawCode = 0\<rparr>, None)),
     pv_VerifyXML = (\<lambda>_. (\<lparr>dv_Valid = False, dv_Info = [], dv_Content = [], dv_SignerCert = [], dv_Signers = [],
        dv_Timestamp = zero_time, dv_RawCode = 0\<rparr>, None)),
     pv_CertProperties = (\<lambda>_ _. ([], None)), pv_ValidateCert = (\<lambda>_. ans), pv_ExportOwnerCert = (\<lambda>_ _. ([], None)),
     pv_HashCapable = False, pv_Hash = (\<lambda>_ _. ([], None))\<rparr>"

definition demo_cms :: cmslib where
  "demo_cms = \<lparr>cm_ParseSigners = (\<lambda>_. None), cm_AddLTV = (\<lambda>d e. Inr d),
     cm_EmbeddedEvidence = (\<lambda>_. Inl (PlainError ''no evidence'')), cm_PemEncode = (\<lambda>d. d), cm_OidName = (\<lambda>_. []),
     cm_Sha1 = (\<lambda>d. d), cm_Sha256 = (\<lambda>d. d), cm_Sha384 = (\<lambda>d. d), cm_Sha512 = (\<lambda>d. d),
     cm_Streebog256 = (\<lambda>d. d), cm_Streebog512 = (\<lambda>d. d), cm_RangeOrder = map snd\<rparr>"

definition demo_service :: "driver \<Rightarrow> 'c ocsp_port option \<Rightarrow> 'c service" where
  "demo_service d port = \<lparr>sv_prov = d, sv_keys = None, sv_trust = None, sv_fetcher = None, sv_crl = None,
     sv_crlFailPolicy = CRLFailSoft, sv_verifyChain = False, sv_defaultTimestamp = False, sv_defaultTSAURL = [],
     sv_verifyOnly = False, sv_dataResolver = None, sv_ocspCache = port, sv_audit = False,
     sv_receiptSigner = None, sv_receiptIssuer = [], sv_random = Inr ''id'', sv_tsaPolicies = [], sv_golib = demo_golib,
     sv_revlib = \<lparr>rl_ParseOCSP = (\<lambda>_. None), rl_ParseCRL = (\<lambda>_. None)\<rparr>, sv_cms = demo_cms, sv_writeTempCRL = (\<lambda>_. Inr ''/tmp/c'')\<rparr>"

definition demo_request :: validate_input where
  "demo_request = \<lparr>va_Cert = ''LR'', va_Format = EncodingDER, va_Method = MethodOCSP, va_CheckTime = 5,
     va_WantOCSP = False, va_TrustedCerts = [], va_ResponderURL = ''http://ocsp'', va_CRL = []\<rparr>"

definition status_answer :: "cert_status \<Rightarrow> validate_result" where
  "status_answer st = \<lparr>dr_Status = st, dr_Info = [], dr_OCSPResponse = [], dr_RawCode = 0\<rparr>"

definition plain_lang :: lang where
  "plain_lang = \<lparr>lg_translations = (\<lambda>_. None), lg_locale = None\<rparr>"

theorem validate_revoked_backed_witness:
  "cache_backed (demo_service (idle_driver (status_answer CertRevoked, None)) (Some (OcspPort (\<lambda>d. d))))
     (cache_key (\<lambda>d. d)) ocsp_holds
     (case Validate (demo_service (idle_driver (status_answer CertRevoked, None)) (Some (OcspPort (\<lambda>d. d))))
        plain_lang tiny_cache demo_request 0 of Returns (r, c') \<Rightarrow> c')"
proof -
  let ?s = "demo_service (idle_driver (status_answer CertRevoked, None)) (Some (OcspPort (\<lambda>d. d)))"
  have port: "sv_ocspCache ?s = Some (OcspPort (\<lambda>d. d))" by (simp add: demo_service_def)
  have backed: "cache_backed ?s (cache_key (\<lambda>d. d)) ocsp_holds tiny_cache"
    by (simp add: cache_backed_def ocsp_holds_def tiny_cache_def ocsp_New_def)
  have "\<exists>out c'. Validate ?s plain_lang tiny_cache demo_request 0 = Returns ((out, None), c')"
    by (simp add: Validate_def demo_service_def discoverAnchors_def plan_crl_def validate_planned_def
        validate_lookup_def validate_call_def demo_request_def OcspPort_def ocsp_Lookup_def tiny_cache_def
        ocsp_New_def idle_driver_def IsZero_def zero_time_def toDER_def Let_def)
  then obtain out c' where "Validate ?s plain_lang tiny_cache demo_request 0 = Returns ((out, None), c')" by blast
  from validate_revoked_backed [OF port backed this] this show ?thesis by simp
qed

text \<open>
  Without a cache, a status is reported as established exactly when the driver was
  asked, gave no error and did not answer unknown; an established status is revoked exactly if
  the driver's answer, the OCSP response or the CRL material says so.
\<close>

theorem validate_determinate_iff:
  assumes "sv_ocspCache s = None" and "Validate s ctx c inp now = Returns ((out, None), c')"
  shows "rs_Determinate (vt_Status out) \<longleftrightarrow>
    (\<exists>plan path trusted t res.
       pv_ValidateCert (sv_prov s) (validate_request_of inp plan path trusted t) = (res, None) \<and>
       dr_Status res \<noteq> CertUnknown \<and> vt_Status out = answer_status s plan (input_der s inp) t res \<and>
       (rs_Revoked (vt_Status out) \<longleftrightarrow> revoked_evidence s plan (input_der s inp) res))" (is "?l = ?r")
proof
  assume ?l
  from assms(2) show ?r
  proof (cases rule: Validate_cases)
    case (called c0 plan path trusted t)
    from called(2) show ?thesis
    proof (cases rule: validate_call_cases)
      case (clean res)
      with \<open>?l\<close> have "dr_Status res \<noteq> CertUnknown" by simp
      with clean show ?thesis by (metis answer_status_Revoked)
    qed (use \<open>?l\<close> in auto)
  qed (use \<open>?l\<close> assms(1) in auto)
next
  assume ?r
  then show ?l by auto
qed

theorem validate_determinate_iff_witness:
  "case Validate (demo_service (idle_driver (status_answer CertUnknown, None)) None :: unit service) plain_lang ()
     demo_request 0 of Returns ((out, e), c') \<Rightarrow> \<not> rs_Determinate (vt_Status out)"
proof -
  let ?s = "demo_service (idle_driver (status_answer CertUnknown, None)) None :: unit service"
  have none: "sv_ocspCache ?s = None" by (simp add: demo_service_def)
  have "\<exists>out c'. Validate ?s plain_lang () demo_request 0 = Returns ((out, None), c')"
    by (simp add: Validate_def demo_service_def discoverAnchors_def plan_crl_def validate_planned_def
        validate_lookup_def validate_call_def demo_request_def idle_driver_def IsZero_def zero_time_def toDER_def Let_def)
  then obtain out c' where v: "Validate ?s plain_lang () demo_request 0 = Returns ((out, None), c')" by blast
  have "pv_ValidateCert (sv_prov ?s) req = (res, None) \<Longrightarrow> dr_Status res = CertUnknown" for req res
    by (auto simp: demo_service_def idle_driver_def status_answer_def)
  with validate_determinate_iff [OF none v] have "\<not> rs_Determinate (vt_Status out)" by blast
  with v show ?thesis by simp
qed

lemma Validate_ocsp_miss:
  assumes "sv_ocspCache s = Some (OcspPort h)" and "va_Method inp = MethodOCSP" and "va_ResponderURL inp \<noteq> []"
    and "discoverAnchors (sv_golib s) (sv_fetcher s) [input_der s inp] (mergedTrusted (sv_trust s) (va_TrustedCerts inp)) =
      Returns extra"
    and "\<And>req. pv_ValidateCert (sv_prov s) req = (res, None)"
    and "ocsp_Lookup h c (input_der s inp) (va_ResponderURL inp) now = (None, c0)"
  shows "\<exists>plan t. Validate s ctx c inp now =
    Returns ((no_validate_output\<lparr>vt_Status := answer_status s plan (input_der s inp) t res, vt_Info := dr_Info res,
        vt_OCSPResponse := (if va_WantOCSP inp then dr_OCSPResponse res else []), vt_Warnings := []\<rparr>, None),
      ocsp_Store h c0 (input_der s inp) (va_ResponderURL inp)
        (to_answer (answer_status s plan (input_der s inp) t res) (dr_OCSPResponse res)) now) \<and>
    pl_method plan = MethodOCSP"
proof -
  let ?plan = "\<lparr>pl_method = MethodOCSP, pl_wantOCSP = True, pl_crl = [], pl_delta = [], pl_warnings = []\<rparr>"
  let ?t = "if IsZero (va_CheckTime inp) then now else va_CheckTime inp"
  show ?thesis
    using assms(1-6)
    by (intro exI [of _ ?plan] exI [of _ ?t])
      (simp add: Validate_def plan_crl_def validate_planned_def validate_lookup_def validate_call_def OcspPort_def Let_def)
qed

lemma Validate_ocsp_hit:
  assumes "sv_ocspCache s = Some (OcspPort h)" and "va_Method inp = MethodOCSP" and "va_ResponderURL inp \<noteq> []"
    and "discoverAnchors (sv_golib s) (sv_fetcher s) [input_der s inp] (mergedTrusted (sv_trust s) (va_TrustedCerts inp)) =
      Returns extra"
    and "ocsp_Lookup h c (input_der s inp) (va_ResponderURL inp) now = (Some a, c0)"
  shows "\<exists>t. Validate s ctx c inp now = Returns ((cachedValidateOutput inp MethodOCSP t a [], None), c0)"
  using assms
  by (auto simp: Validate_def plan_crl_def validate_planned_def validate_lookup_def OcspPort_def Let_def)

lemma answer_status_unknown:
  "pl_method plan = MethodOCSP \<Longrightarrow> dr_Status res = CertUnknown \<Longrightarrow> dr_OCSPResponse res = [] \<Longrightarrow>
   \<not> rs_Determinate (answer_status s plan d t res) \<and> \<not> rs_Revoked (answer_status s plan d t res) \<and>
   rs_NextUpdate (answer_status s plan d t res) = None"
  by (simp add: answer_status_def enrichFromOCSP_def no_status_def Let_def split: option.splits)

text \<open>
  An unknown answer becomes a good one through the cache. When the driver answers
  unknown without an error, the first validation reports the status as not established, but the
  answer is stored all the same; the next validation within its lifetime reports the certificate
  as established and not revoked.
\<close>

theorem validate_unknown_cached_as_good:
  assumes "sv_ocspCache s = Some (OcspPort h)" and "va_Method inp = MethodOCSP" and "va_ResponderURL inp \<noteq> []"
    and "discoverAnchors (sv_golib s) (sv_fetcher s) [input_der s inp] (mergedTrusted (sv_trust s) (va_TrustedCerts inp)) =
      Returns extra"
    and "\<forall>req. pv_ValidateCert (sv_prov s) req = (res, None)"
    and "dr_Status res = CertUnknown" and "dr_OCSPResponse res = []"
    and "ocsp_inv c" and "oc_seq c \<noteq> - 1" and "0 < oc_TTL (oc_cfg c)"
    and "fst (ocsp_Lookup h c (input_der s inp) (va_ResponderURL inp) now) = None"
    and "later < now + oc_TTL (oc_cfg c)"
  shows "\<exists>out1 c1 out2 c2. Validate s ctx c inp now = Returns ((out1, None), c1) \<and>
    Validate s ctx c1 inp later = Returns ((out2, None), c2) \<and>
    \<not> rs_Determinate (vt_Status out1) \<and> rs_Determinate (vt_Status out2) \<and> \<not> rs_Revoked (vt_Status out2)"
proof -
  let ?d = "input_der s inp" and ?u = "va_ResponderURL inp"
  obtain c0 where look: "ocsp_Lookup h c ?d ?u now = (None, c0)"
    using assms(11) by (cases "ocsp_Lookup h c ?d ?u now") auto
  then have c0: "ocsp_inv c0" "oc_seq c0 = oc_seq c" "oc_cfg c0 = oc_cfg c"
    using ocsp_Lookup_inv [OF assms(8), of h ?d ?u now]
    by (auto simp: ocsp_Lookup_def Let_def split: option.splits if_splits)
  from Validate_ocsp_miss [OF assms(1-4) assms(5) [rule_format] look, of ctx] obtain plan t where
    v1: "Validate s ctx c inp now =
      Returns ((no_validate_output\<lparr>vt_Status := answer_status s plan ?d t res, vt_Info := dr_Info res,
          vt_OCSPResponse := (if va_WantOCSP inp then dr_OCSPResponse res else []), vt_Warnings := []\<rparr>, None),
        ocsp_Store h c0 ?d ?u (to_answer (answer_status s plan ?d t res) (dr_OCSPResponse res)) now)"
    and plan: "pl_method plan = MethodOCSP" by blast
  let ?st = "answer_status s plan ?d t res"
  let ?v = "to_answer ?st (dr_OCSPResponse res)"
  note unk = answer_status_unknown [OF plan assms(6,7), of s ?d t]
  have exp: "ocsp_expiry (oc_cfg c0) ?v now = now + oc_TTL (oc_cfg c)"
    using unk c0(3) by (simp add: ocsp_expiry_def to_answer_def)
  have "map_of (oc_entries (ocsp_Store h c0 ?d ?u ?v now)) (cache_key h ?d ?u) =
      Some \<lparr>en_value = ?v, en_expires = now + oc_TTL (oc_cfg c), en_seq = oc_seq c + 1\<rparr>"
    using ocsp_Store_get [OF c0(1), where v = ?v and now = now and h = h and d = ?d and r = ?u]
      c0(2) exp assms(9,10) by simp
  then have "\<exists>c2. ocsp_Lookup h (ocsp_Store h c0 ?d ?u ?v now) ?d ?u later = (Some ?v, c2)"
    using assms(12) by (simp add: ocsp_Lookup_def Let_def)
  then obtain c2 where "ocsp_Lookup h (ocsp_Store h c0 ?d ?u ?v now) ?d ?u later = (Some ?v, c2)" by blast
  from Validate_ocsp_hit [OF assms(1-4) this, of ctx] obtain t2 where
    v2: "Validate s ctx (ocsp_Store h c0 ?d ?u ?v now) inp later =
      Returns ((cachedValidateOutput inp MethodOCSP t2 ?v [], None), c2)" by blast
  from v1 v2 unk show ?thesis
    by (intro exI conjI) (assumption | simp add: cachedValidateOutput_def to_answer_def)+
qed

theorem validate_unknown_cached_as_good_witness:
  "\<exists>out1 c1 out2 c2.
     Validate (demo_service (idle_driver (status_answer CertUnknown, None)) (Some (OcspPort (\<lambda>d. d))))
       plain_lang tiny_cache demo_request 0 = Returns ((out1, None), c1) \<and>
     Validate (demo_service (idle_driver (status_answer CertUnknown, None)) (Some (OcspPort (\<lambda>d. d))))
       plain_lang c1 demo_request 1 = Returns ((out2, None), c2) \<and>
     \<not> rs_Determinate (vt_Status out1) \<and> rs_Determinate (vt_Status out2) \<and> \<not> rs_Revoked (vt_Status out2)"
  by (rule validate_unknown_cached_as_good [where h = "\<lambda>d. d" and extra = "[]" and res = "status_answer CertUnknown"])
    (simp_all add: demo_service_def idle_driver_def demo_request_def discoverAnchors_def status_answer_def
      tiny_cache_def ocsp_New_inv, simp_all add: ocsp_New_def ocsp_Lookup_def)



end
