(* ===== verification/Signers.thy ===== *)
theory Signers
  imports Validate
begin

text \<open>
  From the driver's answer to the signers of a verification: the facts parsed out of the CMS
  container (internal/core/signers.go), the checks of a timestamp token
  (internal/core/timestamp.go) and the assembly of each signer (internal/core/service.go,
  \<^verbatim>\<open>buildSigners\<close>, \<^verbatim>\<open>cryptoVerifyChain\<close>).
\<close>

section \<open>Facts parsed from the container\<close>

definition normHex :: "string \<Rightarrow> string" where
  "normHex h =
     (let h = dropWhile (\<lambda>c. c = CHR ''0'') (ToUpper (TrimSpace h)) in if h = [] then ''0'' else h)"

definition index_signer :: "(string, cms_signer) gomap \<Rightarrow> cms_signer \<Rightarrow> (string, cms_signer) gomap" where
  "index_signer m si =
     (if cs_SerialNumberHex si \<noteq> [] then kv_put (normHex (cs_SerialNumberHex si)) si m else m)"

definition cmsSignersBySerial :: "golib \<Rightarrow> cmslib \<Rightarrow> string \<Rightarrow> bytes \<Rightarrow> (string, cms_signer) gomap" where
  "cmsSignersBySerial G L format signature =
     (if format \<noteq> FormatCMS \<or> signature = [] then []
      else case cm_ParseSigners L (toDER G signature EncodingPEM) of
             None \<Rightarrow> []
           | Some parsed \<Rightarrow> foldl index_signer [] parsed)"

definition timestampFromCMS :: "cms_timestamp \<Rightarrow> timestamp" where
  "timestampFromCMS t =
     \<lparr>ts_SerialNumber = ct_tsSerialNumberHex t, ts_GenTime = ct_tsGenTime t, ts_Policy = ct_tsPolicy t,
      ts_TSA = ct_tsTSA t,
      ts_HashAlgorithm = (if HashNameForOID (ct_tsHashAlgorithmOID t) = [] then ct_tsHashAlgorithmOID t
                          else HashNameForOID (ct_tsHashAlgorithmOID t)),
      ts_Hash = ct_tsHash t, ts_ImprintVerified = None, ts_ImprintNote = [], ts_SignatureVerified = None,
      ts_SignatureNote = [], ts_PolicyName = [], ts_PolicyAccepted = None, ts_PolicyNote = []\<rparr>"

definition sigAlgName :: "cmslib \<Rightarrow> string \<Rightarrow> string" where
  "sigAlgName L oid =
     (if oid = SignGOST2015_256 then ''GOST R 34.10-2015 256''
      else if oid = SignGOST2015_512 then ''GOST R 34.10-2015 512''
      else if oid = SignSHA256RSA then ''SHA256withRSA''
      else if oid = SignSHA1RSA then ''SHA1withRSA''
      else if oid = [] then []
      else if cm_OidName L oid \<noteq> [] then cm_OidName L oid
      else oid)"

text \<open>Go ranges over the index in an unspecified order, which the library record supplies.\<close>

definition firstTimestamp :: "golib \<Rightarrow> cmslib \<Rightarrow> bytes \<Rightarrow> timestamp option" where
  "firstTimestamp G L signature =
     (case find (\<lambda>si. cs_Timestamp si \<noteq> None) (cm_RangeOrder L (cmsSignersBySerial G L FormatCMS signature)) of
        Some si \<Rightarrow> map_option timestampFromCMS (cs_Timestamp si)
      | None \<Rightarrow> None)"

section \<open>Checking a timestamp token\<close>

abbreviation DigestSHA1 :: string where "DigestSHA1 \<equiv> ''1.3.14.3.2.26''"
abbreviation DigestSHA256 :: string where "DigestSHA256 \<equiv> ''2.16.840.1.101.3.4.2.1''"
abbreviation oidSHA384 :: string where "oidSHA384 \<equiv> ''2.16.840.1.101.3.4.2.2''"
abbreviation oidSHA512 :: string where "oidSHA512 \<equiv> ''2.16.840.1.101.3.4.2.3''"
abbreviation OIDDigestGOST2015_512 :: string where "OIDDigestGOST2015_512 \<equiv> ''1.2.398.3.10.1.3.3''"
abbreviation OIDDigestGOST2015_256 :: string where "OIDDigestGOST2015_256 \<equiv> ''1.2.398.3.10.1.3.2''"
abbreviation OIDDigestGOST34311_95 :: string where "OIDDigestGOST34311_95 \<equiv> ''1.2.398.3.10.1.3.1''"
abbreviation DigestGOST34311_95 :: string where "DigestGOST34311_95 \<equiv> ''1.2.398.3.10.1.1.1.1''"
abbreviation oidGOST34311 :: string where "oidGOST34311 \<equiv> ''1.2.398.3.10.1.1.1''"
abbreviation gostDigestName :: string where "gostDigestName \<equiv> ''GOST34311''"

definition digestFor :: "'c service \<Rightarrow> string \<Rightarrow> bytes \<Rightarrow> goerr + bytes" where
  "digestFor s oid data =
     (let L = sv_cms s
      in if oid = DigestSHA1 then Inr (cm_Sha1 L data)
         else if oid = DigestSHA256 then Inr (cm_Sha256 L data)
         else if oid = oidSHA384 then Inr (cm_Sha384 L data)
         else if oid = oidSHA512 then Inr (cm_Sha512 L data)
         else if oid = OIDDigestGOST2015_512 then Inr (cm_Streebog512 L data)
         else if oid = OIDDigestGOST2015_256 then Inr (cm_Streebog256 L data)
         else if oid \<noteq> DigestGOST34311_95 \<and> oid \<noteq> oidGOST34311 \<and> oid \<noteq> OIDDigestGOST34311_95 then
           Inl (PlainError (''unsupported imprint digest '' @ oid))
         else if \<not> pv_HashCapable (sv_prov s) then
           Inl (PlainError (''the loaded library cannot compute '' @ gostDigestName))
         else (case pv_Hash (sv_prov s) gostDigestName data of
                 (_, Some e) \<Rightarrow> Inl (WrapError (''could not compute the '' @ gostDigestName @ '' imprint'') e)
               | (h, None) \<Rightarrow> Inr h))"

definition verifyTimestampImprint :: "'c service \<Rightarrow> cms_signer \<Rightarrow> bool option \<times> string" where
  "verifyTimestampImprint s si =
     (case cs_Timestamp si of
        None \<Rightarrow> (None, ''no timestamp token'')
      | Some ts \<Rightarrow>
          if ct_tsHash ts = [] then (None, ''the token carries no message imprint'')
          else if cs_Signature si = [] then (None, ''the signature value could not be read from the container'')
          else (case digestFor s (ct_tsHashAlgorithmOID ts) (cs_Signature si) of
                  Inl e \<Rightarrow> (None, err_text e)
                | Inr digest \<Rightarrow>
                    if digest = ct_tsHash ts then (Some True, [])
                    else (Some False, ''the token's message imprint does not match this signature'')))"

definition token_request :: "bytes \<Rightarrow> trusted_cert list \<Rightarrow> verify_request" where
  "token_request raw trusted =
     \<lparr>vq_Signature = raw, vq_Data = [], vq_Path = [], vq_Detached = False, vq_InputPEM = False,
      vq_OutPEM = False, vq_CheckCertTime = False, vq_SignerIndex = 0, vq_TrustedCerts = trusted\<rparr>"

definition verifyTimestampSignature :: "'c service \<Rightarrow> lang \<Rightarrow> cms_timestamp option \<Rightarrow> trusted_cert list \<Rightarrow>
    bool option \<times> string" where
  "verifyTimestampSignature s ctx ts trusted =
     (case ts of
        None \<Rightarrow> (None, ''the token bytes were not retained'')
      | Some t \<Rightarrow>
          if ct_tsRaw t = [] then (None, ''the token bytes were not retained'')
          else (case pv_VerifyCMS (sv_prov s) (token_request (ct_tsRaw t) trusted) of
                  (res, None) \<Rightarrow>
                    if \<not> dv_Valid res then (Some False, ''the TSA signature over the token did not verify'')
                    else (Some True, [])
                | (res, Some e) \<Rightarrow>
                    if isSoftVerifyFailure e then
                      (Some False, ''the TSA signature over the token did not verify: '' @ ex_Message (core_ExplainIn ctx e))
                    else (None, ''the TSA signature could not be checked: '' @ err_text e)))"

definition policyLabel :: "string \<Rightarrow> string \<Rightarrow> string" where
  "policyLabel oid name =
     (if name \<noteq> [] then name @ '' ('' @ oid @ '')'' else if oid = [] then ''(none)'' else oid)"

definition checkTimestampPolicy :: "string list \<Rightarrow> string \<Rightarrow> string \<times> bool option \<times> string" where
  "checkTimestampPolicy tsaPolicies policy =
     (let name = TSAPolicyName policy
      in if tsaPolicies = [] then
           (name, None,
            if policy = [] then ''the token names no policy; none is enforced''
            else if name = [] then ''policy is outside the NUC TSA arc; no allow-list is configured, so nothing is enforced''
            else ''no policy allow-list is configured, so nothing is enforced'')
         else if policy \<in> set tsaPolicies then (name, Some True, [])
         else (name, Some False, ''policy '' @ policyLabel policy name @ '' is not in the configured allow-list''))"

section \<open>Assembling a signer\<close>

definition cryptoVerifyChain :: "'c service \<Rightarrow> bytes \<Rightarrow> certificate list \<Rightarrow> bool go" where
  "cryptoVerifyChain s leafPEM chain =
     (case ca_nodes chain of
        Panics \<Rightarrow> Panics
      | Returns nodes \<Rightarrow>
          (let trusted = map (as_trusted (sv_golib s)) nodes @ mergedTrusted (sv_trust s) []
           in if trusted = [] then Returns False
              else case pv_ValidateCert (sv_prov s) \<lparr>dq_Cert = leafPEM, dq_Format = CertPEM, dq_Method = ValidateNone,
                          dq_Path = [], dq_CheckTime = zero_time, dq_WantOCSP = False, dq_TrustedCerts = trusted\<rparr> of
                     (res, err) \<Rightarrow> Returns (err = None \<and> dr_RawCode res = 0)))"

definition firstNonEmptyString :: "string list \<Rightarrow> string" where
  "firstNonEmptyString vals = (case find (\<lambda>v. v \<noteq> []) vals of Some v \<Rightarrow> v | None \<Rightarrow> [])"

definition timestampWarning :: "string \<Rightarrow> string" where
  "timestampWarning note =
     ''timestamp present but not accepted as CAdES-T: '' @
     (if note = [] then ''the token's message imprint could not be checked'' else note)"

definition signer_field :: "nat \<Rightarrow> string \<Rightarrow> string" where
  "signer_field i field = ''signers['' @ decimal i @ '']'' @ field"

text \<open>The facts of the container for one signer, with the three checks of its token.\<close>

definition stamp_signer :: "'c service \<Rightarrow> lang \<Rightarrow> trusted_cert list \<Rightarrow> nat \<Rightarrow> cms_signer \<Rightarrow> signer \<Rightarrow> warnings \<Rightarrow>
    signer \<times> warnings" where
  "stamp_signer s ctx trusted i si sig w =
     (let sig = sig\<lparr>sg_SigningTime := cs_SigningTime si,
                    sg_SignatureAlgorithm := sigAlgName (sv_cms s) (cs_SignatureAlgorithmOID si)\<rparr>
      in case cs_Timestamp si of
           None \<Rightarrow> (sig, w)
         | Some ts \<Rightarrow>
             (let (imprint, inote) = verifyTimestampImprint s si;
                  (signed, snote) = verifyTimestampSignature s ctx (Some ts) trusted;
                  (pname, paccepted, pnote) = checkTimestampPolicy (sv_tsaPolicies s) (ct_tsPolicy ts);
                  sig = sig\<lparr>sg_Timestamp := Some ((timestampFromCMS ts)\<lparr>ts_ImprintVerified := imprint,
                     ts_ImprintNote := inote, ts_SignatureVerified := signed, ts_SignatureNote := snote,
                     ts_PolicyName := pname, ts_PolicyAccepted := paccepted, ts_PolicyNote := pnote\<rparr>)\<rparr>;
                  policyRefused = (paccepted = Some False)
              in if imprint = Some True \<and> signed = Some True \<and> \<not> policyRefused
                 then (sig\<lparr>sg_CAdESLevel := ''T''\<rparr>, w)
                 else (sig, w_add w (signer_field i ''.timestamp'')
                        (timestampWarning (if policyRefused then pnote else firstNonEmptyString [inote, snote])))))"

definition signer_certificate :: "'c service \<Rightarrow> bytes \<Rightarrow> warnings \<Rightarrow> certificate \<times> warnings" where
  "signer_certificate s pemCert w =
     (case pv_CertProperties (sv_prov s) pemCert CertPEM of
        (_, Some e) \<Rightarrow> (no_certificate\<lparr>ct_PEM := pemCert\<rparr>, w_addErr w ''signers[]'' e)
      | (props, None) \<Rightarrow> parseCertificate (sv_golib s) props (toDER (sv_golib s) pemCert EncodingPEM) ''signers[].'' w)"

text \<open>The fallbacks: the certificate's algorithm name, and the library's time for the first signer.\<close>

definition fill_signer :: "driver_verify_result \<Rightarrow> nat \<Rightarrow> signer \<Rightarrow> signer" where
  "fill_signer res i sig =
     (let sig = (if sg_SignatureAlgorithm sig = []
                 then sig\<lparr>sg_SignatureAlgorithm := ct_SignatureAlgorithm (sg_Certificate sig)\<rparr> else sig)
      in if sg_Timestamp sig = None \<and> i = 0 \<and> \<not> IsZero (dv_Timestamp res)
         then sig\<lparr>sg_Timestamp := Some \<lparr>ts_SerialNumber = [], ts_GenTime = Some (dv_Timestamp res),
           ts_Policy = [], ts_TSA = [], ts_HashAlgorithm = [], ts_Hash = [], ts_ImprintVerified = None,
           ts_ImprintNote = ''only the library's genTime was available; the token itself could not be read or checked'',
           ts_SignatureVerified = None, ts_SignatureNote = [], ts_PolicyName = [],
           ts_PolicyAccepted = None, ts_PolicyNote = []\<rparr>\<rparr> else sig)"

definition build_signer :: "'c service \<Rightarrow> lang \<Rightarrow> driver_verify_result \<Rightarrow> (string, cms_signer) gomap \<Rightarrow>
    trusted_cert list \<Rightarrow> nat \<Rightarrow> bytes \<Rightarrow> warnings \<Rightarrow> (signer \<times> warnings) go" where
  "build_signer s ctx res bySerial trusted i pemCert w =
     (let leafDER = toDER (sv_golib s) pemCert EncodingPEM;
          (cert, w) = signer_certificate s pemCert w;
          (chain, complete, anchored) = buildChain (sv_golib s) cert leafDER trusted (sv_fetcher s);
          sig = \<lparr>sg_Certificate = cert, sg_Chain = chain, sg_Valid = dv_Valid res, sg_SigningTime = None,
                 sg_SignatureAlgorithm = [], sg_Timestamp = None, sg_ChainComplete = complete,
                 sg_TrustAnchorFound = anchored, sg_ChainSignaturesVerified = False, sg_CAdESLevel = ''BES'',
                 sg_VerifyInfo = dv_Info res, sg_Claims = None, sg_Revocation = None\<rparr>
      in case (if sv_verifyChain s then cryptoVerifyChain s pemCert chain else Returns False) of
           Panics \<Rightarrow> Panics
         | Returns ok \<Rightarrow>
             (let sig = sig\<lparr>sg_ChainSignaturesVerified := ok\<rparr>;
                  (sig, w) = (case map_of bySerial (normHex (ct_SerialNumber cert)) of
                                Some si \<Rightarrow> stamp_signer s ctx trusted i si sig w
                              | None \<Rightarrow> (sig, w))
              in Returns (fill_signer res i sig, w)))"

fun build_loop :: "'c service \<Rightarrow> lang \<Rightarrow> driver_verify_result \<Rightarrow> (string, cms_signer) gomap \<Rightarrow>
    trusted_cert list \<Rightarrow> nat \<Rightarrow> bytes list \<Rightarrow> warnings \<Rightarrow> (signer list \<times> warnings) go" where
  "build_loop s ctx res bySerial trusted i [] w = Returns ([], w)"
| "build_loop s ctx res bySerial trusted i (pemCert # rest) w =
     (case build_signer s ctx res bySerial trusted i pemCert w of
        Panics \<Rightarrow> Panics
      | Returns (sig, w) \<Rightarrow>
          (case build_loop s ctx res bySerial trusted (Suc i) rest w of
             Panics \<Rightarrow> Panics
           | Returns (sigs, w) \<Rightarrow> Returns (sig # sigs, w)))"

definition buildSigners :: "'c service \<Rightarrow> lang \<Rightarrow> driver_verify_result \<Rightarrow> string \<Rightarrow> bytes \<Rightarrow> trusted_cert list \<Rightarrow>
    warnings \<Rightarrow> (signer list \<times> warnings) go" where
  "buildSigners s ctx res format signature trusted w =
     build_loop s ctx res (cmsSignersBySerial (sv_golib s) (sv_cms s) format signature) trusted 0 (dv_Signers res) w"

section \<open>What a signer of the output says\<close>

text \<open>A token over this signature, from a TSA the trust set vouches for, under an accepted policy.\<close>

definition genuine_token :: "'c service \<Rightarrow> trusted_cert list \<Rightarrow> cms_signer \<Rightarrow> cms_timestamp \<Rightarrow> bool" where
  "genuine_token s trusted si t \<longleftrightarrow>
     cs_Timestamp si = Some t \<and> ct_tsHash t \<noteq> [] \<and> cs_Signature si \<noteq> [] \<and>
     digestFor s (ct_tsHashAlgorithmOID t) (cs_Signature si) = Inr (ct_tsHash t) \<and>
     ct_tsRaw t \<noteq> [] \<and>
     (\<exists>res. pv_VerifyCMS (sv_prov s) (token_request (ct_tsRaw t) trusted) = (res, None) \<and> dv_Valid res) \<and>
     (sv_tsaPolicies s = [] \<or> ct_tsPolicy t \<in> set (sv_tsaPolicies s))"

lemma imprint_iff:
  "cs_Timestamp si = Some t \<Longrightarrow> fst (verifyTimestampImprint s si) = Some True \<longleftrightarrow>
     ct_tsHash t \<noteq> [] \<and> cs_Signature si \<noteq> [] \<and>
     digestFor s (ct_tsHashAlgorithmOID t) (cs_Signature si) = Inr (ct_tsHash t)"
  by (auto simp: verifyTimestampImprint_def split: sum.splits)

lemma token_signature_iff:
  "fst (verifyTimestampSignature s ctx (Some t) trusted) = Some True \<longleftrightarrow>
     ct_tsRaw t \<noteq> [] \<and>
     (\<exists>res. pv_VerifyCMS (sv_prov s) (token_request (ct_tsRaw t) trusted) = (res, None) \<and> dv_Valid res)"
  by (auto simp: verifyTimestampSignature_def split: prod.splits option.splits)

lemma policy_refused_iff:
  "fst (snd (checkTimestampPolicy ps p)) = Some False \<longleftrightarrow> ps \<noteq> [] \<and> p \<notin> set ps"
  by (auto simp: checkTimestampPolicy_def Let_def)

lemma stamp_signer_level:
  assumes "sg_CAdESLevel sig = ''BES''"
  shows "sg_CAdESLevel (fst (stamp_signer s ctx trusted i si sig w)) = ''T'' \<longleftrightarrow>
    (\<exists>t. genuine_token s trusted si t)"
proof (cases "cs_Timestamp si")
  case (Some t)
  show ?thesis
    using assms imprint_iff [OF Some, of s] token_signature_iff [of s ctx t trusted]
      policy_refused_iff [of "sv_tsaPolicies s" "ct_tsPolicy t"] Some
    by (auto simp: stamp_signer_def Let_def genuine_token_def split: prod.splits)
qed (simp add: stamp_signer_def genuine_token_def assms)

lemma fill_signer_keeps [simp]:
  "sg_Certificate (fill_signer res i sig) = sg_Certificate sig"
  "sg_Chain (fill_signer res i sig) = sg_Chain sig"
  "sg_Valid (fill_signer res i sig) = sg_Valid sig"
  "sg_TrustAnchorFound (fill_signer res i sig) = sg_TrustAnchorFound sig"
  "sg_ChainSignaturesVerified (fill_signer res i sig) = sg_ChainSignaturesVerified sig"
  "sg_Revocation (fill_signer res i sig) = sg_Revocation sig"
  "sg_CAdESLevel (fill_signer res i sig) = sg_CAdESLevel sig"
  by (simp_all add: fill_signer_def Let_def)

lemma stamp_signer_keeps [simp]:
  "sg_Certificate (fst (stamp_signer s ctx trusted i si sig w)) = sg_Certificate sig"
  "sg_Chain (fst (stamp_signer s ctx trusted i si sig w)) = sg_Chain sig"
  "sg_Valid (fst (stamp_signer s ctx trusted i si sig w)) = sg_Valid sig"
  "sg_TrustAnchorFound (fst (stamp_signer s ctx trusted i si sig w)) = sg_TrustAnchorFound sig"
  "sg_ChainSignaturesVerified (fst (stamp_signer s ctx trusted i si sig w)) = sg_ChainSignaturesVerified sig"
  "sg_Revocation (fst (stamp_signer s ctx trusted i si sig w)) = sg_Revocation sig"
  "sg_Claims (fst (stamp_signer s ctx trusted i si sig w)) = sg_Claims sig"
  by (simp_all add: stamp_signer_def Let_def split: option.splits prod.splits)

text \<open>What every signer of the list satisfies, given the certificate it was built from.\<close>

definition signer_spec :: "'c service \<Rightarrow> driver_verify_result \<Rightarrow> (string, cms_signer) gomap \<Rightarrow> trusted_cert list \<Rightarrow>
    bytes \<Rightarrow> signer \<Rightarrow> bool" where
  "signer_spec s res bySerial trusted pemCert sg \<longleftrightarrow>
     sg_Valid sg = dv_Valid res \<and> sg_Revocation sg = None \<and>
     (let (chain, complete, anchored) = buildChain (sv_golib s) (sg_Certificate sg)
            (toDER (sv_golib s) pemCert EncodingPEM) trusted (sv_fetcher s)
      in sg_Chain sg = chain \<and> sg_TrustAnchorFound sg = anchored \<and>
         (if sv_verifyChain s then cryptoVerifyChain s pemCert chain else Returns False) =
           Returns (sg_ChainSignaturesVerified sg)) \<and>
     (sg_CAdESLevel sg = ''T'' \<longleftrightarrow> (\<exists>si t. map_of bySerial (normHex (ct_SerialNumber (sg_Certificate sg))) = Some si \<and>
        genuine_token s trusted si t))"

lemma build_signer_spec:
  assumes "build_signer s ctx res bySerial trusted i pemCert w = Returns (sg, w')"
  shows "signer_spec s res bySerial trusted pemCert sg \<and> sg_Certificate sg = fst (signer_certificate s pemCert w)"
proof -
  obtain cert w1 where c: "signer_certificate s pemCert w = (cert, w1)" by fastforce
  obtain chain complete anchored where
    b: "buildChain (sv_golib s) cert (toDER (sv_golib s) pemCert EncodingPEM) trusted (sv_fetcher s) =
      (chain, complete, anchored)" by (metis prod_cases3)
  obtain ok where ok: "(if sv_verifyChain s then cryptoVerifyChain s pemCert chain else Returns False) = Returns ok"
    using assms c b by (auto simp: build_signer_def Let_def split: go.splits if_splits)
  define sig where "sig = \<lparr>sg_Certificate = cert, sg_Chain = chain, sg_Valid = dv_Valid res, sg_SigningTime = None,
                 sg_SignatureAlgorithm = [], sg_Timestamp = None, sg_ChainComplete = complete,
                 sg_TrustAnchorFound = anchored, sg_ChainSignaturesVerified = ok, sg_CAdESLevel = ''BES'',
                 sg_VerifyInfo = dv_Info res, sg_Claims = None, sg_Revocation = None\<rparr>"
  define st where "st = fst (case map_of bySerial (normHex (ct_SerialNumber cert)) of
      Some si \<Rightarrow> stamp_signer s ctx trusted i si sig w1 | None \<Rightarrow> (sig, w1))"
  have st: "sg_Certificate st = cert" "sg_Chain st = chain" "sg_Valid st = dv_Valid res"
      "sg_TrustAnchorFound st = anchored" "sg_ChainSignaturesVerified st = ok" "sg_Revocation st = None"
    by (simp_all add: st_def sig_def split: option.splits)
  have level: "sg_CAdESLevel st = ''T'' \<longleftrightarrow>
      (\<exists>si t. map_of bySerial (normHex (ct_SerialNumber cert)) = Some si \<and> genuine_token s trusted si t)"
    by (auto simp: st_def stamp_signer_level sig_def split: option.splits)
  have "sg = fill_signer res i st"
    unfolding st_def sig_def using assms by (auto simp: build_signer_def Let_def c b ok split: prod.splits)
  then show ?thesis using st level b ok c by (simp add: signer_spec_def)
qed

lemma build_loop_spec:
  "build_loop s ctx res bySerial trusted i pems w = Returns (sgs, w') \<Longrightarrow>
   list_all2 (signer_spec s res bySerial trusted) pems sgs"
proof (induction pems arbitrary: i w sgs)
  case (Cons p pems)
  then show ?case
    by (auto simp: build_signer_spec split: go.splits prod.splits)
qed simp

lemma buildSigners_spec:
  "buildSigners s ctx res format signature trusted w = Returns (sgs, w') \<Longrightarrow>
   list_all2 (signer_spec s res (cmsSignersBySerial (sv_golib s) (sv_cms s) format signature) trusted)
     (dv_Signers res) sgs"
  unfolding buildSigners_def by (rule build_loop_spec)

lemma buildSigners_mem:
  assumes "buildSigners s ctx res format signature trusted w = Returns (sgs, w')" and "sg \<in> set sgs"
  obtains pem where "pem \<in> set (dv_Signers res)"
    "signer_spec s res (cmsSignersBySerial (sv_golib s) (sv_cms s) format signature) trusted pem sg"
proof -
  from assms(2) obtain i where i: "i < length sgs" "sg = sgs ! i" by (auto simp: in_set_conv_nth)
  from list_all2_nthD2 [OF buildSigners_spec [OF assms(1)] i(1)] i list_all2_lengthD [OF buildSigners_spec [OF assms(1)]]
  show thesis by (intro that [of "dv_Signers res ! i"]) auto
qed

lemma build_signer_returns:
  assumes "\<not> sv_verifyChain s"
  shows "\<exists>sg w'. build_signer s ctx res bySerial trusted i pemCert w = Returns (sg, w')"
  using assms by (simp add: build_signer_def Let_def split: prod.splits)

section \<open>Properties\<close>

text \<open>
  Claim C3: CAdES-T is claimed exactly for a genuine timestamp over this signature. Every signer
  the driver returned appears, in order, with the driver's verdict; its level is T if and only if
  the container holds, under the certificate's serial number, a signer with a token whose imprint
  equals the digest of that signer's signature value, whose TSA signature the driver verified
  against the trust set, and whose policy the operator's allow-list (if any) contains.
\<close>

theorem cades_t_iff:
  assumes "buildSigners s ctx res format signature trusted w = Returns (sgs, w')"
  shows "length sgs = length (dv_Signers res) \<and>
    (\<forall>sg \<in> set sgs. sg_Valid sg = dv_Valid res \<and>
      (sg_CAdESLevel sg = ''T'' \<longleftrightarrow>
        (\<exists>si t. map_of (cmsSignersBySerial (sv_golib s) (sv_cms s) format signature)
                (normHex (ct_SerialNumber (sg_Certificate sg))) = Some si \<and> genuine_token s trusted si t)))"
proof (intro conjI ballI)
  show "length sgs = length (dv_Signers res)" using list_all2_lengthD [OF buildSigners_spec [OF assms]] by simp
next
  fix sg assume "sg \<in> set sgs"
  with assms show "sg_Valid sg = dv_Valid res" by (rule buildSigners_mem) (simp add: signer_spec_def)
next
  fix sg assume "sg \<in> set sgs"
  with assms show "sg_CAdESLevel sg = ''T'' \<longleftrightarrow>
        (\<exists>si t. map_of (cmsSignersBySerial (sv_golib s) (sv_cms s) format signature)
                (normHex (ct_SerialNumber (sg_Certificate sg))) = Some si \<and> genuine_token s trusted si t)"
    by (rule buildSigners_mem) (simp add: signer_spec_def)
qed

definition token_signer :: cms_signer where
  "token_signer = \<lparr>cs_SerialNumberHex = ''00'', cs_SubjectKeyIDHex = [], cs_SignatureAlgorithmOID = [],
     cs_DigestAlgorithmOID = [], cs_SigningTime = None,
     cs_Timestamp = Some \<lparr>ct_tsPolicy = ''1.2.398.3.3.2.6.4'', ct_tsSerialNumberHex = ''1'', ct_tsGenTime = Some 7,
       ct_tsHashAlgorithmOID = DigestSHA256, ct_tsHash = ''sig'', ct_tsTSA = [], ct_tsRaw = ''token''\<rparr>,
     cs_Signature = ''sig''\<rparr>"

definition verifying_driver :: "bytes list \<Rightarrow> validate_result \<Rightarrow> driver" where
  "verifying_driver certs answer = (idle_driver (answer, None))\<lparr>
     pv_VerifyCMS := (\<lambda>_. (\<lparr>dv_Valid = True, dv_Info = [], dv_Content = ''text'', dv_SignerCert = [], dv_Signers = certs,
        dv_Timestamp = zero_time, dv_RawCode = 0\<rparr>, None)),
     pv_CertProperties := (\<lambda>_ _. ([], Some (Sentinel ErrCertParse)))\<rparr>"

definition stamped_service :: "unit service" where
  "stamped_service = (demo_service (verifying_driver [''LR''] (status_answer CertGood)) None)\<lparr>
     sv_cms := demo_cms\<lparr>cm_ParseSigners := (\<lambda>_. Some [token_signer])\<rparr>\<rparr>"

definition stamped_result :: driver_verify_result where
  "stamped_result = fst (pv_VerifyCMS (sv_prov stamped_service) (token_request [] []))"

lemmas stamped_defs = stamped_service_def stamped_result_def verifying_driver_def demo_service_def demo_cms_def
  idle_driver_def token_signer_def status_answer_def

theorem cades_t_iff_witness:
  "case buildSigners stamped_service plain_lang stamped_result FormatCMS ''cms'' [] [] of
     Returns (sgs, w) \<Rightarrow> length sgs = 1 \<and> (\<forall>sg \<in> set sgs. sg_CAdESLevel sg = ''T'')"
proof -
  let ?m = "cmsSignersBySerial (sv_golib stamped_service) (sv_cms stamped_service) FormatCMS ''cms''"
  have m: "map_of ?m ''0'' = Some token_signer"
    by (simp add: stamped_defs cmsSignersBySerial_def index_signer_def normHex_def ToUpper_def to_upper_def
        TrimSpace_def is_space_def byte_of_def kv_put_def)
  have g: "genuine_token stamped_service [] token_signer (the (cs_Timestamp token_signer))"
    by (simp add: genuine_token_def stamped_defs digestFor_def)
  obtain sg w where b: "buildSigners stamped_service plain_lang stamped_result FormatCMS ''cms'' [] [] = Returns ([sg], w)"
      and c: "ct_SerialNumber (sg_Certificate sg) = []"
  proof -
    have "\<not> sv_verifyChain stamped_service" by (simp add: stamped_defs)
    then obtain sg w where sg: "build_signer stamped_service plain_lang stamped_result ?m [] 0 ''LR'' [] = Returns (sg, w)"
      using build_signer_returns by blast
    moreover have "dv_Signers stamped_result = [''LR'']" by (simp add: stamped_defs)
    ultimately have "buildSigners stamped_service plain_lang stamped_result FormatCMS ''cms'' [] [] = Returns ([sg], w)"
      by (simp add: buildSigners_def)
    moreover have "ct_SerialNumber (sg_Certificate sg) = []"
      using build_signer_spec [OF sg] by (simp add: signer_certificate_def stamped_defs no_certificate_def)
    ultimately show thesis by (rule that)
  qed
  have "normHex [] = ''0''" by (simp add: normHex_def ToUpper_def)
  with cades_t_iff [OF b] b c m g show ?thesis by auto
qed

end
