(* ===== verification/Audit_Log.thy ===== *)
theory Audit_Log
  imports Json
begin

text \<open>
  The audit journal (internal/audit/log.go, internal/audit/adapter.go): an append-only file of
  entries, each carrying the hash of the one before it and, when a signer is configured, a
  signature over its sequence number and hash. The digest (hexadecimal \<^verbatim>\<open>sha256\<close>), the
  rendering of a time and the signer are arguments. The journal file is the list of its lines;
  an entry line holds the entry as it reads back after its JSON encoding.
\<close>

section \<open>Entries\<close>

record entry =
  ae_Seq :: "64 word"
  ae_At :: time
  ae_Op :: string
  ae_Actor :: string
  ae_Subject :: string
  ae_Signer :: string
  ae_Outcome :: string
  ae_Detail :: string
  ae_PrevHash :: string
  ae_Hash :: string
  ae_Signature :: string

record event =
  ev_Op :: string
  ev_Actor :: string
  ev_Subject :: string
  ev_Signer :: string
  ev_Outcome :: string
  ev_Detail :: string

record seal =
  sl_Seq :: "64 word"
  sl_Hash :: string

definition genesisHash :: string where
  "genesisHash = ''genesis''"

text \<open>The primitives the journal is built over.\<close>

record digest =
  dg_sha :: "string \<Rightarrow> string"
  dg_time :: "time \<Rightarrow> string"

abbreviation nl :: char where "nl \<equiv> CHR 0x0A"

definition hash_text :: "digest \<Rightarrow> entry \<Rightarrow> string" where
  "hash_text D e = decimal (unat (ae_Seq e)) @ nl # dg_time D (ae_At e) @ nl # ae_Op e @ nl #
     ae_Actor e @ nl # ae_Subject e @ nl # ae_Signer e @ nl # ae_Outcome e @ nl #
     ae_Detail e @ nl # ae_PrevHash e @ [nl]"

definition hashOf :: "digest \<Rightarrow> entry \<Rightarrow> string" where
  "hashOf D e = dg_sha D (hash_text D e)"

section \<open>The JSON encoding of an entry\<close>

definition json_entry :: "entry \<Rightarrow> entry" where
  "json_entry e = e\<lparr>ae_Op := json_string (ae_Op e), ae_Actor := json_string (ae_Actor e),
     ae_Subject := json_string (ae_Subject e), ae_Signer := json_string (ae_Signer e),
     ae_Outcome := json_string (ae_Outcome e), ae_Detail := json_string (ae_Detail e),
     ae_PrevHash := json_string (ae_PrevHash e), ae_Hash := json_string (ae_Hash e),
     ae_Signature := json_string (ae_Signature e)\<rparr>"

section \<open>The journal\<close>

text \<open>
  A line of the file: blank, an entry, something that is not an entry (with the decoder's
  message), or the point where the scanner gives up (a read error or a line over its limit).
\<close>

datatype jline = LBlank | LEntry entry | LBad string | LReadErr string

text \<open>
  The open journal. \<open>lg_werr\<close> is the sticky error of the buffered writer: once a write or a flush
  has failed, every later one fails too.
\<close>

record log =
  lg_lines :: "jline list"
  lg_werr :: bool
  lg_seq :: "64 word"
  lg_prevHash :: string
  lg_sync :: bool

text \<open>
  How the operating system answers one append: it takes the line, or it fails after a part of
  it (an unreadable rest of a line, or nothing), or it takes the line and fails to sync it.
\<close>

datatype disk = DiskOK | DiskFail "jline list" | SyncFail

datatype append_error = SignFailed | WriteFailed | SyncFailed

definition sealed_entry :: "digest \<Rightarrow> log \<Rightarrow> event \<Rightarrow> time \<Rightarrow> entry" where
  "sealed_entry D l ev now =
     (let e = \<lparr>ae_Seq = lg_seq l + 1, ae_At = now, ae_Op = ev_Op ev, ae_Actor = ev_Actor ev,
               ae_Subject = ev_Subject ev, ae_Signer = ev_Signer ev, ae_Outcome = ev_Outcome ev,
               ae_Detail = ev_Detail ev, ae_PrevHash = lg_prevHash l, ae_Hash = [], ae_Signature = []\<rparr>
      in e\<lparr>ae_Hash := hashOf D e\<rparr>)"

definition sign_entry :: "(seal \<Rightarrow> string option) option \<Rightarrow> entry \<Rightarrow> entry option" where
  "sign_entry signer e =
     (case signer of
        None \<Rightarrow> Some e
      | Some sign \<Rightarrow> map_option (\<lambda>sig. e\<lparr>ae_Signature := sig\<rparr>) (sign \<lparr>sl_Seq = ae_Seq e, sl_Hash = ae_Hash e\<rparr>))"

definition Append :: "digest \<Rightarrow> (seal \<Rightarrow> string option) option \<Rightarrow> log \<Rightarrow> event \<Rightarrow> time \<Rightarrow> disk \<Rightarrow>
    (append_error + entry) \<times> log" where
  "Append D signer l ev now d =
     (case sign_entry signer (sealed_entry D l ev now) of
        None \<Rightarrow> (Inl SignFailed, l)
      | Some e \<Rightarrow>
          if lg_werr l then (Inl WriteFailed, l)
          else case d of
            DiskFail part \<Rightarrow> (Inl WriteFailed, l\<lparr>lg_lines := lg_lines l @ part, lg_werr := True\<rparr>)
          | _ \<Rightarrow>
              (let l' = l\<lparr>lg_lines := lg_lines l @ [LEntry (json_entry e)]\<rparr>
               in if lg_sync l \<and> d = SyncFail then (Inl SyncFailed, l')
                  else (Inr e, l'\<lparr>lg_seq := ae_Seq e, lg_prevHash := ae_Hash e\<rparr>)))"

definition Head :: "log \<Rightarrow> 64 word \<times> string" where
  "Head l = (lg_seq l, lg_prevHash l)"

record audit_event =
  au_Op :: string
  au_Subject :: string
  au_Signer :: string
  au_Outcome :: string
  au_Detail :: string

definition Record :: "digest \<Rightarrow> (seal \<Rightarrow> string option) option \<Rightarrow> log \<Rightarrow> audit_event \<Rightarrow> time \<Rightarrow> disk \<Rightarrow> log" where
  "Record D signer l ev now d =
     snd (Append D signer l \<lparr>ev_Op = au_Op ev, ev_Actor = [], ev_Subject = au_Subject ev,
       ev_Signer = au_Signer ev, ev_Outcome = au_Outcome ev, ev_Detail = au_Detail ev\<rparr> now d)"

section \<open>Checking and resuming\<close>

record verify_result =
  vr_Entries :: "64 word"
  vr_BrokenAt :: "64 word"
  vr_Reason :: string
  vr_Head :: string
  vr_Intact :: bool

definition broken :: "verify_result \<Rightarrow> 64 word \<Rightarrow> string \<Rightarrow> verify_result" where
  "broken res at reason = res\<lparr>vr_Intact := False, vr_BrokenAt := at, vr_Reason := reason\<rparr>"

fun verify_loop :: "digest \<Rightarrow> (entry \<Rightarrow> string option) option \<Rightarrow> verify_result \<Rightarrow> string \<Rightarrow> 64 word \<Rightarrow>
    jline list \<Rightarrow> verify_result" where
  "verify_loop D vs res prev expected [] = res\<lparr>vr_Head := prev\<rparr>"
| "verify_loop D vs res prev expected (LBlank # ls) = verify_loop D vs res prev expected ls"
| "verify_loop D vs res prev expected (LReadErr m # ls) = broken res expected (''read: '' @ m)"
| "verify_loop D vs res prev expected (LBad m # ls) = broken res expected (''entry is not valid JSON: '' @ m)"
| "verify_loop D vs res prev expected (LEntry e # ls) =
     (if ae_Seq e \<noteq> expected then
        broken res expected (''sequence jumped to '' @ decimal (unat (ae_Seq e)) @
          '' (an entry was removed or reordered)'')
      else if ae_PrevHash e \<noteq> prev then
        broken res (ae_Seq e) ''previous hash does not match the entry before it''
      else if ae_Hash e \<noteq> hashOf D e then
        broken res (ae_Seq e) ''entry content does not match its hash (it was edited)''
      else case (case vs of None \<Rightarrow> None | Some v \<Rightarrow> v e) of
             Some m \<Rightarrow> broken res (ae_Seq e) (''signature check failed: '' @ m)
           | None \<Rightarrow> verify_loop D vs (res\<lparr>vr_Entries := vr_Entries res + 1\<rparr>) (ae_Hash e) (expected + 1) ls)"

definition audit_Verify :: "digest \<Rightarrow> (entry \<Rightarrow> string option) option \<Rightarrow> jline list \<Rightarrow> verify_result" where
  "audit_Verify D vs ls =
     verify_loop D vs \<lparr>vr_Entries = 0, vr_BrokenAt = 0, vr_Reason = [], vr_Head = [], vr_Intact = True\<rparr>
       genesisHash 1 ls"

datatype tail_error = UnreadableEntry string | ReadFailed string | OpenFailed

fun tail_loop :: "entry option \<Rightarrow> jline list \<Rightarrow> tail_error + entry option" where
  "tail_loop lst [] = Inr lst"
| "tail_loop lst (LBlank # ls) = tail_loop lst ls"
| "tail_loop lst (LReadErr m # ls) = Inl (ReadFailed m)"
| "tail_loop lst (LBad m # ls) = Inl (UnreadableEntry m)"
| "tail_loop lst (LEntry e # ls) = tail_loop (Some e) ls"

text \<open>\<open>None\<close> is a missing file; a file that cannot be opened is the error case of \<^verbatim>\<open>os.Open\<close>.\<close>

datatype journal_file = Missing | Unopenable string | Lines "jline list"

definition tail :: "journal_file \<Rightarrow> tail_error + 64 word \<times> string" where
  "tail f =
     (case f of
        Missing \<Rightarrow> Inr (0, genesisHash)
      | Unopenable m \<Rightarrow> Inl (ReadFailed m)
      | Lines ls \<Rightarrow>
          (case tail_loop None ls of
             Inl e \<Rightarrow> Inl e
           | Inr None \<Rightarrow> Inr (0, genesisHash)
           | Inr (Some e) \<Rightarrow> Inr (ae_Seq e, ae_Hash e)))"

definition audit_Open :: "journal_file \<Rightarrow> bool \<Rightarrow> bool \<Rightarrow> tail_error + log" where
  "audit_Open f writable sync =
     (case tail f of
        Inl e \<Rightarrow> Inl e
      | Inr (sq, prev) \<Rightarrow>
          if \<not> writable then Inl OpenFailed
          else Inr \<lparr>lg_lines = (case f of Lines ls \<Rightarrow> ls | _ \<Rightarrow> []), lg_werr = False, lg_seq = sq,
                   lg_prevHash = prev, lg_sync = sync\<rparr>)"

section \<open>Library\<close>

definition intact_result :: "64 word \<Rightarrow> string \<Rightarrow> verify_result" where
  "intact_result n h = \<lparr>vr_Entries = n, vr_BrokenAt = 0, vr_Reason = [], vr_Head = h, vr_Intact = True\<rparr>"

definition accepts :: "digest \<Rightarrow> (entry \<Rightarrow> string option) option \<Rightarrow> 64 word \<Rightarrow> string \<Rightarrow> entry \<Rightarrow> bool" where
  "accepts D vs expected prev e \<longleftrightarrow> ae_Seq e = expected \<and> ae_PrevHash e = prev \<and> ae_Hash e = hashOf D e \<and>
     (case vs of None \<Rightarrow> True | Some v \<Rightarrow> v e = None)"

lemma broken_not_intact [simp]: "\<not> vr_Intact (broken res at m)"
  by (simp add: broken_def)

lemma verify_loop_entry:
  "accepts D vs expected prev e \<Longrightarrow> verify_loop D vs res prev expected (LEntry e # ls) =
     verify_loop D vs (res\<lparr>vr_Entries := vr_Entries res + 1\<rparr>) (ae_Hash e) (expected + 1) ls"
  by (simp add: accepts_def split: option.splits)

lemma verify_loop_rejects:
  "\<not> accepts D vs expected prev e \<Longrightarrow> \<not> vr_Intact (verify_loop D vs res prev expected (LEntry e # ls))"
  by (auto simp: accepts_def split: option.splits)

declare verify_loop.simps(5) [simp del]

text \<open>Checking is incremental: a file that checked so far continues from its head.\<close>

lemma verify_loop_append:
  "vr_Intact (verify_loop D vs res prev expected ls) \<Longrightarrow>
   \<exists>n. verify_loop D vs res prev expected (ls @ ls') =
      verify_loop D vs (res\<lparr>vr_Entries := vr_Entries res + n\<rparr>)
        (vr_Head (verify_loop D vs res prev expected ls)) (expected + n) ls' \<and>
     vr_Entries (verify_loop D vs res prev expected ls) = vr_Entries res + n"
proof (induction D vs res prev expected ls rule: verify_loop.induct)
  case (1 D vs res prev expected)
  show ?case by (rule exI [of _ 0]) simp
next
  case (5 D vs res prev expected e ls)
  then have acc: "accepts D vs expected prev e" using verify_loop_rejects by blast
  note step = verify_loop_entry [OF acc]
  have "verify_loop D vs (res\<lparr>vr_Entries := vr_Entries res + 1\<rparr>) (ae_Hash e) (expected + 1) ls =
      verify_loop D vs res prev expected (LEntry e # ls)" by (simp only: step)
  then have "vr_Intact (verify_loop D vs (res\<lparr>vr_Entries := vr_Entries res + 1\<rparr>) (ae_Hash e) (expected + 1) ls)"
    using "5.prems" by simp
  moreover have "ae_Seq e = expected" "ae_PrevHash e = prev" "ae_Hash e = hashOf D e"
    "(case vs of None \<Rightarrow> None | Some v \<Rightarrow> v e) = None"
    using acc by (auto simp: accepts_def split: option.splits)
  ultimately obtain n where
    n: "verify_loop D vs (res\<lparr>vr_Entries := vr_Entries res + 1\<rparr>) (ae_Hash e) (expected + 1) (ls @ ls') =
      verify_loop D vs (res\<lparr>vr_Entries := vr_Entries res + 1 + n\<rparr>)
        (vr_Head (verify_loop D vs (res\<lparr>vr_Entries := vr_Entries res + 1\<rparr>) (ae_Hash e) (expected + 1) ls))
        (expected + 1 + n) ls'"
      "vr_Entries (verify_loop D vs (res\<lparr>vr_Entries := vr_Entries res + 1\<rparr>) (ae_Hash e) (expected + 1) ls) =
        vr_Entries res + 1 + n"
    using "5.IH" by auto
  show ?case
    using n by (intro exI [of _ "1 + n"]) (simp add: step ac_simps)
qed simp_all

lemma tail_loop_append:
  "tail_loop lst ls = Inr r \<Longrightarrow> tail_loop lst (ls @ ls') = tail_loop r ls'"
  by (induction lst ls rule: tail_loop.induct) auto

text \<open>A journal whose file checks, and whose memory agrees with its file.\<close>

definition log_ok :: "digest \<Rightarrow> (entry \<Rightarrow> string option) option \<Rightarrow> log \<Rightarrow> bool" where
  "log_ok D vs l \<longleftrightarrow> audit_Verify D vs (lg_lines l) = intact_result (lg_seq l) (lg_prevHash l) \<and>
     tail (Lines (lg_lines l)) = Inr (lg_seq l, lg_prevHash l) \<and> \<not> lg_werr l \<and>
     json_string (lg_prevHash l) = lg_prevHash l"

text \<open>What the JSON encoding and the checker must do with the digests and signatures.\<close>

definition digest_clean :: "digest \<Rightarrow> bool" where
  "digest_clean D \<longleftrightarrow> (\<forall>s. json_string (dg_sha D s) = dg_sha D s)"

definition signer_checked :: "(seal \<Rightarrow> string option) option \<Rightarrow> (entry \<Rightarrow> string option) option \<Rightarrow> bool" where
  "signer_checked signer vs \<longleftrightarrow>
     (case signer of
        None \<Rightarrow> vs = None
      | Some sign \<Rightarrow> (\<forall>sl sig. sign sl = Some sig \<longrightarrow> json_string sig = sig \<and>
          (case vs of None \<Rightarrow> True
           | Some v \<Rightarrow> (\<forall>e. ae_Seq e = sl_Seq sl \<and> ae_Hash e = sl_Hash sl \<and> ae_Signature e = sig \<longrightarrow> v e = None))))"

definition clean_event :: "event \<Rightarrow> bool" where
  "clean_event ev \<longleftrightarrow> (\<forall>t \<in> {ev_Op ev, ev_Actor ev, ev_Subject ev, ev_Signer ev, ev_Outcome ev, ev_Detail ev}.
     json_string t = t)"

lemma json_string_genesis: "json_string genesisHash = genesisHash"
  by (simp add: genesisHash_def utf8_len_def byte_in_def byte_of_def)

lemma hashOf_signature [simp]: "hashOf D (e\<lparr>ae_Signature := x\<rparr>) = hashOf D e"
  "hashOf D (e\<lparr>ae_Hash := x\<rparr>) = hashOf D e"
  by (simp_all add: hashOf_def hash_text_def)

lemma sealed_accepts:
  assumes "sign_entry signer (sealed_entry D l ev now) = Some e" and "signer_checked signer vs"
    and "clean_event ev" and "digest_clean D" and "json_string (lg_prevHash l) = lg_prevHash l"
  shows "json_entry e = e \<and> accepts D vs (lg_seq l + 1) (lg_prevHash l) e \<and>
    json_string (ae_Hash e) = ae_Hash e \<and> ae_Seq e = lg_seq l + 1"
proof -
  let ?e = "sealed_entry D l ev now"
  have hash: "ae_Hash ?e = hashOf D ?e"
    by (simp add: sealed_entry_def hashOf_def hash_text_def Let_def)
  have "json_string (ae_Hash ?e) = ae_Hash ?e"
    using assms(4) by (simp add: hash hashOf_def digest_clean_def)
  moreover have "ae_Seq ?e = lg_seq l + 1" "ae_PrevHash ?e = lg_prevHash l" "ae_Signature ?e = []"
    by (simp_all add: sealed_entry_def Let_def)
  moreover have "json_string t = t"
    if "t \<in> {ae_Op ?e, ae_Actor ?e, ae_Subject ?e, ae_Signer ?e, ae_Outcome ?e, ae_Detail ?e}" for t
    using assms(3) that by (auto simp: sealed_entry_def Let_def clean_event_def)
  ultimately show ?thesis
    using assms(1,2,5) hash
    by (cases signer; cases vs)
      (auto simp: sign_entry_def accepts_def json_entry_def signer_checked_def)
qed

lemma log_ok_append_entry:
  assumes "log_ok D vs l" and "accepts D vs (lg_seq l + 1) (lg_prevHash l) e"
    and "json_string (ae_Hash e) = ae_Hash e"
  shows "log_ok D vs (l\<lparr>lg_lines := lg_lines l @ [LEntry e], lg_seq := ae_Seq e, lg_prevHash := ae_Hash e\<rparr>)"
proof -
  have seq: "ae_Seq e = lg_seq l + 1" using assms(2) by (simp add: accepts_def)
  let ?res = "\<lparr>vr_Entries = 0, vr_BrokenAt = 0, vr_Reason = [], vr_Head = [], vr_Intact = True\<rparr>"
  have ver: "verify_loop D vs ?res genesisHash 1 (lg_lines l) = intact_result (lg_seq l) (lg_prevHash l)"
    using assms(1) by (simp add: log_ok_def audit_Verify_def)
  from verify_loop_append [of D vs ?res genesisHash 1 "lg_lines l" "[LEntry e]"] ver
  have "verify_loop D vs ?res genesisHash 1 (lg_lines l @ [LEntry e]) =
      verify_loop D vs (?res\<lparr>vr_Entries := lg_seq l\<rparr>) (lg_prevHash l) (lg_seq l + 1) [LEntry e]"
    by (auto simp: intact_result_def add.commute)
  also have "\<dots> = intact_result (lg_seq l + 1) (ae_Hash e)"
    using assms(2) by (simp add: verify_loop_entry intact_result_def)
  finally have "audit_Verify D vs (lg_lines l @ [LEntry e]) = intact_result (ae_Seq e) (ae_Hash e)"
    by (simp add: audit_Verify_def seq)
  moreover have "tail (Lines (lg_lines l @ [LEntry e])) = Inr (ae_Seq e, ae_Hash e)"
    using assms(1) by (auto simp: log_ok_def tail_def tail_loop_append split: sum.splits option.splits)
  ultimately show ?thesis using assms(1,3) by (simp add: log_ok_def)
qed

lemma Append_log_ok:
  assumes "log_ok D vs l" and "signer_checked signer vs" and "clean_event ev" and "digest_clean D"
  shows "log_ok D vs (snd (Append D signer l ev now DiskOK)) \<and>
    lg_sync (snd (Append D signer l ev now DiskOK)) = lg_sync l"
proof (cases "sign_entry signer (sealed_entry D l ev now)")
  case None
  with assms(1) show ?thesis by (simp add: Append_def)
next
  case (Some e)
  have "json_string (lg_prevHash l) = lg_prevHash l" "\<not> lg_werr l" using assms(1) by (simp_all add: log_ok_def)
  from sealed_accepts [OF Some assms(2-4) this(1)] log_ok_append_entry [OF assms(1), of e] this(2) Some
  show ?thesis by (simp add: Append_def Let_def)
qed

lemma log_ok_open: "audit_Open Missing True sync = Inr l \<Longrightarrow> log_ok D vs l \<and> lg_sync l = sync"
  by (auto simp: audit_Open_def tail_def log_ok_def audit_Verify_def intact_result_def json_string_genesis)

lemma log_ok_reopen: "log_ok D vs l \<Longrightarrow> audit_Open (Lines (lg_lines l)) True (lg_sync l) = Inr l"
  by (simp add: log_ok_def audit_Open_def)

lemma appends_log_ok:
  assumes "signer_checked signer vs" and "digest_clean D" and "\<forall>(ev, now) \<in> set evs. clean_event ev"
  shows "log_ok D vs l \<Longrightarrow> log_ok D vs (fold (\<lambda>(ev, now) l. snd (Append D signer l ev now DiskOK)) evs l) \<and>
    lg_sync (fold (\<lambda>(ev, now) l. snd (Append D signer l ev now DiskOK)) evs l) = lg_sync l"
  using assms(3)
proof (induction evs arbitrary: l)
  case (Cons a evs)
  obtain ev now where a: "a = (ev, now)" by (cases a)
  with Cons.prems have "clean_event ev" by simp
  from Append_log_ok [OF Cons.prems(1) assms(1) this assms(2), of now] Cons a show ?case by simp
qed simp

subsection \<open>A concrete journal\<close>

text \<open>A concrete digest for the witnesses: the hexadecimal text of its argument.\<close>

definition demo_digest :: digest where
  "demo_digest = \<lparr>dg_sha = (\<lambda>s. concat (map hexpair s)),
     dg_time = (\<lambda>t. if t < 0 then CHR ''-'' # replicate (nat (- t)) CHR ''i'' else replicate (nat t) CHR ''i'')\<rparr>"

lemma demo_sha_inj: "inj (dg_sha demo_digest)"
proof (rule injI)
  fix s t :: string
  assume "dg_sha demo_digest s = dg_sha demo_digest t"
  then show "s = t"
  proof (induction s arbitrary: t)
    case Nil
    then show ?case by (cases t) (auto simp: demo_digest_def hexpair_def)
  next
    case (Cons c s)
    then obtain d t' where "t = d # t'" by (cases t) (auto simp: demo_digest_def hexpair_def)
    with Cons show ?case using hexpair_inj [of c d] by (auto simp: demo_digest_def hexpair_def)
  qed
qed

lemma demo_time_inj: "inj (dg_time demo_digest)"
proof (rule injI)
  fix t u :: time
  assume eq: "dg_time demo_digest t = dg_time demo_digest u"
  have ne: "CHR ''-'' # xs \<noteq> replicate n CHR ''i''" for xs n by (cases n) auto
  from eq show "t = u" using ne ne [symmetric] by (auto simp: demo_digest_def split: if_splits)
qed

lemma demo_plain: "nl \<notin> set (dg_sha demo_digest s)" "nl \<notin> set (dg_time demo_digest t)"
  using hexdigit_plain by (auto simp: demo_digest_def hexpair_def)

definition demo_event :: event where
  "demo_event = \<lparr>ev_Op = ''verify'', ev_Actor = [], ev_Subject = ''d1'', ev_Signer = [],
     ev_Outcome = ''valid'', ev_Detail = []\<rparr>"

definition empty_log :: log where
  "empty_log = \<lparr>lg_lines = [], lg_werr = False, lg_seq = 0, lg_prevHash = genesisHash, lg_sync = True\<rparr>"

lemma hexdigit_ascii: "byte_of (hexdigit n) < 128"
  using hexdigit_set [of n] by (auto simp: byte_of_def)

lemma demo_clean: "digest_clean demo_digest" "clean_event demo_event" "signer_checked None None"
proof -
  have "json_string (dg_sha demo_digest s) = dg_sha demo_digest s" for s
    by (rule json_string_ascii) (auto simp: demo_digest_def hexpair_def hexdigit_ascii)
  then show "digest_clean demo_digest" by (simp add: digest_clean_def)
  show "clean_event demo_event"
    by (simp add: clean_event_def demo_event_def utf8_len_def byte_in_def byte_of_def)
qed (simp add: signer_checked_def)

section \<open>Properties\<close>



subsection \<open>Tamper evidence\<close>

definition entries_of :: "jline list \<Rightarrow> entry list" where
  "entries_of ls = concat (map (\<lambda>x. case x of LEntry e \<Rightarrow> [e] | _ \<Rightarrow> []) ls)"

lemma entries_of_simps [simp]:
  "entries_of [] = []" "entries_of (LBlank # ls) = entries_of ls"
  "entries_of (LEntry e # ls) = e # entries_of ls"
  by (simp_all add: entries_of_def)

fun linked :: "digest \<Rightarrow> string \<Rightarrow> entry list \<Rightarrow> bool" where
  "linked D prev [] = True"
| "linked D prev (e # es) = (ae_PrevHash e = prev \<and> ae_Hash e = hashOf D e \<and> linked D (ae_Hash e) es)"

definition chain_head :: "string \<Rightarrow> entry list \<Rightarrow> string" where
  "chain_head prev es = (if es = [] then prev else ae_Hash (last es))"

lemma chain_head_simps [simp]:
  "chain_head prev [] = prev" "chain_head prev (e # es) = chain_head (ae_Hash e) es"
  "chain_head prev (es @ [e]) = ae_Hash e"
  by (simp_all add: chain_head_def)

lemma linked_append:
  "linked D prev (xs @ ys) \<longleftrightarrow> linked D prev xs \<and> linked D (chain_head prev xs) ys"
  by (induction xs arbitrary: prev) auto

lemma verify_linked:
  "vr_Intact (verify_loop D vs res prev expected ls) \<Longrightarrow>
   linked D prev (entries_of ls) \<and> vr_Head (verify_loop D vs res prev expected ls) = chain_head prev (entries_of ls)"
proof (induction D vs res prev expected ls rule: verify_loop.induct)
  case (5 D vs res prev expected e ls)
  then have acc: "accepts D vs expected prev e" using verify_loop_rejects by blast
  then have "ae_Seq e = expected" "ae_PrevHash e = prev" "ae_Hash e = hashOf D e"
    "(case vs of None \<Rightarrow> None | Some v \<Rightarrow> v e) = None"
    by (auto simp: accepts_def split: option.splits)
  with 5 show ?case by (auto simp: verify_loop_entry [OF acc])
qed simp_all

lemma linked_heads_plain:
  assumes "linked D prev es" and "nl \<notin> set prev" and "\<And>s. nl \<notin> set (dg_sha D s)"
  shows "nl \<notin> set (chain_head prev es)"
  using assms by (induction es arbitrary: prev) (auto simp: hashOf_def)

lemma hash_text_prev:
  assumes "hash_text D e = hash_text D e'" and "nl \<notin> set (ae_PrevHash e)" and "nl \<notin> set (ae_PrevHash e')"
  shows "ae_PrevHash e = ae_PrevHash e'"
proof -
  let ?front = "\<lambda>e. decimal (unat (ae_Seq e)) @ nl # dg_time D (ae_At e) @ nl # ae_Op e @ nl #
     ae_Actor e @ nl # ae_Subject e @ nl # ae_Signer e @ nl # ae_Outcome e @ nl # ae_Detail e"
  have "?front e @ nl # ae_PrevHash e = ?front e' @ nl # ae_PrevHash e'"
    using assms(1) by (simp add: hash_text_def)
  from split_last [OF assms(2,3) this] show ?thesis ..
qed

lemma linked_same_head:
  assumes "inj (dg_sha D)" and "\<And>s. nl \<notin> set (dg_sha D s)" and "nl \<notin> set prev"
  shows "length xs = length ys \<Longrightarrow> linked D prev xs \<Longrightarrow> linked D prev ys \<Longrightarrow>
    chain_head prev xs = chain_head prev ys \<Longrightarrow> map (hash_text D) xs = map (hash_text D) ys"
proof (induction xs arbitrary: ys rule: rev_induct)
  case (snoc x xs)
  then obtain y ys' where ys: "ys = ys' @ [y]" by (cases ys rule: rev_cases) auto
  with snoc.prems have lx: "linked D prev xs" "ae_PrevHash x = chain_head prev xs" "ae_Hash x = hashOf D x"
    and ly: "linked D prev ys'" "ae_PrevHash y = chain_head prev ys'" "ae_Hash y = hashOf D y"
    and len: "length xs = length ys'" and same: "hashOf D x = hashOf D y"
    by (auto simp: linked_append)
  from same assms(1) have eq: "hash_text D x = hash_text D y" by (auto simp: hashOf_def dest: injD)
  have "nl \<notin> set (ae_PrevHash x)" "nl \<notin> set (ae_PrevHash y)"
    using linked_heads_plain [OF lx(1) assms(3,2)] linked_heads_plain [OF ly(1) assms(3,2)]
    by (simp_all add: lx ly)
  from hash_text_prev [OF eq this] lx(2) ly(2) have "chain_head prev xs = chain_head prev ys'" by simp
  from snoc.IH [OF len lx(1) ly(1) this] eq ys show ?case by simp
qed simp

definition plain_entry :: "entry \<Rightarrow> bool" where
  "plain_entry e \<longleftrightarrow> nl \<notin> set (ae_Op e @ ae_Actor e @ ae_Subject e @ ae_Signer e @ ae_Outcome e @ ae_Detail e)"

lemma hash_text_plain_inj:
  assumes "hash_text D e = hash_text D e'" and "plain_entry e" and "plain_entry e'"
    and "inj (dg_time D)" and "\<And>t. nl \<notin> set (dg_time D t)"
  shows "ae_Seq e = ae_Seq e' \<and> ae_At e = ae_At e' \<and> ae_Op e = ae_Op e' \<and> ae_Actor e = ae_Actor e' \<and>
    ae_Subject e = ae_Subject e' \<and> ae_Signer e = ae_Signer e' \<and> ae_Outcome e = ae_Outcome e' \<and>
    ae_Detail e = ae_Detail e' \<and> ae_PrevHash e = ae_PrevHash e'"
proof -
  have "decimal (unat (ae_Seq e)) = decimal (unat (ae_Seq e')) \<and> dg_time D (ae_At e) = dg_time D (ae_At e') \<and>
      ae_Op e = ae_Op e' \<and> ae_Actor e = ae_Actor e' \<and> ae_Subject e = ae_Subject e' \<and>
      ae_Signer e = ae_Signer e' \<and> ae_Outcome e = ae_Outcome e' \<and> ae_Detail e = ae_Detail e' \<and>
      ae_PrevHash e = ae_PrevHash e'"
    using assms(1-3,5) decimal_no_newline by (simp add: hash_text_def plain_entry_def split_first)
  then show ?thesis
    using decimal_inj [of "unat (ae_Seq e)" "unat (ae_Seq e')"] assms(4)
    by (auto simp: word_unat_eq_iff dest: injD)
qed


definition demo_journal :: "jline list" where
  "demo_journal = lg_lines (snd (Append demo_digest None empty_log demo_event 1 DiskOK))"


subsection \<open>Where the journal falls short of its promise\<close>

text \<open>
  The hashed text is ambiguous. Moving a line break from one field to the next leaves
  the hash unchanged, for every digest: an entry whose operation holds a line break can be
  rewritten into one with another operation and another actor, with the same hash, the same
  previous hash and a signature that still fits, and the checker does not notice.
\<close>

theorem audit_hash_ambiguous:
  assumes "ae_Op e = a @ nl # b" and "ae_Actor e = c"
  defines "e' \<equiv> e\<lparr>ae_Op := a, ae_Actor := b @ nl # c\<rparr>"
  shows "hashOf D e' = hashOf D e \<and> ae_Op e' \<noteq> ae_Op e \<and>
    (accepts D None sq prev e \<longrightarrow> accepts D None sq prev e')"
proof -
  have "hashOf D e' = hashOf D e" by (simp add: e'_def hashOf_def hash_text_def assms(1,2))
  moreover have "ae_Op e' \<noteq> ae_Op e" by (simp add: e'_def assms(1))
  ultimately show ?thesis by (simp add: accepts_def) (simp add: e'_def)
qed

theorem audit_hash_ambiguous_witness:
  "hashOf D \<lparr>ae_Seq = 1, ae_At = 0, ae_Op = ''sign'', ae_Actor = ''x'' @ nl # ''y'', ae_Subject = [],
     ae_Signer = [], ae_Outcome = ''ok'', ae_Detail = [], ae_PrevHash = genesisHash, ae_Hash = [],
     ae_Signature = []\<rparr> =
   hashOf D \<lparr>ae_Seq = 1, ae_At = 0, ae_Op = ''sign'' @ nl # ''x'', ae_Actor = ''y'', ae_Subject = [],
     ae_Signer = [], ae_Outcome = ''ok'', ae_Detail = [], ae_PrevHash = genesisHash, ae_Hash = [],
     ae_Signature = []\<rparr>"
  using audit_hash_ambiguous [of "\<lparr>ae_Seq = 1, ae_At = 0, ae_Op = ''sign'' @ nl # ''x'', ae_Actor = ''y'',
     ae_Subject = [], ae_Signer = [], ae_Outcome = ''ok'', ae_Detail = [], ae_PrevHash = genesisHash,
     ae_Hash = [], ae_Signature = []\<rparr>" "''sign''" "''x''" "''y''" D] by simp

text \<open>
  A failed sync breaks the chain. The entry is in the file but the head does not
  advance, so the next append writes a second entry with the same sequence number and the
  checker reports the journal as altered, although nobody touched it.
\<close>

theorem audit_sync_failure_breaks_chain:
  assumes "log_ok D vs l" and "lg_sync l" and "signer_checked signer vs" and "digest_clean D"
    and "clean_event ev" and "sign_entry signer (sealed_entry D l ev now) = Some e"
    and "sign_entry signer (sealed_entry D (snd (Append D signer l ev now SyncFail)) ev' now') = Some e'"
  defines "l2 \<equiv> snd (Append D signer (snd (Append D signer l ev now SyncFail)) ev' now' DiskOK)"
  shows "fst (Append D signer l ev now SyncFail) = Inl SyncFailed \<and>
    \<not> vr_Intact (audit_Verify D vs (lg_lines l2))"
proof -
  have ok: "\<not> lg_werr l" "json_string (lg_prevHash l) = lg_prevHash l" using assms(1) by (simp_all add: log_ok_def)
  note acc = sealed_accepts [OF assms(6,3,5,4) ok(2)]
  let ?l1 = "l\<lparr>lg_lines := lg_lines l @ [LEntry e]\<rparr>"
  have l1: "Append D signer l ev now SyncFail = (Inl SyncFailed, ?l1)"
    using assms(2,6) ok(1) acc by (simp add: Append_def Let_def)
  have "ae_Seq e' = lg_seq l + 1"
    using assms(7) by (auto simp: l1 sign_entry_def sealed_entry_def Let_def split: option.splits)
  then have seq': "ae_Seq (json_entry e') = lg_seq l + 1" by (simp add: json_entry_def)
  have "sign_entry signer (sealed_entry D ?l1 ev' now') = Some e'" using assms(7) by (simp add: l1)
  then have l2: "lg_lines l2 = (lg_lines l @ [LEntry e]) @ [LEntry (json_entry e')]"
    unfolding l2_def l1 using ok(1) by (simp add: Append_def Let_def)
  let ?res = "\<lparr>vr_Entries = 0, vr_BrokenAt = 0, vr_Reason = [], vr_Head = [], vr_Intact = True\<rparr>"
  have "log_ok D vs (l\<lparr>lg_lines := lg_lines l @ [LEntry e], lg_seq := ae_Seq e, lg_prevHash := ae_Hash e\<rparr>)"
    using log_ok_append_entry [OF assms(1)] acc by blast
  then have ver: "verify_loop D vs ?res genesisHash 1 (lg_lines l @ [LEntry e]) =
      intact_result (lg_seq l + 1) (ae_Hash e)"
    using acc by (simp add: log_ok_def audit_Verify_def)
  from verify_loop_append [of D vs ?res genesisHash 1 "lg_lines l @ [LEntry e]" "[LEntry (json_entry e')]"] ver
  have "verify_loop D vs ?res genesisHash 1 (lg_lines l2) =
      verify_loop D vs (?res\<lparr>vr_Entries := lg_seq l + 1\<rparr>) (ae_Hash e) (1 + (lg_seq l + 1)) [LEntry (json_entry e')]"
    by (auto simp: intact_result_def l2)
  moreover have "\<not> accepts D vs (1 + (lg_seq l + 1)) (ae_Hash e) (json_entry e')"
    by (simp add: accepts_def seq')
  ultimately show ?thesis using verify_loop_rejects l1 by (simp add: audit_Verify_def)
qed

lemma empty_log_ok: "log_ok D vs empty_log"
  by (simp add: log_ok_def empty_log_def audit_Verify_def intact_result_def tail_def json_string_genesis)

theorem audit_sync_failure_breaks_chain_witness:
  "\<not> vr_Intact (audit_Verify demo_digest None (lg_lines (snd (Append demo_digest None
     (snd (Append demo_digest None empty_log demo_event 1 SyncFail)) demo_event 2 DiskOK))))"
  using audit_sync_failure_breaks_chain [OF empty_log_ok _ demo_clean(3,1,2), of 1
      "sealed_entry demo_digest empty_log demo_event 1" demo_event 2]
  by (simp add: empty_log_def sign_entry_def)

text \<open>
  An append that fails, whether in signing or in writing, leaves the sequence counter
  where it was, so the entry that follows takes the number the dropped one would have had: a
  dropped entry leaves no gap in the sequence.
\<close>

theorem audit_drop_leaves_no_gap:
  assumes "Append D signer l ev now d = (Inl err, l')"
    and "Append D signer' l' ev' now' d' = (Inr e, l'')"
  shows "ae_Seq e = lg_seq l + 1 \<and> ae_PrevHash e = lg_prevHash l"
proof -
  have keep: "lg_seq l' = lg_seq l \<and> lg_prevHash l' = lg_prevHash l"
    using assms(1) by (auto simp: Append_def Let_def split: option.splits if_splits disk.splits)
  from assms(2) have "sign_entry signer' (sealed_entry D l' ev' now') = Some e"
    by (auto simp: Append_def Let_def split: option.splits if_splits disk.splits)
  with keep show ?thesis
    by (auto simp: sign_entry_def sealed_entry_def Let_def split: option.splits)
qed

theorem audit_drop_leaves_no_gap_witness:
  "ae_Seq (sealed_entry demo_digest empty_log demo_event 2) = lg_seq empty_log + 1"
proof -
  let ?e = "sealed_entry demo_digest empty_log demo_event 2"
  have first: "Append demo_digest (Some (\<lambda>sl. None)) empty_log demo_event 1 DiskOK = (Inl SignFailed, empty_log)"
    by (simp add: Append_def sign_entry_def)
  have "Append demo_digest None empty_log demo_event 2 DiskOK =
      (Inr ?e, snd (Append demo_digest None empty_log demo_event 2 DiskOK))"
    by (simp add: Append_def sign_entry_def empty_log_def Let_def)
  from audit_drop_leaves_no_gap [OF first this] show ?thesis by simp
qed

text \<open>
  An event text that is not valid UTF-8 is hashed as given but reads back changed from
  its JSON encoding, so the journal the service itself wrote fails its own check.
\<close>

theorem audit_invalid_utf8_breaks_chain:
  "let l = snd (Append demo_digest None empty_log (demo_event\<lparr>ev_Detail := [CHR 0xFF]\<rparr>) 1 DiskOK)
   in \<not> vr_Intact (audit_Verify demo_digest None (lg_lines l))"
proof -
  let ?ev = "demo_event\<lparr>ev_Detail := [CHR 0xFF]\<rparr>"
  let ?e = "sealed_entry demo_digest empty_log ?ev 1"
  have detail: "ae_Detail (json_entry ?e) = [CHR 0xEF, CHR 0xBF, CHR 0xBD]" "ae_Detail ?e = [CHR 0xFF]"
    by (simp_all add: json_entry_def sealed_entry_def utf8_len_def byte_in_def byte_of_def Let_def)
  have plain: "json_string t = t"
    if "t \<in> {ae_Op ?e, ae_Actor ?e, ae_Subject ?e, ae_Signer ?e, ae_Outcome ?e, ae_PrevHash ?e}" for t
    using that by (auto simp: sealed_entry_def demo_event_def empty_log_def genesisHash_def Let_def
        utf8_len_def byte_in_def byte_of_def)
  have "hash_text demo_digest (json_entry ?e) \<noteq> hash_text demo_digest ?e"
    using detail plain by (simp add: hash_text_def json_entry_def)
  then have "hashOf demo_digest (json_entry ?e) \<noteq> hashOf demo_digest ?e"
    using demo_sha_inj by (auto simp: hashOf_def dest: injD)
  moreover have "ae_Hash (json_entry ?e) = hashOf demo_digest ?e"
    using demo_clean(1) by (simp add: json_entry_def digest_clean_def hashOf_def)
      (simp add: sealed_entry_def hashOf_def hash_text_def Let_def)
  ultimately have "\<not> accepts demo_digest None 1 genesisHash (json_entry ?e)" by (auto simp: accepts_def)
  then show ?thesis
    by (simp add: Append_def sign_entry_def empty_log_def Let_def audit_Verify_def verify_loop_rejects)
qed

end
