(* ===== verification/Signing.thy ===== *)
theory Signing
  imports Signers Audit_Log
begin

text \<open>
  Signing (internal/core/service.go, \<^verbatim>\<open>Sign\<close>, \<^verbatim>\<open>signWith\<close>, \<^verbatim>\<open>signerChainAnchors\<close>,
  \<^verbatim>\<open>resolveKey\<close>, \<^verbatim>\<open>resolveData\<close>). The effects outside the driver are a trace: acquiring and
  releasing a by-reference payload and a key, and the events handed to the audit journal, in the
  order they happen; deferred releases come last, the key before the payload.
\<close>

section \<open>Effects\<close>

datatype effect =
    GotData string | FreedData string | GotKey key_ref | FreedKey key_ref | Audited audit_event

definition recordAudit :: "'c service \<Rightarrow> audit_event \<Rightarrow> effect list" where
  "recordAudit s ev = (if sv_audit s then [Audited ev] else [])"

definition resolveKey :: "'c service \<Rightarrow> key_spec \<Rightarrow> goerr + key_ref" where
  "resolveKey s spec =
     (if KeySpec_Empty spec then Inl (NewError KindInvalid ''resolveKey'' ''no key specified'')
      else case sv_keys s of
             None \<Rightarrow> Inl (NewError KindUnavailable ''resolveKey'' ''no key source configured'')
           | Some resolve \<Rightarrow> resolve spec)"

definition resolveData :: "'c service \<Rightarrow> string \<Rightarrow> data_ref \<Rightarrow> goerr + string" where
  "resolveData s op ref =
     (if \<not> IsRef ref then Inr []
      else case sv_dataResolver s of
             None \<Rightarrow> Inl (NewError KindUnavailable op ''by-reference data requires a configured data resolver'')
           | Some resolve \<Rightarrow>
               (case resolve ref of
                  Inl e \<Rightarrow> Inl (if errors_as_domain e \<noteq> None then e else domainErr op e)
                | Inr path \<Rightarrow> Inr path))"

definition data_got :: "data_ref \<Rightarrow> string \<Rightarrow> effect list" where
  "data_got ref path = (if IsRef ref then [GotData path] else [])"

definition data_freed :: "data_ref \<Rightarrow> string \<Rightarrow> effect list" where
  "data_freed ref path = (if IsRef ref then [FreedData path] else [])"

section \<open>One attempt\<close>

definition signWith :: "'c service \<Rightarrow> sign_input \<Rightarrow> key_ref \<Rightarrow> bool \<Rightarrow> string \<Rightarrow> string \<Rightarrow> trusted_cert list \<Rightarrow>
    bytes \<times> goerr option" where
  "signWith s inp ref withTS tsaURL dataPath trusted =
     (if si_Format inp = FormatCMS then
        pv_SignCMS (sv_prov s) \<lparr>sr_Key = ref, sr_Data = si_Data inp, sr_Path = dataPath, sr_Detached = si_Detached inp,
          sr_InputPEM = si_InputPEM inp, sr_OutPEM = si_OutputPEM inp, sr_CheckCertTime = \<not> si_NoCheckCertTime inp,
          sr_WithTimestamp = withTS, sr_TSAURL = tsaURL, sr_ExistingSignature = si_ExistingSignature inp,
          sr_TrustedCerts = trusted\<rparr>
      else if si_Format inp = FormatXML then
        pv_SignXML (sv_prov s) \<lparr>sx_Key = ref, sx_XML = si_Data inp, sx_CheckCertTime = \<not> si_NoCheckCertTime inp,
          sx_WithTimestamp = withTS, sx_TSAURL = tsaURL, sx_NodeID = si_NodeID inp, sx_ParentNode = si_ParentNode inp,
          sx_ParentNS = si_ParentNS inp, sx_TrustedCerts = trusted\<rparr>
      else if si_Format inp = FormatWSSE then
        pv_SignWSSE (sv_prov s) \<lparr>sw_Key = ref, sw_XML = si_Data inp, sw_NodeID = si_NodeID inp,
          sw_CheckCertTime = \<not> si_NoCheckCertTime inp, sw_WithTimestamp = withTS, sw_TSAURL = tsaURL,
          sw_TrustedCerts = trusted\<rparr>
      else ([], None))"

definition isAnchorFailure :: "goerr option \<Rightarrow> bool" where
  "isAnchorFailure err =
     (case err of
        None \<Rightarrow> False
      | Some e \<Rightarrow> errors_is e ErrCertTimeInvalid \<or> errors_is e ErrChainInvalid \<or> errors_is e ErrCARequired)"

definition signerChainAnchors :: "'c service \<Rightarrow> key_ref \<Rightarrow> trusted_cert list \<Rightarrow> trusted_cert list go" where
  "signerChainAnchors s ref extra =
     (case pv_ExportOwnerCert (sv_prov s) ref CertPEM of
        (cert, err) \<Rightarrow>
          if err \<noteq> None \<or> cert = [] then Returns []
          else case ca_nodes (fst (buildChain (sv_golib s) no_certificate (toDER (sv_golib s) cert EncodingPEM)
                      (mergedTrusted (sv_trust s) extra) (sv_fetcher s))) of
                 Panics \<Rightarrow> Panics
               | Returns nodes \<Rightarrow> Returns (map (as_trusted (sv_golib s)) nodes))"

section \<open>Sign\<close>

text \<open>The attempt with the merged trust set, repeated with the signer's own chain on an anchor failure.\<close>

definition sign_attempts :: "'c service \<Rightarrow> sign_input \<Rightarrow> key_ref \<Rightarrow> bool \<Rightarrow> string \<Rightarrow> string \<Rightarrow>
    (bytes \<times> goerr option) go" where
  "sign_attempts s inp ref withTS tsaURL dataPath =
     (let trusted = (if si_NoCheckCertTime inp then [] else mergedTrusted (sv_trust s) (si_TrustedCerts inp));
          (sig, err) = signWith s inp ref withTS tsaURL dataPath trusted
      in if \<not> si_NoCheckCertTime inp \<and> isAnchorFailure err then
           (case signerChainAnchors s ref (si_TrustedCerts inp) of
              Panics \<Rightarrow> Panics
            | Returns own \<Rightarrow>
                if own \<noteq> [] then Returns (signWith s inp ref withTS tsaURL dataPath own) else Returns (sig, err))
         else Returns (sig, err))"

definition no_sign_output :: sign_output where
  "no_sign_output = \<lparr>so_Signature = [], so_Format = [], so_Timestamp = None, so_CAdESLevel = [], so_LibError = None\<rparr>"

definition with_timestamp :: "'c service \<Rightarrow> sign_input \<Rightarrow> bool" where
  "with_timestamp s inp = (case si_WithTimestamp inp of Some b \<Rightarrow> b | None \<Rightarrow> sv_defaultTimestamp s)"

abbreviation sign_event :: "string \<Rightarrow> string \<Rightarrow> audit_event" where
  "sign_event subj outcome \<equiv>
     \<lparr>au_Op = ''sign'', au_Subject = subj, au_Signer = [], au_Outcome = outcome, au_Detail = []\<rparr>"

text \<open>The answer of the attempts as the response, with the event for the journal.\<close>

definition sign_answer :: "'c service \<Rightarrow> lang \<Rightarrow> sign_input \<Rightarrow> bytes \<times> goerr option \<Rightarrow>
    (sign_output \<times> goerr option) \<times> effect list" where
  "sign_answer s ctx inp res =
     (case res of
        (sig, Some e) \<Rightarrow>
          ((no_sign_output\<lparr>so_Format := si_Format inp, so_LibError := Some (libErrorFrom ctx e)\<rparr>,
            Some (domainErr ''Sign'' e)),
           recordAudit s (sign_event (digestOf (cm_Sha256 (sv_cms s)) (si_Data inp)) ''error''))
      | (sig, None) \<Rightarrow>
          ((no_sign_output\<lparr>so_Signature := sig, so_Format := si_Format inp,
              so_CAdESLevel := (if with_timestamp s inp then ''T'' else ''BES''),
              so_Timestamp := (if with_timestamp s inp \<and> si_Format inp = FormatCMS
                               then firstTimestamp (sv_golib s) (sv_cms s) sig else None)\<rparr>, None),
           recordAudit s (sign_event (digestOf (cm_Sha256 (sv_cms s)) sig) ''ok'')))"

definition sign_invalid :: "string \<Rightarrow> (sign_output \<times> goerr option) \<times> effect list" where
  "sign_invalid msg = ((no_sign_output, Some (NewError KindInvalid ''Sign'' msg)), [])"

definition Sign :: "'c service \<Rightarrow> lang \<Rightarrow> sign_input \<Rightarrow> ((sign_output \<times> goerr option) \<times> effect list) go" where
  "Sign s ctx inp =
     (if sv_verifyOnly s then Returns (sign_invalid ''sign disabled in verify-only mode'')
      else case applyPolicy inp of
        Inl e \<Rightarrow> Returns ((no_sign_output, Some (DomainError KindInvalid ''Sign'' (Some e))), [])
      | Inr inp \<Rightarrow>
          if \<not> Format_Valid (si_Format inp) then Returns (sign_invalid ''unknown signature format'')
          else if si_ExistingSignature inp \<noteq> None \<and> si_Format inp \<noteq> FormatCMS then
            Returns (sign_invalid ''co-sign supported for CMS only'')
          else if IsRef (si_DataRef inp) \<and> si_Format inp \<noteq> FormatCMS then
            Returns (sign_invalid ''by-reference data supported for CMS only'')
          else case resolveData s ''Sign'' (si_DataRef inp) of
            Inl e \<Rightarrow> Returns ((no_sign_output, Some e), [])
          | Inr dataPath \<Rightarrow>
              (let got = data_got (si_DataRef inp) dataPath; freed = data_freed (si_DataRef inp) dataPath
               in case resolveKey s (si_Key inp) of
                    Inl e \<Rightarrow> Returns ((no_sign_output, Some (domainErr ''Sign'' e)), got @ freed)
                  | Inr ref \<Rightarrow>
                      (let tsaURL = (if si_TSAURL inp = [] then sv_defaultTSAURL s else si_TSAURL inp)
                       in case sign_attempts s inp ref (with_timestamp s inp) tsaURL dataPath of
                            Panics \<Rightarrow> Panics
                          | Returns res \<Rightarrow>
                              (case sign_answer s ctx inp res of
                                 (out, audits) \<Rightarrow>
                                   Returns (out, got @ [GotKey ref] @ audits @ [FreedKey ref] @ freed)))))"

section \<open>Resources\<close>

text \<open>Every acquisition is released, once, in the reverse order; \<open>stack\<close> holds the releases still due.\<close>

fun balanced :: "effect list \<Rightarrow> effect list \<Rightarrow> bool" where
  "balanced stack [] = (stack = [])"
| "balanced stack (GotData p # es) = balanced (FreedData p # stack) es"
| "balanced stack (GotKey k # es) = balanced (FreedKey k # stack) es"
| "balanced stack (Audited ev # es) = balanced stack es"
| "balanced stack (FreedData p # es) = (case stack of r # rs \<Rightarrow> r = FreedData p \<and> balanced rs es | [] \<Rightarrow> False)"
| "balanced stack (FreedKey k # es) = (case stack of r # rs \<Rightarrow> r = FreedKey k \<and> balanced rs es | [] \<Rightarrow> False)"

lemma balanced_audits:
  "(\<forall>e \<in> set es. \<exists>ev. e = Audited ev) \<Longrightarrow> balanced stack (es @ rest) = balanced stack rest"
  by (induction es) auto

lemma recordAudit_audits: "\<forall>e \<in> set (recordAudit s ev). \<exists>ev. e = Audited ev"
  by (simp add: recordAudit_def)

lemma sign_answer_audits: "\<forall>e \<in> set (snd (sign_answer s ctx inp res)). \<exists>ev. e = Audited ev"
  using recordAudit_audits by (auto simp: sign_answer_def recordAudit_def split: prod.splits option.splits if_splits)

lemma data_balanced: "balanced stack (data_got ref path @ es @ data_freed ref path) \<longleftrightarrow>
    (if IsRef ref then balanced (FreedData path # stack) (es @ [FreedData path]) else balanced stack es)"
  by (simp add: data_got_def data_freed_def)

section \<open>How a signing came about\<close>

lemma Sign_cases:
  assumes "Sign s ctx inp = Returns (r, effs)"
  obtains (refused) "snd r \<noteq> None" "effs = []"
  | (no_key) inp' path e where "applyPolicy inp = Inr inp'" "resolveKey s (si_Key inp') = Inl e"
      "snd r = Some (domainErr ''Sign'' e)"
      "effs = data_got (si_DataRef inp') path @ data_freed (si_DataRef inp') path"
  | (signed) inp' path ref tsaURL res audits where "\<not> sv_verifyOnly s" "applyPolicy inp = Inr inp'"
      "Format_Valid (si_Format inp')" "resolveKey s (si_Key inp') = Inr ref"
      "resolveData s ''Sign'' (si_DataRef inp') = Inr path"
      "sign_attempts s inp' ref (with_timestamp s inp') tsaURL path = Returns res"
      "sign_answer s ctx inp' res = (r, audits)"
      "effs = data_got (si_DataRef inp') path @ [GotKey ref] @ audits @ [FreedKey ref] @ data_freed (si_DataRef inp') path"
proof (cases "sv_verifyOnly s")
  case True
  with assms show thesis by (intro refused) (auto simp: Sign_def sign_invalid_def)
next
  case False
  show thesis
  proof (cases "applyPolicy inp")
    case (Inl e)
    with False assms show thesis by (intro refused) (auto simp: Sign_def)
  next
    case (Inr inp')
    note policy = this
    show thesis
    proof (cases "\<not> Format_Valid (si_Format inp') \<or> (si_ExistingSignature inp' \<noteq> None \<and> si_Format inp' \<noteq> FormatCMS) \<or>
        (IsRef (si_DataRef inp') \<and> si_Format inp' \<noteq> FormatCMS)")
      case True
      with False policy assms show thesis
        by (intro refused) (auto simp: Sign_def sign_invalid_def split: if_splits)
    next
      case ok: False
      show thesis
      proof (cases "resolveData s ''Sign'' (si_DataRef inp')")
        case (Inl e)
        with False policy ok assms show thesis by (intro refused) (auto simp: Sign_def)
      next
        case (Inr path)
        note data = this
        show thesis
        proof (cases "resolveKey s (si_Key inp')")
          case (Inl e)
          with False policy ok data assms show thesis by (intro no_key) (auto simp: Sign_def)
        next
          case (Inr ref)
          let ?tsa = "if si_TSAURL inp' = [] then sv_defaultTSAURL s else si_TSAURL inp'"
          let ?attempt = "sign_attempts s inp' ref (with_timestamp s inp') ?tsa path"
          have run: "Sign s ctx inp = (case ?attempt of Panics \<Rightarrow> Panics
            | Returns res \<Rightarrow> (case sign_answer s ctx inp' res of (out, audits) \<Rightarrow> Returns (out,
                data_got (si_DataRef inp') path @ [GotKey ref] @ audits @ [FreedKey ref] @ data_freed (si_DataRef inp') path)))"
            using False policy ok data Inr by (auto simp: Sign_def Let_def)
          with assms obtain res where res: "?attempt = Returns res" by (cases ?attempt) simp_all
          obtain audits where "sign_answer s ctx inp' res = (r, audits)"
            "effs = data_got (si_DataRef inp') path @ [GotKey ref] @ audits @ [FreedKey ref] @ data_freed (si_DataRef inp') path"
            using assms run res by (auto split: prod.splits)
          with False policy ok data Inr res show thesis by (intro signed) auto
        qed
      qed
    qed
  qed
qed

lemma sign_attempts_source:
  assumes "sign_attempts s inp ref ts tsaURL path = Returns res"
  shows "\<exists>trusted. res = signWith s inp ref ts tsaURL path trusted \<and>
    (trusted = (if si_NoCheckCertTime inp then [] else mergedTrusted (sv_trust s) (si_TrustedCerts inp)) \<or>
     \<not> si_NoCheckCertTime inp \<and> signerChainAnchors s ref (si_TrustedCerts inp) = Returns trusted)"
  using assms by (auto simp: sign_attempts_def Let_def split: go.splits if_splits prod.splits)

lemma applyPolicy_profile:
  assumes "applyPolicy inp = Inr inp'" and "si_Policy inp \<noteq> []"
  obtains format ts where "map_of policyProfiles (si_Policy inp) = Some (format, ts)" "si_Format inp' = format"
    "si_WithTimestamp inp' = Some (case si_WithTimestamp inp of None \<Rightarrow> ts | Some b \<Rightarrow> b)"
  using assms by (auto simp: applyPolicy_def split: option.splits if_splits)

section \<open>Properties\<close>

text \<open>
  Claim C6: signing leaks nothing. Whenever Sign returns, by whatever branch, each payload and
  each key it acquired was released exactly once, in the reverse order of acquisition, and
  nothing else was released.
\<close>

theorem sign_releases:
  assumes "Sign s ctx inp = Returns (r, effs)"
  shows "balanced [] effs"
  using assms
proof (cases rule: Sign_cases)
  case (no_key inp' path e)
  then show ?thesis using data_balanced [of "[]" _ _ "[]"] by simp
next
  case (signed inp' path ref tsaURL res audits)
  have "\<forall>e \<in> set audits. \<exists>ev. e = Audited ev" using sign_answer_audits [of s ctx inp' res] signed(7) by simp
  then have "balanced stack ([GotKey ref] @ audits @ [FreedKey ref] @ rest) = balanced stack rest" for stack rest
    by (simp add: balanced_audits)
  with signed(8) show ?thesis
    using data_balanced [of "[]" "si_DataRef inp'" path "[GotKey ref] @ audits @ [FreedKey ref]"] by simp
qed simp

definition demo_key :: key_ref where
  "demo_key = \<lparr>kr_Storage = 1, kr_Path = ''/k'', kr_Password = []\<rparr>"

definition signing_service :: "unit service" where
  "signing_service = (demo_service ((idle_driver (status_answer CertGood, None))\<lparr>pv_SignCMS := (\<lambda>_. (''cms'', None))\<rparr>) None)
     \<lparr>sv_keys := Some (\<lambda>_. Inr demo_key), sv_dataResolver := Some (\<lambda>_. Inr ''/spool/1''), sv_audit := True\<rparr>"

definition demo_sign :: sign_input where
  "demo_sign = \<lparr>si_Policy = ''cades-t'', si_Format = [], si_Data = [], si_DataRef = \<lparr>dr_Path = ''/in'', dr_URL = []\<rparr>,
     si_Key = \<lparr>ks_Inline = None, ks_Path = None, ks_Token = None, ks_KeyID = ''k1''\<rparr>, si_Detached = False,
     si_WithTimestamp = None, si_TSAURL = [], si_NoCheckCertTime = False, si_InputPEM = False, si_OutputPEM = True,
     si_TrustedCerts = [], si_NodeID = [], si_ParentNode = [], si_ParentNS = [], si_ExistingSignature = None\<rparr>"

lemmas signing_defs = signing_service_def demo_sign_def demo_service_def idle_driver_def demo_cms_def demo_key_def

lemma demo_sign_runs:
  "\<exists>out effs. Sign signing_service plain_lang demo_sign = Returns ((out, None), effs)"
  by (simp add: Sign_def signing_defs applyPolicy_def policyProfiles_def Format_Valid_def IsRef_def resolveData_def
      resolveKey_def KeySpec_Empty_def sign_attempts_def signWith_def isAnchorFailure_def sign_answer_def Let_def)

theorem sign_releases_witness:
  "case Sign signing_service plain_lang demo_sign of Returns (r, effs) \<Rightarrow> balanced [] effs"
  using demo_sign_runs sign_releases by (auto split: go.splits)



text \<open>
  A named policy decides the format and the timestamp. A signature produced under a
  policy has the policy's format, and carries a timestamp exactly when the request says so or,
  if it does not say, when the policy's profile does, whatever the service default is.
\<close>

theorem sign_policy_honoured:
  assumes "Sign s ctx inp = Returns ((out, None), effs)" and "si_Policy inp \<noteq> []"
  shows "\<exists>format ts. map_of policyProfiles (si_Policy inp) = Some (format, ts) \<and> so_Format out = format \<and>
    so_CAdESLevel out = (if (case si_WithTimestamp inp of None \<Rightarrow> ts | Some b \<Rightarrow> b) then ''T'' else ''BES'')"
  using assms(1)
proof (cases rule: Sign_cases)
  case (signed inp' path ref tsaURL res audits)
  from signed(2) assms(2) obtain format ts where
    "map_of policyProfiles (si_Policy inp) = Some (format, ts)" "si_Format inp' = format"
    "si_WithTimestamp inp' = Some (case si_WithTimestamp inp of None \<Rightarrow> ts | Some b \<Rightarrow> b)"
    by (rule applyPolicy_profile)
  with signed(7) show ?thesis
    by (auto simp: sign_answer_def no_sign_output_def with_timestamp_def split: prod.splits option.splits)
qed simp_all

theorem sign_policy_honoured_witness:
  "\<exists>out effs. Sign signing_service plain_lang demo_sign = Returns ((out, None), effs) \<and> so_CAdESLevel out = ''T''"
proof -
  obtain out effs where run: "Sign signing_service plain_lang demo_sign = Returns ((out, None), effs)"
    using demo_sign_runs by blast
  from sign_policy_honoured [OF this] run show ?thesis by (auto simp: demo_sign_def policyProfiles_def)
qed

text \<open>
  A request without a key is classified as an internal failure. The resolver answers
  that the request is invalid, but Sign wraps that error in a classification that only knows the
  driver's errors, so the caller sees the kind internal, with the kind invalid hidden inside.
\<close>

theorem sign_no_key_internal:
  assumes "\<not> sv_verifyOnly s" and "applyPolicy inp = Inr inp'" and "Format_Valid (si_Format inp')"
    and "si_ExistingSignature inp' = None" and "\<not> IsRef (si_DataRef inp')" and "KeySpec_Empty (si_Key inp')"
  shows "\<exists>e. Sign s ctx inp = Returns ((no_sign_output, Some (DomainError KindInternal ''Sign'' (Some e))), []) \<and>
    errors_as_domain e = Some KindInvalid"
  using assms
  by (simp add: Sign_def resolveData_def resolveKey_def NewError_def domainErr_def classify_def data_got_def data_freed_def)

theorem sign_no_key_internal_witness:
  "\<exists>e. Sign signing_service plain_lang (demo_sign\<lparr>si_Policy := [], si_Format := FormatCMS, si_DataRef := \<lparr>dr_Path = [], dr_URL = []\<rparr>,
       si_Key := \<lparr>ks_Inline = None, ks_Path = None, ks_Token = None, ks_KeyID = []\<rparr>\<rparr>) =
     Returns ((no_sign_output, Some (DomainError KindInternal ''Sign'' (Some e))), [])"
proof -
  let ?i = "demo_sign\<lparr>si_Policy := [], si_Format := FormatCMS, si_DataRef := \<lparr>dr_Path = [], dr_URL = []\<rparr>,
       si_Key := \<lparr>ks_Inline = None, ks_Path = None, ks_Token = None, ks_KeyID = []\<rparr>\<rparr>"
  have "\<not> sv_verifyOnly signing_service" "applyPolicy ?i = Inr ?i" "Format_Valid (si_Format ?i)"
    "si_ExistingSignature ?i = None" "\<not> IsRef (si_DataRef ?i)" "KeySpec_Empty (si_Key ?i)"
    by (simp_all add: signing_defs applyPolicy_def Format_Valid_def IsRef_def KeySpec_Empty_def)
  from sign_no_key_internal [OF this] show ?thesis by blast
qed

text \<open>
  The timestamp echoed for a co-signed container is not determined. The parsed signers
  are ranged over as a Go map, so two runs over the same container may report the tokens of
  different signers.
\<close>

theorem sign_echo_depends_on_order:
  "let L = demo_cms\<lparr>cm_ParseSigners := (\<lambda>_. Some [token_signer, token_signer\<lparr>cs_SerialNumberHex := ''2'',
             cs_Timestamp := map_option (\<lambda>t. t\<lparr>ct_tsGenTime := Some 9\<rparr>) (cs_Timestamp token_signer)\<rparr>])\<rparr>
   in map_option ts_GenTime (firstTimestamp demo_golib (L\<lparr>cm_RangeOrder := map snd\<rparr>) ''cms'') \<noteq>
      map_option ts_GenTime (firstTimestamp demo_golib (L\<lparr>cm_RangeOrder := \<lambda>m. rev (map snd m)\<rparr>) ''cms'')"
  by (simp add: firstTimestamp_def cmsSignersBySerial_def demo_cms_def token_signer_def index_signer_def normHex_def
      ToUpper_def to_upper_def TrimSpace_def is_space_def byte_of_def kv_put_def timestampFromCMS_def Let_def)

end
