(* ===== verification/Verify.thy ===== *)
theory Verify
  imports Signing
begin

text \<open>
  Verification (internal/core/service.go, \<^verbatim>\<open>Verify\<close> and its steps), the operations built on the
  same parts (\<^verbatim>\<open>Extract\<close>, \<^verbatim>\<open>CertInfo\<close>) and long-term archiving (internal/core/ltv.go). The OCSP
  cache is threaded as state, the releases and journal events are a trace, and the instants at
  which the code reads the clock are an argument.
\<close>

section \<open>The container\<close>

definition verifyContainer :: "'c service \<Rightarrow> string \<Rightarrow> verify_request \<Rightarrow> driver_verify_result \<times> goerr option" where
  "verifyContainer s format req =
     (if format = FormatCMS then pv_VerifyCMS (sv_prov s) req else pv_VerifyXML (sv_prov s) req)"

definition signerDERs :: "golib \<Rightarrow> bytes list \<Rightarrow> bytes list" where
  "signerDERs G pemCerts = filter (\<lambda>der. der \<noteq> []) (map (\<lambda>p. toDER G p EncodingPEM) pemCerts)"

definition verify_request_of :: "verify_input \<Rightarrow> string \<Rightarrow> trusted_cert list \<Rightarrow> verify_request" where
  "verify_request_of inp dataPath trusted =
     \<lparr>vq_Signature = vi_Signature inp, vq_Data = vi_Data inp, vq_Path = dataPath, vq_Detached = vi_Detached inp,
      vq_InputPEM = vi_InputPEM inp, vq_OutPEM = True, vq_CheckCertTime = vi_CheckCertTime inp, vq_SignerIndex = 0,
      vq_TrustedCerts = trusted\<rparr>"

record verify_clock =
  ck_composite :: time
  ck_signer :: "nat \<Rightarrow> time"
  ck_synthesis :: time

text \<open>The driver's verdict, repeated once with discovered anchors; the trust set used comes with it.\<close>

definition verify_attempts :: "'c service \<Rightarrow> verify_input \<Rightarrow> string \<Rightarrow>
    (trusted_cert list \<times> driver_verify_result \<times> goerr option) go" where
  "verify_attempts s inp dataPath =
     (let trusted = mergedTrusted (sv_trust s) (vi_TrustedCerts inp);
          (res, err) = verifyContainer s (vi_Format inp) (verify_request_of inp dataPath trusted)
      in if sv_fetcher s \<noteq> None \<and> vi_CheckCertTime inp \<and> isAnchorFailure err \<and> dv_Signers res \<noteq> [] then
           (case discoverAnchors (sv_golib s) (sv_fetcher s) (signerDERs (sv_golib s) (dv_Signers res)) trusted of
              Panics \<Rightarrow> Panics
            | Returns extra \<Rightarrow>
                if extra \<noteq> [] then
                  Returns (trusted @ extra,
                    verifyContainer s (vi_Format inp) (verify_request_of inp dataPath (trusted @ extra)))
                else Returns (trusted, res, err))
         else Returns (trusted, res, err))"

definition composite_signer :: "time \<Rightarrow> signer \<Rightarrow> bool" where
  "composite_signer now sg \<longleftrightarrow> sg_ChainSignaturesVerified sg \<and> sg_TrustAnchorFound sg \<and>
     (case (ct_NotBefore (sg_Certificate sg), ct_NotAfter (sg_Certificate sg)) of
        (Some nb, Some na) \<Rightarrow> \<not> Before now nb \<and> \<not> After now na
      | _ \<Rightarrow> False)"

definition compositeConfirms :: "'c service \<Rightarrow> time \<Rightarrow> verify_request \<Rightarrow> string \<Rightarrow> signer list \<Rightarrow> bool" where
  "compositeConfirms s now req format signers =
     (if signers = [] then False
      else if \<not> list_all (composite_signer now) signers then False
      else case verifyContainer s format (req\<lparr>vq_CheckCertTime := False\<rparr>) of
             (res, err) \<Rightarrow> err = None \<and> dv_Valid res)"

section \<open>Revocation of the signers\<close>

definition revocation_input :: "verify_input \<Rightarrow> string \<Rightarrow> bytes \<Rightarrow> trusted_cert list \<Rightarrow> validate_input" where
  "revocation_input inp method pem trusted =
     \<lparr>va_Cert = pem, va_Format = EncodingPEM, va_Method = method, va_CheckTime = zero_time,
      va_WantOCSP = vi_Archive inp, va_TrustedCerts = trusted, va_ResponderURL = vi_ResponderURL inp, va_CRL = []\<rparr>"

definition revocation_method :: "verify_input \<Rightarrow> string" where
  "revocation_method inp = (if vi_RevocationMethod inp = [] then MethodOCSP else vi_RevocationMethod inp)"

text \<open>One signer: its status, whether it is revoked, the response to embed, and the warnings.\<close>

definition check_signer :: "'c service \<Rightarrow> lang \<Rightarrow> verify_input \<Rightarrow> trusted_cert list \<Rightarrow> time \<Rightarrow> nat \<Rightarrow> signer \<Rightarrow>
    warnings \<Rightarrow> 'c \<Rightarrow> ((signer \<times> bool \<times> bytes list \<times> warnings) \<times> 'c) go" where
  "check_signer s ctx inp trusted now i sg w c =
     (let field = signer_field i ''.revocation''; method = revocation_method inp;
          pem = ct_PEM (sg_Certificate sg)
      in if pem = [] then
           Returns ((sg, False, [], w_add w field ''no certificate to check revocation for''), c)
         else case Validate s ctx c (revocation_input inp method pem trusted) now of
           Panics \<Rightarrow> Panics
         | Returns ((res, Some e), c') \<Rightarrow>
             Returns ((sg\<lparr>sg_Revocation := Some (no_status\<lparr>rs_Method := method\<rparr>)\<rparr>, False, [], w_addErr w field e), c')
         | Returns ((res, None), c') \<Rightarrow>
             (let status = vt_Status res;
                  sg = sg\<lparr>sg_Revocation := Some status\<rparr>;
                  revoked = (rs_Determinate status \<and> rs_Revoked status);
                  sg = (if revoked then sg\<lparr>sg_Valid := False\<rparr> else sg);
                  w = (if \<not> rs_Determinate status then w_add w field ''revocation status could not be established'' else w);
                  resp = vt_OCSPResponse res;
                  w = (if resp = [] \<and> vi_Archive inp
                       then w_add w field ''responder returned no reusable response to embed'' else w)
              in Returns ((sg, revoked, if resp \<noteq> [] then [resp] else [], w), c')))"

fun check_loop :: "'c service \<Rightarrow> lang \<Rightarrow> verify_input \<Rightarrow> trusted_cert list \<Rightarrow> (nat \<Rightarrow> time) \<Rightarrow> nat \<Rightarrow> signer list \<Rightarrow>
    warnings \<Rightarrow> 'c \<Rightarrow> ((signer list \<times> bool \<times> bytes list \<times> warnings) \<times> 'c) go" where
  "check_loop s ctx inp trusted now i [] w c = Returns (([], False, [], w), c)"
| "check_loop s ctx inp trusted now i (sg # sgs) w c =
     (case check_signer s ctx inp trusted (now i) i sg w c of
        Panics \<Rightarrow> Panics
      | Returns ((sg, revoked, resp, w), c) \<Rightarrow>
          (case check_loop s ctx inp trusted now (Suc i) sgs w c of
             Panics \<Rightarrow> Panics
           | Returns ((sgs, revoked', resps, w), c) \<Rightarrow>
               Returns ((sg # sgs, revoked \<or> revoked', resp @ resps, w), c)))"

definition checkRevocation :: "'c service \<Rightarrow> lang \<Rightarrow> verify_input \<Rightarrow> trusted_cert list \<Rightarrow> (nat \<Rightarrow> time) \<Rightarrow>
    verify_output \<Rightarrow> warnings \<Rightarrow> 'c \<Rightarrow> ((verify_output \<times> bytes list \<times> warnings) \<times> 'c) go" where
  "checkRevocation s ctx inp trusted now out w c =
     (case check_loop s ctx inp trusted now 0 (vo_Signers out) w c of
        Panics \<Rightarrow> Panics
      | Returns ((sgs, revoked, responses, w), c) \<Rightarrow>
          Returns ((out\<lparr>vo_Signers := sgs, vo_Valid := (vo_Valid out \<and> \<not> revoked)\<rparr>, responses, w), c))"

section \<open>Archiving\<close>

definition embedEvidence :: "golib \<Rightarrow> cmslib \<Rightarrow> bytes \<Rightarrow> bool \<Rightarrow> bool \<Rightarrow> cms_evidence \<Rightarrow> goerr + archive_output" where
  "embedEvidence G L signature inputPEM outputPEM evidence =
     (if Evidence_Empty evidence then
        Inl (PlainError ''no long-term validation evidence could be collected (responder unreachable, or nothing to embed)'')
      else case (if inputPEM then gl_PemDecode G signature else Some signature) of
        None \<Rightarrow> Inl (PlainError ''signature is not valid PEM'')
      | Some der \<Rightarrow>
          (case cm_AddLTV L der evidence of
             Inl e \<Rightarrow> Inl e
           | Inr archived \<Rightarrow>
               Inr \<lparr>ao_Signature = (if outputPEM then cm_PemEncode L archived else archived),
                    ao_OCSPResponses = length (ce_OCSPResponses evidence), ao_CRLs = length (ce_CRLs evidence),
                    ao_Certificates = length (ce_Certificates evidence), ao_Level = ''LT'', ao_Warnings = []\<rparr>))"

definition reencodeCMS :: "golib \<Rightarrow> cmslib \<Rightarrow> bytes \<Rightarrow> bool \<Rightarrow> bool \<Rightarrow> goerr + bytes" where
  "reencodeCMS G L sig fromPEM toPEM =
     (if fromPEM = toPEM then Inr sig
      else if toPEM then Inr (cm_PemEncode L sig)
      else case gl_PemDecode G sig of
             None \<Rightarrow> Inl (PlainError ''archived container is not valid PEM'')
           | Some der \<Rightarrow> Inr der)"

definition archive_evidence :: "golib \<Rightarrow> signer list \<Rightarrow> bytes list \<Rightarrow> cms_evidence" where
  "archive_evidence G signers ocsp =
     \<lparr>ce_OCSPResponses = ocsp, ce_CRLs = [],
      ce_Certificates = filter (\<lambda>der. der \<noteq> [])
        (map (\<lambda>c. toDER G (ct_PEM c) EncodingPEM) (concat (map sg_Chain signers)))\<rparr>"

definition attachArchive :: "'c service \<Rightarrow> verify_input \<Rightarrow> bytes list \<Rightarrow> verify_output \<Rightarrow> warnings \<Rightarrow>
    verify_output \<times> warnings" where
  "attachArchive s inp ocsp out w =
     (if vi_Format inp \<noteq> FormatCMS then
        (out, w_add w ''archive'' ''long-term validation evidence can only be embedded into CMS'')
      else case embedEvidence (sv_golib s) (sv_cms s) (vi_Signature inp) (vi_InputPEM inp) (vi_InputPEM inp)
                  (archive_evidence (sv_golib s) (vo_Signers out) ocsp) of
             Inl e \<Rightarrow> (out, w_addErr w ''archive'' e)
           | Inr archived \<Rightarrow> (out\<lparr>vo_Archive := Some archived\<rparr>, w))"

section \<open>The plain-language views\<close>

definition verify_event :: "'c service \<Rightarrow> verify_input \<Rightarrow> verify_output \<Rightarrow> audit_event" where
  "verify_event s inp out =
     \<lparr>au_Op = ''verify'', au_Subject = digestOf (cm_Sha256 (sv_cms s)) (vi_Signature inp),
      au_Signer = (case vo_Signers out of
                     [] \<Rightarrow> []
                   | sg # _ \<Rightarrow> (let subj = ct_Subject (sg_Certificate sg)
                                in firstNonEmptyString [sj_IIN subj, sj_BIN subj, sj_CommonName subj])),
      au_Outcome = (if vo_Valid out then ''valid'' else ''invalid''),
      au_Detail = (case vo_LibError out of Some le \<Rightarrow> le_Key le | None \<Rightarrow> [])\<rparr>"

definition add_explanation :: "'c service \<Rightarrow> verify_input \<Rightarrow> time \<Rightarrow> verify_output \<Rightarrow> verify_output" where
  "add_explanation s inp now out =
     (if vi_Explain inp
      then out\<lparr>vo_Explanation := Some (buildDiagnosis out (vi_CheckCertTime inp) (sv_verifyChain s) now)\<rparr> else out)"

definition add_report :: "'c service \<Rightarrow> verify_input \<Rightarrow> time \<Rightarrow> verify_output \<Rightarrow> verify_output" where
  "add_report s inp now out =
     (if vi_Report inp \<or> vi_Receipt inp
      then out\<lparr>vo_Report := Some (buildReport (cm_Sha256 (sv_cms s)) out (vi_CheckCertTime inp)
             (sv_verifyChain s) (vi_Signature inp) (vo_Content out) now)\<rparr> else out)"

definition add_receipt :: "'c service \<Rightarrow> verify_input \<Rightarrow> time \<Rightarrow> verify_output \<Rightarrow> verify_output" where
  "add_receipt s inp now out =
     (if vi_Receipt inp
      then (case issueReceipt (sv_receiptSigner s) (sv_receiptIssuer s) (sv_random s) (vo_Report out) now of
              Inl e \<Rightarrow> out\<lparr>vo_Warnings := w_add (vo_Warnings out) ''receipt'' (err_text e), vo_Receipt := []\<rparr>
            | Inr token \<Rightarrow> out\<lparr>vo_Receipt := token\<rparr>)
      else out)"

definition attachSynthesis :: "'c service \<Rightarrow> verify_input \<Rightarrow> time \<Rightarrow> verify_output \<Rightarrow> verify_output \<times> effect list" where
  "attachSynthesis s inp now out =
     (let out = add_receipt s inp now (add_report s inp now (add_explanation s inp now out));
          audits = recordAudit s (verify_event s inp out)
      in (if \<not> vi_Report inp then out\<lparr>vo_Report := None\<rparr> else out, audits))"

section \<open>Verify\<close>

definition no_verify_output :: verify_output where
  "no_verify_output = \<lparr>vo_Valid = False, vo_Format = [], vo_Detached = False, vo_Signers = [], vo_Content = [],
     vo_Warnings = [], vo_LibError = None, vo_Explanation = None, vo_Report = None, vo_Receipt = [],
     vo_Archive = None\<rparr>"

text \<open>The signers of the driver's answer, with the composite override.\<close>

definition verify_signers :: "'c service \<Rightarrow> lang \<Rightarrow> verify_input \<Rightarrow> string \<Rightarrow> time \<Rightarrow>
    trusted_cert list \<times> driver_verify_result \<times> goerr option \<Rightarrow> (verify_output \<times> goerr option \<times> warnings) go" where
  "verify_signers s ctx inp dataPath now attempt =
     (case attempt of (trusted, res, err) \<Rightarrow>
        (case buildSigners s ctx res (vi_Format inp) (vi_Signature inp) trusted [] of
           Panics \<Rightarrow> Panics
         | Returns (sgs, w) \<Rightarrow>
             (let sgs = (if vi_ExtractClaims inp
                         then map (\<lambda>sg. sg\<lparr>sg_Claims := Some (ClaimsFromCertificate (sg_Certificate sg))\<rparr>) sgs else sgs);
                  out = no_verify_output\<lparr>vo_Valid := dv_Valid res, vo_Format := vi_Format inp,
                    vo_Detached := vi_Detached inp, vo_Signers := sgs,
                    vo_Content := (if vi_ExtractContent inp then dv_Content res else [])\<rparr>
              in if \<not> vo_Valid out \<and> sv_verifyChain s \<and> vi_CheckCertTime inp \<and> isAnchorFailure err \<and>
                    compositeConfirms s now (verify_request_of inp dataPath trusted) (vi_Format inp) sgs
                 then Returns (out\<lparr>vo_Valid := True, vo_Signers := map (\<lambda>sg. sg\<lparr>sg_Valid := True\<rparr>) sgs\<rparr>, None,
                        w_add w ''verify'' ''cert-time-anchor-override: library rejected the time-checked verify (GOST-2015 VerifyData quirk); signature math, cryptographic chain to a trusted anchor and validity window independently confirm the signature'')
                 else Returns (out, err, w))))"

text \<open>The revocation check and the archive, once the signature holds.\<close>

definition verify_revocation :: "'c service \<Rightarrow> lang \<Rightarrow> verify_input \<Rightarrow> trusted_cert list \<Rightarrow> (nat \<Rightarrow> time) \<Rightarrow>
    verify_output \<Rightarrow> warnings \<Rightarrow> 'c \<Rightarrow> ((verify_output \<times> warnings) \<times> 'c) go" where
  "verify_revocation s ctx inp trusted now out w c =
     (if vo_Valid out \<and> RevocationRequested inp then
        (case checkRevocation s ctx inp trusted now out w c of
           Panics \<Rightarrow> Panics
         | Returns ((out, ocsp, w), c) \<Rightarrow>
             Returns (if vi_Archive inp then attachArchive s inp ocsp out w else (out, w), c))
      else Returns ((out, w), c))"

text \<open>A verdict with no signer is withdrawn.\<close>

definition withdraw_unnamed :: "verify_output \<Rightarrow> warnings \<Rightarrow> verify_output \<times> warnings" where
  "withdraw_unnamed out w =
     (if vo_Valid out \<and> vo_Signers out = []
      then (out\<lparr>vo_Valid := False\<rparr>, w_add w ''verify''
        ''the signature verified but no signer could be identified; a verdict that names nobody is not a verdict'')
      else (out, w))"

text \<open>Then the answer, its error and its views.\<close>

definition verify_answer :: "'c service \<Rightarrow> lang \<Rightarrow> verify_input \<Rightarrow> time \<Rightarrow> verify_output \<Rightarrow> goerr option \<Rightarrow>
    warnings \<Rightarrow> (verify_output \<times> goerr option) \<times> effect list" where
  "verify_answer s ctx inp now out err w =
     (case withdraw_unnamed out w of (out, w) \<Rightarrow>
        (case err of
           Some e \<Rightarrow>
             if isSoftVerifyFailure e then
               (case attachSynthesis s inp now (out\<lparr>vo_Warnings := w, vo_LibError := Some (libErrorFrom ctx e)\<rparr>) of
                  (out, audits) \<Rightarrow> ((out, None), audits))
             else ((out\<lparr>vo_Warnings := w\<rparr>, Some (domainErr ''Verify'' e)), [])
         | None \<Rightarrow>
             (case attachSynthesis s inp now (out\<lparr>vo_Warnings := w\<rparr>) of (out, audits) \<Rightarrow> ((out, None), audits))))"

definition verify_resolved :: "'c service \<Rightarrow> lang \<Rightarrow> 'c \<Rightarrow> verify_input \<Rightarrow> verify_clock \<Rightarrow> string \<Rightarrow>
    (((verify_output \<times> goerr option) \<times> effect list) \<times> 'c) go" where
  "verify_resolved s ctx c inp clock dataPath =
     (case verify_attempts s inp dataPath of
        Panics \<Rightarrow> Panics
      | Returns (trusted, res, err) \<Rightarrow>
          (case verify_signers s ctx inp dataPath (ck_composite clock) (trusted, res, err) of
             Panics \<Rightarrow> Panics
           | Returns (out, err, w) \<Rightarrow>
               (case verify_revocation s ctx inp trusted (ck_signer clock) out w c of
                  Panics \<Rightarrow> Panics
                | Returns ((out, w), c) \<Rightarrow> Returns (verify_answer s ctx inp (ck_synthesis clock) out err w, c))))"

definition Verify :: "'c service \<Rightarrow> lang \<Rightarrow> 'c \<Rightarrow> verify_input \<Rightarrow> verify_clock \<Rightarrow>
    (((verify_output \<times> goerr option) \<times> effect list) \<times> 'c) go" where
  "Verify s ctx c inp clock =
     (if \<not> Format_Valid (vi_Format inp) then
        Returns (((no_verify_output, Some (NewError KindInvalid ''Verify'' ''unknown signature format'')), []), c)
      else if IsRef (vi_DataRef inp) \<and> vi_Format inp \<noteq> FormatCMS then
        Returns (((no_verify_output, Some (NewError KindInvalid ''Verify'' ''by-reference data supported for CMS only'')), []), c)
      else case resolveData s ''Verify'' (vi_DataRef inp) of
        Inl e \<Rightarrow> Returns (((no_verify_output, Some e), []), c)
      | Inr dataPath \<Rightarrow>
          (case verify_resolved s ctx c inp clock dataPath of
             Panics \<Rightarrow> Panics
           | Returns ((r, effs), c) \<Rightarrow>
               Returns ((r, data_got (vi_DataRef inp) dataPath @ effs @ data_freed (vi_DataRef inp) dataPath), c)))"

section \<open>Extract and CertInfo\<close>

record extract_output =
  eo_Content :: bytes
  eo_Detached :: bool
  eo_LibError :: "lib_error option"

definition no_extract_output :: extract_output where
  "no_extract_output = \<lparr>eo_Content = [], eo_Detached = False, eo_LibError = None\<rparr>"

definition Extract :: "'c service \<Rightarrow> lang \<Rightarrow> string \<Rightarrow> bytes \<Rightarrow> bytes \<Rightarrow> extract_output \<times> goerr option" where
  "Extract s ctx format signature data =
     (if \<not> Format_Valid format then
        (no_extract_output, Some (NewError KindInvalid ''Extract'' ''unknown signature format''))
      else case verifyContainer s format \<lparr>vq_Signature = signature, vq_Data = data, vq_Path = [], vq_Detached = False,
                  vq_InputPEM = False, vq_OutPEM = True, vq_CheckCertTime = False, vq_SignerIndex = 0,
                  vq_TrustedCerts = []\<rparr> of
             (res, err) \<Rightarrow>
               (let out = \<lparr>eo_Content = dv_Content res, eo_Detached = (dv_Content res = []), eo_LibError = None\<rparr>
                in case err of
                     None \<Rightarrow> (out, None)
                   | Some e \<Rightarrow>
                       if \<not> isSoftVerifyFailure e then (out, Some (domainErr ''Extract'' e))
                       else (out\<lparr>eo_LibError := Some (libErrorFrom ctx e)\<rparr>, None)))"

record cert_info_input =
  ci_Cert :: bytes
  ci_Key :: key_spec
  ci_Format :: string
  ci_BuildChain :: bool
  ci_Validate :: bool
  ci_ExtractClaims :: bool
  ci_Method :: string
  ci_TrustedCerts :: "trusted_cert list"

record cert_info_output =
  co_Certificate :: certificate
  co_Chain :: "certificate list"
  co_Algorithm :: "algorithm_info option"
  co_Claims :: "claims option"
  co_Warnings :: warnings

definition no_cert_info :: cert_info_output where
  "no_cert_info = \<lparr>co_Certificate = no_certificate, co_Chain = [], co_Algorithm = None, co_Claims = None,
     co_Warnings = []\<rparr>"

text \<open>The certificate to parse: the given one, or the owner certificate of the key.\<close>

definition cert_info_source :: "'c service \<Rightarrow> cert_info_input \<Rightarrow> (goerr + bytes \<times> string) \<times> effect list" where
  "cert_info_source s inp =
     (if ci_Cert inp = [] \<and> \<not> KeySpec_Empty (ci_Key inp) then
        (case resolveKey s (ci_Key inp) of
           Inl e \<Rightarrow> (Inl (domainErr ''CertInfo'' e), [])
         | Inr ref \<Rightarrow>
             (case pv_ExportOwnerCert (sv_prov s) ref CertPEM of
                (_, Some e) \<Rightarrow> (Inl (domainErr ''CertInfo'' e), [GotKey ref, FreedKey ref])
              | (cert, None) \<Rightarrow> (Inr (cert, EncodingPEM), [GotKey ref, FreedKey ref])))
      else (Inr (ci_Cert inp, ci_Format inp), []))"

definition cert_info_chain :: "'c service \<Rightarrow> cert_info_input \<Rightarrow> certificate \<Rightarrow> bytes \<Rightarrow> warnings \<Rightarrow>
    certificate list \<times> warnings" where
  "cert_info_chain s inp cert der w =
     (if ci_BuildChain inp then
        (case buildChain (sv_golib s) cert der (mergedTrusted (sv_trust s) (ci_TrustedCerts inp)) (sv_fetcher s) of
           (chain, complete, anchored) \<Rightarrow>
             (chain,
              if \<not> complete then w_add w ''chain'' ''the chain could not be built up to a self-issued root''
              else if \<not> anchored then
                w_add w ''chain'' ''the chain is complete but does not end in a configured trust anchor''
              else w))
      else ([], w))"

definition cert_info_validate :: "'c service \<Rightarrow> lang \<Rightarrow> 'c \<Rightarrow> cert_info_input \<Rightarrow> bytes \<Rightarrow> string \<Rightarrow> warnings \<Rightarrow> time \<Rightarrow>
    (warnings \<times> 'c) go" where
  "cert_info_validate s ctx c inp certBytes format w now =
     (if ci_Validate inp then
        (case Validate s ctx c \<lparr>va_Cert = certBytes, va_Format = format, va_Method = ci_Method inp,
                va_CheckTime = zero_time, va_WantOCSP = False, va_TrustedCerts = ci_TrustedCerts inp,
                va_ResponderURL = [], va_CRL = []\<rparr> now of
           Panics \<Rightarrow> Panics
         | Returns ((vres, Some e), c') \<Rightarrow> Returns (w_addErr w ''validation'' e, c')
         | Returns ((vres, None), c') \<Rightarrow>
             Returns (case rs_LibError (vt_Status vres) of
                        Some le \<Rightarrow> w_add w ''validation'' (le_Code le) | None \<Rightarrow> w, c'))
      else Returns (w, c))"

definition CertInfo :: "'c service \<Rightarrow> lang \<Rightarrow> 'c \<Rightarrow> cert_info_input \<Rightarrow> time \<Rightarrow>
    (((cert_info_output \<times> goerr option) \<times> effect list) \<times> 'c) go" where
  "CertInfo s ctx c inp now =
     (case cert_info_source s inp of
        (Inl e, effs) \<Rightarrow> Returns (((no_cert_info, Some e), effs), c)
      | (Inr (certBytes, format), effs) \<Rightarrow>
          if certBytes = [] then
            Returns (((no_cert_info, Some (NewError KindInvalid ''CertInfo'' ''no certificate provided'')), effs), c)
          else case pv_CertProperties (sv_prov s) certBytes (certFormat format) of
            (_, Some e) \<Rightarrow> Returns (((no_cert_info, Some (domainErr ''CertInfo'' e)), effs), c)
          | (props, None) \<Rightarrow>
              (let der = toDER (sv_golib s) certBytes format;
                   (cert, w) = parseCertificate (sv_golib s) props der [] [];
                   (chain, w) = cert_info_chain s inp cert der w
               in case cert_info_validate s ctx c inp certBytes format w now of
                    Panics \<Rightarrow> Panics
                  | Returns (w, c') \<Rightarrow>
                      Returns (((\<lparr>co_Certificate = cert, co_Chain = chain, co_Algorithm = Some (algorithmInfo cert),
                        co_Claims = (if ci_ExtractClaims inp then Some (ClaimsFromCertificate cert) else None),
                        co_Warnings = w\<rparr>, None), effs), c')))"

section \<open>Archive\<close>

record archive_input =
  ai_Signature :: bytes
  ai_InputPEM :: bool
  ai_Data :: bytes
  ai_Detached :: bool
  ai_ResponderURL :: string
  ai_TrustedCerts :: "trusted_cert list"
  ai_OutputPEM :: bool
  ai_AllowRevoked :: bool

definition archive_verify_input :: "archive_input \<Rightarrow> verify_input" where
  "archive_verify_input inp =
     \<lparr>vi_Format = FormatCMS, vi_Signature = ai_Signature inp, vi_Data = ai_Data inp,
      vi_DataRef = \<lparr>dr_Path = [], dr_URL = []\<rparr>, vi_Detached = ai_Detached inp, vi_InputPEM = ai_InputPEM inp,
      vi_CheckCertTime = False, vi_ExtractContent = False, vi_ExtractClaims = False, vi_Explain = False,
      vi_Report = False, vi_Receipt = False, vi_TrustedCerts = ai_TrustedCerts inp, vi_RevocationCheck = None,
      vi_RevocationMethod = [], vi_ResponderURL = ai_ResponderURL inp, vi_Archive = True\<rparr>"

fun revoked_names :: "nat \<Rightarrow> signer list \<Rightarrow> string list" where
  "revoked_names i [] = []"
| "revoked_names i (sg # sgs) =
     (case sg_Revocation sg of
        Some r \<Rightarrow>
          if rs_Determinate r \<and> rs_Revoked r then
            (let name = sj_CommonName (ct_Subject (sg_Certificate sg))
             in (if name = [] then ''signer['' @ decimal i @ '']'' else name) # revoked_names (Suc i) sgs)
          else revoked_names (Suc i) sgs
      | None \<Rightarrow> revoked_names (Suc i) sgs)"

definition revokedSigners :: "signer list \<Rightarrow> string list" where
  "revokedSigners signers = revoked_names 0 signers"

definition no_archive_output :: archive_output where
  "no_archive_output = \<lparr>ao_Signature = [], ao_OCSPResponses = 0, ao_CRLs = 0, ao_Certificates = 0, ao_Level = [],
     ao_Warnings = []\<rparr>"

text \<open>What Archive makes of a verification that returned.\<close>

definition archive_answer :: "'c service \<Rightarrow> archive_input \<Rightarrow> verify_output \<Rightarrow> archive_output \<times> goerr option" where
  "archive_answer s inp verified =
     (let refuse = (\<lambda>k msg. (no_archive_output, Some (NewError k ''Archive'' msg)));
          revoked = revokedSigners (vo_Signers verified)
      in if vo_Signers verified = [] then refuse KindInvalid ''container carries no signers to collect evidence for''
         else if revoked \<noteq> [] \<and> \<not> ai_AllowRevoked inp then
           refuse KindInvalid (''signer certificate is revoked ('' @ join_comma revoked @ ''); archiving it would file evidence of a repudiated signature '' @ em_dash @ '' set allowRevoked to do it deliberately'')
         else if revoked = [] \<and> \<not> vo_Valid verified then
           refuse KindInvalid ''the container does not verify; archiving it would preserve a signature that is already broken''
         else case vo_Archive verified of
           None \<Rightarrow>
             (no_archive_output\<lparr>ao_Warnings := vo_Warnings verified\<rparr>,
              Some (NewError KindUnavailable ''Archive'' ''no long-term validation evidence could be collected (responder unreachable, or nothing to embed)''))
         | Some archived \<Rightarrow>
             (let out = archived\<lparr>ao_Warnings := ao_Warnings archived @ vo_Warnings verified\<rparr>
              in if ai_OutputPEM inp \<noteq> ai_InputPEM inp then
                   (case reencodeCMS (sv_golib s) (sv_cms s) (ao_Signature out) (ai_InputPEM inp) (ai_OutputPEM inp) of
                      Inl e \<Rightarrow> (no_archive_output, Some (DomainError KindInvalid ''Archive'' (Some e)))
                    | Inr sig \<Rightarrow> (out\<lparr>ao_Signature := sig\<rparr>, None))
                 else (out, None)))"

definition Archive :: "'c service \<Rightarrow> lang \<Rightarrow> 'c \<Rightarrow> archive_input \<Rightarrow> verify_clock \<Rightarrow>
    (((archive_output \<times> goerr option) \<times> effect list) \<times> 'c) go" where
  "Archive s ctx c inp clock =
     (if ai_Signature inp = [] then
        Returns (((no_archive_output, Some (NewError KindInvalid ''Archive'' ''signature is required'')), []), c)
      else case Verify s ctx c (archive_verify_input inp) clock of
        Panics \<Rightarrow> Panics
      | Returns (((verified, Some e), effs), c') \<Rightarrow>
          Returns (((no_archive_output, Some (domainErr ''Archive'' e)), effs), c')
      | Returns (((verified, None), effs), c') \<Rightarrow> Returns ((archive_answer s inp verified, effs), c'))"

definition ArchivedEvidence :: "'c service \<Rightarrow> bytes \<Rightarrow> bool \<Rightarrow> goerr + nat \<times> nat \<times> nat" where
  "ArchivedEvidence s signature inputPEM =
     (case (if inputPEM then gl_PemDecode (sv_golib s) signature else Some signature) of
        None \<Rightarrow> Inl (NewError KindInvalid ''ArchivedEvidence'' ''signature is not valid PEM'')
      | Some der \<Rightarrow>
          (case cm_EmbeddedEvidence (sv_cms s) der of
             Inl e \<Rightarrow> Inl (DomainError KindInvalid ''ArchivedEvidence'' (Some e))
           | Inr ev \<Rightarrow> Inr (length (ce_OCSPResponses ev), length (ce_CRLs ev), length (ce_Certificates ev))))"

section \<open>What each stage keeps\<close>

definition known_revoked :: "signer \<Rightarrow> bool" where
  "known_revoked sg \<longleftrightarrow> (\<exists>r. sg_Revocation sg = Some r \<and> rs_Determinate r \<and> rs_Revoked r)"

text \<open>The revocation check sets the status of a signer and clears its verdict when it is revoked.\<close>

definition checked :: "signer \<Rightarrow> signer \<Rightarrow> bool" where
  "checked sg sg' \<longleftrightarrow>
     sg' = sg\<lparr>sg_Revocation := sg_Revocation sg', sg_Valid := (sg_Valid sg \<and> \<not> known_revoked sg')\<rparr> \<and>
     (ct_PEM (sg_Certificate sg) \<noteq> [] \<longrightarrow> sg_Revocation sg' \<noteq> None)"

lemma check_signer_checked:
  assumes "check_signer s ctx inp trusted now i sg w c = Returns ((sg', revoked, resp, w'), c')"
    and "sg_Revocation sg = None"
  shows "checked sg sg' \<and> (revoked \<longleftrightarrow> known_revoked sg')"
proof (cases "ct_PEM (sg_Certificate sg) = []")
  case True
  with assms show ?thesis by (auto simp: check_signer_def checked_def known_revoked_def Let_def)
next
  case False
  let ?v = "Validate s ctx c (revocation_input inp (revocation_method inp) (ct_PEM (sg_Certificate sg)) trusted) now"
  from False assms(1) obtain res err c1 where v: "?v = Returns ((res, err), c1)"
    by (auto simp: check_signer_def Let_def split: go.splits)
  show ?thesis
  proof (cases err)
    case None
    with v False assms show ?thesis
      by (auto simp: check_signer_def checked_def known_revoked_def Let_def split: if_splits)
  next
    case (Some e)
    with v False assms show ?thesis
      by (auto simp: check_signer_def checked_def known_revoked_def Let_def no_status_def)
  qed
qed

lemma check_loop_checked:
  "check_loop s ctx inp trusted now i sgs w c = Returns ((sgs', revoked, resps, w'), c') \<Longrightarrow>
   \<forall>sg \<in> set sgs. sg_Revocation sg = None \<Longrightarrow>
   list_all2 checked sgs sgs' \<and> (revoked \<longleftrightarrow> (\<exists>sg \<in> set sgs'. known_revoked sg))"
proof (induction sgs arbitrary: i w c sgs' revoked resps w' c')
  case (Cons sg sgs)
  from Cons.prems(1) obtain sg1 rev1 resp1 w1 c1 where
    one: "check_signer s ctx inp trusted (now i) i sg w c = Returns ((sg1, rev1, resp1, w1), c1)"
    by (auto split: go.splits)
  let ?rest = "check_loop s ctx inp trusted now (Suc i) sgs w1 c1"
  from one Cons.prems(1) have "?rest \<noteq> Panics" by auto
  then obtain sgs1 rev2 resps2 w2 c2 where rest: "?rest = Returns ((sgs1, rev2, resps2, w2), c2)"
    by (metis go.exhaust prod_cases4 surj_pair)
  from one rest Cons.prems(1) have "sgs' = sg1 # sgs1" "revoked = (rev1 \<or> rev2)" by auto
  then show ?case using check_signer_checked [OF one] Cons.IH [OF rest] Cons.prems(2) by auto
qed simp

lemma add_explanation_keeps [simp]:
  "vo_Valid (add_explanation s inp now out) = vo_Valid out"
  "vo_Signers (add_explanation s inp now out) = vo_Signers out"
  "vo_LibError (add_explanation s inp now out) = vo_LibError out"
  "vo_Archive (add_explanation s inp now out) = vo_Archive out"
  by (simp_all add: add_explanation_def)

lemma add_report_keeps [simp]:
  "vo_Valid (add_report s inp now out) = vo_Valid out"
  "vo_Signers (add_report s inp now out) = vo_Signers out"
  "vo_LibError (add_report s inp now out) = vo_LibError out"
  "vo_Archive (add_report s inp now out) = vo_Archive out"
  by (simp_all add: add_report_def)

lemma add_receipt_keeps [simp]:
  "vo_Valid (add_receipt s inp now out) = vo_Valid out"
  "vo_Signers (add_receipt s inp now out) = vo_Signers out"
  "vo_LibError (add_receipt s inp now out) = vo_LibError out"
  "vo_Archive (add_receipt s inp now out) = vo_Archive out"
  "vo_Report (add_receipt s inp now out) = vo_Report out"
  by (simp_all add: add_receipt_def split: sum.splits)

lemma attachSynthesis_keeps [simp]:
  "vo_Valid (fst (attachSynthesis s inp now out)) = vo_Valid out"
  "vo_Signers (fst (attachSynthesis s inp now out)) = vo_Signers out"
  "vo_LibError (fst (attachSynthesis s inp now out)) = vo_LibError out"
  "vo_Archive (fst (attachSynthesis s inp now out)) = vo_Archive out"
  by (simp_all add: attachSynthesis_def Let_def)

lemma attachSynthesis_audits: "\<forall>e \<in> set (snd (attachSynthesis s inp now out)). \<exists>ev. e = Audited ev"
  by (simp add: attachSynthesis_def recordAudit_def Let_def)

lemma attachArchive_keeps [simp]:
  "vo_Valid (fst (attachArchive s inp ocsp out w)) = vo_Valid out"
  "vo_Signers (fst (attachArchive s inp ocsp out w)) = vo_Signers out"
  by (simp_all add: attachArchive_def split: sum.splits)

lemma verify_attempts_source:
  assumes "verify_attempts s inp path = Returns (trusted, res, err)"
  shows "verifyContainer s (vi_Format inp) (verify_request_of inp path trusted) = (res, err)"
  using assms by (auto simp: verify_attempts_def Let_def split: prod.splits go.splits if_splits)

text \<open>The two ways a signature is accepted: by the driver, or by the composite of its parts.\<close>

definition driver_accepts :: "'c service \<Rightarrow> verify_input \<Rightarrow> verify_request \<Rightarrow> bool" where
  "driver_accepts s inp req \<longleftrightarrow> dv_Valid (fst (verifyContainer s (vi_Format inp) req))"

definition composite_accepts :: "'c service \<Rightarrow> verify_input \<Rightarrow> time \<Rightarrow> verify_request \<Rightarrow> signer list \<Rightarrow> bool" where
  "composite_accepts s inp now req sgs \<longleftrightarrow> sv_verifyChain s \<and> vi_CheckCertTime inp \<and>
     isAnchorFailure (snd (verifyContainer s (vi_Format inp) req)) \<and>
     driver_accepts s inp (req\<lparr>vq_CheckCertTime := False\<rparr>) \<and>
     snd (verifyContainer s (vi_Format inp) (req\<lparr>vq_CheckCertTime := False\<rparr>)) = None \<and>
     (\<forall>sg \<in> set sgs. composite_signer now sg)"

lemma verify_signers_stage:
  assumes "verify_signers s ctx inp path now (trusted, res, err) = Returns (out, err', w)"
    and "verifyContainer s (vi_Format inp) (verify_request_of inp path trusted) = (res, err)"
  shows "(\<forall>sg \<in> set (vo_Signers out). sg_Revocation sg = None) \<and> vo_Archive out = None \<and> vo_Explanation out = None \<and>
    (vo_Valid out \<longrightarrow> (\<forall>sg \<in> set (vo_Signers out). sg_Valid sg) \<and>
       (driver_accepts s inp (verify_request_of inp path trusted) \<or>
        composite_accepts s inp now (verify_request_of inp path trusted) (vo_Signers out)))"
proof -
  from assms(1) obtain sgs w1 where
    b: "buildSigners s ctx res (vi_Format inp) (vi_Signature inp) trusted [] = Returns (sgs, w1)"
    by (auto simp: verify_signers_def split: go.splits)
  have sgs: "sg_Valid sg = dv_Valid res \<and> sg_Revocation sg = None" if "sg \<in> set sgs" for sg
    using b that by (rule buildSigners_mem) (simp add: signer_spec_def)
  have update: "composite_signer now (sg\<lparr>sg_Claims := x\<rparr>) = composite_signer now sg"
    "composite_signer now (sg\<lparr>sg_Valid := y\<rparr>) = composite_signer now sg" for sg x y
    by (simp_all add: composite_signer_def)
  from assms(1) b show ?thesis
    by (auto simp: verify_signers_def Let_def sgs no_verify_output_def driver_accepts_def composite_accepts_def assms(2)
        compositeConfirms_def list_all_iff update split: if_splits prod.splits)
qed

lemma verify_revocation_stage:
  assumes "verify_revocation s ctx inp trusted now out1 w1 c = Returns ((out2, w2), c')"
    and "\<forall>sg \<in> set (vo_Signers out1). sg_Revocation sg = None"
  shows "if vo_Valid out1 \<and> RevocationRequested inp
    then list_all2 checked (vo_Signers out1) (vo_Signers out2) \<and>
         (vo_Valid out2 \<longleftrightarrow> \<not> (\<exists>sg \<in> set (vo_Signers out2). known_revoked sg))
    else out2 = out1"
proof (cases "vo_Valid out1 \<and> RevocationRequested inp")
  case True
  with assms(1) obtain out3 ocsp w3 where chk: "checkRevocation s ctx inp trusted now out1 w1 c = Returns ((out3, ocsp, w3), c')"
    and out2: "out2 = (if vi_Archive inp then fst (attachArchive s inp ocsp out3 w3) else out3)"
    by (auto simp: verify_revocation_def split: go.splits prod.splits if_splits)
  from chk obtain sgs revoked where
    lp: "check_loop s ctx inp trusted now 0 (vo_Signers out1) w1 c = Returns ((sgs, revoked, ocsp, w3), c')"
    and out3: "out3 = out1\<lparr>vo_Signers := sgs, vo_Valid := (vo_Valid out1 \<and> \<not> revoked)\<rparr>"
    by (auto simp: checkRevocation_def split: go.splits prod.splits)
  from check_loop_checked [OF lp assms(2)] True out2 out3 show ?thesis by simp
next
  case False
  with assms(1) show ?thesis by (auto simp: verify_revocation_def)
qed

lemma verify_answer_stage:
  assumes "verify_answer s ctx inp now out2 err1 w = ((out, err), audits)"
  shows "vo_Signers out = vo_Signers out2 \<and> vo_Archive out = vo_Archive out2 \<and>
    (vo_Valid out \<longleftrightarrow> vo_Valid out2 \<and> vo_Signers out2 \<noteq> []) \<and>
    (err = None \<longrightarrow> (\<forall>e. err1 = Some e \<longrightarrow> isSoftVerifyFailure e \<and> vo_LibError out = Some (libErrorFrom ctx e))) \<and>
    (\<forall>e \<in> set audits. \<exists>ev. e = Audited ev)"
proof -
  obtain out3 w3 where w: "withdraw_unnamed out2 w = (out3, w3)" by fastforce
  then have out3: "vo_Signers out3 = vo_Signers out2" "vo_Archive out3 = vo_Archive out2"
    "vo_Valid out3 \<longleftrightarrow> vo_Valid out2 \<and> vo_Signers out2 \<noteq> []"
    by (auto simp: withdraw_unnamed_def split: if_splits)
  show ?thesis
  proof (cases err1)
    case None
    with assms w have "(out, audits) = attachSynthesis s inp now (out3\<lparr>vo_Warnings := w3\<rparr>)"
      by (simp add: verify_answer_def split: prod.splits)
    from this [symmetric] out3 None show ?thesis
      using attachSynthesis_keeps [of s inp now "out3\<lparr>vo_Warnings := w3\<rparr>"]
        attachSynthesis_audits [of s inp now "out3\<lparr>vo_Warnings := w3\<rparr>"] by simp
  next
    case (Some e)
    let ?out = "out3\<lparr>vo_Warnings := w3, vo_LibError := Some (libErrorFrom ctx e)\<rparr>"
    show ?thesis
    proof (cases "isSoftVerifyFailure e")
      case True
      with assms w Some have "(out, audits) = attachSynthesis s inp now ?out"
        by (simp add: verify_answer_def split: prod.splits)
      from this [symmetric] out3 Some True show ?thesis
        using attachSynthesis_keeps [of s inp now ?out] attachSynthesis_audits [of s inp now ?out] by simp
    next
      case False
      with assms w Some have "out = out3\<lparr>vo_Warnings := w3\<rparr>" "err \<noteq> None" "audits = []"
        by (auto simp: verify_answer_def)
      with out3 show ?thesis by auto
    qed
  qed
qed

lemma Verify_cases:
  assumes "Verify s ctx c inp clock = Returns (((out, err), effs), c')"
  obtains (refused) "err \<noteq> None" "effs = []" "out = no_verify_output"
  | (ran) path trusted res err0 out1 err1 w1 out2 w2 audits where
      "resolveData s ''Verify'' (vi_DataRef inp) = Inr path"
      "verify_attempts s inp path = Returns (trusted, res, err0)"
      "verify_signers s ctx inp path (ck_composite clock) (trusted, res, err0) = Returns (out1, err1, w1)"
      "verify_revocation s ctx inp trusted (ck_signer clock) out1 w1 c = Returns ((out2, w2), c')"
      "verify_answer s ctx inp (ck_synthesis clock) out2 err1 w2 = ((out, err), audits)"
      "effs = data_got (vi_DataRef inp) path @ audits @ data_freed (vi_DataRef inp) path"
proof (cases "\<not> Format_Valid (vi_Format inp) \<or> (IsRef (vi_DataRef inp) \<and> vi_Format inp \<noteq> FormatCMS)")
  case True
  with assms show thesis by (intro refused) (auto simp: Verify_def split: if_splits)
next
  case ok: False
  show thesis
  proof (cases "resolveData s ''Verify'' (vi_DataRef inp)")
    case (Inl e)
    with ok assms show thesis by (intro refused) (auto simp: Verify_def)
  next
    case (Inr path)
    with ok have "Verify s ctx c inp clock = (case verify_resolved s ctx c inp clock path of
             Panics \<Rightarrow> Panics
           | Returns ((r, effs), c) \<Rightarrow>
               Returns ((r, data_got (vi_DataRef inp) path @ effs @ data_freed (vi_DataRef inp) path), c))"
      by (auto simp: Verify_def)
    with assms obtain audits where run: "verify_resolved s ctx c inp clock path = Returns (((out, err), audits), c')"
      and effs: "effs = data_got (vi_DataRef inp) path @ audits @ data_freed (vi_DataRef inp) path"
      by (auto split: go.splits)
    from run obtain trusted res err0 where att: "verify_attempts s inp path = Returns (trusted, res, err0)"
      by (auto simp: verify_resolved_def split: go.splits)
    with run obtain out1 err1 w1 where
      sig: "verify_signers s ctx inp path (ck_composite clock) (trusted, res, err0) = Returns (out1, err1, w1)"
      by (auto simp: verify_resolved_def split: go.splits)
    with run att obtain out2 w2 where
      rev: "verify_revocation s ctx inp trusted (ck_signer clock) out1 w1 c = Returns ((out2, w2), c')"
      and ans: "verify_answer s ctx inp (ck_synthesis clock) out2 err1 w2 = ((out, err), audits)"
      by (auto simp: verify_resolved_def split: go.splits)
    from Inr att sig rev ans effs show thesis by (rule ran)
  qed
qed

end
