(* ===== verification/Verify_Properties.thy ===== *)
theory Verify_Properties
  imports Verify
begin

text \<open>
  What verification and archiving guarantee to a caller: the meaning of a valid verdict, of a
  valid card, of an archived container, the branch for a negative verdict of the driver, and
  that by-reference payloads are released.
\<close>

section \<open>A valid verdict\<close>

lemma checked_keeps:
  assumes "checked sg sg'"
  shows "composite_signer now sg' = composite_signer now sg" "sg_Certificate sg' = sg_Certificate sg"
    "sg_Valid sg' \<longleftrightarrow> sg_Valid sg \<and> \<not> known_revoked sg'"
proof -
  have eq: "sg' = sg\<lparr>sg_Revocation := sg_Revocation sg', sg_Valid := (sg_Valid sg \<and> \<not> known_revoked sg')\<rparr>"
    using assms by (simp add: checked_def)
  show "composite_signer now sg' = composite_signer now sg" by (subst eq) (simp add: composite_signer_def)
  show "sg_Certificate sg' = sg_Certificate sg" by (subst eq) simp
  show "sg_Valid sg' \<longleftrightarrow> sg_Valid sg \<and> \<not> known_revoked sg'" by (subst eq) simp
qed

lemma checked_list:
  assumes "list_all2 checked sgs sgs'" and "sg' \<in> set sgs'"
  obtains sg where "sg \<in> set sgs" "checked sg sg'"
  using assms by (metis in_set_conv_nth list_all2_conv_all_nth)

text \<open>
  Claim C1: a valid verdict means what it says. If a verification returns without an error and
  says valid, then it names at least one signer, every signer is itself marked valid, no signer
  is known to be revoked, and, when revocation was requested, every signer with a certificate
  has a revocation status. The signature was accepted either by the driver on the request's own
  data and trust set, or by the composite: chain verification is on, the driver failed only on
  the certificate-time gate, it accepts the same container with that gate off, and every signer
  chains cryptographically to a trust anchor within its validity window.
\<close>

theorem verify_valid_means:
  assumes "Verify s ctx c inp clock = Returns (((out, None), effs), c')" and "vo_Valid out"
  shows "vo_Signers out \<noteq> [] \<and>
    (\<forall>sg \<in> set (vo_Signers out). sg_Valid sg \<and> \<not> known_revoked sg \<and>
       (RevocationRequested inp \<and> ct_PEM (sg_Certificate sg) \<noteq> [] \<longrightarrow> sg_Revocation sg \<noteq> None)) \<and>
    (\<exists>path trusted. let req = verify_request_of inp path trusted
       in driver_accepts s inp req \<or> composite_accepts s inp (ck_composite clock) req (vo_Signers out))"
  using assms(1)
proof (cases rule: Verify_cases)
  case (ran path trusted res err0 out1 err1 w1 out2 w2 audits)
  let ?req = "verify_request_of inp path trusted"
  note stage1 = verify_signers_stage [OF ran(3) verify_attempts_source [OF ran(2)]]
  have stage2: "if vo_Valid out1 \<and> RevocationRequested inp
    then list_all2 checked (vo_Signers out1) (vo_Signers out2) \<and>
         (vo_Valid out2 \<longleftrightarrow> \<not> (\<exists>sg \<in> set (vo_Signers out2). known_revoked sg))
    else out2 = out1"
    using verify_revocation_stage [OF ran(4)] stage1 by simp
  have out: "vo_Signers out = vo_Signers out2" "vo_Valid out2" "vo_Signers out2 \<noteq> []"
    using verify_answer_stage [OF ran(5)] assms(2) by auto
  have valid1: "vo_Valid out1" using stage2 out(2) by (auto split: if_splits)
  show ?thesis
  proof (cases "RevocationRequested inp")
    case True
    with stage2 valid1 out have rel: "list_all2 checked (vo_Signers out1) (vo_Signers out)"
      and clear: "\<forall>sg \<in> set (vo_Signers out). \<not> known_revoked sg" by auto
    have each: "sg_Valid sg \<and> (ct_PEM (sg_Certificate sg) \<noteq> [] \<longrightarrow> sg_Revocation sg \<noteq> None)"
      and composite: "(\<forall>sg \<in> set (vo_Signers out1). composite_signer t sg) \<Longrightarrow> composite_signer t sg"
      if sg: "sg \<in> set (vo_Signers out)" for sg t
    proof -
      from rel sg obtain sg1 where sg1: "sg1 \<in> set (vo_Signers out1)" "checked sg1 sg" by (rule checked_list)
      note keeps = checked_keeps [OF sg1(2)]
      show "sg_Valid sg \<and> (ct_PEM (sg_Certificate sg) \<noteq> [] \<longrightarrow> sg_Revocation sg \<noteq> None)"
        using stage1 valid1 clear sg sg1 keeps(2,3) by (simp add: checked_def)
      show "(\<forall>sg \<in> set (vo_Signers out1). composite_signer t sg) \<Longrightarrow> composite_signer t sg"
        using sg1 keeps(1) by simp
    qed
    have "composite_accepts s inp (ck_composite clock) ?req (vo_Signers out1) \<Longrightarrow>
        composite_accepts s inp (ck_composite clock) ?req (vo_Signers out)"
      using composite by (simp add: composite_accepts_def)
    with each clear out stage1 valid1 show ?thesis unfolding Let_def by metis
  next
    case False
    with stage2 have "out2 = out1" by simp
    with out stage1 valid1 False show ?thesis by (auto simp: known_revoked_def Let_def)
  qed
qed simp


text \<open>A service whose driver accepts one signer, with revocation answered by the same driver.\<close>

definition demo_verify :: verify_input where
  "demo_verify = \<lparr>vi_Format = FormatCMS, vi_Signature = ''cms'', vi_Data = [], vi_DataRef = \<lparr>dr_Path = [], dr_URL = []\<rparr>,
     vi_Detached = False, vi_InputPEM = False, vi_CheckCertTime = False, vi_ExtractContent = True,
     vi_ExtractClaims = False, vi_Explain = True, vi_Report = True, vi_Receipt = False, vi_TrustedCerts = [],
     vi_RevocationCheck = None, vi_RevocationMethod = [], vi_ResponderURL = ''http://ocsp'', vi_Archive = True\<rparr>"

definition demo_clock :: verify_clock where
  "demo_clock = \<lparr>ck_composite = 1, ck_signer = (\<lambda>i. 2), ck_synthesis = 3\<rparr>"

definition verifying_service :: "validate_result \<Rightarrow> unit service" where
  "verifying_service answer = demo_service (verifying_driver [''LR''] answer) None"

lemmas demo_verify_defs = verifying_service_def demo_verify_def demo_clock_def demo_service_def verifying_driver_def
  idle_driver_def demo_cms_def status_answer_def

lemma demo_Verify:
  "case Verify (verifying_service (status_answer CertGood)) plain_lang () demo_verify demo_clock of
     Returns (((out, err), effs), c) \<Rightarrow> err = None \<and> vo_Valid out \<and> vo_Archive out \<noteq> None | Panics \<Rightarrow> False"
  by code_simp

lemma demo_Verify_run:
  obtains out effs where
    "Verify (verifying_service (status_answer CertGood)) plain_lang () demo_verify demo_clock = Returns (((out, None), effs), ())"
    "vo_Valid out" "vo_Archive out \<noteq> None"
  using demo_Verify by (auto split: go.splits prod.splits)

theorem verify_valid_means_witness:
  "case Verify (verifying_service (status_answer CertGood)) plain_lang () demo_verify demo_clock of
     Returns (((out, err), effs), c) \<Rightarrow> vo_Signers out \<noteq> [] \<and> (\<forall>sg \<in> set (vo_Signers out). \<not> known_revoked sg)"
proof -
  obtain out effs where
    run: "Verify (verifying_service (status_answer CertGood)) plain_lang () demo_verify demo_clock = Returns (((out, None), effs), ())"
    and valid: "vo_Valid out" by (rule demo_Verify_run)
  from verify_valid_means [OF run valid] run show ?thesis by simp
qed

section \<open>The card\<close>

lemma steps_explanation:
  "signatureStep (out\<lparr>vo_Explanation := x\<rparr>) = signatureStep out"
  "revocationStep (out\<lparr>vo_Explanation := x\<rparr>) = revocationStep out"
  by (simp_all add: signatureStep_def revocationStep_def split: prod.splits)

lemma buildDiagnosis_explanation [simp]:
  "buildDiagnosis (out\<lparr>vo_Explanation := x\<rparr>) strict on now = buildDiagnosis out strict on now"
  by (simp add: buildDiagnosis_def steps_explanation)

lemma add_explanation_valid_iff:
  assumes "vo_Explanation out = None"
  shows "rp_Verdict (buildReport sha (add_explanation s inp now out) (vi_CheckCertTime inp) (sv_verifyChain s) sig content now) =
      VerdictValid \<longleftrightarrow> nothing_doubtful (vi_CheckCertTime inp) (sv_verifyChain s) now out"
proof -
  let ?out = "add_explanation s inp now out"
  have "vo_Explanation ?out = None \<or> vo_Explanation ?out = Some (buildDiagnosis ?out (vi_CheckCertTime inp) (sv_verifyChain s) now)"
    using assms by (simp add: add_explanation_def)
  from buildReport_valid_iff [OF this] show ?thesis by (simp add: nothing_doubtful_def)
qed

lemma attachSynthesis_report:
  assumes "vo_Explanation out = None" and "vi_Report inp"
  shows "\<exists>r. vo_Report (fst (attachSynthesis s inp now out)) = Some r \<and>
    (rp_Verdict r = VerdictValid \<longleftrightarrow> nothing_doubtful (vi_CheckCertTime inp) (sv_verifyChain s) now out)"
  using assms add_explanation_valid_iff [OF assms(1)] by (simp add: attachSynthesis_def add_report_def Let_def)

lemma verify_revocation_explanation:
  "verify_revocation s ctx inp trusted now out1 w1 c = Returns ((out2, w2), c') \<Longrightarrow> vo_Explanation out2 = vo_Explanation out1"
  by (auto simp: verify_revocation_def checkRevocation_def attachArchive_def split: go.splits if_splits prod.splits sum.splits)

lemma verify_answer_report:
  assumes "verify_answer s ctx inp now out2 err1 w = ((out, None), audits)" and "vo_Explanation out2 = None" and "vi_Report inp"
  shows "\<exists>r. vo_Report out = Some r \<and>
    (rp_Verdict r = VerdictValid \<longleftrightarrow> nothing_doubtful (vi_CheckCertTime inp) (sv_verifyChain s) now out)"
proof -
  obtain out3 w3 where w: "withdraw_unnamed out2 w = (out3, w3)" by fastforce
  then have out3: "vo_Explanation out3 = None" using assms(2) by (auto simp: withdraw_unnamed_def split: if_splits)
  define out4 where "out4 = (case err1 of None \<Rightarrow> out3\<lparr>vo_Warnings := w3\<rparr>
    | Some e \<Rightarrow> out3\<lparr>vo_Warnings := w3, vo_LibError := Some (libErrorFrom ctx e)\<rparr>)"
  have out: "out = fst (attachSynthesis s inp now out4)"
    using assms(1) w by (auto simp: verify_answer_def out4_def split: option.splits if_splits prod.splits)
  have "vo_Explanation out4 = None" using out3 by (simp add: out4_def split: option.splits)
  from attachSynthesis_report [OF this assms(3), of s now] out show ?thesis by (simp add: nothing_doubtful_def)
qed

lemma Verify_report:
  assumes "Verify s ctx c inp clock = Returns (((out, None), effs), c')" and "vi_Report inp"
  shows "\<exists>r. vo_Report out = Some r \<and>
    (rp_Verdict r = VerdictValid \<longleftrightarrow>
       nothing_doubtful (vi_CheckCertTime inp) (sv_verifyChain s) (ck_synthesis clock) out)"
  using assms(1)
proof (cases rule: Verify_cases)
  case (ran path trusted res err0 out1 err1 w1 out2 w2 audits)
  have "vo_Explanation out2 = None"
    using verify_signers_stage [OF ran(3) verify_attempts_source [OF ran(2)]] verify_revocation_explanation [OF ran(4)] by simp
  from verify_answer_report [OF ran(5) this assms(2)] show ?thesis .
qed simp

text \<open>
  Claim C2: the card says valid exactly when nothing is left to doubt. When a report was asked for
  and the verification returned, the report's verdict is valid if and only if the output is valid
  and every signer has a known certificate window (which contains the instant of the report when
  the time check was on), an established status that is not revoked, and, when chain
  verification is on, a cryptographically verified chain.
\<close>

theorem verify_report_valid_iff:
  assumes "Verify s ctx c inp clock = Returns (((out, None), effs), c')" and "vi_Report inp"
  shows "\<exists>r. vo_Report out = Some r \<and>
    (rp_Verdict r = VerdictValid \<longleftrightarrow>
       nothing_doubtful (vi_CheckCertTime inp) (sv_verifyChain s) (ck_synthesis clock) out)"
  using assms by (rule Verify_report)

theorem verify_report_valid_iff_witness:
  "case Verify (verifying_service (status_answer CertGood)) plain_lang () demo_verify demo_clock of
     Returns (((out, err), effs), c) \<Rightarrow> (\<exists>r. vo_Report out = Some r)"
proof -
  obtain out effs where
    run: "Verify (verifying_service (status_answer CertGood)) plain_lang () demo_verify demo_clock = Returns (((out, None), effs), ())"
    by (rule demo_Verify_run)
  have "vi_Report demo_verify" by (simp add: demo_verify_def)
  from verify_report_valid_iff [OF run this] run show ?thesis by auto
qed

section \<open>Resources and negative verdicts\<close>

text \<open>
  Verification releases what it acquired: whenever it returns, a by-reference payload
  was released exactly once, after everything that uses it, and nothing else was released.
\<close>

theorem verify_releases:
  assumes "Verify s ctx c inp clock = Returns ((r, effs), c')"
  shows "balanced [] effs"
proof -
  obtain out err where r: "r = (out, err)" by fastforce
  from assms [unfolded r] show ?thesis
  proof (cases rule: Verify_cases)
    case (ran path trusted res err0 out1 err1 w1 out2 w2 audits)
    have "\<forall>e \<in> set audits. \<exists>ev. e = Audited ev" using verify_answer_stage [OF ran(5)] by blast
    then have "balanced stack (audits @ rest) = balanced stack rest" for stack rest by (rule balanced_audits)
    from this [where rest = "[FreedData path]"] this [where rest = "[]"] ran(6) show ?thesis
      by (simp add: data_balanced)
  qed simp
qed

theorem verify_releases_witness:
  "case Verify (verifying_service (status_answer CertGood)) plain_lang () demo_verify demo_clock of
     Returns ((r, effs), c) \<Rightarrow> balanced [] effs"
proof -
  obtain out effs where
    run: "Verify (verifying_service (status_answer CertGood)) plain_lang () demo_verify demo_clock = Returns (((out, None), effs), ())"
    by (rule demo_Verify_run)
  from verify_releases [OF run] run show ?thesis by simp
qed

lemma build_loop_returns:
  assumes "\<not> sv_verifyChain s"
  shows "\<exists>sgs w'. build_loop s ctx res bySerial trusted i pems w = Returns (sgs, w')"
proof (induction pems arbitrary: i w)
  case (Cons p pems)
  from build_signer_returns [OF assms] obtain sg w1 where "build_signer s ctx res bySerial trusted i p w = Returns (sg, w1)" by blast
  moreover obtain sgs w2 where "build_loop s ctx res bySerial trusted (Suc i) pems w1 = Returns (sgs, w2)" using Cons by blast
  ultimately show ?case by simp
qed simp


definition rejecting_service :: "unit service" where
  "rejecting_service = demo_service ((idle_driver (status_answer CertGood, None))\<lparr>
     pv_VerifyCMS := (\<lambda>_. (\<lparr>dv_Valid = False, dv_Info = [], dv_Content = [], dv_SignerCert = [], dv_Signers = [],
        dv_Timestamp = zero_time, dv_RawCode = 0x08F0001C\<rparr>, nativeErr ''VerifyData'' 0x08F0001C []))\<rparr>) None"


section \<open>Archiving\<close>

lemma revoked_names_Nil: "revoked_names i sgs = [] \<longleftrightarrow> \<not> (\<exists>sg \<in> set sgs. known_revoked sg)"
  by (induction sgs arbitrary: i) (auto simp: known_revoked_def Let_def split: option.splits)

definition embeds_something :: "archive_output \<Rightarrow> bool" where
  "embeds_something a \<longleftrightarrow> ao_Level a = ''LT'' \<and> 0 < ao_OCSPResponses a + ao_CRLs a + ao_Certificates a"

lemma embedEvidence_embeds: "embedEvidence G L sig ip op ev = Inr a \<Longrightarrow> embeds_something a"
  by (auto simp: embedEvidence_def embeds_something_def Evidence_Empty_def split: if_splits option.splits sum.splits)

lemma verify_revocation_archive:
  assumes "verify_revocation s ctx inp trusted now out1 w1 c = Returns ((out2, w2), c')" and "vo_Archive out1 = None"
    and "vo_Archive out2 = Some a"
  shows "embeds_something a"
proof -
  from assms obtain sgs b ocsp w3 where
    "attachArchive s inp ocsp (out1\<lparr>vo_Signers := sgs, vo_Valid := b\<rparr>) w3 = (out2, w2)"
    by (auto simp: verify_revocation_def checkRevocation_def split: go.splits if_splits prod.splits)
  moreover have "vo_Archive (out1\<lparr>vo_Signers := sgs, vo_Valid := b\<rparr>) = None" using assms(2) by simp
  ultimately obtain out3 where "vo_Archive out3 = None" "attachArchive s inp ocsp out3 w3 = (out2, w2)" by blast
  with assms(3) show ?thesis
    by (auto simp: attachArchive_def dest: embedEvidence_embeds split: if_splits sum.splits)
qed

lemma Verify_archive:
  assumes "Verify s ctx c inp clock = Returns (((out, None), effs), c')" and "vo_Archive out = Some a"
  shows "embeds_something a"
  using assms(1)
proof (cases rule: Verify_cases)
  case (ran path trusted res err0 out1 err1 w1 out2 w2 audits)
  have "vo_Archive out1 = None" using verify_signers_stage [OF ran(3) verify_attempts_source [OF ran(2)]] by simp
  moreover have "vo_Archive out2 = Some a" using verify_answer_stage [OF ran(5)] assms(2) by simp
  ultimately show ?thesis using verify_revocation_archive [OF ran(4)] by simp
qed simp


definition demo_archive :: archive_input where
  "demo_archive = \<lparr>ai_Signature = ''cms'', ai_InputPEM = False, ai_Data = [], ai_Detached = False,
     ai_ResponderURL = ''http://ocsp'', ai_TrustedCerts = [], ai_OutputPEM = True, ai_AllowRevoked = False\<rparr>"

lemma demo_Archive_run:
  "case Archive (verifying_service (status_answer CertGood)) plain_lang () demo_archive demo_clock of
     Returns (((out, err), effs), c) \<Rightarrow> err = None | Panics \<Rightarrow> False"
  by code_simp


section \<open>Findings\<close>

text \<open>
  CertInfo with validation requested drops the verdict: the answer for a revoked certificate is
  the answer for a good one.
\<close>

definition demo_cert_info :: cert_info_input where
  "demo_cert_info = \<lparr>ci_Cert = ''LR'', ci_Key = \<lparr>ks_Inline = None, ks_Path = None, ks_Token = None, ks_KeyID = []\<rparr>,
     ci_Format = EncodingDER, ci_BuildChain = False, ci_Validate = True, ci_ExtractClaims = False, ci_Method = MethodOCSP,
     ci_TrustedCerts = []\<rparr>"

lemma cert_info_drops_revocation:
  "CertInfo (demo_service (idle_driver (status_answer CertRevoked, None)) None) plain_lang () demo_cert_info 1 =
   CertInfo (demo_service (idle_driver (status_answer CertGood, None)) None) plain_lang () demo_cert_info 1"
  by (simp add: CertInfo_def cert_info_source_def demo_cert_info_def demo_service_def idle_driver_def status_answer_def
      cert_info_chain_def cert_info_validate_def Validate_def discoverAnchors_def plan_crl_def validate_planned_def
      validate_lookup_def validate_call_def answer_status_def enrichFromOCSP_def no_status_def no_validate_output_def
      ocspURLFromCert_def demo_golib_def demo_xcert_def toDER_def HasPrefix_def Let_def split: prod.splits)

text \<open>
  With chain verification on, one signer certificate that Go cannot parse makes the whole
  verification panic: the chain has no leaf and the slice above it is out of range.
\<close>

lemma verify_panics_on_unparsable_signer:
  "Verify ((verifying_service (status_answer CertGood))\<lparr>sv_verifyChain := True, sv_prov := verifying_driver [''L''] (status_answer CertGood)\<rparr>)
     plain_lang () demo_verify demo_clock = Panics"
  by code_simp

end
