(* ===== verification/Registry.thy ===== *)
theory Registry
  imports Batch Verify_Properties
begin

text \<open>
  The batch wrappers of the service (internal/core/batch.go) and the register over a batch of
  verifications (internal/core/registry.go): one row per document and the counts an auditor
  reads first. An item of a batch runs at its own instants and on the cache as it finds it, so
  the answers of an operation are those it gives on some cache and clock. The pool size the
  driver reports is an argument.
\<close>

section \<open>The operations as batch items\<close>

definition go_result :: "'o \<times> goerr option \<Rightarrow> goerr + 'o" where
  "go_result p = (case p of (out, Some e) \<Rightarrow> Inl e | (out, None) \<Rightarrow> Inr out)"

definition sign_answers :: "'c service \<Rightarrow> lang \<Rightarrow> sign_input \<Rightarrow> goerr + sign_output \<Rightarrow> bool" where
  "sign_answers s ctx inp r \<longleftrightarrow> (\<exists>p effs. Sign s ctx inp = Returns (p, effs) \<and> r = go_result p)"

definition verify_answers :: "'c service \<Rightarrow> lang \<Rightarrow> verify_input \<Rightarrow> goerr + verify_output \<Rightarrow> bool" where
  "verify_answers s ctx inp r \<longleftrightarrow>
     (\<exists>c clock p effs c'. Verify s ctx c inp clock = Returns ((p, effs), c') \<and> r = go_result p)"

definition extract_answers :: "'c service \<Rightarrow> lang \<Rightarrow> string \<times> bytes \<times> bytes \<Rightarrow> goerr + extract_output \<Rightarrow> bool" where
  "extract_answers s ctx inp r \<longleftrightarrow>
     (case inp of (format, signature, data) \<Rightarrow> r = go_result (Extract s ctx format signature data))"

definition cert_info_answers :: "'c service \<Rightarrow> lang \<Rightarrow> cert_info_input \<Rightarrow> goerr + cert_info_output \<Rightarrow> bool" where
  "cert_info_answers s ctx inp r \<longleftrightarrow>
     (\<exists>c now p effs c'. CertInfo s ctx c inp now = Returns ((p, effs), c') \<and> r = go_result p)"

definition validate_answers :: "'c service \<Rightarrow> lang \<Rightarrow> validate_input \<Rightarrow> goerr + validate_output \<Rightarrow> bool" where
  "validate_answers s ctx inp r \<longleftrightarrow> (\<exists>c now p c'. Validate s ctx c inp now = Returns (p, c') \<and> r = go_result p)"

definition SignBatch :: "'c service \<Rightarrow> lang \<Rightarrow> int \<Rightarrow> sign_input list \<Rightarrow> batch_options \<Rightarrow> sign_output batch_event list \<Rightarrow>
    (sign_output batch_output \<times> sign_output batch_item list) option" where
  "SignBatch s ctx pool items opts evs = runBatch (sign_answers s ctx) opts (batchConcurrency pool) items evs"

definition VerifyBatch :: "'c service \<Rightarrow> lang \<Rightarrow> int \<Rightarrow> verify_input list \<Rightarrow> batch_options \<Rightarrow> verify_output batch_event list \<Rightarrow>
    (verify_output batch_output \<times> verify_output batch_item list) option" where
  "VerifyBatch s ctx pool items opts evs = runBatch (verify_answers s ctx) opts (batchConcurrency pool) items evs"

definition ExtractBatch :: "'c service \<Rightarrow> lang \<Rightarrow> int \<Rightarrow> (string \<times> bytes \<times> bytes) list \<Rightarrow> batch_options \<Rightarrow>
    extract_output batch_event list \<Rightarrow> (extract_output batch_output \<times> extract_output batch_item list) option" where
  "ExtractBatch s ctx pool items opts evs = runBatch (extract_answers s ctx) opts (batchConcurrency pool) items evs"

definition CertInfoBatch :: "'c service \<Rightarrow> lang \<Rightarrow> int \<Rightarrow> cert_info_input list \<Rightarrow> batch_options \<Rightarrow>
    cert_info_output batch_event list \<Rightarrow> (cert_info_output batch_output \<times> cert_info_output batch_item list) option" where
  "CertInfoBatch s ctx pool items opts evs = runBatch (cert_info_answers s ctx) opts (batchConcurrency pool) items evs"

definition ValidateBatch :: "'c service \<Rightarrow> lang \<Rightarrow> int \<Rightarrow> validate_input list \<Rightarrow> batch_options \<Rightarrow>
    validate_output batch_event list \<Rightarrow> (validate_output batch_output \<times> validate_output batch_item list) option" where
  "ValidateBatch s ctx pool items opts evs = runBatch (validate_answers s ctx) opts (batchConcurrency pool) items evs"

section \<open>The register\<close>

record report_document =
  rd_Format :: string
  rd_Detached :: bool
  rd_SignatureSHA256 :: string
  rd_ContentSHA256 :: string
  rd_ContentBytes :: nat

definition document_of :: "report \<Rightarrow> report_document" where
  "document_of r = \<lparr>rd_Format = rp_Format r, rd_Detached = rp_Detached r, rd_SignatureSHA256 = rp_SignatureSHA256 r,
     rd_ContentSHA256 = rp_ContentSHA256 r, rd_ContentBytes = rp_ContentBytes r\<rparr>"

record registry_signer =
  gs_Name :: string
  gs_IIN :: string
  gs_BIN :: string
  gs_Organization :: string

record registry_row =
  rw_Index :: nat
  rw_Ref :: string
  rw_Verdict :: verdict
  rw_Summary :: string
  rw_Signers :: "registry_signer list"
  rw_SignedAt :: "time option"
  rw_Reason :: string
  rw_Document :: report_document
  rw_Error :: "batch_item_error option"

record registry_item =
  ri_Ref :: string
  ri_Verify :: verify_input

record registry_output =
  ro_CheckedAt :: time
  ro_Total :: nat
  ro_Valid :: nat
  ro_Invalid :: nat
  ro_Indeterminate :: nat
  ro_Failed :: nat
  ro_Rows :: "registry_row list"

definition firstProblemStep :: "diag_step list \<Rightarrow> string" where
  "firstProblemStep steps =
     (case find (\<lambda>s. dp_Status s = DiagFail \<or> dp_Status s = DiagUnknown) steps of
        Some s \<Rightarrow> TrimSpace (dp_Step s) | None \<Rightarrow> [])"

definition add_signer :: "report_signer \<Rightarrow> registry_row \<Rightarrow> registry_row" where
  "add_signer s row =
     row\<lparr>rw_Signers := rw_Signers row @ [\<lparr>gs_Name = pg_Name s, gs_IIN = pg_IIN s, gs_BIN = pg_BIN s,
            gs_Organization = pg_Organization s\<rparr>],
         rw_SignedAt := (case rw_SignedAt row of None \<Rightarrow> pg_SignedAt s | Some t \<Rightarrow> Some t)\<rparr>"

definition fillRowFromReport :: "registry_row \<Rightarrow> report option \<Rightarrow> registry_row" where
  "fillRowFromReport row rep =
     (case rep of
        None \<Rightarrow> row\<lparr>rw_Verdict := VerdictIndeterminate\<rparr>
      | Some r \<Rightarrow>
          (let row = row\<lparr>rw_Verdict := rp_Verdict r, rw_Summary := rp_Summary r, rw_Document := document_of r\<rparr>;
               row = fold add_signer (rp_Signers r) row
           in if rp_Verdict r \<noteq> VerdictValid then row\<lparr>rw_Reason := firstProblemStep (rp_Steps r)\<rparr> else row))"

text \<open>The row before it is filled; its verdict is overwritten on every path.\<close>

definition new_row :: "registry_item list \<Rightarrow> verify_output batch_item \<Rightarrow> registry_row" where
  "new_row items it =
     \<lparr>rw_Index = bi_Index it, rw_Ref = (if bi_Index it < length items then ri_Ref (items ! bi_Index it) else []),
      rw_Verdict = VerdictIndeterminate, rw_Summary = [], rw_Signers = [], rw_SignedAt = None, rw_Reason = [],
      rw_Document = \<lparr>rd_Format = [], rd_Detached = False, rd_SignatureSHA256 = [], rd_ContentSHA256 = [], rd_ContentBytes = 0\<rparr>,
      rw_Error = bi_Error it\<rparr>"

definition registry_row_of :: "registry_item list \<Rightarrow> verify_output batch_item \<Rightarrow> registry_row" where
  "registry_row_of items it =
     (case bi_Output it of
        None \<Rightarrow>
          (case bi_Error it of
             None \<Rightarrow> new_row items it
           | Some e \<Rightarrow> (new_row items it)\<lparr>rw_Summary := be_Message e, rw_Reason := be_Kind e\<rparr>)
      | Some out \<Rightarrow> fillRowFromReport (new_row items it) (vo_Report out))"

definition count_row :: "verify_output batch_item \<Rightarrow> registry_row \<Rightarrow> registry_output \<Rightarrow> registry_output" where
  "count_row it row out =
     (case bi_Output it of
        None \<Rightarrow> out\<lparr>ro_Failed := Suc (ro_Failed out)\<rparr>
      | Some _ \<Rightarrow>
          (case rw_Verdict row of
             VerdictValid \<Rightarrow> out\<lparr>ro_Valid := Suc (ro_Valid out)\<rparr>
           | VerdictInvalid \<Rightarrow> out\<lparr>ro_Invalid := Suc (ro_Invalid out)\<rparr>
           | VerdictIndeterminate \<Rightarrow> out\<lparr>ro_Indeterminate := Suc (ro_Indeterminate out)\<rparr>))"

definition add_row :: "registry_item list \<Rightarrow> verify_output batch_item \<Rightarrow> registry_output \<Rightarrow> registry_output" where
  "add_row items it out =
     (let row = registry_row_of items it; out = count_row it row out in out\<lparr>ro_Rows := ro_Rows out @ [row]\<rparr>)"

definition registry_summary :: "time \<Rightarrow> registry_item list \<Rightarrow> verify_output batch_output \<Rightarrow> registry_output" where
  "registry_summary now items batch =
     fold (add_row items) (bx_Results batch)
       \<lparr>ro_CheckedAt = now, ro_Total = bx_Total batch, ro_Valid = 0, ro_Invalid = 0, ro_Indeterminate = 0, ro_Failed = 0,
        ro_Rows = []\<rparr>"

definition VerifyRegistry :: "'c service \<Rightarrow> lang \<Rightarrow> int \<Rightarrow> registry_item list \<Rightarrow> batch_options \<Rightarrow>
    verify_output batch_event list \<Rightarrow> time \<Rightarrow> registry_output option" where
  "VerifyRegistry s ctx pool items opts evs now =
     (case VerifyBatch s ctx pool (map (\<lambda>it. (ri_Verify it)\<lparr>vi_Report := True\<rparr>) items) opts evs of
        None \<Rightarrow> None
      | Some (batch, _) \<Rightarrow> Some (registry_summary now items batch))"

section \<open>What a register says\<close>

lemma verify_answersI: "Verify s ctx c inp clock = Returns ((p, effs), c') \<Longrightarrow> verify_answers s ctx inp (go_result p)"
  unfolding verify_answers_def by blast

lemma item_output:
  "bi_Output (item_of i r) = (case r of Inl _ \<Rightarrow> None | Inr out \<Rightarrow> Some out)" "bi_Output (skipped_item i) = None"
  by (simp_all add: item_of_def skipped_item_def split: sum.splits)

lemma fold_add_signer [simp]:
  "rw_Index (fold add_signer sgs row) = rw_Index row" "rw_Ref (fold add_signer sgs row) = rw_Ref row"
  "rw_Verdict (fold add_signer sgs row) = rw_Verdict row"
  by (induction sgs arbitrary: row) (simp_all add: add_signer_def)

lemma registry_row_of_fields [simp]:
  "rw_Index (registry_row_of items it) = bi_Index it"
  "rw_Ref (registry_row_of items it) = (if bi_Index it < length items then ri_Ref (items ! bi_Index it) else [])"
  by (simp_all add: registry_row_of_def new_row_def fillRowFromReport_def Let_def split: option.splits)

lemma registry_row_verdict:
  "rw_Verdict (registry_row_of items it) =
     (case bi_Output it of None \<Rightarrow> VerdictIndeterminate
      | Some out \<Rightarrow> (case vo_Report out of None \<Rightarrow> VerdictIndeterminate | Some r \<Rightarrow> rp_Verdict r))"
  by (simp add: registry_row_of_def new_row_def fillRowFromReport_def Let_def split: option.splits)

definition row_count :: "verdict \<Rightarrow> registry_item list \<Rightarrow> verify_output batch_item list \<Rightarrow> nat" where
  "row_count v items its = length (filter (\<lambda>it. bi_Output it \<noteq> None \<and> rw_Verdict (registry_row_of items it) = v) its)"

lemma fold_add_row:
  "ro_Total (fold (add_row items) its out) = ro_Total out"
  "ro_Rows (fold (add_row items) its out) = ro_Rows out @ map (registry_row_of items) its"
  "ro_Valid (fold (add_row items) its out) = ro_Valid out + row_count VerdictValid items its"
  "ro_Invalid (fold (add_row items) its out) = ro_Invalid out + row_count VerdictInvalid items its"
  "ro_Indeterminate (fold (add_row items) its out) = ro_Indeterminate out + row_count VerdictIndeterminate items its"
  "ro_Failed (fold (add_row items) its out) = ro_Failed out + length (filter (\<lambda>it. bi_Output it = None) its)"
  by (induction its arbitrary: out)
    (auto simp: add_row_def count_row_def row_count_def Let_def split: option.splits verdict.splits)

lemma row_counts_total:
  "row_count VerdictValid items its + row_count VerdictInvalid items its + row_count VerdictIndeterminate items its +
   length (filter (\<lambda>it. bi_Output it = None) its) = length its"
proof (induction its)
  case (Cons it its)
  then show ?case by (cases "rw_Verdict (registry_row_of items it)") (auto simp: row_count_def)
qed (simp add: row_count_def)

text \<open>
  Claim C25: a register accounts for every document and says valid only of what verified. When the
  batch behind it has returned, under any interleaving, the rows are the documents in request
  order with the caller's labels; the four counts add up to the total; and a row with the
  verdict valid is of a document whose own verification, with a report asked for, returned
  without an error and left nothing to doubt.
\<close>

theorem registry_sound:
  assumes "VerifyRegistry s ctx pool items opts evs now = Some out"
  shows "ro_Total out = length items \<and> map rw_Index (ro_Rows out) = [0..<length items] \<and>
    map rw_Ref (ro_Rows out) = map ri_Ref items \<and>
    ro_Valid out + ro_Invalid out + ro_Indeterminate out + ro_Failed out = ro_Total out \<and>
    ro_Valid out = length (filter (\<lambda>row. rw_Verdict row = VerdictValid) (ro_Rows out)) \<and>
    (\<forall>i < length items. rw_Verdict (ro_Rows out ! i) = VerdictValid \<longrightarrow>
       (\<exists>c clock vout effs c'. Verify s ctx c ((ri_Verify (items ! i))\<lparr>vi_Report := True\<rparr>) clock = Returns (((vout, None), effs), c') \<and>
          nothing_doubtful (vi_CheckCertTime (ri_Verify (items ! i))) (sv_verifyChain s) (ck_synthesis clock) vout))"
proof -
  let ?in = "\<lambda>it. (ri_Verify it)\<lparr>vi_Report := True\<rparr>"
  from assms obtain batch sunk where run: "runBatch (verify_answers s ctx) opts (batchConcurrency pool) (map ?in items) evs = Some (batch, sunk)"
    and out: "out = registry_summary now items batch"
    by (auto simp: VerifyRegistry_def VerifyBatch_def split: option.splits)
  note slots = runBatch_slots [OF run, simplified]
  have rows: "ro_Rows out = map (registry_row_of items) (bx_Results batch)"
    by (simp add: out registry_summary_def fold_add_row)
  have index: "bi_Index (bx_Results batch ! i) = i" if "i < length items" for i
    using slots(3) [OF that] by auto
  have total: "ro_Valid out + ro_Invalid out + ro_Indeterminate out + ro_Failed out = ro_Total out"
    using row_counts_total [of items "bx_Results batch"] slots(1,2) by (simp add: out registry_summary_def fold_add_row)
  have valid: "rw_Verdict (registry_row_of items it) = VerdictValid \<longleftrightarrow> bi_Output it \<noteq> None \<and> rw_Verdict (registry_row_of items it) = VerdictValid" for it
    by (auto simp: registry_row_verdict split: option.splits)
  have count: "ro_Valid out = length (filter (\<lambda>row. rw_Verdict row = VerdictValid) (ro_Rows out))"
    using valid by (simp add: rows out registry_summary_def fold_add_row row_count_def filter_map comp_def flip: valid)
  have sound: "\<exists>c clock vout effs c'. Verify s ctx c (?in (items ! i)) clock = Returns (((vout, None), effs), c') \<and>
      nothing_doubtful (vi_CheckCertTime (ri_Verify (items ! i))) (sv_verifyChain s) (ck_synthesis clock) vout"
    if i: "i < length items" and v: "rw_Verdict (ro_Rows out ! i) = VerdictValid" for i
  proof -
    from i v slots(2) have v': "rw_Verdict (registry_row_of items (bx_Results batch ! i)) = VerdictValid" by (simp add: rows)
    then obtain vout r where vout: "bi_Output (bx_Results batch ! i) = Some vout" "vo_Report vout = Some r" "rp_Verdict r = VerdictValid"
      by (auto simp: registry_row_verdict split: option.splits)
    with slots(3) [OF i] i have "verify_answers s ctx (?in (items ! i)) (Inr vout)"
      by (force simp: item_output split: sum.splits)
    then obtain c clock effs c' where run: "Verify s ctx c (?in (items ! i)) clock = Returns (((vout, None), effs), c')"
      by (auto simp: verify_answers_def go_result_def split: prod.splits option.splits)
    have "nothing_doubtful (vi_CheckCertTime (ri_Verify (items ! i))) (sv_verifyChain s) (ck_synthesis clock) vout"
      using Verify_report [OF run] vout by auto
    with run show ?thesis by blast
  qed
  have "map rw_Index (ro_Rows out) = [0..<length items]" "map rw_Ref (ro_Rows out) = map ri_Ref items"
    using slots(2) index by (auto simp: rows intro!: nth_equalityI)
  with total count sound slots(1) show ?thesis by (simp add: out registry_summary_def fold_add_row)
qed

text \<open>One good document and no failure policy.\<close>

definition demo_item :: registry_item where
  "demo_item = \<lparr>ri_Ref = ''contract.p7s'', ri_Verify = demo_verify\<rparr>"

definition one_item_events :: "goerr + 'o \<Rightarrow> 'o batch_event list" where
  "one_item_events r = [Loop, Loop, Loop, Answer 0 r, Count 0, Release 0, WorkerDone 0, Loop, Loop]"

lemma one_item_batch:
  assumes "answers it r"
  shows "\<exists>out sunk. runBatch answers \<lparr>bo_Policy = [], bo_Concurrency = 0\<rparr> 1 [it] (one_item_events r) = Some (out, sunk)"
  using assms
  by (simp add: runBatch_def batch_state_def one_item_events_def batch_start_def fire_def loop_step_def answer_step_def
      count_step_def advance_def effective_concurrency_def normalized_def PolicyFailFast_def PolicyContinue_def)

theorem registry_sound_witness:
  "\<exists>evs out. VerifyRegistry (verifying_service (status_answer CertGood)) plain_lang 1 [demo_item] \<lparr>bo_Policy = [], bo_Concurrency = 0\<rparr> evs 5 = Some out \<and>
     ro_Total out = 1 \<and> map rw_Ref (ro_Rows out) = [''contract.p7s'']"
proof -
  let ?s = "verifying_service (status_answer CertGood)" and ?o = "\<lparr>bo_Policy = [], bo_Concurrency = 0\<rparr>"
  have report: "demo_verify\<lparr>vi_Report := True\<rparr> = demo_verify" by (simp add: demo_verify_def)
  obtain vout effs where "Verify ?s plain_lang () demo_verify demo_clock = Returns (((vout, None), effs), ())"
    by (rule demo_Verify_run)
  from verify_answersI [OF this] have "verify_answers ?s plain_lang demo_verify (Inr vout)" by (simp add: go_result_def)
  from one_item_batch [where answers = "verify_answers ?s plain_lang", OF this] obtain out where
    run: "VerifyRegistry ?s plain_lang 1 [demo_item] ?o (one_item_events (Inr vout)) 5 = Some out"
    by (auto simp: VerifyRegistry_def VerifyBatch_def demo_item_def report batchConcurrency_def)
  have "ro_Total out = 1 \<and> map rw_Ref (ro_Rows out) = [''contract.p7s'']"
    using registry_sound [OF run] by (simp add: demo_item_def)
  with run show ?thesis by (intro exI [of _ "one_item_events (Inr vout)"] exI [of _ out]) simp
qed

end
