(* ===== verification/Historical.thy ===== *)
theory Historical
  imports Verify_Properties
begin

text \<open>
  Point-in-time verification (internal/core/historical.go): was a signature valid at a past
  instant. The ordinary verification runs with its clock-bound checks off; the certificate
  window and the revocation status are then placed relative to the instant. The OCSP cache is
  threaded through the validations, and the instants at which they read the clock are an
  argument.
\<close>

record verify_at_input =
  at_Verify :: verify_input
  at_At :: time
  at_Method :: string
  at_CRL :: bytes
  at_ResponderURL :: string

record point_verdict =
  pv_At :: time
  pv_ValidAt :: bool
  pv_Determinate :: bool
  pv_SignatureValid :: bool
  pv_WithinValidity :: bool
  pv_NotBefore :: "time option"
  pv_NotAfter :: "time option"
  pv_NotRevokedAt :: bool
  pv_RevokedAsOfAt :: bool
  pv_RevocationTime :: "time option"
  pv_RevocationReason :: string
  pv_Method :: string
  pv_Reasons :: "string list"

record verify_at_output =
  vt_At :: time
  vt_ValidAt :: bool
  vt_Determinate :: bool
  vt_Format :: string
  vt_Detached :: bool
  vt_Signers :: "(signer \<times> point_verdict) list"
  vt_AtWarnings :: warnings
  vt_LibError :: "lib_error option"

definition no_at_output :: verify_at_output where
  "no_at_output = \<lparr>vt_At = zero_time, vt_ValidAt = False, vt_Determinate = False, vt_Format = [], vt_Detached = False,
     vt_Signers = [], vt_AtWarnings = [], vt_LibError = None\<rparr>"

definition withinValidityAt :: "certificate \<Rightarrow> time \<Rightarrow> bool \<times> bool" where
  "withinValidityAt c t =
     (case (ct_NotBefore c, ct_NotAfter c) of
        (Some nb, Some na) \<Rightarrow> (\<not> Before t nb \<and> \<not> After t na, True)
      | _ \<Rightarrow> (False, False))"

definition add_reason :: "string \<Rightarrow> point_verdict \<Rightarrow> point_verdict" where
  "add_reason r v = v\<lparr>pv_Reasons := pv_Reasons v @ [r]\<rparr>"

text \<open>A status placed relative to the instant: not revoked, determinate, and the verdict's fields.\<close>

definition place_status :: "revocation_status \<Rightarrow> time \<Rightarrow> point_verdict \<Rightarrow> (bool \<times> bool) \<times> point_verdict" where
  "place_status st t v =
     (let v = v\<lparr>pv_Method := rs_Method st\<rparr>
      in case (rs_LibError st, rs_Revoked st) of
        (Some le, False) \<Rightarrow>
          ((True, False), add_reason (''revocation check inconclusive ('' @ le_Code le @ ''); an archived CRL at the instant would be authoritative'') v)
      | (None, False) \<Rightarrow> ((True, True), v)
      | (_, True) \<Rightarrow>
          (let v = (if rs_Reason st \<noteq> [] then v\<lparr>pv_RevocationReason := rs_Reason st\<rparr> else v)
           in case rs_RevocationTime st of
                None \<Rightarrow> ((False, False), add_reason ''certificate is revoked but the revocation time is unknown; it cannot be placed relative to the requested instant'' v)
              | Some rt \<Rightarrow>
                  (let v = v\<lparr>pv_RevocationTime := Some rt\<rparr>;
                       v = (if rs_Reason st = ''certificateHold''
                            then add_reason (''revocation reason is certificateHold, which is reversible; a hold may have been lifted later '' @ em_dash @ '' an archived CRL at the instant is authoritative'') v
                            else v);
                       v = v\<lparr>pv_RevokedAsOfAt := (\<not> Before t rt)\<rparr>
                   in if \<not> Before t rt
                      then ((False, True), add_reason ''certificate was already revoked at the requested instant'' v)
                      else ((True, True), add_reason ''certificate was revoked after the requested instant, so it was still valid then'' v))))"

definition at_validate_input :: "verify_at_input \<Rightarrow> time \<Rightarrow> bytes \<Rightarrow> validate_input" where
  "at_validate_input inp t pem =
     \<lparr>va_Cert = pem, va_Format = EncodingPEM, va_Method = at_Method inp, va_CheckTime = t, va_WantOCSP = False,
      va_TrustedCerts = [], va_ResponderURL = at_ResponderURL inp, va_CRL = at_CRL inp\<rparr>"

definition revocationAt :: "'c service \<Rightarrow> lang \<Rightarrow> 'c \<Rightarrow> certificate \<Rightarrow> time \<Rightarrow> verify_at_input \<Rightarrow> point_verdict \<Rightarrow> time \<Rightarrow>
    (((bool \<times> bool) \<times> point_verdict) \<times> 'c) go" where
  "revocationAt s ctx c cert t inp v now =
     (if ct_PEM cert = [] then
        Returns (((True, False), add_reason ''revocation status not checked (signer certificate unavailable)'' v), c)
      else case Validate s ctx c (at_validate_input inp t (ct_PEM cert)) now of
        Panics \<Rightarrow> Panics
      | Returns ((res, Some e), c') \<Rightarrow>
          Returns (((True, False), add_reason (''revocation status could not be determined: '' @ err_text e) v), c')
      | Returns ((res, None), c') \<Rightarrow> Returns (place_status (vt_Status res) t v, c'))"

text \<open>The verdict before revocation is looked at.\<close>

definition verdict_before :: "signer \<Rightarrow> time \<Rightarrow> point_verdict" where
  "verdict_before sg t =
     (let v = \<lparr>pv_At = t, pv_ValidAt = False, pv_Determinate = False, pv_SignatureValid = sg_Valid sg, pv_WithinValidity = False,
            pv_NotBefore = ct_NotBefore (sg_Certificate sg), pv_NotAfter = ct_NotAfter (sg_Certificate sg),
            pv_NotRevokedAt = False, pv_RevokedAsOfAt = False, pv_RevocationTime = None, pv_RevocationReason = [],
            pv_Method = [], pv_Reasons = []\<rparr>;
          v = (if \<not> sg_Valid sg then add_reason ''signature did not verify'' v else v);
          (within, timeDeterminate) = withinValidityAt (sg_Certificate sg) t;
          v = v\<lparr>pv_WithinValidity := within\<rparr>
      in if \<not> timeDeterminate then add_reason ''certificate validity window unknown (notBefore/notAfter absent)'' v
         else if \<not> within then add_reason ''certificate was outside its validity window at the requested instant'' v
         else v)"

definition assessSignerAt :: "'c service \<Rightarrow> lang \<Rightarrow> 'c \<Rightarrow> signer \<Rightarrow> time \<Rightarrow> verify_at_input \<Rightarrow> time \<Rightarrow> (point_verdict \<times> 'c) go" where
  "assessSignerAt s ctx c sg t inp now =
     (case revocationAt s ctx c (sg_Certificate sg) t inp (verdict_before sg t) now of
        Panics \<Rightarrow> Panics
      | Returns (((notRevoked, revDeterminate), v), c') \<Rightarrow>
          (case withinValidityAt (sg_Certificate sg) t of
             (within, timeDeterminate) \<Rightarrow>
               Returns (v\<lparr>pv_NotRevokedAt := notRevoked, pv_Determinate := (timeDeterminate \<and> revDeterminate),
                          pv_ValidAt := (sg_Valid sg \<and> within \<and> notRevoked)\<rparr>, c')))"

fun assess_signers :: "'c service \<Rightarrow> lang \<Rightarrow> 'c \<Rightarrow> time \<Rightarrow> verify_at_input \<Rightarrow> (nat \<Rightarrow> time) \<Rightarrow> nat \<Rightarrow> signer list \<Rightarrow>
    ((signer \<times> point_verdict) list \<times> 'c) go" where
  "assess_signers s ctx c t inp now i [] = Returns ([], c)"
| "assess_signers s ctx c t inp now i (sg # sgs) =
     (case assessSignerAt s ctx c sg t inp (now i) of
        Panics \<Rightarrow> Panics
      | Returns (v, c') \<Rightarrow>
          (case assess_signers s ctx c' t inp now (Suc i) sgs of
             Panics \<Rightarrow> Panics
           | Returns (rest, c'') \<Rightarrow> Returns ((sg, v) # rest, c'')))"

record at_clock =
  ak_now :: time
  ak_verify :: verify_clock
  ak_signer :: "nat \<Rightarrow> time"

definition at_verify_input :: "verify_at_input \<Rightarrow> verify_input" where
  "at_verify_input inp = (at_Verify inp)\<lparr>vi_CheckCertTime := False, vi_RevocationCheck := Some False\<rparr>"

text \<open>The signers are assessed one by one; a signature is valid then only if all of them were.\<close>

definition at_answer :: "'c service \<Rightarrow> lang \<Rightarrow> 'c \<Rightarrow> verify_at_input \<Rightarrow> (nat \<Rightarrow> time) \<Rightarrow> verify_output \<Rightarrow>
    (verify_at_output \<times> 'c) go" where
  "at_answer s ctx c inp now vout =
     (let out = no_at_output\<lparr>vt_At := at_At inp, vt_Format := vo_Format vout, vt_Detached := vo_Detached vout,
            vt_AtWarnings := vo_Warnings vout, vt_LibError := vo_LibError vout\<rparr>
      in if vo_Signers vout = [] then Returns (out\<lparr>vt_Determinate := True\<rparr>, c)
         else case assess_signers s ctx c (at_At inp) inp now 0 (vo_Signers vout) of
           Panics \<Rightarrow> Panics
         | Returns (sgs, c') \<Rightarrow>
             Returns (out\<lparr>vt_Signers := sgs, vt_ValidAt := list_all (\<lambda>(_, v). pv_ValidAt v) sgs,
                          vt_Determinate := list_all (\<lambda>(_, v). pv_Determinate v) sgs\<rparr>, c'))"

definition VerifyAt :: "'c service \<Rightarrow> lang \<Rightarrow> 'c \<Rightarrow> verify_at_input \<Rightarrow> at_clock \<Rightarrow>
    (((verify_at_output \<times> goerr option) \<times> effect list) \<times> 'c) go" where
  "VerifyAt s ctx c inp clock =
     (if IsZero (at_At inp) then
        Returns (((no_at_output, Some (NewError KindInvalid ''VerifyAt'' ''point-in-time instant (at) is required'')), []), c)
      else if After (at_At inp) (ak_now clock) then
        Returns (((no_at_output, Some (NewError KindInvalid ''VerifyAt'' ''point-in-time instant is in the future'')), []), c)
      else case Verify s ctx c (at_verify_input inp) (ak_verify clock) of
        Panics \<Rightarrow> Panics
      | Returns (((_, Some e), effs), c') \<Rightarrow> Returns (((no_at_output, Some e), effs), c')
      | Returns (((vout, None), effs), c') \<Rightarrow>
          (case at_answer s ctx c' inp (ak_signer clock) vout of
             Panics \<Rightarrow> Panics
           | Returns (out, c'') \<Rightarrow> Returns (((out, None), effs), c'')))"

section \<open>What a verdict about the past means\<close>

text \<open>
  The evidence behind a verdict that the certificate was not revoked at the instant: nothing
  was there to check or the check failed, or a status that either is not revoked or dates
  the revocation after the instant.
\<close>

definition placed_ok :: "time \<Rightarrow> revocation_status \<Rightarrow> bool" where
  "placed_ok t st \<longleftrightarrow> \<not> rs_Revoked st \<or> (\<exists>rt. rs_RevocationTime st = Some rt \<and> t < rt)"

definition asked :: "'c service \<Rightarrow> lang \<Rightarrow> verify_at_input \<Rightarrow> certificate \<Rightarrow> revocation_status \<Rightarrow> bool" where
  "asked s ctx inp cert st \<longleftrightarrow> (\<exists>c now res c'. Validate s ctx c (at_validate_input inp (at_At inp) (ct_PEM cert)) now =
     Returns ((res, None), c') \<and> vt_Status res = st)"

lemma place_status_ok:
  assumes "place_status st t v = ((notRevoked, determinate), v')"
  shows "notRevoked \<longleftrightarrow> placed_ok t st" "determinate \<longleftrightarrow> (if rs_Revoked st then rs_RevocationTime st \<noteq> None else rs_LibError st = None)"
    "pv_SignatureValid v' = pv_SignatureValid v \<and> pv_At v' = pv_At v"
  using assms by (auto simp: place_status_def placed_ok_def add_reason_def Let_def split: option.splits bool.splits if_splits)

lemma withinValidityAt_iff:
  "fst (withinValidityAt c t) \<longleftrightarrow> in_window True t c" "snd (withinValidityAt c t) \<longleftrightarrow> in_window False t c"
  by (auto simp: withinValidityAt_def in_window_def split: option.splits)

definition verdict_justified :: "'c service \<Rightarrow> lang \<Rightarrow> verify_at_input \<Rightarrow> signer \<Rightarrow> point_verdict \<Rightarrow> bool" where
  "verdict_justified s ctx inp sg v \<longleftrightarrow>
     (pv_ValidAt v \<longleftrightarrow> sg_Valid sg \<and> in_window True (at_At inp) (sg_Certificate sg) \<and> pv_NotRevokedAt v) \<and>
     (pv_Determinate v \<longrightarrow> in_window False (at_At inp) (sg_Certificate sg) \<and>
        (\<exists>st. asked s ctx inp (sg_Certificate sg) st \<and> (pv_NotRevokedAt v \<longleftrightarrow> placed_ok (at_At inp) st))) \<and>
     (\<not> pv_NotRevokedAt v \<longrightarrow> (\<exists>st. asked s ctx inp (sg_Certificate sg) st \<and> \<not> placed_ok (at_At inp) st))"

lemma assessSignerAt_justified:
  assumes "assessSignerAt s ctx c sg (at_At inp) inp now = Returns (v, c')"
  shows "verdict_justified s ctx inp sg v"
proof -
  let ?t = "at_At inp" and ?cert = "sg_Certificate sg"
  from assms obtain notRevoked det v1 where
    rev: "revocationAt s ctx c ?cert ?t inp (verdict_before sg ?t) now = Returns (((notRevoked, det), v1), c')"
    and v: "pv_NotRevokedAt v = notRevoked" "pv_Determinate v \<longleftrightarrow> snd (withinValidityAt ?cert ?t) \<and> det"
      "pv_ValidAt v \<longleftrightarrow> sg_Valid sg \<and> fst (withinValidityAt ?cert ?t) \<and> notRevoked"
    by (auto simp: assessSignerAt_def split: go.splits prod.splits)
  have "(det \<longrightarrow> (\<exists>st. asked s ctx inp ?cert st \<and> (notRevoked \<longleftrightarrow> placed_ok ?t st))) \<and>
    (\<not> notRevoked \<longrightarrow> (\<exists>st. asked s ctx inp ?cert st \<and> \<not> placed_ok ?t st))"
  proof (cases "ct_PEM ?cert = []")
    case True
    with rev show ?thesis by (simp add: revocationAt_def)
  next
    case False
    let ?val = "Validate s ctx c (at_validate_input inp ?t (ct_PEM ?cert)) now"
    from False rev obtain res err c1 where val: "?val = Returns ((res, err), c1)"
      by (auto simp: revocationAt_def split: go.splits)
    show ?thesis
    proof (cases err)
      case None
      with False rev val have "place_status (vt_Status res) ?t (verdict_before sg ?t) = ((notRevoked, det), v1)"
        by (simp add: revocationAt_def)
      from place_status_ok(1) [OF this] have "notRevoked \<longleftrightarrow> placed_ok ?t (vt_Status res)" .
      moreover have "asked s ctx inp ?cert (vt_Status res)" using val None unfolding asked_def by blast
      ultimately show ?thesis by blast
    next
      case (Some e)
      with False rev val show ?thesis by (simp add: revocationAt_def)
    qed
  qed
  with v show ?thesis by (auto simp: verdict_justified_def withinValidityAt_iff)
qed

lemma assess_signers_justified:
  "assess_signers s ctx c (at_At inp) inp now i sgs = Returns (svs, c') \<Longrightarrow>
   map fst svs = sgs \<and> (\<forall>(sg, v) \<in> set svs. verdict_justified s ctx inp sg v)"
proof (induction sgs arbitrary: c i svs)
  case (Cons sg sgs)
  from Cons.prems obtain v c1 rest c2 where "assessSignerAt s ctx c sg (at_At inp) inp (now i) = Returns (v, c1)"
    and "assess_signers s ctx c1 (at_At inp) inp now (Suc i) sgs = Returns (rest, c2)" and "svs = (sg, v) # rest" "c2 = c'"
    by (auto split: go.splits)
  with Cons.IH assessSignerAt_justified show ?case by fastforce
qed simp

text \<open>
  Claim C8: a verdict about a past instant is reconstructed from what it claims. When VerifyAt
  answers without an error, the instant is not in the future and the signers are those of the
  ordinary verification with its clock-bound checks off. The signature was valid then if and
  only if it has a signer and, for every signer, it verifies, the instant lies in the
  certificate's window and the certificate counts as not revoked then. A signer counts as
  revoked only on a status that says so and does not date the revocation after the instant,
  and a determinate verdict rests on a known window and on a status that was obtained and
  agrees with it.
\<close>

theorem verify_at_justified:
  assumes "VerifyAt s ctx c inp clock = Returns (((out, None), effs), c')"
  shows "at_At inp \<le> ak_now clock \<and>
    (\<exists>vout c1. Verify s ctx c (at_verify_input inp) (ak_verify clock) = Returns (((vout, None), effs), c1) \<and>
       map fst (vt_Signers out) = vo_Signers vout) \<and>
    (vt_ValidAt out \<longleftrightarrow> vt_Signers out \<noteq> [] \<and> (\<forall>(sg, v) \<in> set (vt_Signers out). pv_ValidAt v)) \<and>
    (vt_Determinate out \<longleftrightarrow> (\<forall>(sg, v) \<in> set (vt_Signers out). pv_Determinate v)) \<and>
    (\<forall>(sg, v) \<in> set (vt_Signers out). verdict_justified s ctx inp sg v)"
proof -
  from assms obtain vout c1 where v: "Verify s ctx c (at_verify_input inp) (ak_verify clock) = Returns (((vout, None), effs), c1)"
    and ans: "at_answer s ctx c1 inp (ak_signer clock) vout = Returns (out, c')" and now: "at_At inp \<le> ak_now clock"
    by (auto simp: VerifyAt_def split: if_splits go.splits option.splits)
  have "map fst (vt_Signers out) = vo_Signers vout \<and> (\<forall>(sg, v) \<in> set (vt_Signers out). verdict_justified s ctx inp sg v) \<and>
    (vt_ValidAt out \<longleftrightarrow> vt_Signers out \<noteq> [] \<and> (\<forall>(sg, v) \<in> set (vt_Signers out). pv_ValidAt v)) \<and>
    (vt_Determinate out \<longleftrightarrow> (\<forall>(sg, v) \<in> set (vt_Signers out). pv_Determinate v))"
  proof (cases "vo_Signers vout = []")
    case True
    with ans show ?thesis by (auto simp: at_answer_def no_at_output_def Let_def)
  next
    case False
    with ans obtain sgs where a: "assess_signers s ctx c1 (at_At inp) inp (ak_signer clock) 0 (vo_Signers vout) = Returns (sgs, c')"
      and out: "vt_Signers out = sgs" "vt_ValidAt out \<longleftrightarrow> list_all (\<lambda>(_, v). pv_ValidAt v) sgs"
        "vt_Determinate out \<longleftrightarrow> list_all (\<lambda>(_, v). pv_Determinate v) sgs"
      by (auto simp: at_answer_def Let_def split: go.splits)
    from assess_signers_justified [OF a] have "map fst sgs = vo_Signers vout"
      and "\<forall>(sg, v) \<in> set sgs. verdict_justified s ctx inp sg v" by simp_all
    with out False show ?thesis by (auto simp: list_all_iff)
  qed
  with v now show ?thesis by blast
qed

text \<open>A signer with the window from 10 to 80, whose certificate publishes the given responders.\<close>

definition dated_field :: "string \<Rightarrow> string \<Rightarrow> cert_field" where
  "dated_field name v = \<lparr>cf_ID = 0, cf_Name = name, cf_Value = v, cf_Raw = [], cf_OK = True\<rparr>"

definition dated_service :: "string list \<Rightarrow> validate_result \<Rightarrow> unit service" where
  "dated_service responders answer =
     (let d = (verifying_driver [''LR''] answer)\<lparr>pv_CertProperties := (\<lambda>_ _. ([dated_field ''NOTBEFORE'' ''a'', dated_field ''NOTAFTER'' ''b''], None))\<rparr>
      in (demo_service d None)\<lparr>sv_golib := demo_golib\<lparr>gl_ParseTime := (\<lambda>v. Some (if v = ''a'' then 10 else 80)),
           gl_ParseCertificate := (\<lambda>der. Some ((demo_xcert der ''L'' ''R'')\<lparr>xc_OCSPServer := responders\<rparr>))\<rparr>\<rparr>)"

definition demo_at :: verify_at_input where
  "demo_at = \<lparr>at_Verify = demo_verify, at_At = 40, at_Method = [], at_CRL = [], at_ResponderURL = []\<rparr>"

definition demo_at_clock :: at_clock where
  "demo_at_clock = \<lparr>ak_now = 90, ak_verify = demo_clock, ak_signer = (\<lambda>i. 91)\<rparr>"

lemma demo_VerifyAt:
  "case VerifyAt (dated_service [''http://ocsp''] (status_answer CertGood)) plain_lang () demo_at demo_at_clock of
     Returns (((out, err), effs), c) \<Rightarrow> err = None \<and> vt_ValidAt out \<and> vt_Determinate out | Panics \<Rightarrow> False"
  by code_simp

theorem verify_at_justified_witness:
  "case VerifyAt (dated_service [''http://ocsp''] (status_answer CertGood)) plain_lang () demo_at demo_at_clock of
     Returns (((out, err), effs), c) \<Rightarrow> vt_Signers out \<noteq> [] \<and> (\<forall>(sg, v) \<in> set (vt_Signers out). pv_ValidAt v) | Panics \<Rightarrow> False"
proof -
  obtain out effs where run: "VerifyAt (dated_service [''http://ocsp''] (status_answer CertGood)) plain_lang () demo_at demo_at_clock
      = Returns (((out, None), effs), ())" and valid: "vt_ValidAt out"
    using demo_VerifyAt by (auto split: go.splits prod.splits)
  from verify_at_justified [OF run] valid run show ?thesis by simp
qed

text \<open>
  A certificate that publishes no responder, with none named in the request: no status is
  established, even of a revoked certificate, yet the verdict is determinate and says valid.
\<close>

lemma verify_at_determinate_unasked:
  "case VerifyAt (dated_service [] (status_answer CertRevoked)) plain_lang () demo_at demo_at_clock of
     Returns (((out, err), effs), c) \<Rightarrow> err = None \<and> vt_ValidAt out \<and> vt_Determinate out | Panics \<Rightarrow> False"
  by code_simp

lemma unasked_status:
  "case Validate (dated_service [] (status_answer CertRevoked)) plain_lang () (at_validate_input demo_at 40 ''LR'') 91 of
     Returns ((res, err), c) \<Rightarrow> err = None \<and> \<not> rs_Determinate (vt_Status res) \<and> rs_LibError (vt_Status res) = None | Panics \<Rightarrow> False"
  by code_simp

end
