(* ===== verification/Challenge_Store.thy ===== *)
theory Challenge_Store
  imports Jobs_Store
begin

text \<open>
  The stores of issued challenges (internal/challenge/store.go): in memory and in a bbolt
  bucket, behind one interface. \<^verbatim>\<open>Consume\<close>, which fetches a challenge and marks it used under
  the lock or inside one transaction, is one atomic operation.
\<close>

section \<open>Challenges\<close>

record challenge =
  ch_ID :: string
  ch_Nonce :: bytes
  ch_Purpose :: string
  ch_Meta :: "(string \<times> string) list"
  ch_CreatedAt :: time
  ch_ExpiresAt :: time
  ch_Used :: bool

text \<open>The typed errors of the lifecycle, and the wrapped failures of the calls a confirmation makes.\<close>

datatype challenge_error =
    ChNotFound | ChExpired | ChUsed | ChDecode | ChRandom goerr
  | ChVerify goerr | ChRevocation goerr | ChInconclusive string

record 's challenge_ops =
  cs_Create :: "'s \<Rightarrow> challenge \<Rightarrow> challenge_error + 's"
  cs_Consume :: "'s \<Rightarrow> string \<Rightarrow> challenge_error + (challenge \<times> 's)"
  cs_Reap :: "'s \<Rightarrow> time \<Rightarrow> challenge_error + (nat \<times> 's)"
  cs_Len :: "'s \<Rightarrow> nat"

definition ch_expired :: "time \<Rightarrow> challenge \<Rightarrow> bool" where
  "ch_expired now c \<longleftrightarrow> \<not> After (ch_ExpiresAt c) now"

section \<open>The in-memory store\<close>

type_synonym challenge_mem = "(string, challenge) gomap"

definition cmem_Create :: "challenge_mem \<Rightarrow> challenge \<Rightarrow> challenge_error + challenge_mem" where
  "cmem_Create s c = Inr (kv_put (ch_ID c) c s)"

definition cmem_Consume :: "challenge_mem \<Rightarrow> string \<Rightarrow> challenge_error + (challenge \<times> challenge_mem)" where
  "cmem_Consume s i =
     (case map_of s i of
        None \<Rightarrow> Inl ChNotFound
      | Some c \<Rightarrow> if ch_Used c then Inl ChUsed else Inr (c\<lparr>ch_Used := True\<rparr>, kv_put i (c\<lparr>ch_Used := True\<rparr>) s))"

definition cmem_Reap :: "challenge_mem \<Rightarrow> time \<Rightarrow> challenge_error + (nat \<times> challenge_mem)" where
  "cmem_Reap s now = Inr (length (filter (\<lambda>(i, c). ch_expired now c) s), kv_drop (ch_expired now) s)"

definition ChallengeMem :: "challenge_mem challenge_ops" where
  "ChallengeMem = \<lparr>cs_Create = cmem_Create, cs_Consume = cmem_Consume, cs_Reap = cmem_Reap, cs_Len = length\<rparr>"

section \<open>The bbolt store\<close>

definition meta_field :: "(string \<times> string) list \<Rightarrow> (string \<times> json) list" where
  "meta_field m = (if m = [] then [] else [(''meta'', JObj (map (\<lambda>(k, v). (k, JStr v)) m))])"

definition challenge_fields :: "challenge \<Rightarrow> (string \<times> json) list" where
  "challenge_fields c = [(''id'', JStr (ch_ID c)), (''nonce'', JRaw (ch_Nonce c))] @ str_field ''purpose'' (ch_Purpose c) @
     meta_field (ch_Meta c) @
     [(''createdAt'', JTime (ch_CreatedAt c)), (''expiresAt'', JTime (ch_ExpiresAt c)), (''used'', JBool (ch_Used c))]"

definition marshal_challenge :: "challenge \<Rightarrow> json" where
  "marshal_challenge c = JObj (challenge_fields c)"

fun get_strings :: "(string \<times> json) list \<Rightarrow> (string \<times> string) list option" where
  "get_strings [] = Some []"
| "get_strings ((k, JStr v) # rest) = map_option (\<lambda>m. (k, v) # m) (get_strings rest)"
| "get_strings (_ # rest) = None"

definition get_meta :: "(string \<times> json) list \<Rightarrow> (string \<times> string) list option" where
  "get_meta fs = (case map_of fs ''meta'' of None \<Rightarrow> Some [] | Some (JObj m) \<Rightarrow> get_strings m | Some _ \<Rightarrow> None)"

fun unmarshal_challenge :: "json \<Rightarrow> challenge option" where
  "unmarshal_challenge (JObj fs) =
     (case (get_str fs ''id'', get_raw fs ''nonce'', get_str fs ''purpose'', get_meta fs) of
        (Some i, Some n, Some p, Some m) \<Rightarrow>
          (case (get_time fs ''createdAt'', get_time fs ''expiresAt'', get_flag fs ''used'') of
             (Some ca, Some ea, Some u) \<Rightarrow>
               Some \<lparr>ch_ID = i, ch_Nonce = n, ch_Purpose = p, ch_Meta = m, ch_CreatedAt = instant ca,
                     ch_ExpiresAt = instant ea, ch_Used = u\<rparr>
           | _ \<Rightarrow> None)
      | _ \<Rightarrow> None)"
| "unmarshal_challenge _ = None"

type_synonym challenge_bolt = "(string, json) gomap"

definition cbolt_put :: "string \<Rightarrow> challenge \<Rightarrow> challenge_bolt \<Rightarrow> challenge_bolt" where
  "cbolt_put i c b = kv_put i (marshal_challenge c) b"

definition cbolt_Create :: "challenge_bolt \<Rightarrow> challenge \<Rightarrow> challenge_error + challenge_bolt" where
  "cbolt_Create b c = Inr (cbolt_put (ch_ID c) c b)"

definition cbolt_Consume :: "challenge_bolt \<Rightarrow> string \<Rightarrow> challenge_error + (challenge \<times> challenge_bolt)" where
  "cbolt_Consume b i =
     (case map_of b i of
        None \<Rightarrow> Inl ChNotFound
      | Some raw \<Rightarrow>
          (case unmarshal_challenge raw of
             None \<Rightarrow> Inl ChDecode
           | Some c \<Rightarrow> if ch_Used c then Inl ChUsed else Inr (c\<lparr>ch_Used := True\<rparr>, cbolt_put i (c\<lparr>ch_Used := True\<rparr>) b)))"

fun cbolt_expired :: "time \<Rightarrow> (string \<times> json) list \<Rightarrow> challenge_error + string list" where
  "cbolt_expired now [] = Inr []"
| "cbolt_expired now ((k, raw) # rest) =
     (case unmarshal_challenge raw of
        None \<Rightarrow> Inl ChDecode
      | Some c \<Rightarrow>
          (case cbolt_expired now rest of
             Inl e \<Rightarrow> Inl e
           | Inr ks \<Rightarrow> Inr (if ch_expired now c then k # ks else ks)))"

definition cbolt_Reap :: "challenge_bolt \<Rightarrow> time \<Rightarrow> challenge_error + (nat \<times> challenge_bolt)" where
  "cbolt_Reap b now = (case cbolt_expired now b of Inl e \<Rightarrow> Inl e | Inr ks \<Rightarrow> Inr (length ks, fold kv_del ks b))"

definition ChallengeBolt :: "challenge_bolt challenge_ops" where
  "ChallengeBolt = \<lparr>cs_Create = cbolt_Create, cs_Consume = cbolt_Consume, cs_Reap = cbolt_Reap, cs_Len = length\<rparr>"

section \<open>The contract\<close>

text \<open>\<open>held s\<close> is the content of a store. A challenge is handed out at most once.\<close>

locale challenge_store =
  fixes S :: "'s challenge_ops"
    and held :: "'s \<Rightarrow> string \<rightharpoonup> challenge"
    and ok :: "'s \<Rightarrow> bool"
  assumes create: "ok s \<Longrightarrow> \<exists>s'. cs_Create S s c = Inr s' \<and> ok s' \<and> held s' = (held s)(ch_ID c \<mapsto> c)"
    and consume_absent: "ok s \<Longrightarrow> held s i = None \<Longrightarrow> cs_Consume S s i = Inl ChNotFound"
    and consume_used: "ok s \<Longrightarrow> held s i = Some c \<Longrightarrow> ch_Used c \<Longrightarrow> cs_Consume S s i = Inl ChUsed"
    and consume: "ok s \<Longrightarrow> held s i = Some c \<Longrightarrow> \<not> ch_Used c \<Longrightarrow>
      \<exists>s'. cs_Consume S s i = Inr (c\<lparr>ch_Used := True\<rparr>, s') \<and> ok s' \<and> held s' = (held s)(i \<mapsto> c\<lparr>ch_Used := True\<rparr>)"
    and reap: "ok s \<Longrightarrow> \<exists>n s'. cs_Reap S s now = Inr (n, s') \<and> ok s' \<and>
      held s' = (\<lambda>i. case held s i of None \<Rightarrow> None | Some c \<Rightarrow> if ch_expired now c then None else Some c)"
begin

lemma consume_once:
  assumes "ok s" and "cs_Consume S s i = Inr (c, s')"
  shows "cs_Consume S s' i = Inl ChUsed"
proof -
  obtain c0 where c0: "held s i = Some c0" "\<not> ch_Used c0"
    using assms consume_absent [of s i] consume_used [of s i] by fastforce
  from consume [OF assms(1) this] assms(2) have "ok s'" "held s' i = Some (c0\<lparr>ch_Used := True\<rparr>)" by auto
  then show ?thesis by (rule consume_used) simp
qed

lemma consume_Inr:
  assumes "ok s" and "cs_Consume S s i = Inr (c, s')"
  obtains c0 where "held s i = Some c0" "\<not> ch_Used c0" "c = c0\<lparr>ch_Used := True\<rparr>" "ok s'"
    "held s' = (held s)(i \<mapsto> c0\<lparr>ch_Used := True\<rparr>)"
proof -
  obtain c0 where c0: "held s i = Some c0" "\<not> ch_Used c0"
    using assms consume_absent [of s i] consume_used [of s i] by fastforce
  from consume [OF assms(1) this] assms(2) c0 that show thesis by auto
qed

end

lemmas cmem_defs = cmem_Create_def cmem_Consume_def cmem_Reap_def ChallengeMem_def

interpretation cmem: challenge_store ChallengeMem map_of kv_ok
proof (unfold_locales, goal_cases)
  case (5 s now) then show ?case by (auto simp: cmem_defs wf_intros kv_simps fun_eq_iff split: option.splits)
qed (auto simp: cmem_defs wf_intros kv_simps)

lemma get_strings_marshal [simp]: "get_strings (map (\<lambda>(k, v). (k, JStr v)) m) = Some m"
  by (induction m) auto

lemma map_of_meta_field:
  "map_of (meta_field m) k = (if k = ''meta'' \<and> m \<noteq> [] then Some (JObj (map (\<lambda>(k, v). (k, JStr v)) m)) else None)"
  by (simp add: meta_field_def)

lemma unmarshal_marshal_challenge [simp]: "unmarshal_challenge (marshal_challenge c) = Some c"
  by (simp add: marshal_challenge_def challenge_fields_def get_str_def get_raw_def get_time_def get_flag_def get_meta_def map_of_meta_field
      map_of_fields instant_def)

definition cbolt_repr :: "challenge_mem \<Rightarrow> challenge_bolt" where
  "cbolt_repr s = kv_map marshal_challenge s"

lemma cbolt_repr_get [simp]: "map_of (cbolt_repr s) i = map_option marshal_challenge (map_of s i)"
  by (simp add: cbolt_repr_def kv_simps)

lemma cbolt_repr_put: "cbolt_put i c (cbolt_repr s) = cbolt_repr (kv_put i c s)"
  by (induction s) (auto simp: cbolt_put_def cbolt_repr_def kv_map_def kv_put_def)

lemma cbolt_expired_eq: "cbolt_expired now (cbolt_repr s) = Inr (map fst (filter (\<lambda>(i, c). ch_expired now c) s))"
  by (induction s) (auto simp: cbolt_repr_def kv_map_def)

lemma fold_kv_del_crepr: "fold kv_del ks (cbolt_repr s) = cbolt_repr (fold kv_del ks s)"
proof (induction ks arbitrary: s)
  case (Cons k ks)
  have "kv_del k (cbolt_repr s) = cbolt_repr (kv_del k s)"
    by (induction s) (auto simp: cbolt_repr_def kv_map_def kv_del_def)
  with Cons show ?case by simp
qed simp

lemma cbolt_refines:
  "cs_Create ChallengeBolt (cbolt_repr s) c = map_sum id cbolt_repr (cs_Create ChallengeMem s c)"
  "cs_Consume ChallengeBolt (cbolt_repr s) i = map_sum id (map_prod id cbolt_repr) (cs_Consume ChallengeMem s i)"
  "kv_ok s \<Longrightarrow> cs_Reap ChallengeBolt (cbolt_repr s) now = map_sum id (map_prod id cbolt_repr) (cs_Reap ChallengeMem s now)"
  by (simp_all add: cmem_defs ChallengeBolt_def cbolt_Create_def cbolt_Consume_def cbolt_Reap_def cbolt_repr_put
      cbolt_expired_eq fold_kv_del_crepr fold_kv_del_drop split: option.splits)

definition cbolt_held :: "challenge_bolt \<Rightarrow> string \<rightharpoonup> challenge" where
  "cbolt_held b i = Option.bind (map_of b i) unmarshal_challenge"

definition cbolt_ok :: "challenge_bolt \<Rightarrow> bool" where
  "cbolt_ok b \<longleftrightarrow> (\<exists>s. kv_ok s \<and> b = cbolt_repr s)"

lemma cbolt_held_repr [simp]: "cbolt_held (cbolt_repr s) = map_of s"
  by (rule ext) (auto simp: cbolt_held_def map_option_case split: option.splits)

lemma cbolt_ok_repr [simp]: "kv_ok s \<Longrightarrow> cbolt_ok (cbolt_repr s)"
  by (auto simp: cbolt_ok_def)

interpretation cbolt: challenge_store ChallengeBolt cbolt_held cbolt_ok
proof (unfold_locales, goal_cases)
  case (1 b c)
  then obtain s where "kv_ok s" "b = cbolt_repr s" by (auto simp: cbolt_ok_def)
  with cmem.create [of s c] show ?case by (auto simp: cbolt_refines)
next
  case (2 b i) then show ?case by (auto simp: cbolt_ok_def cbolt_refines cmem.consume_absent)
next
  case (3 b i c) then show ?case by (auto simp: cbolt_ok_def cbolt_refines cmem.consume_used)
next
  case (4 b i c)
  then obtain s where s: "kv_ok s" "b = cbolt_repr s" by (auto simp: cbolt_ok_def)
  with 4 cmem.consume [of s i c] show ?case by (auto simp: cbolt_refines)
next
  case (5 b now)
  then obtain s where s: "kv_ok s" "b = cbolt_repr s" by (auto simp: cbolt_ok_def)
  with cmem.reap [of s now] show ?case by (auto simp: cbolt_refines)
qed

end
