(* ===== verification/Challenge.thy ===== *)
theory Challenge
  imports Challenge_Store Verify_Properties
begin

text \<open>
  Challenge confirmation (internal/challenge/challenge.go): the service issues a single-use nonce,
  the user signs it, and a confirmation consumes the challenge, verifies the detached signature
  over the nonce and says who signed. Random bytes, the clock and the OCSP cache a confirmation
  finds are arguments. A confirmation consumes before it verifies, so the store it leaves is
  determined even when the verification panics.
\<close>

section \<open>The service\<close>

record challenge_config =
  cg_TTL :: dur
  cg_RequireOCSP :: bool

definition challenge_New :: "challenge_config \<Rightarrow> challenge_config" where
  "challenge_New cfg = (if cg_TTL cfg \<le> 0 then cfg\<lparr>cg_TTL := 5 * Minute\<rparr> else cfg)"

record issue_request =
  iq_Purpose :: string
  iq_Meta :: "(string \<times> string) list"

record issue_response =
  is_ChallengeID :: string
  is_Data :: string
  is_Alg :: string
  is_ExpiresIn :: int
  is_Purpose :: string

record confirm_request =
  cq_ChallengeID :: string
  cq_Signature :: bytes
  cq_CheckRevocation :: bool

record confirm_response =
  cr_Confirmed :: bool
  cr_Purpose :: string
  cr_Meta :: "(string \<times> string) list"
  cr_ConfirmedAt :: time
  cr_Signer :: "claims option"
  cr_Certificate :: "certificate option"
  cr_Revoked :: "bool option"

definition randID :: "goerr + bytes \<Rightarrow> challenge_error + string" where
  "randID random = (case random of Inl e \<Rightarrow> Inl (ChRandom e) | Inr b \<Rightarrow> Inr (hex_lower b))"

definition new_challenge :: "challenge_config \<Rightarrow> issue_request \<Rightarrow> string \<Rightarrow> bytes \<Rightarrow> time \<Rightarrow> challenge" where
  "new_challenge cfg req i nonce now =
     \<lparr>ch_ID = i, ch_Nonce = nonce, ch_Purpose = iq_Purpose req, ch_Meta = iq_Meta req, ch_CreatedAt = now,
      ch_ExpiresAt = now + cg_TTL cfg, ch_Used = False\<rparr>"

definition Issue :: "'s challenge_ops \<Rightarrow> challenge_config \<Rightarrow> 's \<Rightarrow> issue_request \<Rightarrow> goerr + bytes \<Rightarrow> goerr + bytes \<Rightarrow> time \<Rightarrow>
    (challenge_error + issue_response) \<times> 's" where
  "Issue S cfg st req nonce idBytes now =
     (case nonce of
        Inl e \<Rightarrow> (Inl (ChRandom e), st)
      | Inr n \<Rightarrow>
          (case randID idBytes of
             Inl e \<Rightarrow> (Inl e, st)
           | Inr i \<Rightarrow>
               (case cs_Create S st (new_challenge cfg req i n now) of
                  Inl e \<Rightarrow> (Inl e, st)
                | Inr st' \<Rightarrow>
                    (Inr \<lparr>is_ChallengeID = i, is_Data = base64 n, is_Alg = ''CMS-detached'', is_ExpiresIn = cg_TTL cfg div Second,
                          is_Purpose = iq_Purpose req\<rparr>, st'))))"

definition confirm_verify_input :: "bytes \<Rightarrow> bytes \<Rightarrow> verify_input" where
  "confirm_verify_input signature nonce =
     \<lparr>vi_Format = FormatCMS, vi_Signature = signature, vi_Data = nonce, vi_DataRef = \<lparr>dr_Path = [], dr_URL = []\<rparr>,
      vi_Detached = True, vi_InputPEM = False, vi_CheckCertTime = True, vi_ExtractContent = False, vi_ExtractClaims = True,
      vi_Explain = False, vi_Report = False, vi_Receipt = False, vi_TrustedCerts = [], vi_RevocationCheck = None,
      vi_RevocationMethod = [], vi_ResponderURL = [], vi_Archive = False\<rparr>"

definition confirm_validate_input :: "bytes \<Rightarrow> validate_input" where
  "confirm_validate_input pem =
     \<lparr>va_Cert = pem, va_Format = EncodingPEM, va_Method = MethodOCSP, va_CheckTime = zero_time, va_WantOCSP = False,
      va_TrustedCerts = [], va_ResponderURL = [], va_CRL = []\<rparr>"

definition challenge_checkRevocation :: "'c service \<Rightarrow> lang \<Rightarrow> 'c \<Rightarrow> bytes \<Rightarrow> time \<Rightarrow> ((challenge_error + bool) \<times> 'c) go" where
  "challenge_checkRevocation s ctx c pem now =
     (case Validate s ctx c (confirm_validate_input pem) now of
        Panics \<Rightarrow> Panics
      | Returns ((_, Some e), c') \<Rightarrow> Returns (Inl (ChRevocation e), c')
      | Returns ((out, None), c') \<Rightarrow>
          Returns (case rs_LibError (vt_Status out) of
                     Some le \<Rightarrow> if rs_Revoked (vt_Status out) then Inr True else Inl (ChInconclusive (le_Message le))
                   | None \<Rightarrow> Inr (rs_Revoked (vt_Status out)), c'))"

record confirm_clock =
  cl_now :: time
  cl_verify :: verify_clock
  cl_validate :: time

text \<open>The signer of a signature that verified, with the extra revocation check when it is asked for.\<close>

definition confirm_signer :: "challenge_config \<Rightarrow> 'c service \<Rightarrow> lang \<Rightarrow> 'c \<Rightarrow> challenge \<Rightarrow> confirm_request \<Rightarrow> confirm_clock \<Rightarrow>
    signer \<Rightarrow> ((challenge_error + confirm_response) \<times> 'c) go" where
  "confirm_signer cfg s ctx c ch req clock sg =
     (let resp = \<lparr>cr_Confirmed = True, cr_Purpose = ch_Purpose ch, cr_Meta = ch_Meta ch, cr_ConfirmedAt = cl_now clock,
            cr_Signer = sg_Claims sg, cr_Certificate = Some (sg_Certificate sg), cr_Revoked = None\<rparr>
      in if cg_RequireOCSP cfg \<or> cq_CheckRevocation req then
           (case challenge_checkRevocation s ctx c (ct_PEM (sg_Certificate sg)) (cl_validate clock) of
              Panics \<Rightarrow> Panics
            | Returns (Inl e, c') \<Rightarrow> Returns (Inl e, c')
            | Returns (Inr revoked, c') \<Rightarrow>
                Returns (Inr (resp\<lparr>cr_Revoked := Some revoked, cr_Confirmed := (\<not> revoked)\<rparr>), c'))
         else Returns (Inr resp, c))"

definition unconfirmed :: "challenge \<Rightarrow> confirm_clock \<Rightarrow> confirm_response" where
  "unconfirmed ch clock = \<lparr>cr_Confirmed = False, cr_Purpose = ch_Purpose ch, cr_Meta = ch_Meta ch,
     cr_ConfirmedAt = cl_now clock, cr_Signer = None, cr_Certificate = None, cr_Revoked = None\<rparr>"

definition confirm_consumed :: "challenge_config \<Rightarrow> 'c service \<Rightarrow> lang \<Rightarrow> 'c \<Rightarrow> challenge \<Rightarrow> confirm_request \<Rightarrow> confirm_clock \<Rightarrow>
    ((challenge_error + confirm_response) \<times> 'c) go" where
  "confirm_consumed cfg s ctx c ch req clock =
     (if \<not> After (ch_ExpiresAt ch) (cl_now clock) then Returns (Inl ChExpired, c)
      else case Verify s ctx c (confirm_verify_input (cq_Signature req) (ch_Nonce ch)) (cl_verify clock) of
        Panics \<Rightarrow> Panics
      | Returns (((out, Some e), effs), c') \<Rightarrow> Returns (Inl (ChVerify e), c')
      | Returns (((out, None), effs), c') \<Rightarrow>
          (case vo_Signers out of
             sg # _ \<Rightarrow>
               if vo_Valid out then confirm_signer cfg s ctx c' ch req clock sg
               else Returns (Inr (unconfirmed ch clock), c')
           | [] \<Rightarrow> Returns (Inr (unconfirmed ch clock), c')))"

definition Confirm :: "'s challenge_ops \<Rightarrow> challenge_config \<Rightarrow> 'c service \<Rightarrow> lang \<Rightarrow> 's \<Rightarrow> 'c \<Rightarrow> confirm_request \<Rightarrow> confirm_clock \<Rightarrow>
    ((challenge_error + confirm_response) \<times> 'c) go \<times> 's" where
  "Confirm S cfg s ctx st c req clock =
     (case cs_Consume S st (cq_ChallengeID req) of
        Inl e \<Rightarrow> (Returns (Inl e, c), st)
      | Inr (ch, st') \<Rightarrow> (confirm_consumed cfg s ctx c ch req clock, st'))"

definition challenge_Reap :: "'s challenge_ops \<Rightarrow> 's \<Rightarrow> time \<Rightarrow> (challenge_error + nat) \<times> 's" where
  "challenge_Reap S st now = (case cs_Reap S st now of Inl e \<Rightarrow> (Inl e, st) | Inr (n, st') \<Rightarrow> (Inr n, st'))"

definition reap_interval :: "challenge_config \<Rightarrow> dur" where
  "reap_interval cfg = (if cg_TTL cfg > Minute then Minute else cg_TTL cfg)"

section \<open>Histories\<close>

text \<open>
  A history is the order in which the operations of concurrent requests reach the store. Each
  confirmation finds some cache of its own.
\<close>

datatype 'c challenge_op =
    IssueOp issue_request "goerr + bytes" "goerr + bytes" time
  | ConfirmOp confirm_request 'c confirm_clock
  | ReapOp time

datatype challenge_outcome =
    Issued "challenge_error + issue_response" | Confirmed "(challenge_error + confirm_response) go" | Reaped "challenge_error + nat"

definition go_fst :: "('a \<times> 'c) go \<Rightarrow> 'a go" where
  "go_fst r = (case r of Panics \<Rightarrow> Panics | Returns (a, c) \<Rightarrow> Returns a)"

definition challenge_step :: "'s challenge_ops \<Rightarrow> challenge_config \<Rightarrow> 'c service \<Rightarrow> lang \<Rightarrow> 'c challenge_op \<Rightarrow> 's \<Rightarrow>
    challenge_outcome \<times> 's" where
  "challenge_step S cfg s ctx p st =
     (case p of
        IssueOp req nonce idBytes now \<Rightarrow> (case Issue S cfg st req nonce idBytes now of (r, st') \<Rightarrow> (Issued r, st'))
      | ConfirmOp req c clock \<Rightarrow> (case Confirm S cfg s ctx st c req clock of (r, st') \<Rightarrow> (Confirmed (go_fst r), st'))
      | ReapOp now \<Rightarrow> (case challenge_Reap S st now of (r, st') \<Rightarrow> (Reaped r, st')))"

fun challenge_history :: "'s challenge_ops \<Rightarrow> challenge_config \<Rightarrow> 'c service \<Rightarrow> lang \<Rightarrow> 'c challenge_op list \<Rightarrow> 's \<Rightarrow>
    challenge_outcome list \<times> 's" where
  "challenge_history S cfg s ctx [] st = ([], st)"
| "challenge_history S cfg s ctx (p # ps) st =
     (case challenge_step S cfg s ctx p st of (r, st1) \<Rightarrow>
        (case challenge_history S cfg s ctx ps st1 of (rs, st2) \<Rightarrow> (r # rs, st2)))"

text \<open>The operations that issue an identifier, and the outcomes that confirm it.\<close>

definition issues_id :: "string \<Rightarrow> 'c challenge_op \<Rightarrow> bool" where
  "issues_id i p \<longleftrightarrow> (\<exists>req n b now. p = IssueOp req (Inr n) (Inr b) now \<and> hex_lower b = i)"

definition confirms_id :: "string \<Rightarrow> 'c challenge_op \<times> challenge_outcome \<Rightarrow> bool" where
  "confirms_id i pr \<longleftrightarrow> (\<exists>req c clock resp. pr = (ConfirmOp req c clock, Confirmed (Returns (Inr resp))) \<and>
     cq_ChallengeID req = i \<and> cr_Confirmed resp)"

text \<open>What stands behind a confirmation of a challenge.\<close>

definition signed_by_holder :: "challenge_config \<Rightarrow> 'c service \<Rightarrow> lang \<Rightarrow> 'c \<Rightarrow> confirm_request \<Rightarrow> confirm_clock \<Rightarrow> bytes \<Rightarrow>
    confirm_response \<Rightarrow> bool" where
  "signed_by_holder cfg s ctx c req clock nonce resp \<longleftrightarrow>
     (\<exists>out effs c' sg rest. Verify s ctx c (confirm_verify_input (cq_Signature req) nonce) (cl_verify clock) = Returns (((out, None), effs), c') \<and>
        vo_Valid out \<and> vo_Signers out = sg # rest \<and> cr_Signer resp = sg_Claims sg \<and>
        cr_Certificate resp = Some (sg_Certificate sg) \<and>
        (cg_RequireOCSP cfg \<or> cq_CheckRevocation req \<longrightarrow>
          (\<exists>res c''. Validate s ctx c' (confirm_validate_input (ct_PEM (sg_Certificate sg))) (cl_validate clock) = Returns ((res, None), c'') \<and>
             \<not> rs_Revoked (vt_Status res) \<and> rs_LibError (vt_Status res) = None)))"

lemma confirm_consumed_confirmed:
  assumes "confirm_consumed cfg s ctx c ch req clock = Returns (Inr resp, c')" and "cr_Confirmed resp"
  shows "signed_by_holder cfg s ctx c req clock (ch_Nonce ch) resp" "cl_now clock < ch_ExpiresAt ch"
    "cr_Purpose resp = ch_Purpose ch" "cr_Meta resp = ch_Meta ch"
proof -
  from assms(1) have live: "cl_now clock < ch_ExpiresAt ch" by (auto simp: confirm_consumed_def split: if_splits)
  with assms obtain out effs c1 sg rest where
    v: "Verify s ctx c (confirm_verify_input (cq_Signature req) (ch_Nonce ch)) (cl_verify clock) = Returns (((out, None), effs), c1)"
    "vo_Valid out" "vo_Signers out = sg # rest"
    and sg: "confirm_signer cfg s ctx c1 ch req clock sg = Returns (Inr resp, c')"
    by (auto simp: confirm_consumed_def unconfirmed_def split: go.splits option.splits list.splits if_splits)
  let ?ask = "cg_RequireOCSP cfg \<or> cq_CheckRevocation req"
  let ?val = "Validate s ctx c1 (confirm_validate_input (ct_PEM (sg_Certificate sg))) (cl_validate clock)"
  have resp: "cr_Purpose resp = ch_Purpose ch" "cr_Meta resp = ch_Meta ch" "cr_Signer resp = sg_Claims sg"
    "cr_Certificate resp = Some (sg_Certificate sg)"
    using sg by (auto simp: confirm_signer_def Let_def split: go.splits sum.splits if_splits)
  have val: "\<exists>res c''. ?val = Returns ((res, None), c'') \<and> \<not> rs_Revoked (vt_Status res) \<and> rs_LibError (vt_Status res) = None" if ?ask
  proof -
    from sg that assms(2) obtain c2 where "challenge_checkRevocation s ctx c1 (ct_PEM (sg_Certificate sg)) (cl_validate clock) = Returns (Inr False, c2)"
      by (auto simp: confirm_signer_def Let_def split: go.splits sum.splits if_splits)
    then show ?thesis by (auto simp: challenge_checkRevocation_def split: go.splits option.splits if_splits)
  qed
  show "signed_by_holder cfg s ctx c req clock (ch_Nonce ch) resp"
    unfolding signed_by_holder_def using v resp val by blast
  show "cl_now clock < ch_ExpiresAt ch" "cr_Purpose resp = ch_Purpose ch" "cr_Meta resp = ch_Meta ch"
    using live resp by simp_all
qed

text \<open>The issue operation a held challenge comes from.\<close>

definition issued_as :: "challenge_config \<Rightarrow> 'c challenge_op list \<Rightarrow> string \<Rightarrow> challenge \<Rightarrow> bool" where
  "issued_as cfg ps i ch \<longleftrightarrow> (\<exists>req b now. IssueOp req (Inr (ch_Nonce ch)) (Inr b) now \<in> set ps \<and> hex_lower b = i \<and>
     ch_Purpose ch = iq_Purpose req \<and> ch_Meta ch = iq_Meta req \<and> ch_ExpiresAt ch = now + cg_TTL cfg)"

lemma issued_as_append: "issued_as cfg ps i ch \<Longrightarrow> issued_as cfg (ps @ qs) i ch"
  by (auto simp: issued_as_def)

lemma issued_as_used [simp]: "issued_as cfg ps i (ch\<lparr>ch_Used := u\<rparr>) = issued_as cfg ps i ch"
  by (simp add: issued_as_def)

section \<open>One confirmation per issue\<close>

lemma count_step:
  assumes "n \<le> (if a1 then 1 else 0) + m" and "a1 \<longrightarrow> a \<or> iss"
  shows "(conf \<longrightarrow> a \<and> \<not> a1 \<and> \<not> iss) \<Longrightarrow> (if conf then Suc n else n) \<le> (if a then 1 else 0) + (if iss then Suc m else m)"
  using assms by (auto split: if_splits)

context challenge_store
begin

lemma issue_effect:
  assumes "ok st" and "Issue S cfg st req nonce idBytes now = (r, st')"
  shows "ok st' \<and> (held st' = held st \<or> (\<exists>n b. nonce = Inr n \<and> idBytes = Inr b \<and>
     held st' = (held st)(hex_lower b \<mapsto> new_challenge cfg req (hex_lower b) n now)))"
proof (cases "\<exists>n b. nonce = Inr n \<and> idBytes = Inr b")
  case True
  then obtain n b where nb: "nonce = Inr n" "idBytes = Inr b" by blast
  from create [OF assms(1), of "new_challenge cfg req (hex_lower b) n now"] obtain s1 where
    "cs_Create S st (new_challenge cfg req (hex_lower b) n now) = Inr s1" "ok s1"
    "held s1 = (held st)(hex_lower b \<mapsto> new_challenge cfg req (hex_lower b) n now)"
    by (auto simp: new_challenge_def)
  with nb assms(2) show ?thesis by (auto simp: Issue_def randID_def)
next
  case False
  with assms show ?thesis by (auto simp: Issue_def randID_def split: sum.splits)
qed

lemma confirm_effect:
  assumes "ok st" and "Confirm S cfg s ctx st c req clock = (r, st')"
  shows "ok st' \<and> ((st' = st \<and> (\<exists>e. r = Returns (Inl e, c))) \<or>
    (\<exists>ch. held st (cq_ChallengeID req) = Some ch \<and> \<not> ch_Used ch \<and>
       held st' = (held st)(cq_ChallengeID req \<mapsto> ch\<lparr>ch_Used := True\<rparr>) \<and>
       confirm_consumed cfg s ctx c (ch\<lparr>ch_Used := True\<rparr>) req clock = r))"
proof (cases "cs_Consume S st (cq_ChallengeID req)")
  case (Inl e)
  with assms show ?thesis by (auto simp: Confirm_def)
next
  case (Inr p)
  obtain ch st1 where p: "p = (ch, st1)" by fastforce
  from consume_Inr [OF assms(1) Inr [unfolded p]] obtain ch0 where
    "held st (cq_ChallengeID req) = Some ch0" "\<not> ch_Used ch0" "ch = ch0\<lparr>ch_Used := True\<rparr>" "ok st1"
    "held st1 = (held st)(cq_ChallengeID req \<mapsto> ch0\<lparr>ch_Used := True\<rparr>)" .
  with Inr p assms(2) show ?thesis by (auto simp: Confirm_def)
qed

lemma reap_effect:
  assumes "ok st" and "challenge_Reap S st now = (r, st')"
  shows "ok st' \<and> (\<forall>i ch. held st' i = Some ch \<longrightarrow> held st i = Some ch)"
  using reap [OF assms(1), of now] assms(2) by (auto simp: challenge_Reap_def split: option.splits if_splits)

lemma step_ok: "ok st \<Longrightarrow> challenge_step S cfg s ctx p st = (r, st') \<Longrightarrow> ok st'"
  by (auto simp: challenge_step_def dest: issue_effect confirm_effect reap_effect split: challenge_op.splits prod.splits)

text \<open>A challenge becomes available only by its issue, and a confirmation takes it away.\<close>

lemma step_available:
  assumes "ok st" and "challenge_step S cfg s ctx p st = (r, st')" and "held st' i = Some ch" and "\<not> ch_Used ch"
  shows "held st i = Some ch \<or> issues_id i p"
proof (cases p)
  case (IssueOp req nonce idBytes now)
  with assms obtain r1 where "Issue S cfg st req nonce idBytes now = (r1, st')"
    by (auto simp: challenge_step_def split: prod.splits)
  from issue_effect [OF assms(1) this] IssueOp assms(3) show ?thesis by (auto simp: issues_id_def split: if_splits)
next
  case (ConfirmOp req c clock)
  with assms obtain r1 where "Confirm S cfg s ctx st c req clock = (r1, st')"
    by (auto simp: challenge_step_def split: prod.splits)
  from confirm_effect [OF assms(1) this] assms(3,4) show ?thesis by (auto split: if_splits)
next
  case (ReapOp now)
  with assms obtain r1 where "challenge_Reap S st now = (r1, st')"
    by (auto simp: challenge_step_def split: prod.splits)
  from reap_effect [OF assms(1) this] assms(3) show ?thesis by blast
qed

lemma step_confirms:
  assumes "ok st" and "challenge_step S cfg s ctx (ConfirmOp req c clock) st = (Confirmed (Returns (Inr resp)), st')"
  obtains ch c' where "held st (cq_ChallengeID req) = Some ch" "\<not> ch_Used ch"
    "held st' (cq_ChallengeID req) = Some (ch\<lparr>ch_Used := True\<rparr>)"
    "confirm_consumed cfg s ctx c (ch\<lparr>ch_Used := True\<rparr>) req clock = Returns (Inr resp, c')"
proof -
  from assms(2) obtain c' where "Confirm S cfg s ctx st c req clock = (Returns (Inr resp, c'), st')"
    by (auto simp: challenge_step_def go_fst_def split: prod.splits go.splits)
  from confirm_effect [OF assms(1) this] that show thesis by auto
qed

lemma step_held:
  assumes "ok st" and "challenge_step S cfg s ctx p st = (r, st')" and "\<And>i ch. held st i = Some ch \<Longrightarrow> issued_as cfg ps i ch"
    and "held st' i = Some ch"
  shows "issued_as cfg (ps @ [p]) i ch"
proof (cases p)
  case (IssueOp req nonce idBytes now)
  with assms obtain r1 where "Issue S cfg st req nonce idBytes now = (r1, st')"
    by (auto simp: challenge_step_def split: prod.splits)
  from issue_effect [OF assms(1) this] have "held st' = held st \<or> (\<exists>n b. nonce = Inr n \<and> idBytes = Inr b \<and>
     held st' = (held st)(hex_lower b \<mapsto> new_challenge cfg req (hex_lower b) n now))" by simp
  then show ?thesis
  proof
    assume "held st' = held st"
    with assms(3,4) issued_as_append show ?thesis by metis
  next
    assume "\<exists>n b. nonce = Inr n \<and> idBytes = Inr b \<and> held st' = (held st)(hex_lower b \<mapsto> new_challenge cfg req (hex_lower b) n now)"
    then obtain n b where nb: "nonce = Inr n" "idBytes = Inr b"
      and held: "held st' = (held st)(hex_lower b \<mapsto> new_challenge cfg req (hex_lower b) n now)" by blast
    show ?thesis
    proof (cases "i = hex_lower b")
      case True
      with held assms(4) have "ch = new_challenge cfg req i n now" by simp
      with IssueOp nb True show ?thesis by (auto simp: issued_as_def new_challenge_def)
    next
      case False
      with held assms(3,4) issued_as_append show ?thesis by (metis fun_upd_apply)
    qed
  qed
next
  case (ConfirmOp req c clock)
  with assms obtain r1 where "Confirm S cfg s ctx st c req clock = (r1, st')"
    by (auto simp: challenge_step_def split: prod.splits)
  from confirm_effect [OF assms(1) this] assms(3,4) have "issued_as cfg ps i ch" by (auto split: if_splits)
  then show ?thesis by (rule issued_as_append)
next
  case (ReapOp now)
  with assms obtain r1 where "challenge_Reap S st now = (r1, st')"
    by (auto simp: challenge_step_def split: prod.splits)
  from reap_effect [OF assms(1) this] assms(3,4) have "issued_as cfg ps i ch" by blast
  then show ?thesis by (rule issued_as_append)
qed

lemma history_count:
  assumes "ok st" and "challenge_history S cfg s ctx ps st = (rs, st')"
  shows "length (filter (confirms_id i) (zip ps rs)) \<le>
    (if \<exists>ch. held st i = Some ch \<and> \<not> ch_Used ch then 1 else 0) + length (filter (issues_id i) ps)"
  using assms
proof (induction ps arbitrary: st rs)
  case (Cons p ps)
  obtain r st1 where step: "challenge_step S cfg s ctx p st = (r, st1)" by fastforce
  obtain rs1 where rest: "challenge_history S cfg s ctx ps st1 = (rs1, st')" and rs: "rs = r # rs1"
    using Cons.prems(2) step by (auto split: prod.splits)
  let ?avail = "\<lambda>st. \<exists>ch. held st i = Some ch \<and> \<not> ch_Used ch"
  note IH = Cons.IH [OF step_ok [OF Cons.prems(1) step] rest]
  have avail: "?avail st1 \<longrightarrow> ?avail st \<or> issues_id i p" using step_available [OF Cons.prems(1) step] by blast
  have conf: "confirms_id i (p, r) \<longrightarrow> ?avail st \<and> \<not> ?avail st1 \<and> \<not> issues_id i p"
  proof
    assume "confirms_id i (p, r)"
    then obtain req c clock resp where p: "p = ConfirmOp req c clock" "r = Confirmed (Returns (Inr resp))" "cq_ChallengeID req = i"
      by (auto simp: confirms_id_def)
    from step_confirms [OF Cons.prems(1) step [unfolded p(1,2)]] obtain ch where
      "held st i = Some ch" "\<not> ch_Used ch" "held st1 i = Some (ch\<lparr>ch_Used := True\<rparr>)" unfolding p(3) .
    then show "?avail st \<and> \<not> ?avail st1 \<and> \<not> issues_id i p" by (simp add: p(1) issues_id_def)
  qed
  have len: "length (filter (confirms_id i) (zip (p # ps) rs)) =
      (if confirms_id i (p, r) then Suc (length (filter (confirms_id i) (zip ps rs1))) else length (filter (confirms_id i) (zip ps rs1)))"
    "length (filter (issues_id i) (p # ps)) = (if issues_id i p then Suc (length (filter (issues_id i) ps)) else length (filter (issues_id i) ps))"
    by (simp_all add: rs)
  show ?case unfolding len by (rule count_step [OF IH avail conf])
qed simp

lemma history_genuine:
  assumes "ok st" and "\<And>i ch. held st i = Some ch \<Longrightarrow> issued_as cfg hist i ch"
    and "challenge_history S cfg s ctx ps st = (rs, st')"
    and "j < length ps" "ps ! j = ConfirmOp req c clock" "rs ! j = Confirmed (Returns (Inr resp))" "cr_Confirmed resp"
  shows "\<exists>ch. issued_as cfg (hist @ take j ps) (cq_ChallengeID req) ch \<and> cl_now clock < ch_ExpiresAt ch \<and>
    cr_Purpose resp = ch_Purpose ch \<and> cr_Meta resp = ch_Meta ch \<and>
    signed_by_holder cfg s ctx c req clock (ch_Nonce ch) resp"
  using assms
proof (induction ps arbitrary: st rs j hist)
  case (Cons p ps)
  obtain r st1 where step: "challenge_step S cfg s ctx p st = (r, st1)" by fastforce
  obtain rs1 where rest: "challenge_history S cfg s ctx ps st1 = (rs1, st')" and rs: "rs = r # rs1"
    using Cons.prems(3) step by (auto split: prod.splits)
  show ?case
  proof (cases j)
    case 0
    with Cons.prems rs step have "challenge_step S cfg s ctx (ConfirmOp req c clock) st = (Confirmed (Returns (Inr resp)), st1)" by simp
    from step_confirms [OF Cons.prems(1) this] obtain ch c' where
      ch: "held st (cq_ChallengeID req) = Some ch" and cc: "confirm_consumed cfg s ctx c (ch\<lparr>ch_Used := True\<rparr>) req clock = Returns (Inr resp, c')" .
    from Cons.prems(2) [OF ch] confirm_consumed_confirmed [OF cc Cons.prems(7)] 0 show ?thesis
      by (intro exI [of _ ch]) simp
  next
    case (Suc k)
    have "\<exists>ch. issued_as cfg ((hist @ [p]) @ take k ps) (cq_ChallengeID req) ch \<and> cl_now clock < ch_ExpiresAt ch \<and>
      cr_Purpose resp = ch_Purpose ch \<and> cr_Meta resp = ch_Meta ch \<and> signed_by_holder cfg s ctx c req clock (ch_Nonce ch) resp"
      by (rule Cons.IH [OF step_ok [OF Cons.prems(1) step] step_held [OF Cons.prems(1) step Cons.prems(2)] rest])
        (use Cons.prems(4-7) Suc rs in auto)
    with Suc show ?thesis by simp
  qed
qed simp

end

text \<open>
  Claim C9: a challenge is confirmed at most once, and only by a signature over its own nonce. In any
  history of requests that starts with an empty store, of either kind, an identifier is confirmed
  at most as often as it was issued; and behind every confirmation stands an earlier issue of that
  identifier, not yet expired, whose purpose and values are returned, and a verification of the
  submitted detached signature over that issue's nonce that was valid and whose first signer is
  the one reported. When a revocation check was asked for, the certificate's status was obtained
  and is not revoked.
\<close>

theorem challenge_confirmed_once:
  assumes "rs = fst (challenge_history ChallengeMem cfg s ctx ps []) \<or> rs = fst (challenge_history ChallengeBolt cfg s ctx ps [])"
  shows "length (filter (confirms_id i) (zip ps rs)) \<le> length (filter (issues_id i) ps) \<and>
    (\<forall>j req c clock resp. j < length ps \<longrightarrow> ps ! j = ConfirmOp req c clock \<longrightarrow> rs ! j = Confirmed (Returns (Inr resp)) \<longrightarrow>
       cr_Confirmed resp \<longrightarrow>
       (\<exists>ch. issued_as cfg (take j ps) (cq_ChallengeID req) ch \<and> cl_now clock < ch_ExpiresAt ch \<and>
          cr_Purpose resp = ch_Purpose ch \<and> cr_Meta resp = ch_Meta ch \<and>
          signed_by_holder cfg s ctx c req clock (ch_Nonce ch) resp))"
  using assms
proof
  assume "rs = fst (challenge_history ChallengeMem cfg s ctx ps [])"
  then obtain st where run: "challenge_history ChallengeMem cfg s ctx ps [] = (rs, st)" by (metis prod.collapse)
  show ?thesis
    using cmem.history_count [OF _ run, of i] cmem.history_genuine [where hist = "[]", OF _ _ run] by simp
next
  assume "rs = fst (challenge_history ChallengeBolt cfg s ctx ps [])"
  then obtain st where run: "challenge_history ChallengeBolt cfg s ctx ps [] = (rs, st)" by (metis prod.collapse)
  have empty: "cbolt_ok []" "cbolt_held [] j = None" for j
    using cbolt_ok_repr [of "[]"] by (simp_all add: cbolt_repr_def kv_map_def cbolt_held_def)
  show ?thesis
    using cbolt.history_count [OF empty(1) run, of i] cbolt.history_genuine [where hist = "[]", OF empty(1) _ run] by (simp add: empty(2))
qed

text \<open>A login nonce, its confirmation, and the replay of the confirmation.\<close>

definition demo_config :: challenge_config where
  "demo_config = challenge_New \<lparr>cg_TTL = 0, cg_RequireOCSP = True\<rparr>"

definition demo_confirm :: "unit challenge_op" where
  "demo_confirm = ConfirmOp \<lparr>cq_ChallengeID = ''6964'', cq_Signature = ''cms'', cq_CheckRevocation = False\<rparr> ()
     \<lparr>cl_now = 8, cl_verify = demo_clock, cl_validate = 9\<rparr>"

definition demo_history :: "unit challenge_op list" where
  "demo_history = [IssueOp \<lparr>iq_Purpose = ''login'', iq_Meta = []\<rparr> (Inr ''nonce'') (Inr ''id'') 7, demo_confirm, demo_confirm, ReapOp 10]"

lemma demo_history_runs:
  "case fst (challenge_history ChallengeBolt demo_config (verifying_service (status_answer CertGood)) plain_lang demo_history []) of
     [Issued (Inr resp), Confirmed (Returns (Inr r)), Confirmed (Returns (Inl e)), Reaped (Inr n)] \<Rightarrow>
       is_ChallengeID resp = ''6964'' \<and> is_Data resp = ''bm9uY2U='' \<and> cr_Confirmed r \<and> e = ChUsed \<and> n = 0
   | _ \<Rightarrow> False"
  by code_simp

theorem challenge_confirmed_once_witness:
  "length (filter (confirms_id ''6964'')
     (zip demo_history (fst (challenge_history ChallengeBolt demo_config (verifying_service (status_answer CertGood)) plain_lang demo_history [])))) \<le> 1"
proof -
  have "hex_lower ''id'' = ''6964''" by code_simp
  then have "length (filter (issues_id ''6964'') demo_history) = 1"
    by (simp add: demo_history_def demo_confirm_def issues_id_def)
  with challenge_confirmed_once [OF disjI2 [OF refl], where i = "''6964''" and cfg = demo_config and ps = demo_history
    and s = "verifying_service (status_answer CertGood)" and ctx = plain_lang]
  show ?thesis by simp
qed

text \<open>
  The revocation check of a confirmation does not look at whether a status was established: for
  a certificate that publishes no responder, a confirmation that requires the check succeeds
  and reports the certificate as not revoked.
\<close>

lemma challenge_unestablished_confirmed:
  "case Confirm ChallengeMem demo_config ((verifying_service (status_answer CertRevoked))\<lparr>sv_golib := demo_golib\<lparr>gl_ParseCertificate := (\<lambda>_. None)\<rparr>\<rparr>)
      plain_lang [(''6964'', new_challenge demo_config \<lparr>iq_Purpose = ''login'', iq_Meta = []\<rparr> ''6964'' ''nonce'' 7)] ()
      \<lparr>cq_ChallengeID = ''6964'', cq_Signature = ''cms'', cq_CheckRevocation = True\<rparr>
      \<lparr>cl_now = 8, cl_verify = demo_clock, cl_validate = 9\<rparr> of
     (Returns (Inr resp, c), st) \<Rightarrow> cr_Confirmed resp \<and> cr_Revoked resp = Some False
   | _ \<Rightarrow> False"
  by code_simp

end
