(* ===== verification/Multisign_Store.thy ===== *)
theory Multisign_Store
  imports Jobs_Store
begin

text \<open>
  Sessions of multi-party signing (internal/multisign/multisign.go) and their stores
  (internal/multisign/store.go): in memory and in a bbolt bucket, behind one interface. The
  bucket holds the JSON document of each session.
\<close>

section \<open>Sessions\<close>

datatype session_status = SessionPending | SessionComplete | SessionExpired

record required =
  rq_IIN :: string
  rq_BIN :: string
  rq_Role :: string
  rq_Label :: string

record signature =
  sn_IIN :: string
  sn_BIN :: string
  sn_Name :: string
  sn_Roles :: "string list"
  sn_SignedAt :: time
  sn_Satisfies :: int

record session =
  ss_ID :: string
  ss_Status :: session_status
  ss_Format :: string
  ss_Detached :: bool
  ss_Document :: bytes
  ss_Container :: bytes
  ss_Required :: "required list"
  ss_MinSigners :: int
  ss_Collected :: "signature list"
  ss_Subject :: string
  ss_CreatedAt :: time
  ss_ExpiresAt :: time

datatype multisign_error =
    MsNotFound | MsClosed | MsNoNewSigner | MsLostSigner | MsNotInvited | MsAlreadySigned | MsInvalid
  | MsRequest string | MsVerify goerr | MsRandom goerr | MsDecode

record 's session_ops =
  so_Create :: "'s \<Rightarrow> session \<Rightarrow> multisign_error + 's"
  so_Get :: "'s \<Rightarrow> string \<Rightarrow> multisign_error + session"
  so_Save :: "'s \<Rightarrow> session \<Rightarrow> multisign_error + 's"
  so_Delete :: "'s \<Rightarrow> string \<Rightarrow> multisign_error + 's"
  so_Len :: "'s \<Rightarrow> nat"

section \<open>The in-memory store\<close>

type_synonym session_mem = "(string, session) gomap"

definition smem_Create :: "session_mem \<Rightarrow> session \<Rightarrow> multisign_error + session_mem" where
  "smem_Create s x = Inr (kv_put (ss_ID x) x s)"

definition smem_Get :: "session_mem \<Rightarrow> string \<Rightarrow> multisign_error + session" where
  "smem_Get s i = (case map_of s i of None \<Rightarrow> Inl MsNotFound | Some x \<Rightarrow> Inr x)"

definition smem_Save :: "session_mem \<Rightarrow> session \<Rightarrow> multisign_error + session_mem" where
  "smem_Save s x = (case map_of s (ss_ID x) of None \<Rightarrow> Inl MsNotFound | Some _ \<Rightarrow> Inr (kv_put (ss_ID x) x s))"

definition smem_Delete :: "session_mem \<Rightarrow> string \<Rightarrow> multisign_error + session_mem" where
  "smem_Delete s i = Inr (kv_del i s)"

definition SessionMem :: "session_mem session_ops" where
  "SessionMem = \<lparr>so_Create = smem_Create, so_Get = smem_Get, so_Save = smem_Save, so_Delete = smem_Delete, so_Len = length\<rparr>"

section \<open>The document of a session\<close>

fun session_status_name :: "session_status \<Rightarrow> string" where
  "session_status_name SessionPending = ''pending''"
| "session_status_name SessionComplete = ''complete''"
| "session_status_name SessionExpired = ''expired''"

definition session_status_named :: "string \<Rightarrow> session_status option" where
  "session_status_named n = map_of (map (\<lambda>s. (session_status_name s, s)) [SessionPending, SessionComplete, SessionExpired]) n"

definition marshal_required :: "required \<Rightarrow> json" where
  "marshal_required r = JObj (str_field ''iin'' (rq_IIN r) @ str_field ''bin'' (rq_BIN r) @ str_field ''role'' (rq_Role r) @
     str_field ''label'' (rq_Label r))"

fun unmarshal_required :: "json \<Rightarrow> required option" where
  "unmarshal_required (JObj fs) =
     (case (get_str fs ''iin'', get_str fs ''bin'', get_str fs ''role'', get_str fs ''label'') of
        (Some i, Some b, Some r, Some l) \<Rightarrow> Some \<lparr>rq_IIN = i, rq_BIN = b, rq_Role = r, rq_Label = l\<rparr>
      | _ \<Rightarrow> None)"
| "unmarshal_required _ = None"

definition marshal_signature :: "signature \<Rightarrow> json" where
  "marshal_signature s = JObj (str_field ''iin'' (sn_IIN s) @ str_field ''bin'' (sn_BIN s) @ str_field ''name'' (sn_Name s) @
     arr_field ''roles'' (map JStr (sn_Roles s)) @ [(''signedAt'', JTime (sn_SignedAt s)), (''satisfies'', JInt (sn_Satisfies s))])"

fun unmarshal_signature :: "json \<Rightarrow> signature option" where
  "unmarshal_signature (JObj fs) =
     (case (get_str fs ''iin'', get_str fs ''bin'', get_str fs ''name'', get_arr decode_str fs ''roles'') of
        (Some i, Some b, Some n, Some rs) \<Rightarrow>
          (case (get_time fs ''signedAt'', get_int fs ''satisfies'') of
             (Some t, Some k) \<Rightarrow>
               Some \<lparr>sn_IIN = i, sn_BIN = b, sn_Name = n, sn_Roles = rs, sn_SignedAt = instant t, sn_Satisfies = k\<rparr>
           | _ \<Rightarrow> None)
      | _ \<Rightarrow> None)"
| "unmarshal_signature _ = None"

definition session_fields :: "session \<Rightarrow> (string \<times> json) list" where
  "session_fields x = [(''id'', JStr (ss_ID x)), (''status'', JStr (session_status_name (ss_Status x))),
      (''format'', JStr (ss_Format x)), (''detached'', JBool (ss_Detached x))] @
     raw_field ''document'' (ss_Document x) @ raw_field ''container'' (ss_Container x) @
     arr_field ''required'' (map marshal_required (ss_Required x)) @ int_field ''minSigners'' (ss_MinSigners x) @
     [(''collected'', JArr (map marshal_signature (ss_Collected x)))] @ str_field ''subject'' (ss_Subject x) @
     [(''createdAt'', JTime (ss_CreatedAt x)), (''expiresAt'', JTime (ss_ExpiresAt x))]"

definition marshal_session :: "session \<Rightarrow> json" where
  "marshal_session x = JObj (session_fields x)"

fun unmarshal_session :: "json \<Rightarrow> session option" where
  "unmarshal_session (JObj fs) =
     (case (get_str fs ''id'', Option.bind (get_str fs ''status'') session_status_named, get_str fs ''format'', get_flag fs ''detached'') of
        (Some i, Some st, Some f, Some d) \<Rightarrow>
          (case (get_raw fs ''document'', get_raw fs ''container'', get_arr unmarshal_required fs ''required'', get_int fs ''minSigners'') of
             (Some doc, Some con, Some req, Some m) \<Rightarrow>
               (case (get_arr unmarshal_signature fs ''collected'', get_str fs ''subject'', get_time fs ''createdAt'', get_time fs ''expiresAt'') of
                  (Some col, Some sub, Some ca, Some ea) \<Rightarrow>
                    Some \<lparr>ss_ID = i, ss_Status = st, ss_Format = f, ss_Detached = d, ss_Document = doc, ss_Container = con,
                      ss_Required = req, ss_MinSigners = m, ss_Collected = col, ss_Subject = sub, ss_CreatedAt = instant ca,
                      ss_ExpiresAt = instant ea\<rparr>
                | _ \<Rightarrow> None)
           | _ \<Rightarrow> None)
      | _ \<Rightarrow> None)"
| "unmarshal_session _ = None"

section \<open>The bbolt store\<close>

type_synonym session_bolt = "(string, json) gomap"

definition sbolt_put :: "session_bolt \<Rightarrow> session \<Rightarrow> multisign_error + session_bolt" where
  "sbolt_put b x = Inr (kv_put (ss_ID x) (marshal_session x) b)"

definition sbolt_Create :: "session_bolt \<Rightarrow> session \<Rightarrow> multisign_error + session_bolt" where
  "sbolt_Create b x = sbolt_put b x"

definition sbolt_Get :: "session_bolt \<Rightarrow> string \<Rightarrow> multisign_error + session" where
  "sbolt_Get b i =
     (case map_of b i of
        None \<Rightarrow> Inl MsNotFound
      | Some raw \<Rightarrow> (case unmarshal_session raw of None \<Rightarrow> Inl MsDecode | Some x \<Rightarrow> Inr x))"

definition sbolt_Save :: "session_bolt \<Rightarrow> session \<Rightarrow> multisign_error + session_bolt" where
  "sbolt_Save b x = (case sbolt_Get b (ss_ID x) of Inl e \<Rightarrow> Inl e | Inr _ \<Rightarrow> sbolt_put b x)"

definition sbolt_Delete :: "session_bolt \<Rightarrow> string \<Rightarrow> multisign_error + session_bolt" where
  "sbolt_Delete b i = Inr (kv_del i b)"

definition SessionBolt :: "session_bolt session_ops" where
  "SessionBolt = \<lparr>so_Create = sbolt_Create, so_Get = sbolt_Get, so_Save = sbolt_Save, so_Delete = sbolt_Delete, so_Len = length\<rparr>"

section \<open>The contract\<close>

locale session_store =
  fixes S :: "'s session_ops"
    and sessions :: "'s \<Rightarrow> string \<rightharpoonup> session"
    and ok :: "'s \<Rightarrow> bool"
  assumes create: "ok s \<Longrightarrow> \<exists>s'. so_Create S s x = Inr s' \<and> ok s' \<and> sessions s' = (sessions s)(ss_ID x \<mapsto> x)"
    and get_absent: "ok s \<Longrightarrow> sessions s i = None \<Longrightarrow> so_Get S s i = Inl MsNotFound"
    and get_present: "ok s \<Longrightarrow> sessions s i = Some x \<Longrightarrow> so_Get S s i = Inr x"
    and save_absent: "ok s \<Longrightarrow> sessions s (ss_ID x) = None \<Longrightarrow> so_Save S s x = Inl MsNotFound"
    and save: "ok s \<Longrightarrow> sessions s (ss_ID x) \<noteq> None \<Longrightarrow>
      \<exists>s'. so_Save S s x = Inr s' \<and> ok s' \<and> sessions s' = (sessions s)(ss_ID x \<mapsto> x)"
    and delete: "ok s \<Longrightarrow> \<exists>s'. so_Delete S s i = Inr s' \<and> ok s' \<and> sessions s' = (sessions s)(i := None)"
begin

lemma get_iff: "ok s \<Longrightarrow> so_Get S s i = Inr x \<longleftrightarrow> sessions s i = Some x"
  by (cases "sessions s i") (auto dest: get_absent get_present)

lemma save_cases:
  assumes "ok s"
  obtains (lost) "so_Save S s x = Inl MsNotFound"
  | (saved) s' where "so_Save S s x = Inr s'" "ok s'" "sessions s' = (sessions s)(ss_ID x \<mapsto> x)"
  using save [OF assms, of x] save_absent [OF assms, of x] by blast

end

lemmas smem_defs = smem_Create_def smem_Get_def smem_Save_def smem_Delete_def SessionMem_def

interpretation smem: session_store SessionMem map_of kv_ok
  by unfold_locales (auto simp: smem_defs wf_intros kv_simps)

lemma session_status_named_name [simp]: "session_status_named (session_status_name s) = Some s"
  by (cases s) (simp_all add: session_status_named_def)

lemma unmarshal_marshal_required [simp]: "unmarshal_required (marshal_required r) = Some r"
  by (simp add: marshal_required_def json_get_defs)

lemma unmarshal_marshal_signature [simp]: "unmarshal_signature (marshal_signature s) = Some s"
  by (simp add: marshal_signature_def json_get_defs)

lemma unmarshal_marshal_session [simp]: "unmarshal_session (marshal_session x) = Some x"
  by (simp add: marshal_session_def session_fields_def json_get_defs)

lemma marshal_session_inject: "marshal_session x = marshal_session y \<longleftrightarrow> x = y"
  by (metis unmarshal_marshal_session option.inject)

definition sbolt_sessions :: "session_bolt \<Rightarrow> string \<rightharpoonup> session" where
  "sbolt_sessions b i = Option.bind (map_of b i) unmarshal_session"

definition sbolt_ok :: "session_bolt \<Rightarrow> bool" where
  "sbolt_ok b \<longleftrightarrow> kv_ok b \<and> (\<forall>i raw. map_of b i = Some raw \<longrightarrow> (\<exists>x. raw = marshal_session x))"

lemma sbolt_sessions_get:
  "sbolt_ok b \<Longrightarrow> sbolt_sessions b i = Some x \<longleftrightarrow> map_of b i = Some (marshal_session x)"
  "sbolt_ok b \<Longrightarrow> sbolt_sessions b i = None \<longleftrightarrow> map_of b i = None"
proof -
  assume b: "sbolt_ok b"
  have "sbolt_sessions b i = Some x \<longleftrightarrow> map_of b i = Some (marshal_session x)" if "map_of b i = Some raw" for raw
  proof -
    from b that obtain y where "raw = marshal_session y" by (auto simp: sbolt_ok_def)
    with that show ?thesis by (simp add: sbolt_sessions_def marshal_session_inject)
  qed
  then show "sbolt_sessions b i = Some x \<longleftrightarrow> map_of b i = Some (marshal_session x)"
    by (cases "map_of b i") (simp_all add: sbolt_sessions_def)
next
  assume b: "sbolt_ok b"
  have "sbolt_sessions b i \<noteq> None" if "map_of b i = Some raw" for raw
  proof -
    from b that obtain y where "raw = marshal_session y" by (auto simp: sbolt_ok_def)
    with that show ?thesis by (simp add: sbolt_sessions_def)
  qed
  then show "sbolt_sessions b i = None \<longleftrightarrow> map_of b i = None"
    by (cases "map_of b i") (simp_all add: sbolt_sessions_def)
qed

lemmas sbolt_defs = sbolt_Create_def sbolt_Get_def sbolt_Save_def sbolt_Delete_def sbolt_put_def SessionBolt_def

lemma sbolt_put_ok:
  "sbolt_ok b \<Longrightarrow> sbolt_ok (kv_put i (marshal_session x) b) \<and> sbolt_sessions (kv_put i (marshal_session x) b) = (sbolt_sessions b)(i \<mapsto> x)"
  by (auto simp: sbolt_ok_def sbolt_sessions_def wf_intros kv_simps fun_eq_iff)

lemma sbolt_del_ok:
  "sbolt_ok b \<Longrightarrow> sbolt_ok (kv_del i b) \<and> sbolt_sessions (kv_del i b) = (sbolt_sessions b)(i := None)"
  by (auto simp: sbolt_ok_def sbolt_sessions_def wf_intros kv_simps fun_eq_iff)

interpretation sbolt: session_store SessionBolt sbolt_sessions sbolt_ok
proof (unfold_locales, goal_cases)
  case (1 s x) then show ?case using sbolt_put_ok by (simp add: sbolt_defs)
next
  case (2 s i) then show ?case by (simp add: sbolt_defs sbolt_sessions_get)
next
  case (3 s i x) then show ?case by (simp add: sbolt_defs sbolt_sessions_get)
next
  case (4 s x) then show ?case by (simp add: sbolt_defs sbolt_sessions_get)
next
  case (5 s x)
  then obtain y where "sbolt_sessions s (ss_ID x) = Some y" by blast
  with 5 have "map_of s (ss_ID x) = Some (marshal_session y)" by (simp add: sbolt_sessions_get)
  with 5 sbolt_put_ok show ?case by (simp add: sbolt_defs)
next
  case (6 s i) then show ?case using sbolt_del_ok by (simp add: sbolt_defs)
qed

end
