(* ===== verification/Multisign.thy ===== *)
theory Multisign
  imports Multisign_Store Verify_Properties
begin

text \<open>
  Multi-party signing (internal/multisign/multisign.go): a session collects the signatures of its
  required participants; each submission is a container that must verify, keep the earlier
  signatures and add one that was waited for. Submission reads a session, works on a private
  copy and writes it back; the step relation at the end interleaves those accesses. Random
  bytes, the clock and the OCSP cache a verification finds are arguments.
\<close>

section \<open>Requirements\<close>

text \<open>
  \<^verbatim>\<open>strings.EqualFold\<close> against a role name, which is ASCII: besides the case of letters it
  identifies the Kelvin sign with K and the long s with S.
\<close>

fun fold_role :: "string \<Rightarrow> string" where
  "fold_role (a # b # c # rest) =
     (if byte_of a = 0xE2 \<and> byte_of b = 0x84 \<and> byte_of c = 0xAA then CHR ''K'' # fold_role rest
      else if byte_of a = 0xC5 \<and> byte_of b = 0xBF then CHR ''S'' # fold_role (c # rest)
      else to_upper a # fold_role (b # c # rest))"
| "fold_role [a, b] = (if byte_of a = 0xC5 \<and> byte_of b = 0xBF then [CHR ''S''] else [to_upper a, to_upper b])"
| "fold_role [a] = [to_upper a]"
| "fold_role [] = []"

definition hasRole :: "string list \<Rightarrow> string \<Rightarrow> bool" where
  "hasRole roles want \<longleftrightarrow> list_ex (\<lambda>r. fold_role r = fold_role want) roles"

definition required_empty :: "required \<Rightarrow> bool" where
  "required_empty r \<longleftrightarrow> rq_IIN r = [] \<and> rq_BIN r = [] \<and> rq_Role r = []"

definition req_matches :: "required \<Rightarrow> string \<Rightarrow> string \<Rightarrow> string list \<Rightarrow> bool" where
  "req_matches r iin bin roles =
     (if rq_IIN r \<noteq> [] \<and> rq_IIN r \<noteq> iin then False
      else if rq_BIN r \<noteq> [] \<and> rq_BIN r \<noteq> bin then False
      else if rq_Role r \<noteq> [] \<and> \<not> hasRole roles (rq_Role r) then False
      else True)"

definition satisfied :: "session \<Rightarrow> nat \<Rightarrow> bool" where
  "satisfied x i \<longleftrightarrow> list_ex (\<lambda>c. sn_Satisfies c = int i) (ss_Collected x)"

definition Remaining :: "session \<Rightarrow> required list" where
  "Remaining x = map snd (filter (\<lambda>(i, r). \<not> satisfied x i) (enumerate 0 (ss_Required x)))"

definition session_complete :: "session \<Rightarrow> bool" where
  "session_complete x =
     (if ss_Required x \<noteq> [] then Remaining x = [] else int (length (ss_Collected x)) \<ge> ss_MinSigners x)"

definition identityOf :: "string \<Rightarrow> string \<Rightarrow> string \<Rightarrow> string" where
  "identityOf iin bin name = (if iin \<noteq> [] then ''iin:'' @ iin else ''bin:'' @ bin @ ''|'' @ name)"

definition signer_identity :: "report_signer \<Rightarrow> string" where
  "signer_identity s = identityOf (pg_IIN s) (pg_BIN s) (pg_Name s)"

definition signature_identity :: "signature \<Rightarrow> string" where
  "signature_identity c = identityOf (sn_IIN c) (sn_BIN c) (sn_Name c)"

definition containsAll :: "report_signer list \<Rightarrow> signature list \<Rightarrow> bool" where
  "containsAll signers collected \<longleftrightarrow> list_all (\<lambda>c. signature_identity c \<in> set (map signer_identity signers)) collected"

definition alreadyCollected :: "session \<Rightarrow> report_signer \<Rightarrow> bool" where
  "alreadyCollected x sig \<longleftrightarrow> list_ex (\<lambda>c. signature_identity c = signer_identity sig) (ss_Collected x)"

definition matchesAnyRequirement :: "session \<Rightarrow> report_signer \<Rightarrow> bool" where
  "matchesAnyRequirement x sig \<longleftrightarrow> list_ex (\<lambda>r. req_matches r (pg_IIN sig) (pg_BIN sig) (pg_Roles sig)) (ss_Required x)"

fun first_slot :: "session \<Rightarrow> report_signer \<Rightarrow> nat \<Rightarrow> required list \<Rightarrow> int" where
  "first_slot x sig i [] = -1"
| "first_slot x sig i (r # rs) =
     (if \<not> satisfied x i \<and> req_matches r (pg_IIN sig) (pg_BIN sig) (pg_Roles sig) then int i
      else first_slot x sig (Suc i) rs)"

definition record_signature :: "session \<Rightarrow> report_signer \<Rightarrow> time \<Rightarrow> signature" where
  "record_signature x sig now =
     \<lparr>sn_IIN = pg_IIN sig, sn_BIN = pg_BIN sig, sn_Name = pg_Name sig, sn_Roles = pg_Roles sig,
      sn_SignedAt = (case pg_SignedAt sig of Some t \<Rightarrow> t | None \<Rightarrow> now),
      sn_Satisfies = first_slot x sig 0 (ss_Required x)\<rparr>"

section \<open>The service\<close>

definition multisign_New :: "dur \<Rightarrow> dur" where
  "multisign_New ttl = (if ttl \<le> 0 then 7 * 24 * Hour else ttl)"

record create_request =
  mq_Format :: string
  mq_Detached :: bool
  mq_Document :: bytes
  mq_Container :: bytes
  mq_Required :: "required list"
  mq_MinSigners :: int
  mq_Subject :: string
  mq_TTLSeconds :: int

definition container_input :: "session \<Rightarrow> bytes \<Rightarrow> verify_input" where
  "container_input x container =
     \<lparr>vi_Format = ss_Format x, vi_Signature = container, vi_Data = ss_Document x, vi_DataRef = \<lparr>dr_Path = [], dr_URL = []\<rparr>,
      vi_Detached = ss_Detached x, vi_InputPEM = HasPrefix container ''-----BEGIN'', vi_CheckCertTime = True,
      vi_ExtractContent = False, vi_ExtractClaims = True, vi_Explain = False, vi_Report = True, vi_Receipt = False,
      vi_TrustedCerts = [], vi_RevocationCheck = None, vi_RevocationMethod = [], vi_ResponderURL = [], vi_Archive = False\<rparr>"

definition signersOf :: "'c service \<Rightarrow> lang \<Rightarrow> 'c \<Rightarrow> verify_clock \<Rightarrow> session \<Rightarrow> bytes \<Rightarrow>
    ((multisign_error + report_signer list) \<times> 'c) go" where
  "signersOf s ctx c clock x container =
     (case Verify s ctx c (container_input x container) clock of
        Panics \<Rightarrow> Panics
      | Returns (((out, Some e), effs), c') \<Rightarrow> Returns (Inl (MsVerify e), c')
      | Returns (((out, None), effs), c') \<Rightarrow>
          Returns (if vo_Valid out then (case vo_Report out of None \<Rightarrow> Inl MsInvalid | Some r \<Rightarrow> Inr (rp_Signers r))
                   else Inl MsInvalid, c'))"

text \<open>The checks of a creation request, up to the first that fails.\<close>

definition create_refused :: "create_request \<Rightarrow> string option" where
  "create_refused req =
     (if mq_Document req = [] \<and> mq_Container req = [] then Some ''multisign: document or container is required''
      else if mq_Required req = [] \<and> mq_MinSigners req \<le> 0 then Some ''multisign: either required signers or minSigners must be set''
      else case find (\<lambda>(i, r). required_empty r) (enumerate 0 (mq_Required req)) of
             Some (i, _) \<Rightarrow> Some (''multisign: required['' @ decimal i @ ''] identifies nobody (set iin, bin or role)'')
           | None \<Rightarrow>
               (let format = (if mq_Format req = [] then FormatCMS else mq_Format req)
                in if \<not> Format_Valid format then Some (''multisign: unknown format '' @ quoted format) else None))"

definition new_session :: "dur \<Rightarrow> create_request \<Rightarrow> string \<Rightarrow> time \<Rightarrow> session" where
  "new_session ttl req i now =
     \<lparr>ss_ID = i, ss_Status = SessionPending, ss_Format = (if mq_Format req = [] then FormatCMS else mq_Format req),
      ss_Detached = mq_Detached req, ss_Document = mq_Document req, ss_Container = mq_Container req,
      ss_Required = mq_Required req, ss_MinSigners = mq_MinSigners req, ss_Collected = [], ss_Subject = mq_Subject req,
      ss_CreatedAt = now, ss_ExpiresAt = now + (if mq_TTLSeconds req > 0 then seconds64 (mq_TTLSeconds req) else ttl)\<rparr>"

text \<open>What a seeded container already carries is counted.\<close>

definition seed_one :: "time \<Rightarrow> report_signer \<Rightarrow> session \<Rightarrow> session" where
  "seed_one now sig x = x\<lparr>ss_Collected := ss_Collected x @ [record_signature x sig now]\<rparr>"

definition finish_if_complete :: "session \<Rightarrow> session" where
  "finish_if_complete x = (if session_complete x then x\<lparr>ss_Status := SessionComplete\<rparr> else x)"

definition seeded_session :: "'c service \<Rightarrow> lang \<Rightarrow> 'c \<Rightarrow> verify_clock \<Rightarrow> bytes \<Rightarrow> time \<Rightarrow> session \<Rightarrow>
    ((multisign_error + session) \<times> 'c) go" where
  "seeded_session s ctx c clock container now x =
     (if container = [] then Returns (Inr x, c)
      else case signersOf s ctx c clock x container of
        Panics \<Rightarrow> Panics
      | Returns (Inl e, c') \<Rightarrow> Returns (Inl e, c')
      | Returns (Inr signers, c') \<Rightarrow> Returns (Inr (finish_if_complete (fold (seed_one now) signers x)), c'))"

definition multisign_Create :: "'s session_ops \<Rightarrow> dur \<Rightarrow> 'c service \<Rightarrow> lang \<Rightarrow> 's \<Rightarrow> 'c \<Rightarrow> create_request \<Rightarrow> goerr + bytes \<Rightarrow> time \<Rightarrow>
    verify_clock \<Rightarrow> (((multisign_error + session) \<times> 's) \<times> 'c) go" where
  "multisign_Create S ttl s ctx st c req random now clock =
     (case create_refused req of
        Some msg \<Rightarrow> Returns ((Inl (MsRequest msg), st), c)
      | None \<Rightarrow>
          (case random of
             Inl e \<Rightarrow> Returns ((Inl (MsRandom e), st), c)
           | Inr b \<Rightarrow>
               (case seeded_session s ctx c clock (mq_Container req) now (new_session ttl req (hex_lower b) now) of
                  Panics \<Rightarrow> Panics
                | Returns (Inl e, c') \<Rightarrow> Returns ((Inl e, st), c')
                | Returns (Inr x, c') \<Rightarrow>
                    (case so_Create S st x of
                       Inl e \<Rightarrow> Returns ((Inl e, st), c')
                     | Inr st' \<Rightarrow> Returns ((Inr x, st'), c')))))"

definition overdue :: "session \<Rightarrow> time \<Rightarrow> bool" where
  "overdue x now \<longleftrightarrow> ss_Status x = SessionPending \<and> \<not> After (ss_ExpiresAt x) now"

definition multisign_Get :: "'s session_ops \<Rightarrow> 's \<Rightarrow> string \<Rightarrow> time \<Rightarrow> (multisign_error + session) \<times> 's" where
  "multisign_Get S st i now =
     (case so_Get S st i of
        Inl e \<Rightarrow> (Inl e, st)
      | Inr x \<Rightarrow>
          if overdue x now then
            (let x = x\<lparr>ss_Status := SessionExpired\<rparr>
             in (Inr x, case so_Save S st x of Inl _ \<Rightarrow> st | Inr st' \<Rightarrow> st'))
          else (Inr x, st))"

text \<open>The loop of a submission: the signers that are new are recorded, or the first that is unwelcome refuses it.\<close>

fun collect_signers :: "session \<Rightarrow> nat \<Rightarrow> time \<Rightarrow> report_signer list \<Rightarrow> multisign_error + (session \<times> nat)" where
  "collect_signers x added now [] = Inr (x, added)"
| "collect_signers x added now (sig # sigs) =
     (if alreadyCollected x sig then collect_signers x added now sigs
      else let rec = record_signature x sig now
           in if ss_Required x \<noteq> [] \<and> sn_Satisfies rec < 0 then
                Inl (if matchesAnyRequirement x sig then MsAlreadySigned else MsNotInvited)
              else collect_signers (x\<lparr>ss_Collected := ss_Collected x @ [rec]\<rparr>) (Suc added) now sigs)"

text \<open>The session a submission writes back, from the session it read.\<close>

definition submit_session :: "'c service \<Rightarrow> lang \<Rightarrow> 'c \<Rightarrow> verify_clock \<Rightarrow> session \<Rightarrow> bytes \<Rightarrow> time \<Rightarrow>
    ((multisign_error + session) \<times> 'c) go" where
  "submit_session s ctx c clock x container now =
     (if ss_Status x \<noteq> SessionPending then Returns (Inl MsClosed, c)
      else case signersOf s ctx c clock x container of
        Panics \<Rightarrow> Panics
      | Returns (Inl e, c') \<Rightarrow> Returns (Inl e, c')
      | Returns (Inr signers, c') \<Rightarrow>
          Returns (if \<not> containsAll signers (ss_Collected x) then Inl MsLostSigner
                   else case collect_signers x 0 now signers of
                     Inl e \<Rightarrow> Inl e
                   | Inr (x', added) \<Rightarrow>
                       if added = 0 then Inl MsNoNewSigner
                       else Inr (finish_if_complete (x'\<lparr>ss_Container := container\<rparr>)), c'))"

definition Submit :: "'s session_ops \<Rightarrow> 'c service \<Rightarrow> lang \<Rightarrow> 's \<Rightarrow> 'c \<Rightarrow> string \<Rightarrow> bytes \<Rightarrow> time \<Rightarrow> verify_clock \<Rightarrow> time \<Rightarrow>
    (((multisign_error + session) \<times> 's) \<times> 'c) go" where
  "Submit S s ctx st c i container now clock now2 =
     (case multisign_Get S st i now of
        (Inl e, st) \<Rightarrow> Returns ((Inl e, st), c)
      | (Inr x, st) \<Rightarrow>
          (case submit_session s ctx c clock x container now2 of
             Panics \<Rightarrow> Panics
           | Returns (Inl e, c') \<Rightarrow> Returns ((Inl e, st), c')
           | Returns (Inr x', c') \<Rightarrow>
               (case so_Save S st x' of
                  Inl e \<Rightarrow> Returns ((Inl e, st), c')
                | Inr st' \<Rightarrow> Returns ((Inr x', st'), c'))))"

definition multisign_Cancel :: "'s session_ops \<Rightarrow> 's \<Rightarrow> string \<Rightarrow> multisign_error + 's" where
  "multisign_Cancel S st i = so_Delete S st i"

definition Active :: "'s session_ops \<Rightarrow> 's \<Rightarrow> nat" where
  "Active S st = so_Len S st"

section \<open>Concurrent requests\<close>

text \<open>
  A request reads a session and later writes its own copy back. A frame is a copy that is still to
  be written; between the read and the write any other request may run.
\<close>

record 's multisign_sys =
  my_store :: 's
  my_frames :: "session list"

inductive multisign_step :: "'s session_ops \<Rightarrow> dur \<Rightarrow> 'c service \<Rightarrow> lang \<Rightarrow> 's multisign_sys \<Rightarrow> 's multisign_sys \<Rightarrow> bool"
  for S :: "'s session_ops" and ttl :: dur and s :: "'c service" and ctx :: lang where
  step_create: "multisign_Create S ttl s ctx (my_store y) c req random now clock = Returns ((r, st'), c') \<Longrightarrow>
    multisign_step S ttl s ctx y (y\<lparr>my_store := st'\<rparr>)"
| step_expire: "so_Get S (my_store y) i = Inr x \<Longrightarrow> overdue x now \<Longrightarrow>
    multisign_step S ttl s ctx y (y\<lparr>my_frames := x\<lparr>ss_Status := SessionExpired\<rparr> # my_frames y\<rparr>)"
| step_submit: "so_Get S (my_store y) i = Inr x \<Longrightarrow> \<not> overdue x now \<Longrightarrow>
    submit_session s ctx c clock x container now2 = Returns (Inr x', c') \<Longrightarrow>
    multisign_step S ttl s ctx y (y\<lparr>my_frames := x' # my_frames y\<rparr>)"
| step_write: "x \<in> set (my_frames y) \<Longrightarrow> so_Save S (my_store y) x = Inr st' \<Longrightarrow>
    multisign_step S ttl s ctx y (y\<lparr>my_store := st', my_frames := remove1 x (my_frames y)\<rparr>)"
| step_lost: "x \<in> set (my_frames y) \<Longrightarrow> so_Save S (my_store y) x = Inl e \<Longrightarrow>
    multisign_step S ttl s ctx y (y\<lparr>my_frames := remove1 x (my_frames y)\<rparr>)"
| step_cancel: "multisign_Cancel S (my_store y) i = Inr st' \<Longrightarrow> multisign_step S ttl s ctx y (y\<lparr>my_store := st'\<rparr>)"

inductive multisign_reachable :: "'s session_ops \<Rightarrow> dur \<Rightarrow> 'c service \<Rightarrow> lang \<Rightarrow> 's \<Rightarrow> 's multisign_sys \<Rightarrow> bool"
  for S :: "'s session_ops" and ttl :: dur and s :: "'c service" and ctx :: lang and st0 :: 's where
  start: "multisign_reachable S ttl s ctx st0 \<lparr>my_store = st0, my_frames = []\<rparr>"
| next_state: "multisign_reachable S ttl s ctx st0 y \<Longrightarrow> multisign_step S ttl s ctx y y' \<Longrightarrow>
    multisign_reachable S ttl s ctx st0 y'"

section \<open>What a collected signature stands for\<close>

text \<open>A signer of a container that verified, over the document of the session.\<close>

definition vouched :: "'c service \<Rightarrow> lang \<Rightarrow> session \<Rightarrow> signature \<Rightarrow> bool" where
  "vouched s ctx x c \<longleftrightarrow> (\<exists>c0 clock container sigs c1 sig. signersOf s ctx c0 clock x container = Returns (Inr sigs, c1) \<and>
     sig \<in> set sigs \<and> sn_IIN c = pg_IIN sig \<and> sn_BIN c = pg_BIN sig \<and> sn_Name c = pg_Name sig \<and> sn_Roles c = pg_Roles sig)"

definition fulfils :: "session \<Rightarrow> signature \<Rightarrow> bool" where
  "fulfils x c \<longleftrightarrow> sn_Satisfies c = -1 \<or> (\<exists>i < length (ss_Required x). sn_Satisfies c = int i \<and>
     req_matches (ss_Required x ! i) (sn_IIN c) (sn_BIN c) (sn_Roles c))"

definition slots_of :: "session \<Rightarrow> int list" where
  "slots_of x = filter (\<lambda>k. 0 \<le> k) (map sn_Satisfies (ss_Collected x))"

definition collected_ok :: "'c service \<Rightarrow> lang \<Rightarrow> session \<Rightarrow> bool" where
  "collected_ok s ctx x \<longleftrightarrow> (\<forall>c \<in> set (ss_Collected x). vouched s ctx x c \<and> fulfils x c) \<and> distinct (slots_of x)"

definition session_ok :: "'c service \<Rightarrow> lang \<Rightarrow> session \<Rightarrow> bool" where
  "session_ok s ctx x \<longleftrightarrow> collected_ok s ctx x \<and> (ss_Status x = SessionComplete \<longrightarrow> session_complete x)"

text \<open>Verification looks at the format, the document and the detached flag of a session only.\<close>

lemma signersOf_update [simp]:
  "signersOf s ctx c clock (x\<lparr>ss_Collected := cs\<rparr>) container = signersOf s ctx c clock x container"
  "signersOf s ctx c clock (x\<lparr>ss_Status := st\<rparr>) container = signersOf s ctx c clock x container"
  "signersOf s ctx c clock (x\<lparr>ss_Container := con\<rparr>) container = signersOf s ctx c clock x container"
  by (simp_all add: signersOf_def container_input_def)

lemma vouched_update [simp]:
  "vouched s ctx (x\<lparr>ss_Collected := cs\<rparr>) = vouched s ctx x" "vouched s ctx (x\<lparr>ss_Status := st\<rparr>) = vouched s ctx x"
  "vouched s ctx (x\<lparr>ss_Container := con\<rparr>) = vouched s ctx x"
  by (simp_all add: vouched_def fun_eq_iff)

lemma fulfils_update [simp]:
  "fulfils (x\<lparr>ss_Collected := cs\<rparr>) = fulfils x" "fulfils (x\<lparr>ss_Status := st\<rparr>) = fulfils x"
  "fulfils (x\<lparr>ss_Container := con\<rparr>) = fulfils x"
  by (simp_all add: fulfils_def fun_eq_iff)

lemma collected_ok_update [simp]:
  "collected_ok s ctx (x\<lparr>ss_Status := st\<rparr>) = collected_ok s ctx x"
  "collected_ok s ctx (x\<lparr>ss_Container := con\<rparr>) = collected_ok s ctx x"
  by (simp_all add: collected_ok_def slots_of_def)

lemma first_slot_spec:
  "first_slot x sig i rs = -1 \<or>
   (\<exists>j < length rs. first_slot x sig i rs = int (i + j) \<and> \<not> satisfied x (i + j) \<and>
      req_matches (rs ! j) (pg_IIN sig) (pg_BIN sig) (pg_Roles sig))"
proof (induction rs arbitrary: i)
  case (Cons r rs)
  show ?case
  proof (cases "\<not> satisfied x i \<and> req_matches r (pg_IIN sig) (pg_BIN sig) (pg_Roles sig)")
    case True
    then show ?thesis by (intro disjI2 exI [of _ 0]) simp
  next
    case False
    then have "first_slot x sig i (r # rs) = first_slot x sig (Suc i) rs" by auto
    with Cons.IH [of "Suc i"] show ?thesis by (auto intro: exI [of _ "Suc _"])
  qed
qed simp

text \<open>Recording a signer of a verified container keeps what is collected in order.\<close>

lemma record_ok:
  assumes "collected_ok s ctx x" and "signersOf s ctx c clock x container = Returns (Inr sigs, c')" and "sig \<in> set sigs"
  shows "collected_ok s ctx (x\<lparr>ss_Collected := ss_Collected x @ [record_signature x sig now]\<rparr>)"
proof -
  let ?r = "record_signature x sig now"
  have slot: "sn_Satisfies ?r = -1 \<or> (\<exists>j < length (ss_Required x). sn_Satisfies ?r = int j \<and> \<not> satisfied x j \<and>
      req_matches (ss_Required x ! j) (pg_IIN sig) (pg_BIN sig) (pg_Roles sig))"
    using first_slot_spec [of x sig 0 "ss_Required x"] by (simp add: record_signature_def)
  then have "fulfils x ?r" by (auto simp: fulfils_def record_signature_def)
  moreover have "vouched s ctx x ?r"
    unfolding vouched_def using assms(2,3) by (auto simp: record_signature_def intro!: exI)
  moreover have "sn_Satisfies ?r < 0 \<or> sn_Satisfies ?r \<notin> set (slots_of x)"
    using slot by (auto simp: slots_of_def satisfied_def list_ex_iff)
  ultimately show ?thesis using assms(1) by (auto simp: collected_ok_def slots_of_def)
qed

lemma fold_seed_ok:
  assumes "signersOf s ctx c clock x container = Returns (Inr sigs, c')" and "set sigs0 \<subseteq> set sigs" and "collected_ok s ctx x"
  shows "collected_ok s ctx (fold (seed_one now) sigs0 x)"
  using assms
proof (induction sigs0 arbitrary: x)
  case (Cons sig sigs0)
  have "collected_ok s ctx (seed_one now sig x)"
    unfolding seed_one_def using Cons.prems by (intro record_ok [where sigs = sigs]) auto
  moreover have "signersOf s ctx c clock (seed_one now sig x) container = Returns (Inr sigs, c')"
    using Cons.prems(1) by (simp add: seed_one_def)
  ultimately show ?case using Cons.IH [of "seed_one now sig x"] Cons.prems(2) by simp
qed simp

lemma collect_ok:
  assumes "signersOf s ctx c clock x container = Returns (Inr sigs, c')" and "set sigs0 \<subseteq> set sigs" and "collected_ok s ctx x"
    and "collect_signers x added now sigs0 = Inr (x', added')"
  shows "collected_ok s ctx x' \<and> ss_Status x' = ss_Status x \<and> ss_Required x' = ss_Required x \<and> ss_ID x' = ss_ID x"
  using assms
proof (induction x added now sigs0 rule: collect_signers.induct)
  case (2 x added now sig sigs0)
  show ?case
  proof (cases "alreadyCollected x sig")
    case True
    with 2 show ?thesis by simp
  next
    case False
    let ?x = "x\<lparr>ss_Collected := ss_Collected x @ [record_signature x sig now]\<rparr>"
    have rest: "collect_signers ?x (Suc added) now sigs0 = Inr (x', added')"
      and go: "\<not> (ss_Required x \<noteq> [] \<and> sn_Satisfies (record_signature x sig now) < 0)"
      using "2.prems"(4) False by (auto simp: Let_def split: if_splits)
    have "collected_ok s ctx ?x" using "2.prems"(1-3) by (intro record_ok [where sigs = sigs]) auto
    with "2.IH"(2) [OF False refl go _ _ _ rest] "2.prems"(1,2) show ?thesis by simp
  qed
qed simp

lemma finish_ok: "collected_ok s ctx x \<Longrightarrow> ss_Status x \<noteq> SessionComplete \<Longrightarrow> session_ok s ctx (finish_if_complete x)"
  by (auto simp: finish_if_complete_def session_ok_def session_complete_def Remaining_def satisfied_def)

lemma submit_session_ok:
  assumes "submit_session s ctx c clock x container now = Returns (Inr x', c')" and "session_ok s ctx x"
  shows "session_ok s ctx x'" "ss_ID x' = ss_ID x"
proof -
  from assms(1) obtain sigs x1 added where pending: "ss_Status x = SessionPending"
    and sigs: "signersOf s ctx c clock x container = Returns (Inr sigs, c')"
    and col: "collect_signers x 0 now sigs = Inr (x1, added)" and x': "x' = finish_if_complete (x1\<lparr>ss_Container := container\<rparr>)"
    by (auto simp: submit_session_def split: go.splits sum.splits if_splits)
  from assms(2) have "collected_ok s ctx x" by (simp add: session_ok_def)
  from collect_ok [OF sigs _ this col] pending have
    "collected_ok s ctx (x1\<lparr>ss_Container := container\<rparr>)" "ss_Status (x1\<lparr>ss_Container := container\<rparr>) \<noteq> SessionComplete" "ss_ID x1 = ss_ID x"
    by simp_all
  from finish_ok [OF this(1,2)] show "session_ok s ctx x'" unfolding x' .
  from \<open>ss_ID x1 = ss_ID x\<close> show "ss_ID x' = ss_ID x" by (simp add: x' finish_if_complete_def)
qed

lemma seeded_session_ok:
  assumes "seeded_session s ctx c clock container now (new_session ttl req i now) = Returns (Inr x, c')"
  shows "session_ok s ctx x"
proof (cases "container = []")
  case True
  with assms show ?thesis by (auto simp: seeded_session_def new_session_def session_ok_def collected_ok_def slots_of_def)
next
  case False
  let ?x0 = "new_session ttl req i now"
  from False assms obtain sigs where sigs: "signersOf s ctx c clock ?x0 container = Returns (Inr sigs, c')"
    and x: "x = finish_if_complete (fold (seed_one now) sigs ?x0)"
    by (auto simp: seeded_session_def split: go.splits sum.splits)
  have "collected_ok s ctx ?x0" by (simp add: new_session_def collected_ok_def slots_of_def)
  from fold_seed_ok [OF sigs subset_refl this] have "collected_ok s ctx (fold (seed_one now) sigs ?x0)" .
  moreover have "ss_Status (fold (seed_one now) sigs y) = ss_Status y" for y
    by (induction sigs arbitrary: y) (simp_all add: seed_one_def)
  ultimately show ?thesis unfolding x by (intro finish_ok) (simp_all add: new_session_def)
qed

section \<open>Every reachable session\<close>

definition multisign_inv :: "('s \<Rightarrow> string \<rightharpoonup> session) \<Rightarrow> ('s \<Rightarrow> bool) \<Rightarrow> 'c service \<Rightarrow> lang \<Rightarrow> 's multisign_sys \<Rightarrow> bool" where
  "multisign_inv held ok s ctx y \<longleftrightarrow> ok (my_store y) \<and>
     (\<forall>i x. held (my_store y) i = Some x \<longrightarrow> session_ok s ctx x) \<and> (\<forall>x \<in> set (my_frames y). session_ok s ctx x)"

context session_store
begin

lemma create_inv:
  assumes "ok st" and "\<forall>i x. sessions st i = Some x \<longrightarrow> session_ok s ctx x"
    and "multisign_Create S ttl s ctx st c req random now clock = Returns ((r, st'), c')"
  shows "ok st' \<and> (\<forall>i x. sessions st' i = Some x \<longrightarrow> session_ok s ctx x)"
proof (cases "st' = st")
  case False
  with assms(3) obtain b x where
    x: "seeded_session s ctx c clock (mq_Container req) now (new_session ttl req (hex_lower b) now) = Returns (Inr x, c')"
    and st': "so_Create S st x = Inr st'"
    by (auto simp: multisign_Create_def split: option.splits sum.splits go.splits)
  from create [OF assms(1), of x] st' have "ok st'" "sessions st' = (sessions st)(ss_ID x \<mapsto> x)" by auto
  with assms(2) seeded_session_ok [OF x] show ?thesis by simp
qed (use assms in simp)

lemma multisign_step_inv:
  assumes "multisign_step S ttl s ctx y y'" and "multisign_inv sessions ok s ctx y"
  shows "multisign_inv sessions ok s ctx y'"
  using assms
proof (cases rule: multisign_step.cases)
  case (step_create c req random now clock r st' c')
  from assms(2) have "ok (my_store y)" "\<forall>i x. sessions (my_store y) i = Some x \<longrightarrow> session_ok s ctx x"
    by (simp_all add: multisign_inv_def)
  from create_inv [OF this step_create(2)] step_create(1) assms(2) show ?thesis by (simp add: multisign_inv_def)
next
  case (step_expire i x now)
  then have "session_ok s ctx x" using assms(2) by (auto simp: multisign_inv_def get_iff)
  with step_expire assms(2) show ?thesis by (simp add: multisign_inv_def session_ok_def)
next
  case (step_submit i x now c clock container now2 x' c')
  then have "session_ok s ctx x" using assms(2) by (auto simp: multisign_inv_def get_iff)
  with step_submit assms(2) submit_session_ok(1) show ?thesis by (auto simp: multisign_inv_def)
next
  case (step_write x st')
  from assms(2) have "ok (my_store y)" by (simp add: multisign_inv_def)
  from this step_write(3) have "ok st' \<and> sessions st' = (sessions (my_store y))(ss_ID x \<mapsto> x)"
    by (cases rule: save_cases [of "my_store y" x]) auto
  with step_write assms(2) show ?thesis by (auto simp: multisign_inv_def dest: notin_set_remove1)
next
  case (step_lost x e)
  with assms(2) show ?thesis by (auto simp: multisign_inv_def dest: notin_set_remove1)
next
  case (step_cancel i st')
  from assms(2) have "ok (my_store y)" by (simp add: multisign_inv_def)
  from delete [OF this, of i] step_cancel(2) have "ok st' \<and> sessions st' = (sessions (my_store y))(i := None)"
    by (auto simp: multisign_Cancel_def)
  with step_cancel assms(2) show ?thesis by (auto simp: multisign_inv_def)
qed

lemma multisign_reachable_inv:
  assumes "multisign_reachable S ttl s ctx st0 y" and "ok st0" and "\<forall>i. sessions st0 i = None"
  shows "multisign_inv sessions ok s ctx y"
  using assms(1)
proof induction
  case start
  show ?case using assms(2,3) by (simp add: multisign_inv_def)
next
  case (next_state y y')
  from multisign_step_inv [OF this(2,3)] show ?case .
qed

end

lemma Remaining_Nil: "Remaining x = [] \<longleftrightarrow> (\<forall>i < length (ss_Required x). satisfied x i)"
  by (force simp: Remaining_def filter_empty_conv enumerate_eq_zip in_set_zip)

text \<open>Distinct slots make the assignment of signatures to requirements injective.\<close>

lemma complete_assignment:
  assumes "session_ok s ctx x" and "ss_Status x = SessionComplete" and "ss_Required x \<noteq> []"
  shows "\<exists>f. inj_on f {..<length (ss_Required x)} \<and> (\<forall>k < length (ss_Required x). f k < length (ss_Collected x) \<and>
    (let c = ss_Collected x ! f k in req_matches (ss_Required x ! k) (sn_IIN c) (sn_BIN c) (sn_Roles c)))"
proof -
  have "\<forall>k. k < length (ss_Required x) \<longrightarrow> (\<exists>j. j < length (ss_Collected x) \<and> sn_Satisfies (ss_Collected x ! j) = int k)"
    using assms by (auto simp: session_ok_def session_complete_def Remaining_Nil satisfied_def list_ex_length)
  then obtain f where f: "\<And>k. k < length (ss_Required x) \<Longrightarrow> f k < length (ss_Collected x) \<and> sn_Satisfies (ss_Collected x ! f k) = int k"
    by metis
  have "inj_on f {..<length (ss_Required x)}" using f by (metis inj_onI lessThan_iff of_nat_eq_iff)
  moreover have "req_matches (ss_Required x ! k) (sn_IIN c) (sn_BIN c) (sn_Roles c)"
    if "k < length (ss_Required x)" and "c = ss_Collected x ! f k" for k c
  proof -
    from f [OF that(1)] that(2) have "c \<in> set (ss_Collected x)" "sn_Satisfies c = int k" by auto
    with assms(1) show ?thesis by (auto simp: session_ok_def collected_ok_def fulfils_def)
  qed
  ultimately show ?thesis using f by (intro exI [of _ f]) (auto simp: Let_def)
qed

text \<open>
  Claim C11: a completed session has what it was waiting for. In every state that concurrent
  requests can reach from an empty store, of either kind, a session marked complete has for every
  requirement a collected signature that matches it, a different one for each (or, without named
  participants, at least the required number of signatures); and every collected signature is of
  a signer of a container that verified as valid over the session's own document.
\<close>

theorem multisign_complete_means:
  assumes "(\<exists>y. multisign_reachable SessionMem ttl s ctx [] y \<and> map_of (my_store y) i = Some x) \<or>
      (\<exists>y. multisign_reachable SessionBolt ttl s ctx [] y \<and> sbolt_sessions (my_store y) i = Some x)"
    and "ss_Status x = SessionComplete"
  shows "(if ss_Required x \<noteq> []
      then \<exists>f. inj_on f {..<length (ss_Required x)} \<and> (\<forall>k < length (ss_Required x). f k < length (ss_Collected x) \<and>
        (let c = ss_Collected x ! f k in req_matches (ss_Required x ! k) (sn_IIN c) (sn_BIN c) (sn_Roles c)))
      else ss_MinSigners x \<le> int (length (ss_Collected x))) \<and>
    (\<forall>c \<in> set (ss_Collected x). vouched s ctx x c)"
proof -
  have "session_ok s ctx x"
    using assms(1)
  proof
    assume "\<exists>y. multisign_reachable SessionMem ttl s ctx [] y \<and> map_of (my_store y) i = Some x"
    then obtain y where "multisign_reachable SessionMem ttl s ctx [] y" "map_of (my_store y) i = Some x" by blast
    with smem.multisign_reachable_inv [OF this(1)] show ?thesis by (auto simp: multisign_inv_def)
  next
    assume "\<exists>y. multisign_reachable SessionBolt ttl s ctx [] y \<and> sbolt_sessions (my_store y) i = Some x"
    then obtain y where "multisign_reachable SessionBolt ttl s ctx [] y" "sbolt_sessions (my_store y) i = Some x" by blast
    moreover have "sbolt_ok []" "\<forall>i. sbolt_sessions [] i = None" by (simp_all add: sbolt_ok_def sbolt_sessions_def)
    ultimately show ?thesis using sbolt.multisign_reachable_inv by (fastforce simp: multisign_inv_def)
  qed
  with complete_assignment [OF this assms(2)] assms(2) show ?thesis
    by (auto simp: session_ok_def collected_ok_def session_complete_def)
qed

text \<open>Parties that sign with certificates named by one letter; a container is the list of its signers.\<close>

definition party_driver :: driver where
  "party_driver = (verifying_driver [] (status_answer CertGood))\<lparr>
     pv_VerifyCMS := (\<lambda>req. (\<lparr>dv_Valid = True, dv_Info = [], dv_Content = [], dv_SignerCert = [],
        dv_Signers = map (\<lambda>ch. [ch, CHR ''R'']) (vq_Signature req), dv_Timestamp = zero_time, dv_RawCode = 0\<rparr>, None)),
     pv_CertProperties := (\<lambda>cert _. ([\<lparr>cf_ID = 0, cf_Name = ''SUBJECT_SERIALNUMBER'', cf_Value = ''IIN'' @ take 1 cert, cf_Raw = [],
        cf_OK = True\<rparr>], None))\<rparr>"

definition party_service :: "unit service" where
  "party_service = demo_service party_driver None"

definition needs :: "string \<Rightarrow> required" where
  "needs iin = \<lparr>rq_IIN = iin, rq_BIN = [], rq_Role = [], rq_Label = []\<rparr>"

definition demo_create :: "required list \<Rightarrow> int \<Rightarrow> bytes \<Rightarrow> create_request" where
  "demo_create req m container = \<lparr>mq_Format = [], mq_Detached = False, mq_Document = ''doc'', mq_Container = container,
     mq_Required = req, mq_MinSigners = m, mq_Subject = [], mq_TTLSeconds = 60\<rparr>"

lemma demo_create_complete:
  "case multisign_Create SessionMem Hour party_service plain_lang [] () (demo_create [needs ''A'', needs ''B''] 0 ''BA'') (Inr ''id'') 7 demo_clock of
     Returns ((Inr x, st), c) \<Rightarrow> ss_Status x = SessionComplete \<and> map sn_Satisfies (ss_Collected x) = [1, 0] \<and> map_of st ''6964'' = Some x
   | _ \<Rightarrow> False"
  by code_simp

theorem multisign_complete_means_witness:
  "\<exists>y x. multisign_reachable SessionMem Hour party_service plain_lang [] y \<and> map_of (my_store y) ''6964'' = Some x \<and>
     ss_Status x = SessionComplete \<and> (\<forall>c \<in> set (ss_Collected x). vouched party_service plain_lang x c)"
proof -
  from demo_create_complete obtain x st where
    run: "multisign_Create SessionMem Hour party_service plain_lang [] () (demo_create [needs ''A'', needs ''B''] 0 ''BA'') (Inr ''id'') 7 demo_clock
      = Returns ((Inr x, st), ())" and x: "ss_Status x = SessionComplete" "map_of st ''6964'' = Some x"
    by (auto split: go.splits prod.splits sum.splits)
  let ?y = "\<lparr>my_store = [] :: session_mem, my_frames = []\<rparr>"
  have "multisign_Create SessionMem Hour party_service plain_lang (my_store ?y) () (demo_create [needs ''A'', needs ''B''] 0 ''BA'') (Inr ''id'') 7 demo_clock
      = Returns ((Inr x, st), ())" using run by simp
  from step_create [OF this] have reach: "multisign_reachable SessionMem Hour party_service plain_lang [] (?y\<lparr>my_store := st\<rparr>)"
    by (rule next_state [OF start])
  have held: "map_of (my_store (?y\<lparr>my_store := st\<rparr>)) ''6964'' = Some x" using x by simp
  have "\<exists>y. multisign_reachable SessionMem Hour party_service plain_lang [] y \<and> map_of (my_store y) ''6964'' = Some x"
    using reach held by blast
  from multisign_complete_means [OF disjI1 [OF this] x(1)] have "\<forall>c \<in> set (ss_Collected x). vouched party_service plain_lang x c" by simp
  with reach held x(1) show ?thesis by blast
qed

section \<open>What a submission adds\<close>

lemma record_identity [simp]: "signature_identity (record_signature x sig now) = signer_identity sig"
  by (simp add: signature_identity_def signer_identity_def record_signature_def)

lemma collect_spec:
  "collect_signers x n now sigs = Inr (x', n') \<Longrightarrow>
   \<exists>added. x' = x\<lparr>ss_Collected := ss_Collected x @ added\<rparr> \<and> n' = n + length added \<and>
     distinct (map signature_identity added) \<and>
     set (map signature_identity added) \<inter> set (map signature_identity (ss_Collected x)) = {} \<and>
     set (map signature_identity added) \<subseteq> set (map signer_identity sigs) \<and>
     (ss_Required x \<noteq> [] \<longrightarrow> (\<forall>a \<in> set added. 0 \<le> sn_Satisfies a))"
proof (induction x n now sigs rule: collect_signers.induct)
  case (2 x n now sig sigs)
  show ?case
  proof (cases "alreadyCollected x sig")
    case True
    with "2.prems" have "collect_signers x n now sigs = Inr (x', n')" by simp
    from "2.IH"(1) [OF True this] obtain added where added: "x' = x\<lparr>ss_Collected := ss_Collected x @ added\<rparr>" "n' = n + length added"
      "distinct (map signature_identity added)" "set (map signature_identity added) \<inter> set (map signature_identity (ss_Collected x)) = {}"
      "set (map signature_identity added) \<subseteq> set (map signer_identity sigs)"
      "ss_Required x \<noteq> [] \<longrightarrow> (\<forall>a \<in> set added. 0 \<le> sn_Satisfies a)" by blast
    from added(5) have "set (map signature_identity added) \<subseteq> set (map signer_identity (sig # sigs))" by auto
    with added(1-4,6) show ?thesis by blast
  next
    case False
    let ?r = "record_signature x sig now"
    let ?x = "x\<lparr>ss_Collected := ss_Collected x @ [?r]\<rparr>"
    have rest: "collect_signers ?x (Suc n) now sigs = Inr (x', n')" and go: "\<not> (ss_Required x \<noteq> [] \<and> sn_Satisfies ?r < 0)"
      using "2.prems" False by (auto simp: Let_def split: if_splits)
    from "2.IH"(2) [OF False refl go rest] obtain added where added:
      "x' = ?x\<lparr>ss_Collected := ss_Collected ?x @ added\<rparr>" "n' = Suc n + length added" "distinct (map signature_identity added)"
      "set (map signature_identity added) \<inter> set (map signature_identity (ss_Collected ?x)) = {}"
      "set (map signature_identity added) \<subseteq> set (map signer_identity sigs)"
      "ss_Required ?x \<noteq> [] \<longrightarrow> (\<forall>a \<in> set added. 0 \<le> sn_Satisfies a)" by blast
    have "signer_identity sig \<notin> set (map signature_identity (ss_Collected x))"
      using False by (auto simp: alreadyCollected_def list_ex_iff)
    with added go show ?thesis by (intro exI [of _ "?r # added"]) (auto simp: not_less)
  qed
qed simp

text \<open>
  Claim C12: an accepted submission extends the session by what it was waiting for and loses
  nothing. If Submit succeeds, over any store, the session it read was pending and within its
  deadline, and the container verified. Every signature collected before is still carried by the
  container; the session written back is the one read with at least one signature appended, each
  of a signer of the container whose identity was not collected before, no identity twice, and,
  when participants are named, each filling one of their slots; it holds the new container and
  is marked complete exactly when its requirements are met.
\<close>

theorem multisign_submit_extends:
  assumes "Submit S s ctx st c i container now clock now2 = Returns ((Inr x', st'), c')"
  shows "\<exists>x sigs added. so_Get S st i = Inr x \<and> ss_Status x = SessionPending \<and> now < ss_ExpiresAt x \<and>
    signersOf s ctx c clock x container = Returns (Inr sigs, c') \<and> so_Save S st x' = Inr st' \<and>
    set (map signature_identity (ss_Collected x)) \<subseteq> set (map signer_identity sigs) \<and>
    x' = x\<lparr>ss_Collected := ss_Collected x @ added, ss_Container := container,
           ss_Status := (if session_complete x' then SessionComplete else SessionPending)\<rparr> \<and>
    added \<noteq> [] \<and> distinct (map signature_identity added) \<and>
    set (map signature_identity added) \<subseteq> set (map signer_identity sigs) - set (map signature_identity (ss_Collected x)) \<and>
    (ss_Required x \<noteq> [] \<longrightarrow> (\<forall>a \<in> set added. 0 \<le> sn_Satisfies a))"
proof -
  from assms obtain x st1 where get: "multisign_Get S st i now = (Inr x, st1)"
    and sub: "submit_session s ctx c clock x container now2 = Returns (Inr x', c')" and save: "so_Save S st1 x' = Inr st'"
    by (auto simp: Submit_def split: prod.splits sum.splits go.splits)
  from sub obtain sigs x1 n where pending: "ss_Status x = SessionPending"
    and sigs: "signersOf s ctx c clock x container = Returns (Inr sigs, c')"
    and all: "containsAll sigs (ss_Collected x)" and col: "collect_signers x 0 now2 sigs = Inr (x1, n)" and n: "n \<noteq> 0"
    and x': "x' = finish_if_complete (x1\<lparr>ss_Container := container\<rparr>)"
    by (auto simp: submit_session_def split: go.splits sum.splits if_splits)
  from get pending have read: "so_Get S st i = Inr x" "now < ss_ExpiresAt x" "st1 = st"
    by (auto simp: multisign_Get_def overdue_def Let_def split: sum.splits if_splits)
  from collect_spec [OF col] obtain added where added: "x1 = x\<lparr>ss_Collected := ss_Collected x @ added\<rparr>" "n = length added"
    "distinct (map signature_identity added)" "set (map signature_identity added) \<inter> set (map signature_identity (ss_Collected x)) = {}"
    "set (map signature_identity added) \<subseteq> set (map signer_identity sigs)"
    "ss_Required x \<noteq> [] \<longrightarrow> (\<forall>a \<in> set added. 0 \<le> sn_Satisfies a)" by auto
  have complete: "session_complete (y\<lparr>ss_Status := t\<rparr>) = session_complete y" for y t
    by (simp add: session_complete_def Remaining_def satisfied_def)
  have "x' = x\<lparr>ss_Collected := ss_Collected x @ added, ss_Container := container,
      ss_Status := (if session_complete x' then SessionComplete else SessionPending)\<rparr>"
    using pending by (auto simp: x' finish_if_complete_def added(1) complete)
  moreover have "set (map signature_identity (ss_Collected x)) \<subseteq> set (map signer_identity sigs)"
    using all by (auto simp: containsAll_def list_all_iff)
  ultimately show ?thesis
    using read pending sigs save n added(2-6) by (intro exI [of _ x] exI [of _ sigs] exI [of _ added]) auto
qed

definition waiting_session :: "int \<Rightarrow> session" where
  "waiting_session m = new_session Hour (demo_create [] m []) ''6964'' 7"

lemma demo_submit:
  "case Submit SessionMem party_service plain_lang [(''6964'', waiting_session 2)] () ''6964'' ''A'' 8 demo_clock 9 of
     Returns ((Inr x, st), c) \<Rightarrow> length (ss_Collected x) = 1 \<and> ss_Status x = SessionPending | _ \<Rightarrow> False"
  by code_simp

theorem multisign_submit_extends_witness:
  "case Submit SessionMem party_service plain_lang [(''6964'', waiting_session 2)] () ''6964'' ''A'' 8 demo_clock 9 of
     Returns ((Inr x, st), c) \<Rightarrow> \<exists>added. added \<noteq> [] \<and> ss_Collected x = added | _ \<Rightarrow> False"
proof -
  from demo_submit obtain x st where run: "Submit SessionMem party_service plain_lang [(''6964'', waiting_session 2)] () ''6964'' ''A'' 8 demo_clock 9
      = Returns ((Inr x, st), ())" by (auto split: go.splits prod.splits sum.splits)
  from multisign_submit_extends [OF run] obtain x0 added t where x0: "so_Get SessionMem [(''6964'', waiting_session 2)] ''6964'' = Inr x0"
    and x: "x = x0\<lparr>ss_Collected := ss_Collected x0 @ added, ss_Container := ''A'', ss_Status := t\<rparr>" and added: "added \<noteq> []" by blast
  from x have "ss_Collected x = ss_Collected x0 @ added" by simp
  with x0 added show ?thesis using run by (simp add: smem_defs waiting_session_def new_session_def)
qed

section \<open>Findings\<close>

text \<open>
  Two participants who co-sign the same container at the same time: both submissions are
  accepted, and the write of the second drops the signature of the first.
\<close>

lemma multisign_lost_update:
  "case (submit_session party_service plain_lang () demo_clock (waiting_session 2) ''A'' 9,
         submit_session party_service plain_lang () demo_clock (waiting_session 2) ''B'' 9) of
     (Returns (Inr xa, _), Returns (Inr xb, _)) \<Rightarrow>
       (case smem_Save [(''6964'', waiting_session 2)] xa of
          Inr st1 \<Rightarrow> (case smem_Save st1 xb of
            Inr st2 \<Rightarrow> map_option (map sn_IIN \<circ> ss_Collected) (map_of st1 ''6964'') = Some [''A''] \<and>
                       map_option (map sn_IIN \<circ> ss_Collected) (map_of st2 ''6964'') = Some [''B'']
          | _ \<Rightarrow> False)
        | _ \<Rightarrow> False)
   | _ \<Rightarrow> False"
  by code_simp

text \<open>
  A seeded container is counted without looking for repeated signers: two signatures of one
  person complete a session that waits for any two participants.
\<close>

lemma multisign_seed_counts_twice:
  "case multisign_Create SessionMem Hour party_service plain_lang [] () (demo_create [] 2 ''AA'') (Inr ''id'') 7 demo_clock of
     Returns ((Inr x, st), c) \<Rightarrow> ss_Status x = SessionComplete \<and> map sn_IIN (ss_Collected x) = [''A'', ''A'']
   | _ \<Rightarrow> False"
  by code_simp

text \<open>A lifetime that overflows the 64-bit duration puts the deadline before the creation.\<close>

lemma multisign_ttl_overflow:
  "ss_ExpiresAt (new_session Hour ((demo_create [] 1 [])\<lparr>mq_TTLSeconds := 9223372037\<rparr>) ''6964'' 7) < 7"
  by (simp add: new_session_def demo_create_def seconds64_def wrap64_def)

end
