(* ===== verification/Crl_Cache.thy ===== *)
theory Crl_Cache
  imports Validate
begin

text \<open>
  The CRL manager behind the service's \<^verbatim>\<open>CRLSource\<close> port (internal/crl/crl.go): it downloads the
  revocation lists of a certificate's distribution points, keeps them in memory or in a spool
  directory under a size cap with least-recently-used eviction, and reports whether the base list
  is fresh and the delta list is coherent with it. The certificate and CRL parsers of the standard
  library and the DER reader of \<^verbatim>\<open>golang.org/x/crypto/cryptobyte\<close> are fields of a record; the
  clock, the network and the outcome of the file operations are the answers of a world, numbered
  by the order in which the cache asks.
\<close>

section \<open>What the manager is built on\<close>

text \<open>The further fields of a parsed \<^verbatim>\<open>x509.RevocationList\<close> and of a parsed certificate.\<close>

record crl_full = crl +
  crl_Number :: "int option"
  crl_AuthorityKeyId :: bytes
  crl_Extensions :: "(string \<times> bytes) list"

record crl_cert = xcert +
  xc_Extensions :: "(string \<times> bytes) list"

text \<open>
  \<open>kl_ReadASN1 s t\<close> is \<^verbatim>\<open>s.ReadASN1(&out, t)\<close>: the contents of the element of tag \<open>t\<close> at the front
  of \<open>s\<close> and what follows it, or nothing. \<open>kl_ReadOptionalASN1 s t\<close> fails, or reads such an element if
  there is one. \<open>kl_PeekTag\<close> is \<^verbatim>\<open>PeekASN1Tag\<close>.
\<close>

record crl_lib =
  kl_PemDecode :: "bytes \<Rightarrow> bytes option"
  kl_ParseCertificate :: "bytes \<Rightarrow> crl_cert option"
  kl_ParseRevocationList :: "bytes \<Rightarrow> crl_full option"
  kl_UnmarshalInt :: "bytes \<Rightarrow> int option"
  kl_SumHex :: "bytes \<Rightarrow> string"
  kl_ReadASN1 :: "bytes \<Rightarrow> nat \<Rightarrow> (bytes \<times> bytes) option"
  kl_ReadOptionalASN1 :: "bytes \<Rightarrow> nat \<Rightarrow> bytes option option"
  kl_PeekTag :: "bytes \<Rightarrow> nat \<Rightarrow> bool"

text \<open>Where \<^verbatim>\<open>writeFileAtomic\<close> stops, and what a request for a URL yields.\<close>

datatype write_outcome = Written | CreateFails | WriteFails | CloseFails | RenameFails

datatype http_answer = NoResponse | Response (ha_status: nat) (ha_body: bytes) (ha_broken: bool)

record crl_world =
  wd_now :: "nat \<Rightarrow> time"
  wd_fetch :: "nat \<Rightarrow> string \<Rightarrow> bytes option"
  wd_write :: "nat \<Rightarrow> string \<Rightarrow> write_outcome"
  wd_remove :: "nat \<Rightarrow> string \<Rightarrow> bool"

section \<open>State\<close>

definition maxCRLBytes :: int where
  "maxCRLBytes = 16777216"

definition defaultMaxBytes :: int where
  "defaultMaxBytes = 268435456"

definition oidFreshestCRL :: string where
  "oidFreshestCRL = ''2.5.29.46''"

definition oidDeltaCRLIndicator :: string where
  "oidDeltaCRLIndicator = ''2.5.29.27''"

record crl_centry =
  cx_der :: "bytes option"
  cx_path :: string
  cx_size :: int
  cx_nextUpdate :: time
  cx_number :: "int option"
  cx_baseNumber :: "int option"
  cx_aki :: bytes
  cx_lastUsed :: time

record crl_config =
  cf_Timeout :: dur
  cf_SpoolDir :: string
  cf_MaxBytes :: int

text \<open>\<open>cc_files\<close> is the disk, \<open>cc_tick\<close> the number of questions the world has answered.\<close>

record crl_cache =
  cc_timeout :: dur
  cc_spoolDir :: string
  cc_maxBytes :: int
  cc_entries :: "(string, crl_centry) gomap"
  cc_total :: int
  cc_hits :: "64 word"
  cc_misses :: "64 word"
  cc_files :: "(string, bytes) gomap"
  cc_tick :: nat

section \<open>Questions to the world\<close>

definition crl_now :: "crl_world \<Rightarrow> crl_cache \<Rightarrow> time \<times> crl_cache" where
  "crl_now W c = (wd_now W (cc_tick c), c\<lparr>cc_tick := Suc (cc_tick c)\<rparr>)"

definition crl_fetch :: "crl_world \<Rightarrow> crl_cache \<Rightarrow> string \<Rightarrow> bytes option \<times> crl_cache" where
  "crl_fetch W c url = (wd_fetch W (cc_tick c) url, c\<lparr>cc_tick := Suc (cc_tick c)\<rparr>)"

definition os_Remove :: "crl_world \<Rightarrow> string \<Rightarrow> crl_cache \<Rightarrow> crl_cache" where
  "os_Remove W path c =
     c\<lparr>cc_files := (if wd_remove W (cc_tick c) path then kv_del path (cc_files c) else cc_files c),
       cc_tick := Suc (cc_tick c)\<rparr>"

text \<open>
  A failed write removes its temporary file and leaves the target as it was; a successful one
  replaces it in one rename.
\<close>

definition writeFileAtomic :: "crl_world \<Rightarrow> string \<Rightarrow> bytes \<Rightarrow> crl_cache \<Rightarrow> bool \<times> crl_cache" where
  "writeFileAtomic W path data c =
     (let outcome = wd_write W (cc_tick c) path;
          c = c\<lparr>cc_tick := Suc (cc_tick c)\<rparr>
      in case outcome of
           Written \<Rightarrow> (True, c\<lparr>cc_files := kv_put path data (cc_files c)\<rparr>)
         | CreateFails \<Rightarrow> (False, c)
         | WriteFails \<Rightarrow> (False, c)
         | CloseFails \<Rightarrow> (False, c)
         | RenameFails \<Rightarrow> (False, c))"

text \<open>
  The production \<^verbatim>\<open>fetchFunc\<close>: a body past the cap is cut there, and an error of the connection
  counts only when it comes before the cap.
\<close>

definition httpFetch :: "(string \<Rightarrow> http_answer) \<Rightarrow> string \<Rightarrow> bytes option" where
  "httpFetch http url =
     (case http url of
        NoResponse \<Rightarrow> None
      | Response st body broken \<Rightarrow>
          if st \<noteq> 200 then None
          else if maxCRLBytes \<le> int (length body) then Some (take (nat maxCRLBytes) body)
          else if broken then None
          else Some body)"

section \<open>Reading a list\<close>

definition keyFor :: "crl_lib \<Rightarrow> string \<Rightarrow> string" where
  "keyFor K url = kl_SumHex K url"

definition normalizeCRL :: "crl_lib \<Rightarrow> bytes \<Rightarrow> bytes option" where
  "normalizeCRL K body =
     (let der = (case kl_PemDecode K body of Some b \<Rightarrow> b | None \<Rightarrow> body)
      in case kl_ParseRevocationList K der of None \<Rightarrow> None | Some _ \<Rightarrow> Some der)"

fun base_number :: "crl_lib \<Rightarrow> (string \<times> bytes) list \<Rightarrow> int option \<Rightarrow> int option" where
  "base_number K [] b = b"
| "base_number K ((oid, v) # exts) b =
     (if oid = oidDeltaCRLIndicator then
        (case kl_UnmarshalInt K v of
           Some n \<Rightarrow> base_number K exts (Some n)
         | None \<Rightarrow> base_number K exts b)
      else base_number K exts b)"

definition parseMeta :: "crl_lib \<Rightarrow> bytes \<Rightarrow> time \<times> int option \<times> int option \<times> bytes" where
  "parseMeta K der =
     (case kl_ParseRevocationList K der of
        None \<Rightarrow> (zero_time, None, None, [])
      | Some rl \<Rightarrow> (crl_NextUpdate rl, crl_Number rl, base_number K (crl_Extensions rl) None,
                    crl_AuthorityKeyId rl))"

definition consistent :: "crl_centry \<Rightarrow> crl_centry \<Rightarrow> bool" where
  "consistent base delta =
     (case (cx_baseNumber delta, cx_number base) of
        (Some b, Some n) \<Rightarrow>
          if b > n then False
          else if cx_aki base \<noteq> [] \<and> cx_aki delta \<noteq> [] \<and> cx_aki base \<noteq> cx_aki delta then False
          else True
      | _ \<Rightarrow> False)"

section \<open>The delta distribution points of a certificate\<close>

text \<open>
  The DER tags: SEQUENCE, the constructed context tag 0 and the primitive context tag 6. The two
  loops run until the text is used up or a read fails; \<open>fuel\<close> bounds them, and the length of the
  text is enough because every read consumes something (\<open>uris_enough\<close>).
\<close>

definition tag_SEQUENCE :: nat where "tag_SEQUENCE = 48"
definition tag_ctx0 :: nat where "tag_ctx0 = 160"
definition tag_ctx6 :: nat where "tag_ctx6 = 134"

text \<open>
  The names of one distribution point: \<open>False\<close> means that a read failed in the middle, which ends
  the whole parse.
\<close>

fun name_uris :: "crl_lib \<Rightarrow> nat \<Rightarrow> bytes \<Rightarrow> string list \<Rightarrow> bool \<times> string list" where
  "name_uris K 0 name urls = (True, urls)"
| "name_uris K (Suc fuel) name urls =
     (if name = [] then (True, urls)
      else if \<not> kl_PeekTag K name tag_ctx6 then (True, urls)
      else case kl_ReadASN1 K name tag_ctx6 of
             None \<Rightarrow> (False, urls)
           | Some (uri, rest) \<Rightarrow> name_uris K fuel rest (urls @ [uri]))"

fun point_uris :: "crl_lib \<Rightarrow> nat \<Rightarrow> bytes \<Rightarrow> string list \<Rightarrow> string list" where
  "point_uris K 0 val urls = urls"
| "point_uris K (Suc fuel) val urls =
     (if val = [] then urls
      else case kl_ReadASN1 K val tag_SEQUENCE of
             None \<Rightarrow> urls
           | Some (dp, rest) \<Rightarrow>
               (case kl_ReadOptionalASN1 K dp tag_ctx0 of
                  None \<Rightarrow> urls
                | Some None \<Rightarrow> point_uris K fuel rest urls
                | Some (Some name) \<Rightarrow>
                    (case kl_ReadASN1 K name tag_ctx0 of
                       None \<Rightarrow> point_uris K fuel rest urls
                     | Some (full, _) \<Rightarrow>
                         (case name_uris K (length full) full urls of
                            (True, urls) \<Rightarrow> point_uris K fuel rest urls
                          | (False, urls) \<Rightarrow> urls))))"

definition parseDistributionPointURIs :: "crl_lib \<Rightarrow> bytes \<Rightarrow> string list" where
  "parseDistributionPointURIs K der =
     (case kl_ReadASN1 K der tag_SEQUENCE of
        None \<Rightarrow> []
      | Some (val, _) \<Rightarrow> point_uris K (length val) val [])"

definition freshestCRLURLs :: "crl_lib \<Rightarrow> crl_cert \<Rightarrow> string list" where
  "freshestCRLURLs K cert =
     (case find (\<lambda>(oid, v). oid = oidFreshestCRL) (xc_Extensions cert) of
        Some (_, v) \<Rightarrow> parseDistributionPointURIs K v
      | None \<Rightarrow> [])"

section \<open>Storing and evicting\<close>

definition spool_path :: "string \<Rightarrow> string \<Rightarrow> string" where
  "spool_path dir key = dir @ ''/'' @ key @ ''.crl''"

definition crl_body :: "crl_cache \<Rightarrow> crl_centry \<Rightarrow> bytes option" where
  "crl_body c e =
     (case cx_der e of
        Some der \<Rightarrow> Some der
      | None \<Rightarrow> if cx_path e \<noteq> [] then map_of (cc_files c) (cx_path e) else None)"

text \<open>The scan for the victim; \<open>None\<close> is the loop's \<^verbatim>\<open>first\<close>.\<close>

fun victim_scan :: "string \<Rightarrow> (string, crl_centry) gomap \<Rightarrow> (string \<times> time) option \<Rightarrow> (string \<times> time) option" where
  "victim_scan keep [] acc = acc"
| "victim_scan keep ((k, e) # es) acc =
     (if k = keep then victim_scan keep es acc
      else case acc of
             None \<Rightarrow> victim_scan keep es (Some (k, cx_lastUsed e))
           | Some (victim, oldest) \<Rightarrow>
               if Before (cx_lastUsed e) oldest then victim_scan keep es (Some (k, cx_lastUsed e))
               else victim_scan keep es acc)"

definition crl_drop :: "crl_world \<Rightarrow> string \<Rightarrow> crl_centry \<Rightarrow> crl_cache \<Rightarrow> crl_cache" where
  "crl_drop W victim e c =
     (let c = (if cx_path e \<noteq> [] then os_Remove W (cx_path e) c else c)
      in c\<lparr>cc_total := cc_total c - cx_size e, cc_entries := kv_del victim (cc_entries c)\<rparr>)"

lemma os_Remove_simps [simp]:
  "cc_entries (os_Remove W p c) = cc_entries c" "cc_total (os_Remove W p c) = cc_total c"
  "cc_maxBytes (os_Remove W p c) = cc_maxBytes c" "cc_spoolDir (os_Remove W p c) = cc_spoolDir c"
  "cc_tick (os_Remove W p c) = Suc (cc_tick c)"
  by (simp_all add: os_Remove_def)

lemma crl_drop_simps [simp]:
  "cc_entries (crl_drop W v e c) = kv_del v (cc_entries c)" "cc_total (crl_drop W v e c) = cc_total c - cx_size e"
  "cc_maxBytes (crl_drop W v e c) = cc_maxBytes c" "cc_spoolDir (crl_drop W v e c) = cc_spoolDir c"
  by (simp_all add: crl_drop_def Let_def)

text \<open>The victim is a key of the map; the last case of the loop body never arises.\<close>

function crl_evictLocked :: "crl_world \<Rightarrow> string \<Rightarrow> crl_cache \<Rightarrow> crl_cache" where
  "crl_evictLocked W keep c =
     (if cc_total c > cc_maxBytes c \<and> length (cc_entries c) > 1 then
        (case victim_scan keep (cc_entries c) None of
           None \<Rightarrow> c
         | Some (victim, _) \<Rightarrow>
             (case map_of (cc_entries c) victim of
                Some e \<Rightarrow> crl_evictLocked W keep (crl_drop W victim e c)
              | None \<Rightarrow> c))
      else c)"
  by auto
termination
  by (relation "measure (\<lambda>(W, keep, c). length (cc_entries c))")
    (auto intro!: kv_length_del_less intro: rev_image_eqI dest!: map_of_SomeD)

declare crl_evictLocked.simps [simp del]

definition crl_new_entry :: "crl_lib \<Rightarrow> bytes \<Rightarrow> time \<Rightarrow> crl_centry" where
  "crl_new_entry K der now =
     (case parseMeta K der of
        (nu, num, base, aki) \<Rightarrow>
          \<lparr>cx_der = None, cx_path = [], cx_size = int (length der), cx_nextUpdate = nu, cx_number = num,
           cx_baseNumber = base, cx_aki = aki, cx_lastUsed = now\<rparr>)"

text \<open>The first half of \<^verbatim>\<open>store\<close>, outside the lock: the entry and its body.\<close>

definition crl_persist :: "crl_lib \<Rightarrow> crl_world \<Rightarrow> crl_cache \<Rightarrow> string \<Rightarrow> bytes \<Rightarrow> crl_centry \<times> crl_cache" where
  "crl_persist K W c key der =
     (case crl_now W c of
        (now, c) \<Rightarrow>
          (let e = crl_new_entry K der now
           in if cc_spoolDir c \<noteq> [] then
                (let path = spool_path (cc_spoolDir c) key
                 in case writeFileAtomic W path der c of
                      (True, c) \<Rightarrow> (e\<lparr>cx_path := path\<rparr>, c)
                    | (False, c) \<Rightarrow> (e\<lparr>cx_der := Some der\<rparr>, c))
              else (e\<lparr>cx_der := Some der\<rparr>, c)))"

text \<open>The second half, under the lock.\<close>

definition crl_replace :: "crl_world \<Rightarrow> crl_cache \<Rightarrow> string \<Rightarrow> crl_centry \<Rightarrow> crl_cache" where
  "crl_replace W c key e =
     (let c = (case map_of (cc_entries c) key of
                 None \<Rightarrow> c
               | Some old \<Rightarrow>
                   (let c = c\<lparr>cc_total := cc_total c - cx_size old\<rparr>
                    in if cx_path old \<noteq> [] \<and> cx_path old \<noteq> cx_path e then os_Remove W (cx_path old) c else c))
      in c\<lparr>cc_entries := kv_put key e (cc_entries c), cc_total := cc_total c + cx_size e\<rparr>)"

definition crl_store :: "crl_lib \<Rightarrow> crl_world \<Rightarrow> crl_cache \<Rightarrow> string \<Rightarrow> bytes \<Rightarrow> crl_centry \<times> crl_cache" where
  "crl_store K W c key der =
     (case crl_persist K W c key der of
        (e, c) \<Rightarrow> (e, crl_evictLocked W key (crl_replace W c key e)))"

section \<open>Lookups\<close>

type_synonym crl_hit = "bytes \<times> crl_centry \<times> bool"

definition staleFallback :: "crl_cache \<Rightarrow> crl_centry option \<Rightarrow> crl_hit option" where
  "staleFallback c cached =
     (case cached of
        Some e \<Rightarrow> (case crl_body c e of Some b \<Rightarrow> Some (b, e, False) | None \<Rightarrow> None)
      | None \<Rightarrow> None)"

text \<open>The locked prologue of \<^verbatim>\<open>get\<close>: the entry, stamped as just used.\<close>

definition crl_touch :: "crl_world \<Rightarrow> crl_cache \<Rightarrow> string \<Rightarrow> crl_centry option \<times> crl_cache" where
  "crl_touch W c key =
     (case map_of (cc_entries c) key of
        None \<Rightarrow> (None, c)
      | Some e \<Rightarrow>
          (case crl_now W c of
             (now, c) \<Rightarrow>
               (let e = e\<lparr>cx_lastUsed := now\<rparr>
                in (Some e, c\<lparr>cc_entries := kv_put key e (cc_entries c)\<rparr>))))"

definition crl_serve :: "crl_world \<Rightarrow> crl_cache \<Rightarrow> crl_centry option \<Rightarrow> crl_hit option \<times> crl_cache" where
  "crl_serve W c cached =
     (case cached of
        None \<Rightarrow> (None, c)
      | Some e \<Rightarrow>
          if IsZero (cx_nextUpdate e) then (None, c)
          else (case crl_now W c of
                  (now, c) \<Rightarrow>
                    if Before now (cx_nextUpdate e) then
                      (case crl_body c e of
                         Some b \<Rightarrow> (Some (b, e, True), c\<lparr>cc_hits := cc_hits c + 1\<rparr>)
                       | None \<Rightarrow> (None, c))
                    else (None, c)))"

definition crl_get :: "crl_lib \<Rightarrow> crl_world \<Rightarrow> crl_cache \<Rightarrow> string \<Rightarrow> crl_hit option \<times> crl_cache" where
  "crl_get K W c url =
     (let key = keyFor K url
      in case crl_touch W c key of
           (cached, c) \<Rightarrow>
             (case crl_serve W c cached of
                (Some hit, c) \<Rightarrow> (Some hit, c)
              | (None, c) \<Rightarrow>
                  (case crl_fetch W (c\<lparr>cc_misses := cc_misses c + 1\<rparr>) url of
                     (None, c) \<Rightarrow> (staleFallback c cached, c)
                   | (Some body, c) \<Rightarrow>
                       (case normalizeCRL K body of
                          None \<Rightarrow> (staleFallback c cached, c)
                        | Some normalized \<Rightarrow>
                            (case crl_store K W c key normalized of
                               (stored, c) \<Rightarrow> (Some (normalized, stored, True), c))))))"

fun crl_first :: "crl_lib \<Rightarrow> crl_world \<Rightarrow> crl_cache \<Rightarrow> string list \<Rightarrow> crl_hit option \<times> crl_cache" where
  "crl_first K W c [] = (None, c)"
| "crl_first K W c (url # urls) =
     (case crl_get K W c url of
        (Some hit, c) \<Rightarrow> (Some hit, c)
      | (None, c) \<Rightarrow> crl_first K W c urls)"

text \<open>The closure \<^verbatim>\<open>setReason\<close> of \<^verbatim>\<open>CRLFor\<close>.\<close>

definition setReason :: "string \<Rightarrow> crl_result \<Rightarrow> crl_result" where
  "setReason r res =
     (let res = res\<lparr>cr_Reliable := False\<rparr>
      in if cr_Reason res = [] then res\<lparr>cr_Reason := r\<rparr> else res)"

definition overlay_delta :: "crl_centry \<Rightarrow> crl_result \<Rightarrow> crl_hit option \<Rightarrow> crl_result" where
  "overlay_delta baseMeta res found =
     (case found of
        None \<Rightarrow> setReason ''delta-unavailable'' res
      | Some (delta, deltaMeta, deltaFresh) \<Rightarrow>
          if \<not> deltaFresh then setReason ''stale-delta'' res
          else if consistent baseMeta deltaMeta then res\<lparr>cr_Delta := delta\<rparr>
          else setReason ''delta-inconsistent'' res)"

definition CRLFor :: "crl_lib \<Rightarrow> crl_world \<Rightarrow> crl_cache \<Rightarrow> bytes \<Rightarrow> crl_result option \<times> crl_cache" where
  "CRLFor K W c certDER =
     (case kl_ParseCertificate K certDER of
        None \<Rightarrow> (None, c)
      | Some cert \<Rightarrow>
          (case crl_first K W c (xc_CRLDistributionPoints cert) of
             (None, c) \<Rightarrow> (None, c)
           | (Some (base, baseMeta, baseFresh), c) \<Rightarrow>
               (let res = \<lparr>cr_Base = base, cr_Delta = [], cr_Reliable = True, cr_Reason = []\<rparr>;
                    res = (if \<not> baseFresh then res\<lparr>cr_Reliable := False, cr_Reason := ''stale-base''\<rparr> else res);
                    deltaURLs = freshestCRLURLs K cert
                in if deltaURLs = [] then (Some res, c)
                   else (case crl_first K W c deltaURLs of
                           (found, c) \<Rightarrow> (Some (overlay_delta baseMeta res found), c)))))"

definition crl_Stats :: "crl_cache \<Rightarrow> 64 word \<times> 64 word" where
  "crl_Stats c = (cc_hits c, cc_misses c)"

section \<open>Construction\<close>

definition HasSuffix :: "string \<Rightarrow> string \<Rightarrow> bool" where
  "HasSuffix s p \<longleftrightarrow> length p \<le> length s \<and> drop (length s - length p) s = p"

text \<open>
  One directory entry of the warm start: its name and whether it is a directory. The extension of
  a name is \<^verbatim>\<open>.crl\<close> exactly when the name ends so.
\<close>

definition adopt :: "crl_lib \<Rightarrow> crl_world \<Rightarrow> crl_cache \<Rightarrow> string \<times> bool \<Rightarrow> crl_cache" where
  "adopt K W c de =
     (case de of
        (name, isdir) \<Rightarrow>
          if isdir \<or> \<not> HasSuffix name ''.crl'' then c
          else (let path = cc_spoolDir c @ ''/'' @ name
                in case map_of (cc_files c) path of
                     None \<Rightarrow> c
                   | Some der \<Rightarrow>
                       if normalizeCRL K der = None then os_Remove W path c
                       else (case crl_now W c of
                               (now, c) \<Rightarrow>
                                 (let key = take (length name - 4) name;
                                      e = (crl_new_entry K der now)\<lparr>cx_path := path\<rparr>
                                  in c\<lparr>cc_entries := kv_put key e (cc_entries c),
                                       cc_total := cc_total c + cx_size e\<rparr>))))"

definition warmStart :: "crl_lib \<Rightarrow> crl_world \<Rightarrow> crl_cache \<Rightarrow> (string \<times> bool) list option \<Rightarrow> crl_cache" where
  "warmStart K W c ents = (case ents of None \<Rightarrow> c | Some es \<Rightarrow> foldl (adopt K W) c es)"

text \<open>
  \<open>mkdir\<close> is the outcome of \<^verbatim>\<open>MkdirAll\<close>, \<open>ents\<close> what \<^verbatim>\<open>ReadDir\<close> returns and \<open>files\<close> the disk as
  it is found.
\<close>

definition crl_New :: "crl_lib \<Rightarrow> crl_world \<Rightarrow> crl_config \<Rightarrow> bool \<Rightarrow> (string \<times> bool) list option \<Rightarrow>
    (string, bytes) gomap \<Rightarrow> crl_cache" where
  "crl_New K W cfg mkdir ents files =
     (let timeout = (if cf_Timeout cfg \<le> 0 then 10 * Second else cf_Timeout cfg);
          maxBytes = (if cf_MaxBytes cfg \<le> 0 then defaultMaxBytes else cf_MaxBytes cfg);
          c = \<lparr>cc_timeout = timeout, cc_spoolDir = cf_SpoolDir cfg, cc_maxBytes = maxBytes, cc_entries = [],
               cc_total = 0, cc_hits = 0, cc_misses = 0, cc_files = files, cc_tick = 0\<rparr>
      in if cc_spoolDir c \<noteq> [] then
           (if mkdir then warmStart K W c ents else c\<lparr>cc_spoolDir := []\<rparr>)
         else c)"

end
