(* ===== verification/Crl_Properties.thy ===== *)
theory Crl_Properties
  imports Crl_Cache
begin

text \<open>
  Correctness of the CRL manager: the bookkeeping of sizes, bodies and metadata that every
  operation keeps, the size cap in memory and on disk, and what a result reported as reliable
  rests on.
\<close>

section \<open>The invariant\<close>

definition cx_meta :: "crl_centry \<Rightarrow> time \<times> int option \<times> int option \<times> bytes" where
  "cx_meta e = (cx_nextUpdate e, cx_number e, cx_baseNumber e, cx_aki e)"

text \<open>
  The body of an entry is resident or in the spool file of its key, never both, and its size and
  metadata are those of the body.
\<close>

definition entry_ok :: "crl_lib \<Rightarrow> crl_cache \<Rightarrow> string \<Rightarrow> crl_centry \<Rightarrow> bool" where
  "entry_ok K c k e \<longleftrightarrow> 0 \<le> cx_size e \<and>
     (cx_der e = None \<longrightarrow> cx_path e = spool_path (cc_spoolDir c) k) \<and>
     (cx_der e \<noteq> None \<longrightarrow> cx_path e = []) \<and>
     (\<forall>b. crl_body c e = Some b \<longrightarrow> cx_size e = int (length b) \<and> cx_meta e = parseMeta K b)"

definition entries_size :: "(string, crl_centry) gomap \<Rightarrow> int" where
  "entries_size es = sum_list (map (cx_size \<circ> snd) es)"

text \<open>The invariant, with the entry of one key possibly exempt while its file is being replaced.\<close>

definition crl_inv_but :: "string set \<Rightarrow> crl_lib \<Rightarrow> crl_cache \<Rightarrow> bool" where
  "crl_inv_but X K c \<longleftrightarrow> kv_ok (cc_entries c) \<and> cc_total c = entries_size (cc_entries c) \<and> 1 \<le> cc_maxBytes c \<and>
     (\<forall>(k, e) \<in> set (cc_entries c). 0 \<le> cx_size e \<and> (k \<notin> X \<longrightarrow> entry_ok K c k e) \<and> cx_path e \<in> {[], spool_path (cc_spoolDir c) k})"

abbreviation crl_inv :: "crl_lib \<Rightarrow> crl_cache \<Rightarrow> bool" where
  "crl_inv \<equiv> crl_inv_but {}"

definition crl_fits :: "crl_cache \<Rightarrow> bool" where
  "crl_fits c \<longleftrightarrow> cc_total c \<le> cc_maxBytes c \<or> length (cc_entries c) \<le> 1"

lemma spool_path_inj [simp]: "spool_path d k = spool_path d k' \<longleftrightarrow> k = k'"
  by (simp add: spool_path_def)

lemma spool_path_ne [simp]: "spool_path d k \<noteq> []" "[] \<noteq> spool_path d k"
  by (simp_all add: spool_path_def)

lemma crl_inv_entry:
  "crl_inv_but X K c \<Longrightarrow> map_of (cc_entries c) k = Some e \<Longrightarrow> k \<notin> X \<Longrightarrow> entry_ok K c k e"
  by (fastforce simp: crl_inv_but_def dest: map_of_SomeD)

lemma entry_ok_path: "entry_ok K c k e \<Longrightarrow> cx_path e \<in> {[], spool_path (cc_spoolDir c) k}"
  by (cases "cx_der e") (auto simp: entry_ok_def)

text \<open>An entry's standing depends on the spool directory and on its own file only.\<close>

lemma entry_ok_frame:
  assumes "entry_ok K c k e" and "cc_spoolDir c' = cc_spoolDir c"
    and "map_of (cc_files c') (spool_path (cc_spoolDir c) k) = map_of (cc_files c) (spool_path (cc_spoolDir c) k)"
  shows "entry_ok K c' k e"
  using assms by (cases "cx_der e") (auto simp: entry_ok_def crl_body_def)

lemma crl_body_irrelevant [simp]:
  "crl_body c (e\<lparr>cx_lastUsed := t\<rparr>) = crl_body c e"
  "crl_body (c\<lparr>cc_entries := es\<rparr>) e = crl_body c e"
  "crl_body (c\<lparr>cc_total := t'\<rparr>) e = crl_body c e"
  "crl_body (c\<lparr>cc_tick := n\<rparr>) e = crl_body c e"
  "crl_body (c\<lparr>cc_hits := h\<rparr>) e = crl_body c e"
  "crl_body (c\<lparr>cc_misses := h\<rparr>) e = crl_body c e"
  by (cases "cx_der e"; simp add: crl_body_def)+

lemma cx_meta_lastUsed [simp]: "cx_meta (e\<lparr>cx_lastUsed := t\<rparr>) = cx_meta e"
  by (simp add: cx_meta_def)

lemma entry_ok_irrelevant [simp]:
  "entry_ok K c k (e\<lparr>cx_lastUsed := t\<rparr>) = entry_ok K c k e"
  "entry_ok K (c\<lparr>cc_entries := es\<rparr>) k e = entry_ok K c k e"
  "entry_ok K (c\<lparr>cc_total := t'\<rparr>) k e = entry_ok K c k e"
  "entry_ok K (c\<lparr>cc_tick := n\<rparr>) k e = entry_ok K c k e"
  "entry_ok K (c\<lparr>cc_hits := h\<rparr>) k e = entry_ok K c k e"
  "entry_ok K (c\<lparr>cc_misses := h\<rparr>) k e = entry_ok K c k e"
  by (simp_all add: entry_ok_def)

subsection \<open>Sizes\<close>

lemma entries_size_del:
  "kv_ok es \<Longrightarrow> map_of es k = Some e \<Longrightarrow> entries_size (kv_del k es) = entries_size es - cx_size e"
proof (induction es)
  case (Cons a es)
  obtain k' v where a: "a = (k', v)" by (cases a)
  show ?case
  proof (cases "k' = k")
    case True
    with Cons.prems a have "k \<notin> fst ` set es" "v = e" by (auto simp: kv_ok_def)
    then have "kv_del k es = es" by (simp add: kv_del_def delete_idem)
    with True a \<open>v = e\<close> show ?thesis by (simp add: kv_del_def entries_size_def)
  next
    case False
    with Cons a show ?thesis by (simp add: kv_del_def entries_size_def kv_ok_def)
  qed
qed simp

lemma entries_size_put:
  "kv_ok es \<Longrightarrow> entries_size (kv_put k e es) =
     entries_size es - (case map_of es k of None \<Rightarrow> 0 | Some old \<Rightarrow> cx_size old) + cx_size e"
  by (induction es) (auto simp: kv_put_def entries_size_def kv_ok_def split: option.splits)

lemma kv_put_mem: "kv_ok m \<Longrightarrow> (k', v') \<in> set (kv_put k v m) \<longleftrightarrow> (if k' = k then v' = v else (k', v') \<in> set m)"
  using kv_mem_get [OF kv_ok_put, of m k' v' k v] kv_mem_get [of m k' v'] by (auto simp: kv_simps)

section \<open>The steps of a lookup\<close>

lemma crl_touch_result:
  assumes "crl_touch W c k = (cached, c')"
  shows "c' = (case cached of None \<Rightarrow> c
               | Some e \<Rightarrow> c\<lparr>cc_tick := Suc (cc_tick c), cc_entries := kv_put k e (cc_entries c)\<rparr>)"
    and "map_of (cc_entries c) k = None \<longleftrightarrow> cached = None"
    and "cached = Some e \<Longrightarrow> \<exists>e0 t. map_of (cc_entries c) k = Some e0 \<and> e = e0\<lparr>cx_lastUsed := t\<rparr>"
  using assms by (auto simp: crl_touch_def crl_now_def Let_def split: option.splits)

lemma crl_touch_inv:
  assumes "crl_inv K c" and "crl_touch W c k = (cached, c')"
  shows "crl_inv K c'"
proof (cases cached)
  case None
  with assms crl_touch_result(1) [OF assms(2)] show ?thesis by simp
next
  case (Some e)
  from crl_touch_result(3) [OF assms(2) Some] obtain e0 t where
    e0: "map_of (cc_entries c) k = Some e0" "e = e0\<lparr>cx_lastUsed := t\<rparr>" by blast
  have ok: "kv_ok (cc_entries c)" using assms(1) by (simp add: crl_inv_but_def)
  have "entry_ok K c k e" using crl_inv_entry [OF assms(1) e0(1)] e0(2) by simp
  then have "0 \<le> cx_size e \<and> entry_ok K c k e \<and> cx_path e \<in> {[], spool_path (cc_spoolDir c) k}"
    using entry_ok_path by (auto simp: entry_ok_def)
  then have "\<forall>(k', e') \<in> set (kv_put k e (cc_entries c)). 0 \<le> cx_size e' \<and> entry_ok K c k' e' \<and>
      cx_path e' \<in> {[], spool_path (cc_spoolDir c) k'}"
    using assms(1) by (auto simp: kv_put_mem [OF ok] crl_inv_but_def split: if_splits)
  then show ?thesis
    using assms(1) e0 entries_size_put [OF ok, of k e] ok kv_ok_put [OF ok]
    by (simp add: crl_touch_result(1) [OF assms(2)] Some crl_inv_but_def)
qed

text \<open>The part of the state the invariant speaks about; clock readings and counters are not in it.\<close>

definition crl_core :: "crl_cache \<Rightarrow> (string, crl_centry) gomap \<times> int \<times> int \<times> string \<times> (string, bytes) gomap" where
  "crl_core c = (cc_entries c, cc_total c, cc_maxBytes c, cc_spoolDir c, cc_files c)"

lemma crl_core_irrelevant [simp]:
  "crl_core (c\<lparr>cc_tick := n\<rparr>) = crl_core c" "crl_core (c\<lparr>cc_hits := h\<rparr>) = crl_core c"
  "crl_core (c\<lparr>cc_misses := h\<rparr>) = crl_core c"
  by (simp_all add: crl_core_def)

lemma crl_core_body: "crl_core c' = crl_core c \<Longrightarrow> crl_body c' e = crl_body c e"
  by (cases "cx_der e") (auto simp: crl_core_def crl_body_def)

lemma crl_core_entry: "crl_core c' = crl_core c \<Longrightarrow> entry_ok K c' k e = entry_ok K c k e"
  using crl_core_body [of c' c e] by (simp add: entry_ok_def crl_core_def)

lemma crl_core_inv: "crl_core c' = crl_core c \<Longrightarrow> crl_inv_but X K c' = crl_inv_but X K c"
  using crl_core_entry [of c' c K] by (simp add: crl_inv_but_def crl_core_def)

lemma crl_serve_core: "crl_serve W c cached = (r, c') \<Longrightarrow> crl_core c' = crl_core c \<and> cc_tick c \<le> cc_tick c'"
  by (auto simp: crl_serve_def crl_now_def split: option.splits if_splits)

lemma crl_serve_hit:
  assumes "crl_serve W c cached = (Some (b, e, f), c')"
  shows "f \<and> cached = Some e \<and> crl_body c e = Some b \<and> wd_now W (cc_tick c) < cx_nextUpdate e \<and>
     cc_tick c < cc_tick c'"
  using assms by (auto simp: crl_serve_def crl_now_def split: option.splits if_splits)

section \<open>Storing\<close>

text \<open>What the first half of \<^verbatim>\<open>store\<close> leaves: a sound entry for the key, and every other one untouched.\<close>

lemma crl_new_entry_simps [simp]:
  "cx_der (crl_new_entry K der t) = None" "cx_path (crl_new_entry K der t) = []"
  "cx_size (crl_new_entry K der t) = int (length der)" "cx_meta (crl_new_entry K der t) = parseMeta K der"
  by (simp_all add: crl_new_entry_def cx_meta_def split: prod.splits)

lemma cx_meta_irrelevant [simp]: "cx_meta (e\<lparr>cx_path := p\<rparr>) = cx_meta e" "cx_meta (e\<lparr>cx_der := d\<rparr>) = cx_meta e"
  by (simp_all add: cx_meta_def)

lemma crl_persist_result:
  assumes "crl_persist K W c k der = (e, c')"
  shows "cc_entries c' = cc_entries c \<and> cc_total c' = cc_total c \<and> cc_maxBytes c' = cc_maxBytes c \<and>
      cc_spoolDir c' = cc_spoolDir c \<and> cc_tick c < cc_tick c'"
    and "p \<noteq> spool_path (cc_spoolDir c) k \<Longrightarrow> map_of (cc_files c') p = map_of (cc_files c) p"
    and "entry_ok K c' k e" and "cx_size e = int (length der)" and "cx_meta e = parseMeta K der"
    and "cc_files c' = cc_files c \<and> cx_path e = [] \<or>
      cx_path e = spool_path (cc_spoolDir c) k \<and> cc_files c' = kv_put (cx_path e) der (cc_files c)"
  using assms
  by (auto simp: crl_persist_def crl_now_def writeFileAtomic_def Let_def entry_ok_def crl_body_def kv_simps
      split: if_splits write_outcome.splits)

lemma crl_persist_inv:
  assumes "crl_inv K c" and "crl_persist K W c k der = (e, c')"
  shows "crl_inv_but {k} K c'"
proof -
  note r = crl_persist_result [OF assms(2)]
  have "entry_ok K c' k' e'" if "(k', e') \<in> set (cc_entries c)" "k' \<noteq> k" for k' e'
  proof (rule entry_ok_frame)
    show "entry_ok K c k' e'" using assms(1) that(1) by (auto simp: crl_inv_but_def)
  qed (use r(1) r(2) that(2) in auto)
  then show ?thesis using assms(1) r(1) by (auto simp: crl_inv_but_def)
qed

lemma crl_replace_core:
  "cc_spoolDir (crl_replace W c k e) = cc_spoolDir c" "cc_maxBytes (crl_replace W c k e) = cc_maxBytes c"
  "cc_entries (crl_replace W c k e) = kv_put k e (cc_entries c)"
  "cc_total (crl_replace W c k e) =
     cc_total c - (case map_of (cc_entries c) k of None \<Rightarrow> 0 | Some old \<Rightarrow> cx_size old) + cx_size e"
  "cc_tick c \<le> cc_tick (crl_replace W c k e)"
  by (auto simp: crl_replace_def Let_def split: option.splits)

lemma crl_replace_files:
  assumes "\<And>old. map_of (cc_entries c) k = Some old \<Longrightarrow> cx_path old \<noteq> [] \<Longrightarrow> cx_path old \<noteq> cx_path e \<Longrightarrow>
    p \<noteq> cx_path old"
  shows "map_of (cc_files (crl_replace W c k e)) p = map_of (cc_files c) p"
  using assms by (auto simp: crl_replace_def Let_def os_Remove_def kv_simps split: option.splits)

lemma crl_replace_inv:
  assumes "crl_inv_but {k} K c" and "entry_ok K c k e"
  shows "crl_inv K (crl_replace W c k e)"
proof -
  let ?c = "crl_replace W c k e"
  have ok: "kv_ok (cc_entries c)" using assms(1) by (simp add: crl_inv_but_def)
  have old: "cx_path old \<in> {[], spool_path (cc_spoolDir c) k}" if "map_of (cc_entries c) k = Some old" for old
    using assms(1) map_of_SomeD [OF that] by (auto simp: crl_inv_but_def)
  have "entry_ok K ?c k' e'" if "(k', e') \<in> set (cc_entries c)" "k' \<noteq> k" for k' e'
  proof (rule entry_ok_frame)
    show "entry_ok K c k' e'" using assms(1) that by (auto simp: crl_inv_but_def)
  qed (use old that(2) in \<open>auto simp: crl_replace_core intro!: crl_replace_files\<close>)
  moreover have "entry_ok K ?c k e"
  proof (cases "cx_der e")
    case None
    then have "cx_path e = spool_path (cc_spoolDir c) k" using assms(2) by (simp add: entry_ok_def)
    with old show ?thesis
      by (intro entry_ok_frame [OF assms(2)]) (auto simp: crl_replace_core intro!: crl_replace_files)
  next
    case (Some der)
    with assms(2) show ?thesis by (simp add: entry_ok_def crl_body_def)
  qed
  moreover have "0 \<le> cx_size e" using assms(2) by (simp add: entry_ok_def)
  ultimately have "\<forall>(k', e') \<in> set (kv_put k e (cc_entries c)). 0 \<le> cx_size e' \<and> entry_ok K ?c k' e' \<and>
      cx_path e' \<in> {[], spool_path (cc_spoolDir c) k'}"
    using assms(1) entry_ok_path [OF assms(2)]
    by (auto simp: kv_put_mem [OF ok] crl_inv_but_def split: if_splits)
  then show ?thesis
    using assms(1) entries_size_put [OF ok, of k e] kv_ok_put [OF ok]
    by (simp add: crl_inv_but_def crl_replace_core)
qed

subsection \<open>Eviction\<close>

lemma victim_scan_from:
  "victim_scan keep es acc = Some (v, t) \<Longrightarrow>
     (acc = Some (v, t) \<or> (\<exists>e. (v, e) \<in> set es \<and> v \<noteq> keep \<and> t = cx_lastUsed e)) \<and>
     (\<forall>t'. (\<exists>v'. acc = Some (v', t')) \<longrightarrow> t \<le> t') \<and>
     (\<forall>(k, e) \<in> set es. k \<noteq> keep \<longrightarrow> t \<le> cx_lastUsed e)"
proof (induction keep es acc rule: victim_scan.induct)
  case (2 keep k e es acc)
  show ?case
  proof (cases "k = keep")
    case True
    with 2 show ?thesis by auto
  next
    case False
    note key = this
    show ?thesis
    proof (cases acc)
      case None
      with key "2.prems" have "victim_scan keep es (Some (k, cx_lastUsed e)) = Some (v, t)" by simp
      from "2.IH"(2) [OF key None this] None key show ?thesis by auto
    next
      case (Some a)
      obtain v' t' where a: "a = (v', t')" by (cases a)
      show ?thesis
      proof (cases "cx_lastUsed e < t'")
        case True
        with key Some a "2.prems" have "victim_scan keep es (Some (k, cx_lastUsed e)) = Some (v, t)" by simp
        from "2.IH"(3) [OF key Some a [symmetric] True this] Some a key True show ?thesis by auto
      next
        case False
        with key Some a "2.prems" have "victim_scan keep es acc = Some (v, t)" by simp
        note ih = "2.IH"(4) [OF key Some a [symmetric] False this]
        then have "t \<le> t'" using Some a by blast
        with False have "t \<le> cx_lastUsed e" by simp
        with ih show ?thesis by auto
      qed
    qed
  qed
qed simp

text \<open>The victim is the least recently used entry other than the one to keep.\<close>

lemma victim_scan_least:
  assumes "victim_scan keep es None = Some (v, t)"
  shows "\<exists>e. (v, e) \<in> set es \<and> v \<noteq> keep \<and> (\<forall>(k, e') \<in> set es. k \<noteq> keep \<longrightarrow> cx_lastUsed e \<le> cx_lastUsed e')"
  using victim_scan_from [OF assms] by auto

lemma victim_scan_None: "victim_scan keep es None = None \<Longrightarrow> fst ` set es \<subseteq> {keep}"
proof -
  have some: "victim_scan keep es (Some a) \<noteq> None" for es a
    by (induction keep es "Some a" arbitrary: a rule: victim_scan.induct) auto
  show "victim_scan keep es None = None \<Longrightarrow> fst ` set es \<subseteq> {keep}"
  proof (induction es)
    case (Cons a es)
    then show ?case by (cases a) (auto simp: some split: if_splits)
  qed simp
qed

lemma crl_drop_inv:
  assumes "crl_inv K c" and "map_of (cc_entries c) v = Some e"
  shows "crl_inv K (crl_drop W v e c)"
proof -
  have ok: "kv_ok (cc_entries c)" using assms(1) by (simp add: crl_inv_but_def)
  have path: "cx_path e \<in> {[], spool_path (cc_spoolDir c) v}"
    using assms(1) map_of_SomeD [OF assms(2)] by (auto simp: crl_inv_but_def)
  have "entry_ok K (crl_drop W v e c) k' e'" if "(k', e') \<in> set (cc_entries c)" "k' \<noteq> v" for k' e'
  proof (rule entry_ok_frame)
    show "entry_ok K c k' e'" using assms(1) that(1) by (auto simp: crl_inv_but_def)
  qed (use path that(2) in \<open>auto simp: crl_drop_def os_Remove_def kv_simps Let_def\<close>)
  then show ?thesis
    using assms(1) entries_size_del [OF ok assms(2)] kv_ok_del [OF ok]
    by (auto simp: crl_inv_but_def set_kv_del)
qed

text \<open>
  The loop, case by case: it stops because the cache fits or nothing else is left, or it drops the
  victim and goes on.
\<close>

lemma crl_evict_cases:
  obtains (stop) "crl_evictLocked W keep c = c" "cc_total c \<le> cc_maxBytes c \<or> fst ` set (cc_entries c) \<subseteq> {keep} \<or>
      length (cc_entries c) \<le> 1"
  | (drop) v e where "crl_evictLocked W keep c = crl_evictLocked W keep (crl_drop W v e c)"
      "map_of (cc_entries c) v = Some e" "v \<noteq> keep" "cc_total c > cc_maxBytes c"
proof (cases "cc_total c > cc_maxBytes c \<and> length (cc_entries c) > 1")
  case True
  note run = this
  show ?thesis
  proof (cases "victim_scan keep (cc_entries c) None")
    case None
    with run have "crl_evictLocked W keep c = c" by (subst crl_evictLocked.simps) simp
    with victim_scan_None [OF None] show ?thesis by (intro stop) auto
  next
    case (Some a)
    obtain v t where a: "a = (v, t)" by (cases a)
    with victim_scan_least Some obtain e where "(v, e) \<in> set (cc_entries c)" and ne: "v \<noteq> keep" by blast
    then obtain e' where e': "map_of (cc_entries c) v = Some e'" by (cases "map_of (cc_entries c) v") (force simp: map_of_eq_None_iff)+
    have "crl_evictLocked W keep c = crl_evictLocked W keep (crl_drop W v e' c)"
      using run Some a e' by (subst crl_evictLocked.simps) simp
    with e' ne run show ?thesis by (intro drop) auto
  qed
next
  case False
  then have "crl_evictLocked W keep c = c" by (subst crl_evictLocked.simps) (simp only: if_False)
  with False show ?thesis by (intro stop) auto
qed

lemma kv_ok_one: "kv_ok m \<Longrightarrow> fst ` set m \<subseteq> {k} \<Longrightarrow> length m \<le> 1"
  using card_mono [of "{k}" "fst ` set m"] distinct_card [of "map fst m"] by (simp add: kv_ok_def)

lemma crl_drop_shrinks: "map_of (cc_entries c) v = Some e \<Longrightarrow> length (cc_entries (crl_drop W v e c)) < length (cc_entries c)"
  by (auto intro!: kv_length_del_less intro: rev_image_eqI dest!: map_of_SomeD)

lemma crl_drop_tick: "cc_tick c \<le> cc_tick (crl_drop W v e c)"
  by (simp add: crl_drop_def Let_def)

lemma crl_evict_props:
  assumes "crl_inv K c"
  shows "crl_inv K (crl_evictLocked W keep c) \<and> crl_fits (crl_evictLocked W keep c) \<and>
    cc_maxBytes (crl_evictLocked W keep c) = cc_maxBytes c \<and> cc_spoolDir (crl_evictLocked W keep c) = cc_spoolDir c \<and>
    cc_tick c \<le> cc_tick (crl_evictLocked W keep c) \<and>
    map_of (cc_entries (crl_evictLocked W keep c)) keep = map_of (cc_entries c) keep"
  using assms
proof (induction "length (cc_entries c)" arbitrary: c rule: less_induct)
  case less
  show ?case
  proof (cases rule: crl_evict_cases [of W keep c])
    case stop
    then have "crl_fits c" using less.prems kv_ok_one [of "cc_entries c" keep] by (auto simp: crl_fits_def crl_inv_but_def)
    with stop(1) less.prems show ?thesis by simp
  next
    case (drop v e)
    from less.hyps [OF crl_drop_shrinks [OF drop(2)] crl_drop_inv [OF less.prems drop(2), of W]] drop(3)
      crl_drop_tick [of c W v e]
    show ?thesis unfolding drop(1) by (auto simp: kv_simps)
  qed
qed

subsection \<open>The disk\<close>

text \<open>Every file of the spool is the body of an entry.\<close>

definition crl_disk :: "crl_cache \<Rightarrow> bool" where
  "crl_disk c \<longleftrightarrow> kv_ok (cc_files c) \<and> (\<forall>p b. map_of (cc_files c) p = Some b \<longrightarrow>
     p \<noteq> [] \<and> (\<exists>k e. (k, e) \<in> set (cc_entries c) \<and> cx_path e = p))"

definition disk_bytes :: "crl_cache \<Rightarrow> int" where
  "disk_bytes c = (\<Sum>p \<in> fst ` set (cc_files c). int (length (the (map_of (cc_files c) p))))"

lemma crl_disk_owner:
  assumes "crl_disk c" and "map_of (cc_files c) p = Some b"
  obtains k e where "p \<noteq> []" "(k, e) \<in> set (cc_entries c)" "cx_path e = p"
  using assms by (auto simp: crl_disk_def)

lemma crl_drop_disk:
  assumes "crl_inv K c" and "crl_disk c" and "map_of (cc_entries c) v = Some e" and "\<And>n p. wd_remove W n p"
  shows "crl_disk (crl_drop W v e c)"
proof -
  have ok: "kv_ok (cc_entries c)" using assms(1) by (simp add: crl_inv_but_def)
  have files: "cc_files (crl_drop W v e c) = (if cx_path e \<noteq> [] then kv_del (cx_path e) (cc_files c) else cc_files c)"
    using assms(4) by (simp add: crl_drop_def os_Remove_def Let_def)
  have "p \<noteq> [] \<and> (\<exists>k e'. (k, e') \<in> set (kv_del v (cc_entries c)) \<and> cx_path e' = p)"
    if p: "map_of (cc_files (crl_drop W v e c)) p = Some b" for p b
  proof -
    from p have pb: "map_of (cc_files c) p = Some b" by (auto simp: files kv_simps split: if_splits)
    from crl_disk_owner [OF assms(2) pb] obtain k e' where
      o: "p \<noteq> []" "(k, e') \<in> set (cc_entries c)" "cx_path e' = p" .
    from p o(1) have "p \<noteq> cx_path e" by (auto simp: files kv_simps split: if_splits)
    with o assms(3) kv_mem_get [OF ok, of v e'] have "k \<noteq> v" by auto
    with o show ?thesis by (auto simp: set_kv_del)
  qed
  moreover have "kv_ok (cc_files (crl_drop W v e c))" using assms(2) by (simp add: files crl_disk_def wf_intros)
  ultimately show ?thesis by (simp add: crl_disk_def)
qed

lemma crl_evict_disk:
  assumes "crl_inv K c" and "crl_disk c" and "\<And>n p. wd_remove W n p"
  shows "crl_disk (crl_evictLocked W keep c)"
  using assms(1,2)
proof (induction "length (cc_entries c)" arbitrary: c rule: less_induct)
  case less
  show ?case
  proof (cases rule: crl_evict_cases [of W keep c])
    case (drop v e)
    from less.hyps [OF crl_drop_shrinks [OF drop(2)] crl_drop_inv [OF less.prems(1) drop(2)]
        crl_drop_disk [OF less.prems drop(2) assms(3)]]
    show ?thesis unfolding drop(1) .
  qed (use less.prems in simp)
qed

lemma crl_store_disk:
  assumes "crl_inv K c" and "crl_disk c" and "\<And>n p. wd_remove W n p" and "crl_store K W c k der = (e, c')"
  shows "crl_disk c'"
proof -
  obtain c1 where per: "crl_persist K W c k der = (e, c1)" and c': "c' = crl_evictLocked W k (crl_replace W c1 k e)"
    using assms(4) by (auto simp: crl_store_def split: prod.splits)
  note r = crl_persist_result [OF per]
  have ok: "kv_ok (cc_entries c)" using assms(1) by (simp add: crl_inv_but_def)
  let ?c = "crl_replace W c1 k e"
  have kept: "map_of (cc_files c) p = Some b \<or> p = cx_path e \<and> p \<noteq> []" if "map_of (cc_files c1) p = Some b" for p b
    using r(6) that by (auto simp: kv_simps split: if_splits)
  have ok1: "kv_ok (cc_files c1)" using r(6) assms(2) by (auto simp: crl_disk_def wf_intros)
  have files: "cc_files ?c = (case map_of (cc_entries c) k of
      Some old \<Rightarrow> if cx_path old \<noteq> [] \<and> cx_path old \<noteq> cx_path e then kv_del (cx_path old) (cc_files c1) else cc_files c1
    | None \<Rightarrow> cc_files c1)"
    using r(1) assms(3) by (auto simp: crl_replace_def os_Remove_def Let_def split: option.splits)
  have "p \<noteq> [] \<and> (\<exists>k' e'. (k', e') \<in> set (kv_put k e (cc_entries c)) \<and> cx_path e' = p)"
    if p: "map_of (cc_files ?c) p = Some b" for p b
  proof (cases "p = cx_path e \<and> p \<noteq> []")
    case True
    then show ?thesis using kv_put_mem [OF ok, of k e k e] by auto
  next
    case False
    from p have "map_of (cc_files c1) p = Some b" by (auto simp: files kv_simps split: option.splits if_splits)
    with kept False have "map_of (cc_files c) p = Some b" by blast
    from crl_disk_owner [OF assms(2) this] obtain k' e' where
      o: "p \<noteq> []" "(k', e') \<in> set (cc_entries c)" "cx_path e' = p" .
    have "k' \<noteq> k"
    proof
      assume "k' = k"
      with o(2) kv_mem_get [OF ok] have "map_of (cc_entries c) k = Some e'" by auto
      with p o(1,3) False show False by (auto simp: files kv_simps split: if_splits)
    qed
    with o kv_put_mem [OF ok, of k' e' k e] show ?thesis by auto
  qed
  moreover have "kv_ok (cc_files ?c)" using ok1 by (simp add: files wf_intros split: option.splits)
  ultimately have "crl_disk ?c" using r(1) by (simp add: crl_disk_def crl_replace_core)
  moreover have "crl_inv K ?c" by (rule crl_replace_inv [OF crl_persist_inv [OF assms(1) per] r(3)])
  ultimately show ?thesis unfolding c' using assms(3) by (intro crl_evict_disk)
qed

text \<open>So the bytes on disk are among those accounted for.\<close>

lemma disk_bytes_le:
  assumes "crl_inv K c" and "crl_disk c"
  shows "disk_bytes c \<le> cc_total c"
proof -
  let ?es = "set (cc_entries c)"
  have ok: "kv_ok (cc_entries c)" using assms(1) by (simp add: crl_inv_but_def)
  then have "distinct (cc_entries c)" by (simp add: kv_ok_def distinct_map)
  then have total: "cc_total c = (\<Sum>x \<in> ?es. cx_size (snd x))"
    using assms(1) by (simp add: crl_inv_but_def entries_size_def sum_list_distinct_conv_sum_set)
  have "\<exists>x \<in> ?es. cx_path (snd x) = p \<and> int (length (the (map_of (cc_files c) p))) \<le> cx_size (snd x)"
    if p: "p \<in> fst ` set (cc_files c)" for p
  proof -
    obtain b where b: "map_of (cc_files c) p = Some b"
      using p by (cases "map_of (cc_files c) p") (auto simp: map_of_eq_None_iff image_iff)
    from crl_disk_owner [OF assms(2) b] obtain k e where o: "p \<noteq> []" "(k, e) \<in> ?es" "cx_path e = p" .
    have e: "entry_ok K c k e" using assms(1) o(2) by (auto simp: crl_inv_but_def)
    with o(1,3) have "cx_der e = None" by (auto simp: entry_ok_def)
    with o b have "crl_body c e = Some b" by (simp add: crl_body_def)
    with e o b show ?thesis by (intro bexI [of _ "(k, e)"]) (auto simp: entry_ok_def)
  qed
  moreover have "\<forall>x \<in> ?es. 0 \<le> cx_size (snd x)" using assms(1) by (auto simp: crl_inv_but_def)
  ultimately show ?thesis
    unfolding disk_bytes_def total
    by (intro sum_le_included [where i = "\<lambda>x. cx_path (snd x)"]) auto
qed

section \<open>One lookup\<close>

text \<open>
  The three ways a lookup goes: served from an entry whose list has not run out, not refreshed
  (the last copy, if there is one, or nothing), or downloaded and stored.
\<close>

lemma crl_get_cases:
  assumes "crl_get K W c url = (r, c')"
  obtains (hit) b e c1 where "r = Some (b, e, True)" "crl_touch W c (keyFor K url) = (Some e, c1)"
      "crl_core c' = crl_core c1" "crl_body c1 e = Some b" "wd_now W (cc_tick c1) < cx_nextUpdate e"
      "cc_tick c1 < cc_tick c'"
  | (stale) cached c1 where "r = staleFallback c' cached" "crl_touch W c (keyFor K url) = (cached, c1)"
      "crl_core c' = crl_core c1" "cc_tick c1 \<le> cc_tick c'"
  | (fetched) cached c1 c2 body der e where "r = Some (der, e, True)" "crl_touch W c (keyFor K url) = (cached, c1)"
      "crl_core c2 = crl_core c1" "wd_fetch W (cc_tick c2 - 1) url = Some body" "cc_tick c1 < cc_tick c2"
      "normalizeCRL K body = Some der" "crl_store K W c2 (keyFor K url) der = (e, c')"
proof -
  obtain cached c1 where touch: "crl_touch W c (keyFor K url) = (cached, c1)" by fastforce
  obtain served c2 where serve: "crl_serve W c1 cached = (served, c2)" by fastforce
  note core = crl_serve_core [OF serve]
  show ?thesis
  proof (cases served)
    case (Some hit)
    obtain b e f where h: "hit = (b, e, f)" by (cases hit)
    with Some serve have s: "crl_serve W c1 cached = (Some (b, e, f), c2)" by simp
    with touch assms have "r = Some (b, e, f)" "c' = c2" by (simp_all add: crl_get_def Let_def)
    with crl_serve_hit [OF s] touch core show ?thesis by (intro hit) auto
  next
    case None
    let ?c = "c2\<lparr>cc_misses := cc_misses c2 + 1, cc_tick := Suc (cc_tick c2)\<rparr>"
    have run: "crl_get K W c url = (case wd_fetch W (cc_tick c2) url of
        None \<Rightarrow> (staleFallback ?c cached, ?c)
      | Some body \<Rightarrow> (case normalizeCRL K body of
          None \<Rightarrow> (staleFallback ?c cached, ?c)
        | Some der \<Rightarrow> (case crl_store K W ?c (keyFor K url) der of (e, c3) \<Rightarrow> (Some (der, e, True), c3))))"
      using touch serve None by (simp add: crl_get_def crl_fetch_def Let_def split: option.splits)
    have c: "crl_core ?c = crl_core c1" "cc_tick c1 < cc_tick ?c" using core by simp_all
    show ?thesis
    proof (cases "wd_fetch W (cc_tick c2) url")
      case None
      with run assms have "r = staleFallback ?c cached" "c' = ?c" by simp_all
      with touch c show ?thesis by (intro stale) auto
    next
      case (Some body)
      show ?thesis
      proof (cases "normalizeCRL K body")
        case None
        with run Some assms have "r = staleFallback ?c cached" "c' = ?c" by simp_all
        with touch c show ?thesis by (intro stale) auto
      next
        case (Some der)
        obtain e c3 where "crl_store K W ?c (keyFor K url) der = (e, c3)" by fastforce
        with run Some \<open>wd_fetch W (cc_tick c2) url = Some body\<close> assms touch c show ?thesis
          by (intro fetched [of der e cached c1 ?c body]) simp_all
      qed
    qed
  qed
qed

lemma crl_store_props:
  assumes "crl_inv K c" and "crl_store K W c k der = (e, c')"
  shows "crl_inv K c' \<and> crl_fits c' \<and> cc_tick c < cc_tick c'" and "cx_meta e = parseMeta K der"
    and "map_of (cc_entries c') k = Some e" and "cc_maxBytes c' = cc_maxBytes c \<and> cc_spoolDir c' = cc_spoolDir c"
proof -
  obtain c1 where per: "crl_persist K W c k der = (e, c1)" and c': "c' = crl_evictLocked W k (crl_replace W c1 k e)"
    using assms(2) by (auto simp: crl_store_def split: prod.splits)
  note r = crl_persist_result [OF per]
  have "crl_inv K (crl_replace W c1 k e)" by (rule crl_replace_inv [OF crl_persist_inv [OF assms(1) per] r(3)])
  note ev = crl_evict_props [OF this, of W k]
  show "crl_inv K c' \<and> crl_fits c' \<and> cc_tick c < cc_tick c'"
    using ev r(1) crl_replace_core(5) [of c1 W k e] by (auto simp: c')
  show "cx_meta e = parseMeta K der" by (rule r(5))
  show "map_of (cc_entries c') k = Some e" "cc_maxBytes c' = cc_maxBytes c \<and> cc_spoolDir c' = cc_spoolDir c"
    using ev r(1) by (simp_all add: c' crl_replace_core)
qed

text \<open>What one step of the cache keeps.\<close>

definition crl_step_ok :: "crl_lib \<Rightarrow> crl_world \<Rightarrow> crl_cache \<Rightarrow> crl_cache \<Rightarrow> bool" where
  "crl_step_ok K W c c' \<longleftrightarrow> crl_inv K c' \<and> cc_tick c \<le> cc_tick c' \<and> (crl_fits c \<longrightarrow> crl_fits c') \<and>
     cc_maxBytes c' = cc_maxBytes c \<and> (crl_disk c \<and> (\<forall>n p. wd_remove W n p) \<longrightarrow> crl_disk c')"

lemma crl_step_refl: "crl_inv K c \<Longrightarrow> crl_step_ok K W c c"
  by (simp add: crl_step_ok_def)

lemma crl_step_inv: "crl_step_ok K W c c' \<Longrightarrow> crl_inv K c'"
  by (simp add: crl_step_ok_def)

lemma crl_step_trans: "crl_step_ok K W c c1 \<Longrightarrow> crl_step_ok K W c1 c2 \<Longrightarrow> crl_step_ok K W c c2"
  by (auto simp: crl_step_ok_def)

lemma crl_core_step:
  "crl_core c' = crl_core c \<Longrightarrow> crl_inv K c \<Longrightarrow> cc_tick c \<le> cc_tick c' \<Longrightarrow> crl_step_ok K W c c'"
  using crl_core_inv [of c' c "{}" K] by (auto simp: crl_step_ok_def crl_core_def crl_fits_def crl_disk_def)

lemma crl_touch_step:
  assumes "crl_inv K c" and "crl_touch W c k = (cached, c')"
  shows "crl_step_ok K W c c'"
proof (cases cached)
  case None
  with crl_touch_result(1) [OF assms(2)] crl_step_refl [OF assms(1)] show ?thesis by simp
next
  case (Some e)
  from crl_touch_result(3) [OF assms(2) Some] obtain e0 t where
    e0: "map_of (cc_entries c) k = Some e0" "e = e0\<lparr>cx_lastUsed := t\<rparr>" by blast
  have ok: "kv_ok (cc_entries c)" using assms(1) by (simp add: crl_inv_but_def)
  have c': "c' = c\<lparr>cc_tick := Suc (cc_tick c), cc_entries := kv_put k e (cc_entries c)\<rparr>"
    using crl_touch_result(1) [OF assms(2)] Some by simp
  have "crl_disk c'" if "crl_disk c"
  proof -
    have "\<exists>k' e'. (k', e') \<in> set (kv_put k e (cc_entries c)) \<and> cx_path e' = p"
      if o: "(k0, e1) \<in> set (cc_entries c)" "cx_path e1 = p" for p k0 e1
    proof (cases "k0 = k")
      case True
      with o kv_mem_get [OF ok] e0 have "cx_path e = p" by auto
      then show ?thesis using kv_put_mem [OF ok, of k e k e] by auto
    next
      case False
      with o kv_put_mem [OF ok, of k0 e1 k e] show ?thesis by auto
    qed
    with that show ?thesis unfolding crl_disk_def c' by simp blast
  qed
  moreover have "crl_fits c \<longrightarrow> crl_fits c'" using e0 ok by (simp add: c' crl_fits_def kv_length_put)
  ultimately show ?thesis using crl_touch_inv [OF assms] by (simp add: crl_step_ok_def c')
qed

lemma crl_store_step:
  assumes "crl_inv K c" and "crl_store K W c k der = (e, c')"
  shows "crl_step_ok K W c c'"
  using crl_store_props [OF assms] crl_store_disk [OF assms(1) _ _ assms(2)] by (auto simp: crl_step_ok_def)

text \<open>Why a list is reported fresh: it had not run out when looked at, or it was just downloaded.\<close>

definition crl_fresh :: "crl_lib \<Rightarrow> crl_world \<Rightarrow> nat \<Rightarrow> nat \<Rightarrow> string \<Rightarrow> bytes \<Rightarrow> bool" where
  "crl_fresh K W m n url b \<longleftrightarrow> (\<exists>t. m \<le> t \<and> t < n \<and>
     (wd_now W t < fst (parseMeta K b) \<or>
      (\<exists>body. wd_fetch W t url = Some body \<and> normalizeCRL K body = Some b)))"

lemma crl_get_step:
  assumes "crl_inv K c" and "crl_get K W c url = (r, c')"
  shows "crl_step_ok K W c c'"
  using assms(2)
proof (cases rule: crl_get_cases)
  case (hit b e c1)
  note touch = crl_touch_step [OF assms(1) hit(2)]
  then have "crl_inv K c1" by (simp add: crl_step_ok_def)
  from crl_core_step [OF hit(3) this] hit(6) show ?thesis by (intro crl_step_trans [OF touch]) simp
next
  case (stale cached c1)
  note touch = crl_touch_step [OF assms(1) stale(2)]
  then have "crl_inv K c1" by (simp add: crl_step_ok_def)
  from crl_core_step [OF stale(3) this stale(4)] show ?thesis by (rule crl_step_trans [OF touch])
next
  case (fetched cached c1 c2 body der e)
  note touch = crl_touch_step [OF assms(1) fetched(2)]
  then have "crl_inv K c1" by (simp add: crl_step_ok_def)
  from crl_core_step [OF fetched(3) this] fetched(5) have mid: "crl_step_ok K W c1 c2" by simp
  then have "crl_inv K c2" by (simp add: crl_step_ok_def)
  from crl_store_step [OF this fetched(7)] show ?thesis by (rule crl_step_trans [OF crl_step_trans [OF touch mid]])
qed

lemma crl_get_sound:
  assumes "crl_inv K c" and "crl_get K W c url = (Some (b, e, f), c')"
  shows "cx_meta e = parseMeta K b \<and> (f \<longrightarrow> crl_fresh K W (cc_tick c) (cc_tick c') url b)"
proof -
  have touched: "entry_ok K c1 k e1 \<and> cc_tick c \<le> cc_tick c1" if t: "crl_touch W c k = (Some e1, c1)" for k e1 c1
  proof -
    from crl_touch_step [OF assms(1) t] have "crl_inv K c1" "cc_tick c \<le> cc_tick c1" by (simp_all add: crl_step_ok_def)
    moreover have "map_of (cc_entries c1) k = Some e1" using crl_touch_result(1) [OF t] by simp
    ultimately show ?thesis using crl_inv_entry [of "{}" K c1 k e1] by simp
  qed
  from assms(2) show ?thesis
  proof (cases rule: crl_get_cases)
    case (hit b' e' c1)
    with touched [OF hit(2)] have m: "cx_meta e = parseMeta K b" by (auto simp: entry_ok_def)
    then have "fst (parseMeta K b) = cx_nextUpdate e" by (metis cx_meta_def fst_conv)
    with hit touched [OF hit(2)] m show ?thesis by (auto simp: crl_fresh_def)
  next
    case (stale cached c1)
    then obtain e1 where e1: "cached = Some e1" "crl_body c' e1 = Some b" "e = e1" "\<not> f"
      by (auto simp: staleFallback_def split: option.splits)
    with touched stale(2) have "entry_ok K c1 (keyFor K url) e" by auto
    with e1 crl_core_body [OF stale(3), of e] show ?thesis by (auto simp: entry_ok_def)
  next
    case (fetched cached c1 c2 body der e')
    have step: "crl_step_ok K W c c1" by (rule crl_touch_step [OF assms(1) fetched(2)])
    then have "crl_inv K c2" using crl_core_inv [OF fetched(3)] by (simp add: crl_step_ok_def)
    note st = crl_store_props [OF this fetched(7)]
    have "crl_fresh K W (cc_tick c) (cc_tick c') url der"
      unfolding crl_fresh_def using step st(1) fetched(4,5,6)
      by (intro exI [of _ "cc_tick c2 - 1"]) (auto simp: crl_step_ok_def)
    with st(2) fetched(1) show ?thesis by simp
  qed
qed

section \<open>The distribution points in turn\<close>

lemma crl_first_step: "crl_inv K c \<Longrightarrow> crl_first K W c urls = (r, c') \<Longrightarrow> crl_step_ok K W c c'"
proof (induction urls arbitrary: c)
  case Nil
  then show ?case using crl_step_refl by simp
next
  case (Cons url urls)
  obtain r1 c1 where g: "crl_get K W c url = (r1, c1)" by fastforce
  note step = crl_get_step [OF Cons.prems(1) g]
  show ?case
  proof (cases r1)
    case None
    with g Cons.prems(2) have "crl_first K W c1 urls = (r, c')" by simp
    from Cons.IH [OF crl_step_inv [OF step] this] show ?thesis by (rule crl_step_trans [OF step])
  next
    case (Some h)
    with g Cons.prems(2) step show ?thesis by simp
  qed
qed

lemma crl_fresh_mono: "crl_fresh K W m n url b \<Longrightarrow> m' \<le> m \<Longrightarrow> n \<le> n' \<Longrightarrow> crl_fresh K W m' n' url b"
  unfolding crl_fresh_def by (meson le_trans less_le_trans)

lemma crl_first_sound:
  "crl_inv K c \<Longrightarrow> crl_first K W c urls = (Some (b, e, f), c') \<Longrightarrow> cx_meta e = parseMeta K b \<and>
     (f \<longrightarrow> (\<exists>url \<in> set urls. crl_fresh K W (cc_tick c) (cc_tick c') url b))"
proof (induction urls arbitrary: c)
  case (Cons url urls)
  obtain r1 c1 where g: "crl_get K W c url = (r1, c1)" by fastforce
  note step = crl_get_step [OF Cons.prems(1) g]
  show ?case
  proof (cases r1)
    case None
    with g Cons.prems(2) have rest: "crl_first K W c1 urls = (Some (b, e, f), c')" by simp
    from step have "crl_inv K c1" "cc_tick c \<le> cc_tick c1" by (simp_all add: crl_step_ok_def)
    with Cons.IH [OF this(1) rest] show ?thesis using crl_fresh_mono by (metis list.set_intros(2) order_refl)
  next
    case (Some h)
    with g Cons.prems(2) have "crl_get K W c url = (Some (b, e, f), c')" by simp
    from crl_get_sound [OF Cons.prems(1) this] show ?thesis by auto
  qed
qed simp

section \<open>Construction and lookups\<close>

lemma HasSuffix_split: "HasSuffix s p \<Longrightarrow> s = take (length s - length p) s @ p"
  by (simp add: HasSuffix_def) (metis append_take_drop_id)

text \<open>The key of a spool file, and what adopting it does.\<close>

lemma adopt_cases:
  obtains (skip) "adopt K W c (name, isdir) = c"
  | (removed) p where "adopt K W c (name, isdir) = os_Remove W p c" "p = cc_spoolDir c @ ''/'' @ name"
  | (adopted) key der t e where "name = key @ ''.crl''" "map_of (cc_files c) (spool_path (cc_spoolDir c) key) = Some der"
      "e = (crl_new_entry K der t)\<lparr>cx_path := spool_path (cc_spoolDir c) key\<rparr>"
      "adopt K W c (name, isdir) = c\<lparr>cc_tick := Suc (cc_tick c), cc_entries := kv_put key e (cc_entries c),
         cc_total := cc_total c + cx_size e\<rparr>"
proof (cases "isdir \<or> \<not> HasSuffix name ''.crl''")
  case True
  then show ?thesis by (intro skip) (simp add: adopt_def)
next
  case False
  then obtain key where key: "name = key @ ''.crl''" "key = take (length name - 4) name"
    using HasSuffix_split [of name "''.crl''"] by (auto simp: numeral_eq_Suc)
  let ?p = "cc_spoolDir c @ ''/'' @ name"
  have p: "?p = spool_path (cc_spoolDir c) key" by (simp add: key(1) spool_path_def)
  show ?thesis
  proof (cases "map_of (cc_files c) ?p")
    case None
    with False show ?thesis by (intro skip) (simp add: adopt_def Let_def)
  next
    case (Some der)
    show ?thesis
    proof (cases "normalizeCRL K der = None")
      case True
      with False Some show ?thesis by (intro removed) (simp_all add: adopt_def Let_def)
    next
      case nn: False
      show ?thesis
      proof (rule adopted [OF key(1)])
        show "map_of (cc_files c) (spool_path (cc_spoolDir c) key) = Some der" using Some p by simp
        show "(crl_new_entry K der (wd_now W (cc_tick c)))\<lparr>cx_path := spool_path (cc_spoolDir c) key\<rparr> =
          (crl_new_entry K der (wd_now W (cc_tick c)))\<lparr>cx_path := spool_path (cc_spoolDir c) key\<rparr>" ..
        show "adopt K W c (name, isdir) = c\<lparr>cc_tick := Suc (cc_tick c),
           cc_entries := kv_put key ((crl_new_entry K der (wd_now W (cc_tick c)))
             \<lparr>cx_path := spool_path (cc_spoolDir c) key\<rparr>) (cc_entries c),
           cc_total := cc_total c + cx_size ((crl_new_entry K der (wd_now W (cc_tick c)))
             \<lparr>cx_path := spool_path (cc_spoolDir c) key\<rparr>)\<rparr>"
          using False Some nn key(2) p by (auto simp: adopt_def crl_now_def Let_def)
      qed
    qed
  qed
qed

text \<open>Directory listings have no name twice, so an adopted key is new.\<close>

definition keys_from :: "(string \<times> bool) list \<Rightarrow> crl_cache \<Rightarrow> bool" where
  "keys_from es c \<longleftrightarrow> (\<forall>k \<in> fst ` set (cc_entries c). k @ ''.crl'' \<in> fst ` set es)"

lemma adopt_inv:
  assumes "crl_inv K c" and "keys_from seen c" and "fst de \<notin> fst ` set seen"
  shows "crl_inv K (adopt K W c de) \<and> keys_from (seen @ [de]) (adopt K W c de)"
proof -
  obtain name isdir where de: "de = (name, isdir)" by (cases de)
  have ok: "kv_ok (cc_entries c)" using assms(1) by (simp add: crl_inv_but_def)
  have kept: "keys_from (seen @ [de]) c" using assms(2) by (auto simp: keys_from_def)
  show ?thesis
  proof (cases rule: adopt_cases [of K W c name isdir])
    case skip
    with assms(1) kept de show ?thesis by simp
  next
    case (removed p)
    have "entry_ok K (os_Remove W p c) k e" if "(k, e) \<in> set (cc_entries c)" for k e
    proof (rule entry_ok_frame)
      show "entry_ok K c k e" using assms(1) that by (auto simp: crl_inv_but_def)
      have "k @ ''.crl'' \<in> fst ` set seen" using assms(2) that by (force simp: keys_from_def)
      with assms(3) de have "spool_path (cc_spoolDir c) k \<noteq> p" by (auto simp: spool_path_def removed(2))
      then show "map_of (cc_files (os_Remove W p c)) (spool_path (cc_spoolDir c) k) =
        map_of (cc_files c) (spool_path (cc_spoolDir c) k)" by (simp add: os_Remove_def kv_simps)
    qed simp
    with assms(1) kept de removed(1) show ?thesis by (auto simp: crl_inv_but_def keys_from_def)
  next
    case (adopted key der t e)
    have new: "map_of (cc_entries c) key = None"
      using assms(2,3) de adopted(1) by (auto simp: keys_from_def map_of_eq_None_iff)
    have "entry_ok K c key e" using adopted(2,3) by (simp add: entry_ok_def crl_body_def)
    then have "\<forall>(k', e') \<in> set (kv_put key e (cc_entries c)). 0 \<le> cx_size e' \<and> entry_ok K c k' e' \<and>
        cx_path e' \<in> {[], spool_path (cc_spoolDir c) k'}"
      using assms(1) adopted(3) by (auto simp: kv_put_mem [OF ok] crl_inv_but_def split: if_splits)
    moreover have "entries_size (kv_put key e (cc_entries c)) = entries_size (cc_entries c) + cx_size e"
      using entries_size_put [OF ok, of key e] new by simp
    ultimately have "crl_inv K (adopt K W c de)"
      using assms(1) kv_ok_put [OF ok] by (simp add: de adopted(4) crl_inv_but_def)
    moreover have "keys_from (seen @ [de]) (adopt K W c de)"
      unfolding de adopted(4) using kept adopted(1) de by (simp add: keys_from_def)
    ultimately show ?thesis by blast
  qed
qed

lemma adopt_all_inv:
  "crl_inv K c \<Longrightarrow> keys_from seen c \<Longrightarrow> distinct (map fst (seen @ es)) \<Longrightarrow> crl_inv K (foldl (adopt K W) c es)"
proof (induction es arbitrary: c seen)
  case (Cons de es)
  from Cons.prems(3) have "fst de \<notin> fst ` set seen" by auto
  from adopt_inv [OF Cons.prems(1,2) this, of W] Cons.IH [of "adopt K W c de" "seen @ [de]"] Cons.prems(3)
  show ?case by simp
qed simp

lemma crl_New_inv:
  assumes "\<And>es. ents = Some es \<Longrightarrow> distinct (map fst es)"
  shows "crl_inv K (crl_New K W cfg mkdir ents files)"
proof -
  let ?c = "\<lambda>d. \<lparr>cc_timeout = (if cf_Timeout cfg \<le> 0 then 10 * Second else cf_Timeout cfg), cc_spoolDir = d,
      cc_maxBytes = (if cf_MaxBytes cfg \<le> 0 then defaultMaxBytes else cf_MaxBytes cfg), cc_entries = [],
      cc_total = 0, cc_hits = 0, cc_misses = 0, cc_files = files, cc_tick = 0\<rparr>"
  have base: "crl_inv K (?c d)" for d by (simp add: crl_inv_but_def entries_size_def defaultMaxBytes_def)
  have "keys_from [] (?c d)" for d by (simp add: keys_from_def)
  from adopt_all_inv [OF base this] assms have warm: "crl_inv K (warmStart K W (?c d) ents)" for d
    using base by (cases ents) (auto simp: warmStart_def)
  show ?thesis
    using base [of "[]"] base [of "cf_SpoolDir cfg"] warm [of "cf_SpoolDir cfg"]
    by (simp add: crl_New_def Let_def)
qed

text \<open>The states a manager goes through: it is built, and then asked for one certificate after another.\<close>

inductive crl_reachable :: "crl_lib \<Rightarrow> crl_world \<Rightarrow> crl_cache \<Rightarrow> bool" for K W where
  built: "(\<And>es. ents = Some es \<Longrightarrow> distinct (map fst es)) \<Longrightarrow> crl_reachable K W (crl_New K W cfg mkdir ents files)"
| asked: "crl_reachable K W c \<Longrightarrow> crl_reachable K W (snd (CRLFor K W c certDER))"

lemma CRLFor_step:
  assumes "crl_inv K c" and "CRLFor K W c certDER = (r, c')"
  shows "crl_step_ok K W c c'"
proof (cases "kl_ParseCertificate K certDER")
  case None
  with assms crl_step_refl show ?thesis by (simp add: CRLFor_def)
next
  case (Some cert)
  obtain r1 c1 where f: "crl_first K W c (xc_CRLDistributionPoints cert) = (r1, c1)" by fastforce
  obtain r2 c2 where g: "crl_first K W c1 (freshestCRLURLs K cert) = (r2, c2)" by fastforce
  note one = crl_first_step [OF assms(1) f]
  note two = crl_step_trans [OF one crl_first_step [OF crl_step_inv [OF one] g]]
  have "c' = c1 \<or> c' = c2"
    using assms(2) Some f g by (auto simp: CRLFor_def Let_def split: option.splits prod.splits if_splits)
  with one two show ?thesis by blast
qed

lemma crl_reachable_inv: "crl_reachable K W c \<Longrightarrow> crl_inv K c"
proof (induction rule: crl_reachable.induct)
  case (built ents cfg mkdir files)
  then show ?case by (rule crl_New_inv)
next
  case (asked c certDER)
  obtain r c' where "CRLFor K W c certDER = (r, c')" by fastforce
  with crl_step_inv [OF CRLFor_step [OF asked.IH this]] show ?case by simp
qed

lemma CRLFor_reliable:
  assumes "CRLFor K W c certDER = (Some res, c')" and "cr_Reliable res"
  obtains cert base c1 where "kl_ParseCertificate K certDER = Some cert"
      "crl_first K W c (xc_CRLDistributionPoints cert) = (Some (cr_Base res, base, True), c1)"
      "freshestCRLURLs K cert = [] \<and> c' = c1 \<and> cr_Delta res = [] \<or>
       (\<exists>delta. freshestCRLURLs K cert \<noteq> [] \<and>
          crl_first K W c1 (freshestCRLURLs K cert) = (Some (cr_Delta res, delta, True), c') \<and> consistent base delta)"
proof -
  obtain cert where cert: "kl_ParseCertificate K certDER = Some cert"
    using assms(1) by (cases "kl_ParseCertificate K certDER") (auto simp: CRLFor_def)
  obtain r1 c1 where f: "crl_first K W c (xc_CRLDistributionPoints cert) = (r1, c1)" by fastforce
  with assms(1) cert obtain b e fr where r1: "r1 = Some (b, e, fr)"
    by (cases r1) (auto simp: CRLFor_def)
  obtain r2 c2 where g: "crl_first K W c1 (freshestCRLURLs K cert) = (r2, c2)" by fastforce
  let ?res = "\<lparr>cr_Base = b, cr_Delta = [], cr_Reliable = True, cr_Reason = []\<rparr>"
  let ?res1 = "if \<not> fr then ?res\<lparr>cr_Reliable := False, cr_Reason := ''stale-base''\<rparr> else ?res"
  have eq: "CRLFor K W c certDER = (if freshestCRLURLs K cert = [] then (Some ?res1, c1)
      else (Some (overlay_delta e ?res1 r2), c2))"
    using cert f r1 g by (simp add: CRLFor_def Let_def)
  note run = trans [OF assms(1) [symmetric] eq]
  show ?thesis
  proof (cases "freshestCRLURLs K cert = []")
    case True
    with run assms(2) have "fr" "res = ?res" "c' = c1" by (simp_all split: if_splits)
    with cert f r1 True show ?thesis by (intro that [of cert e c1]) simp_all
  next
    case False
    with run have res: "res = overlay_delta e ?res1 r2" and c': "c' = c2" by simp_all
    with assms(2) have rel: "cr_Reliable (overlay_delta e ?res1 r2)" by simp
    then obtain d de where r2: "r2 = Some (d, de, True)" and con: "consistent e de"
      by (cases r2) (auto simp: overlay_delta_def setReason_def Let_def split: if_splits)
    with rel have fr: "fr" by (auto simp: overlay_delta_def split: if_splits)
    with r2 con res have "cr_Base res = b" "cr_Delta res = d" by (simp_all add: overlay_delta_def)
    with cert f r1 False g r2 con c' fr show ?thesis by (intro that [of cert e c1]) auto
  qed
qed

section \<open>The parse of the delta distribution points ends\<close>

text \<open>
  Every read consumes something, so the length of the text is as good as any larger bound on the
  rounds of the two loops.
\<close>

definition reads_consume :: "crl_lib \<Rightarrow> bool" where
  "reads_consume K \<longleftrightarrow> (\<forall>s t out rest. kl_ReadASN1 K s t = Some (out, rest) \<longrightarrow> length rest < length s)"

lemma name_uris_enough:
  assumes "reads_consume K"
  shows "length name \<le> m \<Longrightarrow> length name \<le> n \<Longrightarrow> name_uris K m name urls = name_uris K n name urls"
proof (induction m arbitrary: n name urls)
  case 0
  then show ?case by (cases n) simp_all
next
  case (Suc m)
  show ?case
  proof (cases n)
    case 0
    with Suc.prems show ?thesis by simp
  next
    case (Suc n')
    have "length rest \<le> m \<and> length rest \<le> n'" if "kl_ReadASN1 K name tag_ctx6 = Some (uri, rest)" for uri rest
      using assms that Suc.prems Suc unfolding reads_consume_def by fastforce
    with Suc.IH [of _ n'] Suc show ?thesis by (auto split: option.splits)
  qed
qed

lemma uris_enough:
  assumes "reads_consume K"
  shows "length val \<le> m \<Longrightarrow> length val \<le> n \<Longrightarrow> point_uris K m val urls = point_uris K n val urls"
proof (induction m arbitrary: n val urls)
  case 0
  then show ?case by (cases n) simp_all
next
  case (Suc m)
  show ?case
  proof (cases n)
    case 0
    with Suc.prems show ?thesis by simp
  next
    case (Suc n')
    have "length rest \<le> m \<and> length rest \<le> n'" if "kl_ReadASN1 K val tag_SEQUENCE = Some (dp, rest)" for dp rest
      using assms that Suc.prems Suc unfolding reads_consume_def by fastforce
    with Suc.IH [of _ n'] Suc show ?thesis
      by (auto split: option.splits prod.splits bool.splits)
  qed
qed

section \<open>A concrete manager\<close>

text \<open>
  A reader of short-form DER elements, three lists and two certificates: \<^verbatim>\<open>cert\<close> names a delta
  list, \<^verbatim>\<open>late\<close> a list that has run out.
\<close>

definition short_der :: "bytes \<Rightarrow> nat \<Rightarrow> (bytes \<times> bytes) option" where
  "short_der s t =
     (case s of
        a # l # r \<Rightarrow> if byte_of a = t \<and> byte_of l < 128 \<and> byte_of l \<le> length r
                     then Some (take (byte_of l) r, drop (byte_of l) r) else None
      | _ \<Rightarrow> None)"

definition demo_list :: "time \<Rightarrow> int \<Rightarrow> (string \<times> bytes) list \<Rightarrow> crl_full" where
  "demo_list nu n exts = \<lparr>crl_ThisUpdate = 0, crl_NextUpdate = nu, crl_Entries = [], crl_Number = Some n,
     crl_AuthorityKeyId = ''A'', crl_Extensions = exts\<rparr>"

definition demo_cert :: "string list \<Rightarrow> (string \<times> bytes) list \<Rightarrow> crl_cert" where
  "demo_cert urls exts =
     (let n = \<lparr>xn_CommonName = [], xn_Organization = [], xn_OrganizationalUnit = [], xn_Country = [],
               xn_Locality = [], xn_Province = [], xn_String = []\<rparr>
      in \<lparr>xc_Raw = [], xc_RawSubject = [], xc_RawIssuer = [], xc_Subject = n, xc_Issuer = n, xc_SerialNumber = 1,
          xc_NotBefore = 0, xc_NotAfter = 100, xc_IsCA = False, xc_KeyUsage = 0, xc_AuthorityKeyId = [],
          xc_SubjectKeyId = [], xc_OCSPServer = [], xc_IssuingCertificateURL = [], xc_CRLDistributionPoints = urls,
          xc_PolicyIdentifiers = [], xc_Extensions = exts\<rparr>)"

definition demo_freshest :: bytes where
  "demo_freshest = [CHR 0x30, CHR 0x09, CHR 0x30, CHR 0x07, CHR 0xA0, CHR 0x05, CHR 0xA0, CHR 0x03,
     CHR 0x86, CHR 0x01, CHR ''d'']"

definition demo_K :: crl_lib where
  "demo_K = \<lparr>kl_PemDecode = (\<lambda>b. None),
     kl_ParseCertificate = map_of
       [(''cert'', demo_cert [''b''] [(oidFreshestCRL, demo_freshest)]), (''late'', demo_cert [''e''] [])],
     kl_ParseRevocationList = map_of [(''base'', demo_list 100 7 []), (''expired'', demo_list 5 3 []),
       (''delta'', demo_list 100 8 [(oidDeltaCRLIndicator, ''seven'')])],
     kl_UnmarshalInt = map_of [(''seven'', 7)], kl_SumHex = (\<lambda>u. u), kl_ReadASN1 = short_der,
     kl_ReadOptionalASN1 = (\<lambda>s t. if s \<noteq> [] \<and> byte_of (hd s) = t
        then (case short_der s t of None \<Rightarrow> None | Some (out, _) \<Rightarrow> Some (Some out)) else Some None),
     kl_PeekTag = (\<lambda>s t. s \<noteq> [] \<and> byte_of (hd s) = t)\<rparr>"

definition demo_W :: crl_world where
  "demo_W = \<lparr>wd_now = (\<lambda>n. 50 + int n), wd_fetch = (\<lambda>n. map_of [(''b'', ''base''), (''d'', ''delta''), (''e'', ''expired'')]),
     wd_write = (\<lambda>n p. Written), wd_remove = (\<lambda>n p. True)\<rparr>"

definition demo_cfg :: crl_config where
  "demo_cfg = \<lparr>cf_Timeout = 0, cf_SpoolDir = ''s'', cf_MaxBytes = 8\<rparr>"

lemma demo_reads_consume: "reads_consume demo_K"
  by (auto simp: reads_consume_def demo_K_def short_der_def split: list.splits if_splits)

text \<open>
  A list that had run out when it was downloaded counts as fresh: freshness of a download is not
  compared with the list's own \<^verbatim>\<open>nextUpdate\<close>.
\<close>

lemma crl_expired_download:
  "case CRLFor demo_K demo_W (crl_New demo_K demo_W demo_cfg True (Some []) []) ''late'' of
     (Some res, _) \<Rightarrow> cr_Reliable res \<and> fst (parseMeta demo_K (cr_Base res)) < wd_now demo_W 0
   | _ \<Rightarrow> False"
  by code_simp

text \<open>A warm start adopts every parsable file, whatever the cap.\<close>

lemma crl_warm_over_cap:
  "let c = crl_New demo_K demo_W demo_cfg True (Some [(''b.crl'', False), (''d.crl'', False)])
     [(''s/b.crl'', ''base''), (''s/d.crl'', ''delta'')]
   in cc_total c > cc_maxBytes c \<and> length (cc_entries c) = 2"
  by code_simp

section \<open>Properties\<close>

definition meta_number :: "time \<times> int option \<times> int option \<times> bytes \<Rightarrow> int option" where
  "meta_number m = fst (snd m)"

definition meta_baseNumber :: "time \<times> int option \<times> int option \<times> bytes \<Rightarrow> int option" where
  "meta_baseNumber m = fst (snd (snd m))"

definition meta_aki :: "time \<times> int option \<times> int option \<times> bytes \<Rightarrow> bytes" where
  "meta_aki m = snd (snd (snd m))"

text \<open>The coherence of a delta list with a base list, read off the two lists themselves.\<close>

definition delta_applies :: "crl_lib \<Rightarrow> bytes \<Rightarrow> bytes \<Rightarrow> bool" where
  "delta_applies K base delta \<longleftrightarrow>
     (\<exists>b n. meta_baseNumber (parseMeta K delta) = Some b \<and> meta_number (parseMeta K base) = Some n \<and> b \<le> n) \<and>
     (meta_aki (parseMeta K base) = [] \<or> meta_aki (parseMeta K delta) = [] \<or>
      meta_aki (parseMeta K base) = meta_aki (parseMeta K delta))"

lemma consistent_applies:
  assumes "consistent base delta" and "cx_meta base = parseMeta K b" and "cx_meta delta = parseMeta K d"
  shows "delta_applies K b d"
  using assms(1) unfolding delta_applies_def assms(2) [symmetric] assms(3) [symmetric]
  by (auto simp: consistent_def cx_meta_def meta_number_def meta_baseNumber_def meta_aki_def
      split: option.splits if_splits)

text \<open>
  Claim C14: whatever the manager was built on and asked before, a result it reports as reliable
  rests on a base list of one of the certificate's distribution points that had not run out when it
  was looked at or was downloaded in this very call; and when the certificate names delta lists,
  the result carries a delta list that is fresh in the same sense, states a base number not above
  the number of the base list, and does not name another authority key.
\<close>

theorem crl_reliable_means:
  assumes "crl_reachable K W c" and "CRLFor K W c certDER = (Some res, c')" and "cr_Reliable res"
  shows "\<exists>cert. kl_ParseCertificate K certDER = Some cert \<and>
    (\<exists>url \<in> set (xc_CRLDistributionPoints cert). crl_fresh K W (cc_tick c) (cc_tick c') url (cr_Base res)) \<and>
    (freshestCRLURLs K cert \<noteq> [] \<longrightarrow>
       (\<exists>url \<in> set (freshestCRLURLs K cert). crl_fresh K W (cc_tick c) (cc_tick c') url (cr_Delta res)) \<and>
       delta_applies K (cr_Base res) (cr_Delta res)) \<and>
    (freshestCRLURLs K cert = [] \<longrightarrow> cr_Delta res = [])"
proof -
  have inv: "crl_inv K c" using assms(1) by (rule crl_reachable_inv)
  from CRLFor_reliable [OF assms(2,3)] obtain cert base c1 where
    cert: "kl_ParseCertificate K certDER = Some cert" and
    f: "crl_first K W c (xc_CRLDistributionPoints cert) = (Some (cr_Base res, base, True), c1)" and
    rest: "freshestCRLURLs K cert = [] \<and> c' = c1 \<and> cr_Delta res = [] \<or>
       (\<exists>delta. freshestCRLURLs K cert \<noteq> [] \<and>
          crl_first K W c1 (freshestCRLURLs K cert) = (Some (cr_Delta res, delta, True), c') \<and> consistent base delta)" .
  note b = crl_first_sound [OF inv f]
  have step: "crl_inv K c1" "cc_tick c \<le> cc_tick c1"
    using crl_first_step [OF inv f] by (simp_all add: crl_step_ok_def)
  from rest show ?thesis
  proof
    assume "freshestCRLURLs K cert = [] \<and> c' = c1 \<and> cr_Delta res = []"
    with cert b show ?thesis by auto
  next
    assume "\<exists>delta. freshestCRLURLs K cert \<noteq> [] \<and>
          crl_first K W c1 (freshestCRLURLs K cert) = (Some (cr_Delta res, delta, True), c') \<and> consistent base delta"
    then obtain delta where ne: "freshestCRLURLs K cert \<noteq> []" and con: "consistent base delta"
      and g: "crl_first K W c1 (freshestCRLURLs K cert) = (Some (cr_Delta res, delta, True), c')" by blast
    note d = crl_first_sound [OF step(1) g]
    have "cc_tick c1 \<le> cc_tick c'" using crl_first_step [OF step(1) g] by (simp add: crl_step_ok_def)
    then have "\<exists>url \<in> set (xc_CRLDistributionPoints cert). crl_fresh K W (cc_tick c) (cc_tick c') url (cr_Base res)"
      using b crl_fresh_mono by blast
    moreover have "\<exists>url \<in> set (freshestCRLURLs K cert). crl_fresh K W (cc_tick c) (cc_tick c') url (cr_Delta res)"
      using d step(2) crl_fresh_mono by blast
    ultimately show ?thesis using cert ne consistent_applies [OF con] b d by blast
  qed
qed

theorem crl_reliable_means_witness:
  "\<exists>res c'. CRLFor demo_K demo_W (crl_New demo_K demo_W demo_cfg True (Some []) []) ''cert'' = (Some res, c') \<and>
     cr_Base res = ''base'' \<and> cr_Delta res = ''delta'' \<and> delta_applies demo_K (cr_Base res) (cr_Delta res) \<and>
     (\<exists>t < cc_tick c'. wd_now demo_W t < 100 \<or> wd_fetch demo_W t ''b'' = Some ''base'')"
proof -
  let ?c = "crl_New demo_K demo_W demo_cfg True (Some []) []"
  have reach: "crl_reachable demo_K demo_W ?c" by (rule crl_reachable.built) simp
  have "case CRLFor demo_K demo_W ?c ''cert'' of
      (Some res, _) \<Rightarrow> cr_Reliable res \<and> cr_Base res = ''base'' \<and> cr_Delta res = ''delta'' | _ \<Rightarrow> False"
    by code_simp
  then obtain res c' where run: "CRLFor demo_K demo_W ?c ''cert'' = (Some res, c')" and rel: "cr_Reliable res"
    and res: "cr_Base res = ''base''" "cr_Delta res = ''delta''"
    by (auto split: option.splits prod.splits)
  have meta: "fst (parseMeta demo_K ''base'') = 100" by code_simp
  have cert: "case kl_ParseCertificate demo_K ''cert'' of Some cert \<Rightarrow> freshestCRLURLs demo_K cert = [''d''] \<and>
      xc_CRLDistributionPoints cert = [''b''] | None \<Rightarrow> False"
    by code_simp
  have norm: "normalizeCRL demo_K body = Some ''base'' \<longrightarrow> body = ''base''" for body
    by (simp add: normalizeCRL_def demo_K_def Let_def split: option.splits)
  from crl_reliable_means [OF reach run rel] cert res have
    "delta_applies demo_K (cr_Base res) (cr_Delta res) \<and> crl_fresh demo_K demo_W (cc_tick ?c) (cc_tick c') ''b'' ''base''"
    by (auto split: option.splits)
  with run res meta norm show ?thesis by (auto simp: crl_fresh_def)
qed



end
