(* ===== verification/Qr_Store.thy ===== *)
theory Qr_Store
  imports Jobs_Store
begin

text \<open>
  Sessions of the QR signing flow (internal/qr/contract.go) and their stores
  (internal/qr/store.go): in memory and in a bbolt bucket, behind one interface. \<^verbatim>\<open>Consume\<close>
  fetches a session and marks it used under the lock or inside one transaction, so it is one
  atomic operation; \<^verbatim>\<open>Save\<close> overwrites whatever is stored. Values are immutable here, so the
  copies that \<^verbatim>\<open>cloneSession\<close> makes are the values themselves.
\<close>

section \<open>Sessions\<close>

abbreviation ModeSign :: string where "ModeSign \<equiv> ''sign''"
abbreviation ModeAuth :: string where "ModeAuth \<equiv> ''auth''"

definition mode_valid :: "string \<Rightarrow> bool" where
  "mode_valid m \<longleftrightarrow> m = ModeSign \<or> m = ModeAuth"

abbreviation ProfileAgnostic :: string where "ProfileAgnostic \<equiv> ''agnostic''"
abbreviation ProfileEGov :: string where "ProfileEGov \<equiv> ''egov''"
abbreviation ProfileRelay :: string where "ProfileRelay \<equiv> ''relay''"

datatype qr_status = QrPending | QrVerified | QrFailed | QrExpired

definition qr_Terminal :: "qr_status \<Rightarrow> bool" where
  "qr_Terminal s \<longleftrightarrow> s = QrVerified \<or> s = QrFailed \<or> s = QrExpired"

record qr_document =
  qd_NameRu :: string
  qd_NameKz :: string
  qd_NameEn :: string
  qd_Data :: bytes
  qd_MIME :: string

record qr_session =
  qs_ID :: string
  qs_Mode :: string
  qs_Profile :: string
  qs_SignMethod :: string
  qs_Format :: string
  qs_Detached :: bool
  qs_Data :: bytes
  qs_Documents :: "qr_document list"
  qs_Description :: string
  qs_ClientID :: string
  qs_ClientNonce :: string
  qs_State :: string
  qs_CallbackURL :: string
  qs_RelayID :: string
  qs_RelaySignURL :: string
  qs_Status :: qr_status
  qs_Result :: bytes
  qs_Error :: "batch_item_error option"
  qs_CreatedAt :: time
  qs_ExpiresAt :: time
  qs_Used :: bool

record qr_view =
  qv_ID :: string
  qv_Mode :: string
  qv_Profile :: string
  qv_Status :: qr_status
  qv_ExpiresAt :: time
  qv_Result :: bytes
  qv_Error :: "batch_item_error option"

definition qr_session_view :: "qr_session \<Rightarrow> qr_view" where
  "qr_session_view x = \<lparr>qv_ID = qs_ID x, qv_Mode = qs_Mode x, qv_Profile = qs_Profile x, qv_Status = qs_Status x,
     qv_ExpiresAt = qs_ExpiresAt x, qv_Result = qs_Result x, qv_Error = qs_Error x\<rparr>"

text \<open>The typed errors of the flow (errors.go), the failures of what it calls, and those of a profile.\<close>

datatype qr_error =
    QrNotFound | QrUsed | QrSessionExpired | QrRejected | QrRevoked | QrUnsupportedProfile | QrUnsupportedMode
  | QrAuthUnavailable | QrNoData | QrAppOnly | QrDecode | QrOther goerr

fun qr_error_text :: "qr_error \<Rightarrow> string" where
  "qr_error_text QrNotFound = ''qr: session not found''"
| "qr_error_text QrUsed = ''qr: session signature already submitted''"
| "qr_error_text QrSessionExpired = ''qr: session expired''"
| "qr_error_text QrRejected = ''qr: signature invalid or no signer''"
| "qr_error_text QrRevoked = ''qr: signer certificate revoked''"
| "qr_error_text QrUnsupportedProfile = ''qr: unsupported profile''"
| "qr_error_text QrUnsupportedMode = ''qr: unsupported mode''"
| "qr_error_text QrAuthUnavailable = ''qr: auth mode requires the OIDC token issuer''"
| "qr_error_text QrNoData = ''qr: no data to sign''"
| "qr_error_text QrAppOnly = ''qr: endpoint not served for this profile''"
| "qr_error_text QrDecode = ''decode''"
| "qr_error_text (QrOther e) = err_text e"

record 's qr_ops =
  qo_Create :: "'s \<Rightarrow> qr_session \<Rightarrow> qr_error + 's"
  qo_Get :: "'s \<Rightarrow> string \<Rightarrow> qr_error + qr_session"
  qo_Consume :: "'s \<Rightarrow> string \<Rightarrow> qr_error + (qr_session \<times> 's)"
  qo_Save :: "'s \<Rightarrow> qr_session \<Rightarrow> qr_error + 's"
  qo_Reap :: "'s \<Rightarrow> time \<Rightarrow> qr_error + (nat \<times> 's)"
  qo_Len :: "'s \<Rightarrow> nat"

definition qr_over :: "time \<Rightarrow> qr_session \<Rightarrow> bool" where
  "qr_over now x \<longleftrightarrow> \<not> After (qs_ExpiresAt x) now"

section \<open>The in-memory store\<close>

type_synonym qr_mem = "(string, qr_session) gomap"

definition qmem_Create :: "qr_mem \<Rightarrow> qr_session \<Rightarrow> qr_error + qr_mem" where
  "qmem_Create s x = Inr (kv_put (qs_ID x) x s)"

definition qmem_Get :: "qr_mem \<Rightarrow> string \<Rightarrow> qr_error + qr_session" where
  "qmem_Get s i = (case map_of s i of None \<Rightarrow> Inl QrNotFound | Some x \<Rightarrow> Inr x)"

definition qmem_Consume :: "qr_mem \<Rightarrow> string \<Rightarrow> qr_error + (qr_session \<times> qr_mem)" where
  "qmem_Consume s i =
     (case map_of s i of
        None \<Rightarrow> Inl QrNotFound
      | Some x \<Rightarrow> if qs_Used x then Inl QrUsed else Inr (x\<lparr>qs_Used := True\<rparr>, kv_put i (x\<lparr>qs_Used := True\<rparr>) s))"

definition qmem_Save :: "qr_mem \<Rightarrow> qr_session \<Rightarrow> qr_error + qr_mem" where
  "qmem_Save s x = Inr (kv_put (qs_ID x) x s)"

definition qmem_Reap :: "qr_mem \<Rightarrow> time \<Rightarrow> qr_error + (nat \<times> qr_mem)" where
  "qmem_Reap s now = Inr (length (filter (\<lambda>(i, x). qr_over now x) s), kv_drop (qr_over now) s)"

definition QrMem :: "qr_mem qr_ops" where
  "QrMem = \<lparr>qo_Create = qmem_Create, qo_Get = qmem_Get, qo_Consume = qmem_Consume, qo_Save = qmem_Save,
     qo_Reap = qmem_Reap, qo_Len = length\<rparr>"

section \<open>The document of a session\<close>

fun qr_status_name :: "qr_status \<Rightarrow> string" where
  "qr_status_name QrPending = ''pending''"
| "qr_status_name QrVerified = ''verified''"
| "qr_status_name QrFailed = ''failed''"
| "qr_status_name QrExpired = ''expired''"

definition qr_status_named :: "string \<Rightarrow> qr_status option" where
  "qr_status_named n = map_of (map (\<lambda>s. (qr_status_name s, s)) [QrPending, QrVerified, QrFailed, QrExpired]) n"

definition marshal_document :: "qr_document \<Rightarrow> json" where
  "marshal_document d = JObj (str_field ''nameRu'' (qd_NameRu d) @ str_field ''nameKz'' (qd_NameKz d) @
     str_field ''nameEn'' (qd_NameEn d) @ [(''data'', JRaw (qd_Data d))] @ str_field ''mime'' (qd_MIME d))"

fun unmarshal_document :: "json \<Rightarrow> qr_document option" where
  "unmarshal_document (JObj fs) =
     do { ru \<leftarrow> get_str fs ''nameRu''; kz \<leftarrow> get_str fs ''nameKz''; en \<leftarrow> get_str fs ''nameEn'';
          d \<leftarrow> get_raw fs ''data''; m \<leftarrow> get_str fs ''mime'';
          Some \<lparr>qd_NameRu = ru, qd_NameKz = kz, qd_NameEn = en, qd_Data = d, qd_MIME = m\<rparr> }"
| "unmarshal_document _ = None"

definition qr_fields :: "qr_session \<Rightarrow> (string \<times> json) list" where
  "qr_fields x =
     [(''id'', JStr (qs_ID x)), (''mode'', JStr (qs_Mode x)), (''profile'', JStr (qs_Profile x)),
      (''signMethod'', JStr (qs_SignMethod x)), (''format'', JStr (qs_Format x)), (''detached'', JBool (qs_Detached x))] @
     raw_field ''data'' (qs_Data x) @ arr_field ''documents'' (map marshal_document (qs_Documents x)) @
     str_field ''description'' (qs_Description x) @ str_field ''clientId'' (qs_ClientID x) @
     str_field ''clientNonce'' (qs_ClientNonce x) @ str_field ''state'' (qs_State x) @
     str_field ''callbackUrl'' (qs_CallbackURL x) @ str_field ''relayId'' (qs_RelayID x) @
     str_field ''relaySignUrl'' (qs_RelaySignURL x) @ [(''status'', JStr (qr_status_name (qs_Status x)))] @
     raw_field ''result'' (qs_Result x) @ error_field (qs_Error x) @
     [(''createdAt'', JTime (qs_CreatedAt x)), (''expiresAt'', JTime (qs_ExpiresAt x)), (''used'', JBool (qs_Used x))]"

definition marshal_qr :: "qr_session \<Rightarrow> json" where
  "marshal_qr x = JObj (qr_fields x)"

fun unmarshal_qr :: "json \<Rightarrow> qr_session option" where
  "unmarshal_qr (JObj fs) =
     do { i \<leftarrow> get_str fs ''id''; m \<leftarrow> get_str fs ''mode''; p \<leftarrow> get_str fs ''profile''; sm \<leftarrow> get_str fs ''signMethod'';
          f \<leftarrow> get_str fs ''format''; dt \<leftarrow> get_flag fs ''detached''; d \<leftarrow> get_raw fs ''data'';
          ds \<leftarrow> get_arr unmarshal_document fs ''documents''; de \<leftarrow> get_str fs ''description'';
          ci \<leftarrow> get_str fs ''clientId''; cn \<leftarrow> get_str fs ''clientNonce''; sta \<leftarrow> get_str fs ''state'';
          cb \<leftarrow> get_str fs ''callbackUrl''; ri \<leftarrow> get_str fs ''relayId''; ru \<leftarrow> get_str fs ''relaySignUrl'';
          sn \<leftarrow> get_str fs ''status''; st \<leftarrow> qr_status_named sn; r \<leftarrow> get_raw fs ''result''; er \<leftarrow> get_error fs;
          ca \<leftarrow> get_time fs ''createdAt''; ea \<leftarrow> get_time fs ''expiresAt''; u \<leftarrow> get_flag fs ''used'';
          Some \<lparr>qs_ID = i, qs_Mode = m, qs_Profile = p, qs_SignMethod = sm, qs_Format = f, qs_Detached = dt, qs_Data = d,
            qs_Documents = ds, qs_Description = de, qs_ClientID = ci, qs_ClientNonce = cn, qs_State = sta,
            qs_CallbackURL = cb, qs_RelayID = ri, qs_RelaySignURL = ru, qs_Status = st, qs_Result = r, qs_Error = er,
            qs_CreatedAt = instant ca, qs_ExpiresAt = instant ea, qs_Used = u\<rparr> }"
| "unmarshal_qr _ = None"

section \<open>The bbolt store\<close>

type_synonym qr_bolt = "(string, json) gomap"

definition qbolt_put :: "string \<Rightarrow> qr_session \<Rightarrow> qr_bolt \<Rightarrow> qr_bolt" where
  "qbolt_put i x b = kv_put i (marshal_qr x) b"

definition qbolt_Create :: "qr_bolt \<Rightarrow> qr_session \<Rightarrow> qr_error + qr_bolt" where
  "qbolt_Create b x = Inr (qbolt_put (qs_ID x) x b)"

definition qbolt_Save :: "qr_bolt \<Rightarrow> qr_session \<Rightarrow> qr_error + qr_bolt" where
  "qbolt_Save b x = Inr (qbolt_put (qs_ID x) x b)"

definition qbolt_Get :: "qr_bolt \<Rightarrow> string \<Rightarrow> qr_error + qr_session" where
  "qbolt_Get b i =
     (case map_of b i of
        None \<Rightarrow> Inl QrNotFound
      | Some raw \<Rightarrow> (case unmarshal_qr raw of None \<Rightarrow> Inl QrDecode | Some x \<Rightarrow> Inr x))"

definition qbolt_Consume :: "qr_bolt \<Rightarrow> string \<Rightarrow> qr_error + (qr_session \<times> qr_bolt)" where
  "qbolt_Consume b i =
     (case map_of b i of
        None \<Rightarrow> Inl QrNotFound
      | Some raw \<Rightarrow>
          (case unmarshal_qr raw of
             None \<Rightarrow> Inl QrDecode
           | Some x \<Rightarrow> if qs_Used x then Inl QrUsed else Inr (x\<lparr>qs_Used := True\<rparr>, qbolt_put i (x\<lparr>qs_Used := True\<rparr>) b)))"

fun qbolt_expired :: "time \<Rightarrow> (string \<times> json) list \<Rightarrow> qr_error + string list" where
  "qbolt_expired now [] = Inr []"
| "qbolt_expired now ((k, raw) # rest) =
     (case unmarshal_qr raw of
        None \<Rightarrow> Inl QrDecode
      | Some x \<Rightarrow>
          (case qbolt_expired now rest of
             Inl e \<Rightarrow> Inl e
           | Inr ks \<Rightarrow> Inr (if qr_over now x then k # ks else ks)))"

definition qbolt_Reap :: "qr_bolt \<Rightarrow> time \<Rightarrow> qr_error + (nat \<times> qr_bolt)" where
  "qbolt_Reap b now = (case qbolt_expired now b of Inl e \<Rightarrow> Inl e | Inr ks \<Rightarrow> Inr (length ks, fold kv_del ks b))"

definition QrBolt :: "qr_bolt qr_ops" where
  "QrBolt = \<lparr>qo_Create = qbolt_Create, qo_Get = qbolt_Get, qo_Consume = qbolt_Consume, qo_Save = qbolt_Save,
     qo_Reap = qbolt_Reap, qo_Len = length\<rparr>"

section \<open>The contract\<close>

text \<open>\<open>held s\<close> is the content of a store.\<close>

locale qr_store =
  fixes S :: "'s qr_ops"
    and held :: "'s \<Rightarrow> string \<rightharpoonup> qr_session"
    and ok :: "'s \<Rightarrow> bool"
  assumes create: "ok s \<Longrightarrow> \<exists>s'. qo_Create S s x = Inr s' \<and> ok s' \<and> held s' = (held s)(qs_ID x \<mapsto> x)"
    and get_absent: "ok s \<Longrightarrow> held s i = None \<Longrightarrow> qo_Get S s i = Inl QrNotFound"
    and get: "ok s \<Longrightarrow> held s i = Some x \<Longrightarrow> qo_Get S s i = Inr x"
    and consume_absent: "ok s \<Longrightarrow> held s i = None \<Longrightarrow> qo_Consume S s i = Inl QrNotFound"
    and consume_used: "ok s \<Longrightarrow> held s i = Some x \<Longrightarrow> qs_Used x \<Longrightarrow> qo_Consume S s i = Inl QrUsed"
    and consume: "ok s \<Longrightarrow> held s i = Some x \<Longrightarrow> \<not> qs_Used x \<Longrightarrow>
      \<exists>s'. qo_Consume S s i = Inr (x\<lparr>qs_Used := True\<rparr>, s') \<and> ok s' \<and> held s' = (held s)(i \<mapsto> x\<lparr>qs_Used := True\<rparr>)"
    and save: "ok s \<Longrightarrow> \<exists>s'. qo_Save S s x = Inr s' \<and> ok s' \<and> held s' = (held s)(qs_ID x \<mapsto> x)"
    and reap: "ok s \<Longrightarrow> \<exists>n s'. qo_Reap S s now = Inr (n, s') \<and> ok s' \<and>
      held s' = (\<lambda>i. case held s i of None \<Rightarrow> None | Some x \<Rightarrow> if qr_over now x then None else Some x)"
begin

lemma get_Inr: "ok s \<Longrightarrow> qo_Get S s i = Inr x \<Longrightarrow> held s i = Some x"
  using get [of s i] get_absent [of s i] by (cases "held s i") auto

lemma consume_Inr:
  assumes "ok s" and "qo_Consume S s i = Inr (x, s')"
  obtains x0 where "held s i = Some x0" "\<not> qs_Used x0" "x = x0\<lparr>qs_Used := True\<rparr>" "ok s'"
    "held s' = (held s)(i \<mapsto> x0\<lparr>qs_Used := True\<rparr>)"
proof -
  obtain x0 where x0: "held s i = Some x0" "\<not> qs_Used x0"
    using assms consume_absent [of s i] consume_used [of s i] by fastforce
  from consume [OF assms(1) this] assms(2) x0 that show thesis by auto
qed

lemma consume_once:
  assumes "ok s" and "qo_Consume S s i = Inr (x, s')"
  shows "qo_Consume S s' i = Inl QrUsed"
proof -
  from consume_Inr [OF assms] obtain x0 where "held s i = Some x0" "\<not> qs_Used x0" "x = x0\<lparr>qs_Used := True\<rparr>" "ok s'"
    "held s' = (held s)(i \<mapsto> x0\<lparr>qs_Used := True\<rparr>)" .
  then show ?thesis by (intro consume_used [of s' i "x0\<lparr>qs_Used := True\<rparr>"]) simp_all
qed

end

lemmas qmem_defs = qmem_Create_def qmem_Get_def qmem_Consume_def qmem_Save_def qmem_Reap_def QrMem_def

interpretation qmem: qr_store QrMem map_of kv_ok
proof (unfold_locales, goal_cases)
  case (8 s now) then show ?case by (auto simp: qmem_defs wf_intros kv_simps fun_eq_iff split: option.splits)
qed (auto simp: qmem_defs wf_intros kv_simps)

lemma qr_status_named_name [simp]: "qr_status_named (qr_status_name s) = Some s"
  by (cases s) (simp_all add: qr_status_named_def)

lemma unmarshal_marshal_document [simp]: "unmarshal_document (marshal_document d) = Some d"
  by (simp add: marshal_document_def json_get_defs)

lemma qr_fields_get:
  "get_str (qr_fields x) ''id'' = Some (qs_ID x)" "get_str (qr_fields x) ''mode'' = Some (qs_Mode x)"
  "get_str (qr_fields x) ''profile'' = Some (qs_Profile x)" "get_str (qr_fields x) ''signMethod'' = Some (qs_SignMethod x)"
  "get_str (qr_fields x) ''format'' = Some (qs_Format x)" "get_flag (qr_fields x) ''detached'' = Some (qs_Detached x)"
  "get_raw (qr_fields x) ''data'' = Some (qs_Data x)"
  "get_arr unmarshal_document (qr_fields x) ''documents'' = Some (qs_Documents x)"
  "get_str (qr_fields x) ''description'' = Some (qs_Description x)" "get_str (qr_fields x) ''clientId'' = Some (qs_ClientID x)"
  "get_str (qr_fields x) ''clientNonce'' = Some (qs_ClientNonce x)" "get_str (qr_fields x) ''state'' = Some (qs_State x)"
  "get_str (qr_fields x) ''callbackUrl'' = Some (qs_CallbackURL x)" "get_str (qr_fields x) ''relayId'' = Some (qs_RelayID x)"
  "get_str (qr_fields x) ''relaySignUrl'' = Some (qs_RelaySignURL x)"
  "get_str (qr_fields x) ''status'' = Some (qr_status_name (qs_Status x))"
  "get_raw (qr_fields x) ''result'' = Some (qs_Result x)" "get_error (qr_fields x) = Some (qs_Error x)"
  "get_time (qr_fields x) ''createdAt'' = Some (Some (qs_CreatedAt x))"
  "get_time (qr_fields x) ''expiresAt'' = Some (Some (qs_ExpiresAt x))" "get_flag (qr_fields x) ''used'' = Some (qs_Used x)"
  by (simp_all add: qr_fields_def json_get_defs get_error_def split: option.splits)

lemma unmarshal_marshal_qr [simp]: "unmarshal_qr (marshal_qr x) = Some x"
  by (simp add: marshal_qr_def qr_fields_get instant_def)

definition qbolt_repr :: "qr_mem \<Rightarrow> qr_bolt" where
  "qbolt_repr s = kv_map marshal_qr s"

lemma qbolt_repr_get [simp]: "map_of (qbolt_repr s) i = map_option marshal_qr (map_of s i)"
  by (simp add: qbolt_repr_def kv_simps)

lemma qbolt_repr_put: "qbolt_put i x (qbolt_repr s) = qbolt_repr (kv_put i x s)"
  by (induction s) (auto simp: qbolt_put_def qbolt_repr_def kv_map_def kv_put_def)

lemma qbolt_expired_eq: "qbolt_expired now (qbolt_repr s) = Inr (map fst (filter (\<lambda>(i, x). qr_over now x) s))"
  by (induction s) (auto simp: qbolt_repr_def kv_map_def)

lemma fold_kv_del_qrepr: "fold kv_del ks (qbolt_repr s) = qbolt_repr (fold kv_del ks s)"
proof (induction ks arbitrary: s)
  case (Cons k ks)
  have "kv_del k (qbolt_repr s) = qbolt_repr (kv_del k s)"
    by (induction s) (auto simp: qbolt_repr_def kv_map_def kv_del_def)
  with Cons show ?case by simp
qed simp

lemma qbolt_refines:
  "qo_Create QrBolt (qbolt_repr s) x = map_sum id qbolt_repr (qo_Create QrMem s x)"
  "qo_Save QrBolt (qbolt_repr s) x = map_sum id qbolt_repr (qo_Save QrMem s x)"
  "qo_Get QrBolt (qbolt_repr s) i = qo_Get QrMem s i"
  "qo_Consume QrBolt (qbolt_repr s) i = map_sum id (map_prod id qbolt_repr) (qo_Consume QrMem s i)"
  "kv_ok s \<Longrightarrow> qo_Reap QrBolt (qbolt_repr s) now = map_sum id (map_prod id qbolt_repr) (qo_Reap QrMem s now)"
  by (simp_all add: qmem_defs QrBolt_def qbolt_Create_def qbolt_Save_def qbolt_Get_def qbolt_Consume_def qbolt_Reap_def
      qbolt_repr_put qbolt_expired_eq fold_kv_del_qrepr fold_kv_del_drop split: option.splits)

definition qbolt_held :: "qr_bolt \<Rightarrow> string \<rightharpoonup> qr_session" where
  "qbolt_held b i = Option.bind (map_of b i) unmarshal_qr"

definition qbolt_ok :: "qr_bolt \<Rightarrow> bool" where
  "qbolt_ok b \<longleftrightarrow> (\<exists>s. kv_ok s \<and> b = qbolt_repr s)"

lemma qbolt_held_repr [simp]: "qbolt_held (qbolt_repr s) = map_of s"
  by (rule ext) (auto simp: qbolt_held_def map_option_case split: option.splits)

lemma qbolt_ok_repr [simp]: "kv_ok s \<Longrightarrow> qbolt_ok (qbolt_repr s)"
  by (auto simp: qbolt_ok_def)

interpretation qbolt: qr_store QrBolt qbolt_held qbolt_ok
proof (unfold_locales, goal_cases)
  case (1 b x)
  then obtain s where "kv_ok s" "b = qbolt_repr s" by (auto simp: qbolt_ok_def)
  with qmem.create [of s x] show ?case by (auto simp: qbolt_refines)
next
  case (2 b i) then show ?case by (auto simp: qbolt_ok_def qbolt_refines qmem.get_absent)
next
  case (3 b i x) then show ?case by (auto simp: qbolt_ok_def qbolt_refines qmem.get)
next
  case (4 b i) then show ?case by (auto simp: qbolt_ok_def qbolt_refines qmem.consume_absent)
next
  case (5 b i x) then show ?case by (auto simp: qbolt_ok_def qbolt_refines qmem.consume_used)
next
  case (6 b i x)
  then obtain s where s: "kv_ok s" "b = qbolt_repr s" by (auto simp: qbolt_ok_def)
  with 6 qmem.consume [of s i x] show ?case by (auto simp: qbolt_refines)
next
  case (7 b x)
  then obtain s where "kv_ok s" "b = qbolt_repr s" by (auto simp: qbolt_ok_def)
  with qmem.save [of s x] show ?case by (auto simp: qbolt_refines)
next
  case (8 b now)
  then obtain s where s: "kv_ok s" "b = qbolt_repr s" by (auto simp: qbolt_ok_def)
  with qmem.reap [of s now] show ?case by (auto simp: qbolt_refines)
qed

end
