(* ===== verification/Qr_Profiles.thy ===== *)
theory Qr_Profiles
  imports Qr_Store
begin

text \<open>
  The three ways the QR handshake reaches the signing application: the protocol-agnostic profile,
  the self-hosted eGov gateway and the client of an upstream gateway (internal/qr/profile.go,
  agnostic.go, egov.go, relay.go). A \<^verbatim>\<open>Profiler\<close> is a record of functions. The JSON codecs of the
  standard library and the QR encoder are fields of a record, and the network a gateway is
  reached over is an argument of the calls that use it.
\<close>

section \<open>The library and the network\<close>

record egov_doc =
  ed_ID :: nat
  ed_NameRu :: string
  ed_NameKz :: string
  ed_NameEn :: string
  ed_MIME :: string
  ed_Data :: bytes

record register_resp =
  gr_ExpireAt :: int
  gr_QRCode :: string
  gr_EGovMobileLaunchLink :: string
  gr_EGovBusinessLaunchLink :: string
  gr_DataURL :: string
  gr_SignURL :: string

record poll_doc =
  pd_Signature :: bytes
  pd_CMS :: bytes
  pd_FileData :: bytes

record poll_resp =
  pr_Status :: string
  pr_DocumentsToSign :: "poll_doc list"

text \<open>\<open>ql_Register\<close> returns the value as far as it was filled, and the error of the decoder.\<close>

record qr_codec =
  ql_Flat :: "bytes \<Rightarrow> goerr + bytes"
  ql_Nested :: "bytes \<Rightarrow> goerr + (bytes \<times> bytes) list"
  ql_Register :: "bytes \<Rightarrow> register_resp \<times> goerr option"
  ql_Poll :: "bytes \<Rightarrow> goerr + poll_resp"
  ql_MarshalRegister :: "string \<Rightarrow> goerr + bytes"
  ql_MarshalUpload :: "string \<Rightarrow> egov_doc list \<Rightarrow> goerr + bytes"
  ql_URLPath :: "string \<Rightarrow> string"

datatype gateway_answer = GatewayFails goerr | GatewayResponse nat bytes "goerr option"

type_synonym qr_net = "string \<Rightarrow> string \<Rightarrow> bytes \<Rightarrow> gateway_answer"

section \<open>Profiles\<close>

record qr_urls =
  ur_DataURL :: string
  ur_SignURL :: string

record qr_artifacts =
  ar_Payload :: string
  ar_EGovMobileLink :: string
  ar_EGovBusinessLink :: string
  ar_DataURL :: string
  ar_SignURL :: string

datatype app_data =
    AgnosticData string bytes string bool string
  | EGovData string string "egov_doc list"

record profiler =
  pf_SelfHosted :: bool
  pf_Prepare :: "qr_net \<Rightarrow> qr_session \<Rightarrow> qr_urls \<Rightarrow> (qr_error + qr_artifacts) \<times> qr_session"
  pf_AppData :: "qr_session \<Rightarrow> qr_error + app_data"
  pf_ParseAppSignature :: "qr_session \<Rightarrow> bytes \<Rightarrow> qr_error + bytes"
  pf_Poll :: "qr_net \<Rightarrow> qr_session \<Rightarrow> bytes \<times> bool \<times> qr_error option"

subsection \<open>Agnostic\<close>

definition agnostic_Prepare :: "qr_net \<Rightarrow> qr_session \<Rightarrow> qr_urls \<Rightarrow> (qr_error + qr_artifacts) \<times> qr_session" where
  "agnostic_Prepare net x urls =
     (Inr \<lparr>ar_Payload = ur_DataURL urls, ar_EGovMobileLink = [], ar_EGovBusinessLink = [],
           ar_DataURL = ur_DataURL urls, ar_SignURL = ur_SignURL urls\<rparr>, x)"

definition agnostic_AppData :: "qr_session \<Rightarrow> qr_error + app_data" where
  "agnostic_AppData x = Inr (AgnosticData (qs_ID x) (qs_Data x) (qs_Format x) (qs_Detached x) (qs_Description x))"

definition agnostic_ParseAppSignature :: "qr_codec \<Rightarrow> qr_session \<Rightarrow> bytes \<Rightarrow> qr_error + bytes" where
  "agnostic_ParseAppSignature J x body =
     (case ql_Flat J body of
        Inl e \<Rightarrow> Inl (QrOther e)
      | Inr sig \<Rightarrow> if sig = [] then Inl QrRejected else Inr sig)"

definition self_hosted_Poll :: "qr_net \<Rightarrow> qr_session \<Rightarrow> bytes \<times> bool \<times> qr_error option" where
  "self_hosted_Poll net x = ([], False, Some QrAppOnly)"

definition agnosticProfile :: "qr_codec \<Rightarrow> profiler" where
  "agnosticProfile J = \<lparr>pf_SelfHosted = True, pf_Prepare = agnostic_Prepare, pf_AppData = agnostic_AppData,
     pf_ParseAppSignature = agnostic_ParseAppSignature J, pf_Poll = self_hosted_Poll\<rparr>"

subsection \<open>eGov\<close>

record egov_config =
  ec_PayloadTemplate :: string
  ec_MobileLinkTemplate :: string
  ec_BusinessLinkTemplate :: string
  ec_Organization :: string

definition newEGovProfile :: "egov_config \<Rightarrow> egov_config" where
  "newEGovProfile cfg = (if ec_PayloadTemplate cfg = [] then cfg\<lparr>ec_PayloadTemplate := ''{dataUrl}''\<rparr> else cfg)"

text \<open>\<^verbatim>\<open>strings.NewReplacer\<close>: at each position the first pair whose key matches, without rescanning.\<close>

function Replace :: "(string \<times> string) list \<Rightarrow> string \<Rightarrow> string" where
  "Replace pairs [] = []"
| "Replace pairs (c # s) =
     (case find (\<lambda>(k, v). k \<noteq> [] \<and> HasPrefix (c # s) k) pairs of
        Some (k, v) \<Rightarrow> v @ Replace pairs (drop (length k - 1) s)
      | None \<Rightarrow> c # Replace pairs s)"
  by pat_completeness auto
termination by (relation "measure (\<lambda>(pairs, s). length s)") auto

definition egov_Prepare :: "egov_config \<Rightarrow> qr_net \<Rightarrow> qr_session \<Rightarrow> qr_urls \<Rightarrow> (qr_error + qr_artifacts) \<times> qr_session" where
  "egov_Prepare cfg net x urls =
     (let rep = Replace [(''{dataUrl}'', ur_DataURL urls), (''{signUrl}'', ur_SignURL urls), (''{id}'', qs_ID x)]
      in (Inr \<lparr>ar_Payload = rep (ec_PayloadTemplate cfg),
               ar_EGovMobileLink = (if ec_MobileLinkTemplate cfg \<noteq> [] then rep (ec_MobileLinkTemplate cfg) else []),
               ar_EGovBusinessLink = (if ec_BusinessLinkTemplate cfg \<noteq> [] then rep (ec_BusinessLinkTemplate cfg) else []),
               ar_DataURL = ur_DataURL urls, ar_SignURL = ur_SignURL urls\<rparr>, x))"

definition egov_item :: "nat \<times> qr_document \<Rightarrow> egov_doc" where
  "egov_item p = (case p of (i, d) \<Rightarrow>
     \<lparr>ed_ID = i + 1, ed_NameRu = qd_NameRu d, ed_NameKz = qd_NameKz d, ed_NameEn = qd_NameEn d, ed_MIME = qd_MIME d,
      ed_Data = qd_Data d\<rparr>)"

definition single_document :: "qr_session \<Rightarrow> qr_document" where
  "single_document x = \<lparr>qd_NameRu = qs_Description x, qd_NameKz = [], qd_NameEn = [], qd_Data = qs_Data x,
     qd_MIME = ''@file/octet-stream''\<rparr>"

definition egov_AppData :: "egov_config \<Rightarrow> qr_session \<Rightarrow> qr_error + app_data" where
  "egov_AppData cfg x =
     (if qs_Documents x = [] \<and> qs_Data x = [] then Inl QrNoData
      else (let docs = (if qs_Documents x = [] then [single_document x] else qs_Documents x)
            in Inr (EGovData (qs_SignMethod x) (ec_Organization cfg) (map egov_item (enumerate 0 docs)))))"

fun first_signed :: "(bytes \<times> bytes) list \<Rightarrow> bytes option" where
  "first_signed [] = None"
| "first_signed ((sig, cms) # ds) = (if sig \<noteq> [] then Some sig else if cms \<noteq> [] then Some cms else first_signed ds)"

definition egov_ParseAppSignature :: "qr_codec \<Rightarrow> qr_session \<Rightarrow> bytes \<Rightarrow> qr_error + bytes" where
  "egov_ParseAppSignature J x body =
     (case ql_Flat J body of
        Inr (b # sig) \<Rightarrow> Inr (b # sig)
      | _ \<Rightarrow>
          (case ql_Nested J body of
             Inl e \<Rightarrow> Inl (QrOther e)
           | Inr ds \<Rightarrow> (case first_signed ds of Some sig \<Rightarrow> Inr sig | None \<Rightarrow> Inl QrRejected)))"

definition egovProfile :: "qr_codec \<Rightarrow> egov_config \<Rightarrow> profiler" where
  "egovProfile J cfg = \<lparr>pf_SelfHosted = True, pf_Prepare = egov_Prepare (newEGovProfile cfg),
     pf_AppData = egov_AppData (newEGovProfile cfg), pf_ParseAppSignature = egov_ParseAppSignature J,
     pf_Poll = self_hosted_Poll\<rparr>"

subsection \<open>Relay\<close>

record relay_config =
  rc_BaseURL :: string
  rc_OrgID :: string

definition trimSlash :: "string \<Rightarrow> string" where
  "trimSlash s = rev (dropWhile (\<lambda>c. c = CHR ''/'') (rev s))"

definition newRelayProfile :: "relay_config \<Rightarrow> relay_config" where
  "newRelayProfile cfg = cfg\<lparr>rc_BaseURL := trimSlash (rc_BaseURL cfg)\<rparr>"

definition registerPath :: "relay_config \<Rightarrow> string" where
  "registerPath cfg =
     (if rc_OrgID cfg \<noteq> [] then rc_BaseURL cfg @ ''/api/'' @ rc_OrgID cfg @ ''/egovQr''
      else rc_BaseURL cfg @ ''/api/egovQr'')"

definition gatewayLimit :: int where
  "gatewayLimit = 8388608"

text \<open>
  The answer of the gateway: a body past the limit is cut there, and an error of the connection
  counts only when it comes before. The status is looked at after the body.
\<close>

definition relay_do :: "qr_codec \<Rightarrow> qr_net \<Rightarrow> string \<Rightarrow> string \<Rightarrow> bytes \<Rightarrow> goerr + bytes" where
  "relay_do J net meth url body =
     (case net meth url body of
        GatewayFails e \<Rightarrow> Inl e
      | GatewayResponse st b broken \<Rightarrow>
          (let full = gatewayLimit \<le> int (length b);
               b = (if full then take (nat gatewayLimit) b else b)
           in case (broken, full) of
                (Some e, False) \<Rightarrow> Inl e
              | _ \<Rightarrow> if st < 200 \<or> 300 \<le> st
                     then Inl (PlainError (''gateway '' @ ql_URLPath J url @ '': status '' @ decimal st))
                     else Inr b))"

definition postJSON :: "qr_codec \<Rightarrow> qr_net \<Rightarrow> string \<Rightarrow> goerr + bytes \<Rightarrow> goerr + bytes" where
  "postJSON J net url payload = (case payload of Inl e \<Rightarrow> Inl e | Inr buf \<Rightarrow> relay_do J net ''POST'' url buf)"

definition relay_get :: "qr_codec \<Rightarrow> qr_net \<Rightarrow> string \<Rightarrow> goerr + bytes" where
  "relay_get J net url = relay_do J net ''GET'' url []"

definition firstStr :: "string list \<Rightarrow> string" where
  "firstStr vals = (case find (\<lambda>v. v \<noteq> []) vals of Some v \<Rightarrow> v | None \<Rightarrow> [])"

definition egovDocsFor :: "qr_session \<Rightarrow> egov_doc list" where
  "egovDocsFor x =
     (let docs = (if qs_Documents x = [] \<and> qs_Data x \<noteq> [] then [single_document x] else qs_Documents x)
      in map egov_item (enumerate 0 docs))"

definition relay_Prepare :: "qr_codec \<Rightarrow> relay_config \<Rightarrow> qr_net \<Rightarrow> qr_session \<Rightarrow> qr_urls \<Rightarrow>
    (qr_error + qr_artifacts) \<times> qr_session" where
  "relay_Prepare J cfg net x urls =
     (case postJSON J net (registerPath cfg) (ql_MarshalRegister J (qs_Description x)) of
        Inl e \<Rightarrow> (Inl (QrOther (WrapError ''qr relay: register'' e)), x)
      | Inr reg \<Rightarrow>
          (case ql_Register J reg of
             (r, Some e) \<Rightarrow> (Inl (QrOther (WrapError ''qr relay: decode register'' e)), x)
           | (r, None) \<Rightarrow>
               if gr_DataURL r = [] then (Inl (QrOther (PlainError ''qr relay: gateway returned no dataURL'')), x)
               else (case postJSON J net (gr_DataURL r) (ql_MarshalUpload J (qs_SignMethod x) (egovDocsFor x)) of
                       Inl e \<Rightarrow> (Inl (QrOther (WrapError ''qr relay: upload'' e)), x)
                     | Inr up \<Rightarrow>
                         (let signURL = firstStr [gr_SignURL (fst (ql_Register J up)), gr_SignURL r]
                          in (Inr \<lparr>ar_Payload = gr_QRCode r, ar_EGovMobileLink = gr_EGovMobileLaunchLink r,
                                   ar_EGovBusinessLink = gr_EGovBusinessLaunchLink r, ar_DataURL = gr_DataURL r,
                                   ar_SignURL = signURL\<rparr>,
                              x\<lparr>qs_RelaySignURL := signURL, qs_RelayID := gr_QRCode r\<rparr>)))))"

fun first_polled :: "poll_doc list \<Rightarrow> bytes option" where
  "first_polled [] = None"
| "first_polled (d # ds) =
     (if pd_Signature d \<noteq> [] then Some (pd_Signature d)
      else if pd_CMS d \<noteq> [] then Some (pd_CMS d)
      else if pd_FileData d \<noteq> [] then Some (pd_FileData d)
      else first_polled ds)"

text \<open>\<^verbatim>\<open>strings.EqualFold\<close> with the two words, none of whose letters has a fold outside ASCII.\<close>

definition relay_Poll :: "qr_codec \<Rightarrow> qr_net \<Rightarrow> qr_session \<Rightarrow> bytes \<times> bool \<times> qr_error option" where
  "relay_Poll J net x =
     (if qs_RelaySignURL x = [] then ([], False, Some (QrOther (PlainError ''qr relay: no upstream signURL'')))
      else case relay_get J net (qs_RelaySignURL x) of
        Inl e \<Rightarrow> ([], False, Some (QrOther e))
      | Inr body \<Rightarrow>
          (case ql_Poll J body of
             Inl e \<Rightarrow> ([], False, Some (QrOther (WrapError ''qr relay: decode poll'' e)))
           | Inr r \<Rightarrow>
               (case first_polled (pr_DocumentsToSign r) of
                  Some sig \<Rightarrow> (sig, True, None)
                | None \<Rightarrow>
                    if ToUpper (pr_Status r) = ''CANCELED'' \<or> ToUpper (pr_Status r) = ''EXPIRED''
                    then ([], True, Some QrRejected) else ([], False, None))))"

definition relay_AppData :: "qr_session \<Rightarrow> qr_error + app_data" where
  "relay_AppData x = Inl QrAppOnly"

definition relay_ParseAppSignature :: "qr_session \<Rightarrow> bytes \<Rightarrow> qr_error + bytes" where
  "relay_ParseAppSignature x body = Inl QrAppOnly"

definition relayProfile :: "qr_codec \<Rightarrow> relay_config \<Rightarrow> profiler" where
  "relayProfile J cfg = \<lparr>pf_SelfHosted = False, pf_Prepare = relay_Prepare J (newRelayProfile cfg),
     pf_AppData = relay_AppData, pf_ParseAppSignature = relay_ParseAppSignature, pf_Poll = relay_Poll J\<rparr>"

section \<open>What a profile promises\<close>

text \<open>
  The terms of a session: everything the verification of its signature depends on. Preparing a
  session may add the address of the upstream gateway and nothing else; a signature that is read
  from the application or polled is never empty; and only a profile that delegates to a gateway
  reports a rejection by polling.
\<close>

definition same_terms :: "qr_session \<Rightarrow> qr_session \<Rightarrow> bool" where
  "same_terms x y \<longleftrightarrow> qs_ID x = qs_ID y \<and> qs_Mode x = qs_Mode y \<and> qs_Profile x = qs_Profile y \<and> qs_Format x = qs_Format y \<and>
     qs_Detached x = qs_Detached y \<and> qs_Data x = qs_Data y \<and> qs_ClientID x = qs_ClientID y \<and>
     qs_ClientNonce x = qs_ClientNonce y \<and> qs_ExpiresAt x = qs_ExpiresAt y"

lemma same_terms_refl [simp]: "same_terms x x"
  by (simp add: same_terms_def)

lemma same_terms_trans: "same_terms x y \<Longrightarrow> same_terms y z \<Longrightarrow> same_terms x z"
  by (simp add: same_terms_def)

lemma same_terms_update [simp]:
  "same_terms x (y\<lparr>qs_Status := s\<rparr>) = same_terms x y" "same_terms x (y\<lparr>qs_Used := u\<rparr>) = same_terms x y"
  "same_terms x (y\<lparr>qs_Result := r\<rparr>) = same_terms x y" "same_terms x (y\<lparr>qs_Error := e\<rparr>) = same_terms x y"
  by (simp_all add: same_terms_def)

locale qr_profile =
  fixes P :: profiler
  assumes prepare_terms: "pf_Prepare P net x urls = (r, x') \<Longrightarrow> same_terms x x' \<and> qs_Status x' = qs_Status x \<and> qs_Used x' = qs_Used x"
    and parsed_nonempty: "pf_ParseAppSignature P x body = Inr sig \<Longrightarrow> sig \<noteq> []"
    and polled_nonempty: "pf_Poll P net x = (sig, True, None) \<Longrightarrow> sig \<noteq> []"
    and self_hosted_silent: "pf_SelfHosted P \<Longrightarrow> pf_Poll P net x = ([], False, Some QrAppOnly)"
    and delegated_closed: "\<not> pf_SelfHosted P \<Longrightarrow> pf_ParseAppSignature P x body = Inl QrAppOnly"
begin

lemma one_way: "pf_ParseAppSignature P x body = Inr sig \<Longrightarrow> pf_Poll P net y \<noteq> (sig', True, None)"
  using self_hosted_silent delegated_closed by (cases "pf_SelfHosted P") auto

end

interpretation agnostic: qr_profile "agnosticProfile J" for J
  by unfold_locales
    (auto simp: agnosticProfile_def agnostic_Prepare_def agnostic_ParseAppSignature_def self_hosted_Poll_def split: sum.splits if_splits)

lemma first_signed_nonempty: "first_signed ds = Some sig \<Longrightarrow> sig \<noteq> []"
  by (induction ds rule: first_signed.induct) (auto split: if_splits)

lemma first_polled_nonempty: "first_polled ds = Some sig \<Longrightarrow> sig \<noteq> []"
  by (induction ds rule: first_polled.induct) (auto split: if_splits)

interpretation egov: qr_profile "egovProfile J cfg" for J cfg
proof (unfold_locales, goal_cases)
  case (2 x body sig)
  then show ?case
    by (auto simp: egovProfile_def egov_ParseAppSignature_def dest: first_signed_nonempty
        split: sum.splits list.splits option.splits)
qed (auto simp: egovProfile_def egov_Prepare_def self_hosted_Poll_def Let_def)

lemma relay_Prepare_terms:
  assumes "relay_Prepare J cfg net x urls = (r, x')"
  shows "same_terms x x' \<and> qs_Status x' = qs_Status x \<and> qs_Used x' = qs_Used x"
proof -
  have "x' = x \<or> (\<exists>u i. x' = x\<lparr>qs_RelaySignURL := u, qs_RelayID := i\<rparr>)"
    using assms by (auto simp: relay_Prepare_def Let_def split: sum.splits prod.splits option.splits if_splits)
  then show ?thesis by (auto simp: same_terms_def)
qed

interpretation relay: qr_profile "relayProfile J cfg" for J cfg
proof (unfold_locales, goal_cases)
  case (1 net x urls r x')
  then show ?case using relay_Prepare_terms by (simp add: relayProfile_def)
next
  case (3 net x sig)
  then show ?case
    by (auto simp: relayProfile_def relay_Poll_def dest: first_polled_nonempty split: sum.splits option.splits if_splits)
qed (auto simp: relayProfile_def relay_ParseAppSignature_def)

end
