(* ===== verification/Qr.thy ===== *)
theory Qr
  imports Qr_Profiles Verify_Properties
begin

text \<open>
  The orchestrator of the QR signing flow (internal/qr/orchestrator.go): it creates a session,
  accepts the signature the application posts or polls the upstream gateway for it, verifies it
  through the domain service and stores the result or the tokens. Random bytes, the clock, the
  network and the OCSP cache a verification finds are arguments. The step relation at the end
  interleaves the accesses of concurrent requests to the store.
\<close>

section \<open>The orchestrator\<close>

record qr_config =
  qc_DefaultProfile :: string
  qc_DefaultMode :: string
  qc_TTL :: dur
  qc_ReapInterval :: dur
  qc_RequireOCSP :: bool

definition qr_withDefaults :: "qr_config \<Rightarrow> qr_config" where
  "qr_withDefaults c =
     (let c = (if qc_DefaultProfile c = [] then c\<lparr>qc_DefaultProfile := ProfileAgnostic\<rparr> else c);
          c = (if qc_DefaultMode c = [] then c\<lparr>qc_DefaultMode := ModeSign\<rparr> else c);
          c = (if qc_TTL c \<le> 0 then c\<lparr>qc_TTL := 5 * Minute\<rparr> else c)
      in if qc_ReapInterval c \<le> 0
         then c\<lparr>qc_ReapInterval := (if qc_TTL c > Minute then Minute else qc_TTL c)\<rparr> else c)"

record token_response =
  tk_IDToken :: string
  tk_AccessToken :: string
  tk_TokenType :: string
  tk_ExpiresIn :: int

record sign_result =
  sx_Signature :: bytes
  sx_Valid :: bool
  sx_Signers :: "signer list"
  sx_Claims :: "claims option"

record orchestrator =
  qe_issuer :: "(claims \<Rightarrow> string \<Rightarrow> string \<Rightarrow> goerr + token_response) option"
  qe_profiles :: "(string \<times> profiler) list"
  qe_cfg :: qr_config
  qe_webhook :: bool
  qe_MarshalTokens :: "token_response \<Rightarrow> goerr + bytes"
  qe_MarshalSign :: "sign_result \<Rightarrow> goerr + bytes"
  qe_EncodePNG :: "string \<Rightarrow> goerr + bytes"

definition qr_New :: "orchestrator \<Rightarrow> orchestrator" where
  "qr_New orc = orc\<lparr>qe_cfg := qr_withDefaults (qe_cfg orc)\<rparr>"

record qr_create_request =
  qq_Mode :: string
  qq_Profile :: string
  qq_SignMethod :: string
  qq_Format :: string
  qq_Detached :: bool
  qq_Data :: bytes
  qq_Documents :: "qr_document list"
  qq_Description :: string
  qq_ClientID :: string
  qq_State :: string
  qq_Nonce :: string
  qq_CallbackURL :: string
  qq_TTLSeconds :: int

record qr_create_response =
  qp_SessionID :: string
  qp_Status :: qr_status
  qp_QR :: string
  qp_Payload :: string
  qp_EGovMobileLink :: string
  qp_EGovBusinessLink :: string
  qp_DataURL :: string
  qp_SignURL :: string
  qp_ExpiresIn :: int
  qp_State :: string

definition encodeQRBase64 :: "orchestrator \<Rightarrow> string \<Rightarrow> qr_error + string" where
  "encodeQRBase64 orc payload = (case qe_EncodePNG orc payload of Inl e \<Rightarrow> Inl (QrOther e) | Inr png \<Rightarrow> Inr (base64 png))"

text \<open>\<^verbatim>\<open>int(ttl.Seconds())\<close> truncates towards zero.\<close>

definition whole_seconds :: "dur \<Rightarrow> int" where
  "whole_seconds d = (if 0 \<le> d then d div Second else - ((- d) div Second))"

record qr_env =
  qn_net :: qr_net
  qn_id :: "goerr + bytes"
  qn_nonce :: "goerr + bytes"
  qn_now :: time

definition qr_ttl :: "orchestrator \<Rightarrow> qr_create_request \<Rightarrow> dur" where
  "qr_ttl orc req = (if qq_TTLSeconds req > 0 then seconds64 (qq_TTLSeconds req) else qc_TTL (qe_cfg orc))"

definition new_qr_session :: "orchestrator \<Rightarrow> qr_create_request \<Rightarrow> string \<Rightarrow> string \<Rightarrow> string \<Rightarrow> time \<Rightarrow> qr_session" where
  "new_qr_session orc req mode profile i now =
     \<lparr>qs_ID = i, qs_Mode = mode, qs_Profile = profile,
      qs_SignMethod = (if qq_SignMethod req = [] then ''CMS_SIGN_ONLY'' else qq_SignMethod req),
      qs_Format = (if qq_Format req = [] then FormatCMS else qq_Format req), qs_Detached = qq_Detached req, qs_Data = [],
      qs_Documents = qq_Documents req, qs_Description = qq_Description req, qs_ClientID = qq_ClientID req,
      qs_ClientNonce = qq_Nonce req, qs_State = qq_State req, qs_CallbackURL = qq_CallbackURL req, qs_RelayID = [],
      qs_RelaySignURL = [], qs_Status = QrPending, qs_Result = [], qs_Error = None, qs_CreatedAt = now,
      qs_ExpiresAt = now + qr_ttl orc req, qs_Used = False\<rparr>"

text \<open>What is to be signed: a fresh nonce for a login, else the data of the request.\<close>

definition session_payload :: "qr_create_request \<Rightarrow> goerr + bytes \<Rightarrow> qr_session \<Rightarrow> qr_error + qr_session" where
  "session_payload req nonce x =
     (if qs_Mode x = ModeAuth then
        (case nonce of
           Inl e \<Rightarrow> Inl (QrOther e)
         | Inr n \<Rightarrow> Inr (x\<lparr>qs_Data := n, qs_Detached := True, qs_Format := FormatCMS\<rparr>))
      else (let x = x\<lparr>qs_Data := qq_Data req\<rparr>
            in if qs_Data x = [] \<and> qs_Documents x = [] then Inl QrNoData else Inr x))"

definition appPathPrefix :: string where
  "appPathPrefix = ''/qr/a/''"

definition qr_present :: "orchestrator \<Rightarrow> profiler \<Rightarrow> qr_net \<Rightarrow> string \<Rightarrow> qr_create_request \<Rightarrow> qr_session \<Rightarrow>
    qr_error + (qr_session \<times> qr_create_response)" where
  "qr_present orc impl net publicBase req x =
     (let appURL = (if pf_SelfHosted impl then trimSlash publicBase @ appPathPrefix @ qs_ID x else [])
      in case pf_Prepare impl net x \<lparr>ur_DataURL = appURL, ur_SignURL = appURL\<rparr> of
           (Inl e, _) \<Rightarrow> Inl e
         | (Inr art, x) \<Rightarrow>
             (case encodeQRBase64 orc (ar_Payload art) of
                Inl e \<Rightarrow> Inl e
              | Inr qr \<Rightarrow>
                  Inr (x, \<lparr>qp_SessionID = qs_ID x, qp_Status = QrPending, qp_QR = qr, qp_Payload = ar_Payload art,
                           qp_EGovMobileLink = ar_EGovMobileLink art, qp_EGovBusinessLink = ar_EGovBusinessLink art,
                           qp_DataURL = ar_DataURL art, qp_SignURL = ar_SignURL art,
                           qp_ExpiresIn = whole_seconds (qr_ttl orc req), qp_State = qq_State req\<rparr>)))"

text \<open>Everything of a creation up to the write into the store.\<close>

definition qr_prepare :: "orchestrator \<Rightarrow> qr_create_request \<Rightarrow> string \<Rightarrow> qr_env \<Rightarrow>
    qr_error + (qr_session \<times> qr_create_response)" where
  "qr_prepare orc req publicBase env =
     (let mode = (if qq_Mode req = [] then qc_DefaultMode (qe_cfg orc) else qq_Mode req);
          profile = (if qq_Profile req = [] then qc_DefaultProfile (qe_cfg orc) else qq_Profile req)
      in if \<not> mode_valid mode then Inl QrUnsupportedMode
         else if mode = ModeAuth \<and> qe_issuer orc = None then Inl QrAuthUnavailable
         else case map_of (qe_profiles orc) profile of
           None \<Rightarrow> Inl QrUnsupportedProfile
         | Some impl \<Rightarrow>
             (case qn_id env of
                Inl e \<Rightarrow> Inl (QrOther e)
              | Inr b \<Rightarrow>
                  (case session_payload req (qn_nonce env) (new_qr_session orc req mode profile (hex_lower b) (qn_now env)) of
                     Inl e \<Rightarrow> Inl e
                   | Inr x \<Rightarrow> qr_present orc impl (qn_net env) publicBase req x)))"

definition qr_Create :: "'s qr_ops \<Rightarrow> orchestrator \<Rightarrow> 's \<Rightarrow> qr_create_request \<Rightarrow> string \<Rightarrow> qr_env \<Rightarrow>
    (qr_error + qr_create_response) \<times> 's" where
  "qr_Create S orc st req publicBase env =
     (case qr_prepare orc req publicBase env of
        Inl e \<Rightarrow> (Inl e, st)
      | Inr (x, resp) \<Rightarrow>
          (case qo_Create S st x of
             Inl e \<Rightarrow> (Inl e, st)
           | Inr st' \<Rightarrow> (Inr resp, st')))"

definition qr_AppData :: "'s qr_ops \<Rightarrow> orchestrator \<Rightarrow> 's \<Rightarrow> string \<Rightarrow> time \<Rightarrow> qr_error + app_data" where
  "qr_AppData S orc st i now =
     (case qo_Get S st i of
        Inl e \<Rightarrow> Inl e
      | Inr x \<Rightarrow>
          if qr_over now x then Inl QrSessionExpired
          else case map_of (qe_profiles orc) (qs_Profile x) of
            None \<Rightarrow> Inl QrUnsupportedProfile
          | Some impl \<Rightarrow> if \<not> pf_SelfHosted impl then Inl QrAppOnly else pf_AppData impl x)"

section \<open>Verification\<close>

text \<open>White space at the end cannot reach the prefix that is looked for.\<close>

definition looksPEM :: "bytes \<Rightarrow> bool" where
  "looksPEM b = HasPrefix (skip_space b) ''-----BEGIN''"

definition qr_verify_input :: "qr_session \<Rightarrow> bytes \<Rightarrow> verify_input" where
  "qr_verify_input x sig =
     \<lparr>vi_Format = qs_Format x, vi_Signature = sig, vi_Data = qs_Data x, vi_DataRef = \<lparr>dr_Path = [], dr_URL = []\<rparr>,
      vi_Detached = qs_Detached x, vi_InputPEM = looksPEM sig, vi_CheckCertTime = True, vi_ExtractContent = False,
      vi_ExtractClaims = True, vi_Explain = False, vi_Report = False, vi_Receipt = False, vi_TrustedCerts = [],
      vi_RevocationCheck = None, vi_RevocationMethod = [], vi_ResponderURL = [], vi_Archive = False\<rparr>"

definition qr_validate_input :: "bytes \<Rightarrow> validate_input" where
  "qr_validate_input pem =
     \<lparr>va_Cert = pem, va_Format = EncodingPEM, va_Method = MethodOCSP, va_CheckTime = zero_time, va_WantOCSP = True,
      va_TrustedCerts = [], va_ResponderURL = [], va_CRL = []\<rparr>"

record qr_clock =
  qk_now :: time
  qk_verify :: verify_clock
  qk_validate :: time

text \<open>The extra status check, and the result of the mode. A login without an issuer dereferences nil.\<close>

definition qr_status_check :: "orchestrator \<Rightarrow> 'c service \<Rightarrow> lang \<Rightarrow> 'c \<Rightarrow> signer \<Rightarrow> time \<Rightarrow> (qr_error option \<times> 'c) go" where
  "qr_status_check orc s ctx c sg now =
     (if qc_RequireOCSP (qe_cfg orc) then
        (case Validate s ctx c (qr_validate_input (ct_PEM (sg_Certificate sg))) now of
           Panics \<Rightarrow> Panics
         | Returns ((_, Some e), c') \<Rightarrow> Returns (Some (QrOther e), c')
         | Returns ((vr, None), c') \<Rightarrow> Returns (if rs_Revoked (vt_Status vr) then Some QrRevoked else None, c'))
      else Returns (None, c))"

definition marshalled :: "goerr + bytes \<Rightarrow> qr_error + bytes" where
  "marshalled r = (case r of Inl e \<Rightarrow> Inl (QrOther e) | Inr b \<Rightarrow> Inr b)"

definition qr_result :: "orchestrator \<Rightarrow> qr_session \<Rightarrow> bytes \<Rightarrow> verify_output \<Rightarrow> claims \<Rightarrow> (qr_error + bytes) go" where
  "qr_result orc x sig out cl =
     (if qs_Mode x = ModeAuth then
        (case qe_issuer orc of
           None \<Rightarrow> Panics
         | Some issue \<Rightarrow>
             (case issue cl (qs_ClientID x) (qs_ClientNonce x) of
                Inl e \<Rightarrow> Returns (Inl (QrOther e))
              | Inr tok \<Rightarrow> Returns (marshalled (qe_MarshalTokens orc tok))))
      else Returns (marshalled (qe_MarshalSign orc
             \<lparr>sx_Signature = sig, sx_Valid = vo_Valid out, sx_Signers = vo_Signers out, sx_Claims = Some cl\<rparr>)))"

definition qr_signer_result :: "orchestrator \<Rightarrow> 'c service \<Rightarrow> lang \<Rightarrow> 'c \<Rightarrow> qr_session \<Rightarrow> bytes \<Rightarrow> qr_clock \<Rightarrow>
    verify_output \<Rightarrow> signer \<Rightarrow> claims \<Rightarrow> ((qr_error + bytes) \<times> 'c) go" where
  "qr_signer_result orc s ctx c x sig clock out sg cl =
     (case qr_status_check orc s ctx c sg (qk_validate clock) of
        Panics \<Rightarrow> Panics
      | Returns (Some e, c') \<Rightarrow> Returns (Inl e, c')
      | Returns (None, c') \<Rightarrow>
          (case qr_result orc x sig out cl of Panics \<Rightarrow> Panics | Returns r \<Rightarrow> Returns (r, c')))"

definition qr_verify :: "orchestrator \<Rightarrow> 'c service \<Rightarrow> lang \<Rightarrow> 'c \<Rightarrow> qr_session \<Rightarrow> bytes \<Rightarrow> qr_clock \<Rightarrow>
    ((qr_error + bytes) \<times> 'c) go" where
  "qr_verify orc s ctx c x sig clock =
     (case Verify s ctx c (qr_verify_input x sig) (qk_verify clock) of
        Panics \<Rightarrow> Panics
      | Returns (((out, Some e), effs), c') \<Rightarrow> Returns (Inl (QrOther e), c')
      | Returns (((out, None), effs), c') \<Rightarrow>
          (case vo_Signers out of
             [] \<Rightarrow> Returns (Inl QrRejected, c')
           | sg # _ \<Rightarrow>
               if \<not> vo_Valid out then Returns (Inl QrRejected, c')
               else (case sg_Claims sg of
                       None \<Rightarrow> Returns (Inl QrRejected, c')
                     | Some cl \<Rightarrow>
                         if cl_Sub cl = [] then Returns (Inl QrRejected, c')
                         else qr_signer_result orc s ctx c' x sig clock out sg cl)))"

section \<open>Finalising a session\<close>

definition explainError :: "qr_error \<Rightarrow> batch_item_error" where
  "explainError e =
     \<lparr>be_Kind = (if e = QrRejected \<or> e = QrRevoked \<or> e = QrSessionExpired \<or> e = QrUsed \<or> e = QrNoData
                 then ''invalid'' else ''internal''),
      be_Code = [], be_Message = qr_error_text e, be_Action = []\<rparr>"

text \<open>A terminal session that is still to be written, and the error the request returns.\<close>

record qr_write =
  qw_session :: qr_session
  qw_error :: "qr_error option"

definition qr_fail :: "qr_session \<Rightarrow> qr_error \<Rightarrow> qr_write" where
  "qr_fail x e = \<lparr>qw_session = x\<lparr>qs_Status := QrFailed, qs_Error := Some (explainError e)\<rparr>, qw_error = Some e\<rparr>"

definition complete :: "orchestrator \<Rightarrow> 'c service \<Rightarrow> lang \<Rightarrow> 'c \<Rightarrow> qr_session \<Rightarrow> bytes \<Rightarrow> qr_clock \<Rightarrow> (qr_write \<times> 'c) go" where
  "complete orc s ctx c x sig clock =
     (case qr_verify orc s ctx c x sig clock of
        Panics \<Rightarrow> Panics
      | Returns (Inl e, c') \<Rightarrow> Returns (qr_fail x e, c')
      | Returns (Inr res, c') \<Rightarrow>
          Returns (\<lparr>qw_session = x\<lparr>qs_Status := QrVerified, qs_Result := res\<rparr>, qw_error = None\<rparr>, c'))"

definition qr_fireWebhook :: "orchestrator \<Rightarrow> qr_session \<Rightarrow> (string \<times> qr_view) list" where
  "qr_fireWebhook orc x = (if \<not> qe_webhook orc \<or> qs_CallbackURL x = [] then [] else [(qs_CallbackURL x, qr_session_view x)])"

text \<open>A failed session is announced whether it could be stored or not, a verified one only when it could.\<close>

definition qr_finish :: "'s qr_ops \<Rightarrow> orchestrator \<Rightarrow> 's \<Rightarrow> qr_write \<Rightarrow>
    qr_error option \<times> (string \<times> qr_view) list \<times> 's" where
  "qr_finish S orc st w =
     (case qw_error w of
        Some e \<Rightarrow> (Some e, qr_fireWebhook orc (qw_session w), (case qo_Save S st (qw_session w) of Inl _ \<Rightarrow> st | Inr st' \<Rightarrow> st'))
      | None \<Rightarrow>
          (case qo_Save S st (qw_session w) of
             Inl e \<Rightarrow> (Some e, [], st)
           | Inr st' \<Rightarrow> (None, qr_fireWebhook orc (qw_session w), st')))"

section \<open>Submitting and polling\<close>

text \<open>What a submission does with the session it consumed.\<close>

definition submit_consumed :: "orchestrator \<Rightarrow> 'c service \<Rightarrow> lang \<Rightarrow> 'c \<Rightarrow> qr_session \<Rightarrow> bytes \<Rightarrow> qr_clock \<Rightarrow>
    ((qr_error + qr_write) \<times> 'c) go" where
  "submit_consumed orc s ctx c x body clock =
     (if qr_over (qk_now clock) x then Returns (Inl QrSessionExpired, c)
      else case map_of (qe_profiles orc) (qs_Profile x) of
        None \<Rightarrow> Returns (Inl QrUnsupportedProfile, c)
      | Some impl \<Rightarrow>
          (case pf_ParseAppSignature impl x body of
             Inl e \<Rightarrow> Returns (Inr (qr_fail x e), c)
           | Inr sig \<Rightarrow>
               (case complete orc s ctx c x sig clock of
                  Panics \<Rightarrow> Panics
                | Returns (w, c') \<Rightarrow> Returns (Inr w, c'))))"

definition SubmitSignature :: "'s qr_ops \<Rightarrow> orchestrator \<Rightarrow> 'c service \<Rightarrow> lang \<Rightarrow> 's \<Rightarrow> 'c \<Rightarrow> string \<Rightarrow> bytes \<Rightarrow> qr_clock \<Rightarrow>
    ((qr_error option \<times> (string \<times> qr_view) list) \<times> 'c) go \<times> 's" where
  "SubmitSignature S orc s ctx st c i body clock =
     (case qo_Consume S st i of
        Inl e \<Rightarrow> (Returns ((Some e, []), c), st)
      | Inr (x, st) \<Rightarrow>
          (case submit_consumed orc s ctx c x body clock of
             Panics \<Rightarrow> (Panics, st)
           | Returns (Inl e, c') \<Rightarrow> (Returns ((Some e, []), c'), st)
           | Returns (Inr w, c') \<Rightarrow> (case qr_finish S orc st w of (e, hooks, st) \<Rightarrow> (Returns ((e, hooks), c'), st))))"

datatype poll_plan = PollWait | PollReject qr_write | PollSignature bytes

definition plan_poll :: "profiler \<Rightarrow> qr_net \<Rightarrow> qr_session \<Rightarrow> poll_plan" where
  "plan_poll impl net x =
     (case pf_Poll impl net x of
        (sig, fin, Some e) \<Rightarrow> if e = QrRejected then PollReject (qr_fail x e) else PollWait
      | (sig, fin, None) \<Rightarrow> if \<not> fin then PollWait else PollSignature sig)"

definition stored :: "'s qr_ops \<Rightarrow> 's \<Rightarrow> string \<Rightarrow> qr_session option" where
  "stored S st i = (case qo_Get S st i of Inl _ \<Rightarrow> None | Inr x \<Rightarrow> Some x)"

text \<open>
  One poll: the session as finalised, if it was, the requester's own copy, and what is announced.
\<close>

definition pollRelay :: "'s qr_ops \<Rightarrow> orchestrator \<Rightarrow> 'c service \<Rightarrow> lang \<Rightarrow> 's \<Rightarrow> 'c \<Rightarrow> qr_session \<Rightarrow> profiler \<Rightarrow> qr_net \<Rightarrow>
    qr_clock \<Rightarrow> ((qr_session option \<times> qr_session \<times> (string \<times> qr_view) list) \<times> 'c) go \<times> 's" where
  "pollRelay S orc s ctx st c x impl net clock =
     (case plan_poll impl net x of
        PollWait \<Rightarrow> (Returns ((None, x, []), c), st)
      | PollReject w \<Rightarrow>
          (case qr_finish S orc st w of (_, hooks, st) \<Rightarrow> (Returns ((stored S st (qs_ID x), qw_session w, hooks), c), st))
      | PollSignature sig \<Rightarrow>
          (case qo_Consume S st (qs_ID x) of
             Inl _ \<Rightarrow> (Returns ((stored S st (qs_ID x), x, []), c), st)
           | Inr (y, st) \<Rightarrow>
               (case complete orc s ctx c y sig clock of
                  Panics \<Rightarrow> (Panics, st)
                | Returns (w, c') \<Rightarrow>
                    (case qr_finish S orc st w of (_, hooks, st) \<Rightarrow> (Returns ((stored S st (qs_ID x), x, hooks), c'), st)))))"

definition qr_Get :: "'s qr_ops \<Rightarrow> orchestrator \<Rightarrow> 'c service \<Rightarrow> lang \<Rightarrow> 's \<Rightarrow> 'c \<Rightarrow> string \<Rightarrow> qr_net \<Rightarrow> qr_clock \<Rightarrow>
    (((qr_error + qr_view) \<times> (string \<times> qr_view) list) \<times> 'c) go \<times> 's" where
  "qr_Get S orc s ctx st c i net clock =
     (case qo_Get S st i of
        Inl e \<Rightarrow> (Returns ((Inl e, []), c), st)
      | Inr x \<Rightarrow>
          if \<not> qr_Terminal (qs_Status x) \<and> qr_over (qk_now clock) x then
            (let x = x\<lparr>qs_Status := QrExpired\<rparr>
             in (Returns ((Inr (qr_session_view x), []), c), case qo_Save S st x of Inl _ \<Rightarrow> st | Inr st' \<Rightarrow> st'))
          else if \<not> qr_Terminal (qs_Status x) then
            (case map_of (qe_profiles orc) (qs_Profile x) of
               None \<Rightarrow> (Returns ((Inr (qr_session_view x), []), c), st)
             | Some impl \<Rightarrow>
                 if pf_SelfHosted impl then (Returns ((Inr (qr_session_view x), []), c), st)
                 else (case pollRelay S orc s ctx st c x impl net clock of
                         (Panics, st) \<Rightarrow> (Panics, st)
                       | (Returns ((Some y, _, hooks), c'), st) \<Rightarrow> (Returns ((Inr (qr_session_view y), hooks), c'), st)
                       | (Returns ((None, x, hooks), c'), st) \<Rightarrow> (Returns ((Inr (qr_session_view x), hooks), c'), st)))
          else (Returns ((Inr (qr_session_view x), []), c), st))"

definition ActiveSessions :: "'s qr_ops \<Rightarrow> 's \<Rightarrow> nat" where
  "ActiveSessions S st = qo_Len S st"

definition qr_reap_tick :: "'s qr_ops \<Rightarrow> 's \<Rightarrow> time \<Rightarrow> 's" where
  "qr_reap_tick S st now = (case qo_Reap S st now of Inl _ \<Rightarrow> st | Inr (_, st') \<Rightarrow> st')"

end
