(* ===== verification/Qr_Properties.thy ===== *)
theory Qr_Properties
  imports Qr
begin

text \<open>
  Correctness of the QR signing flow: concurrent requests as a step relation over the store, and
  what a verified session stands for in every reachable state, over either store.
\<close>

section \<open>Concurrent requests\<close>

text \<open>
  A request that has read or consumed a session works on its own copy. A frame is what such a
  request has still to do: to write a session, or to consume one for the signature it polled.
  \<open>qy_created\<close> records the sessions as they were created and \<open>qy_log\<close> the instants at which a request
  took a session for live; no operation reads them.
\<close>

datatype qr_frame = Write qr_session | Polled string bytes

record 's qr_sys =
  qy_store :: 's
  qy_frames :: "qr_frame list"
  qy_created :: "qr_session list"
  qy_log :: "(string \<times> time) list"

definition readable :: "'s qr_ops \<Rightarrow> orchestrator \<Rightarrow> 's \<Rightarrow> string \<Rightarrow> time \<Rightarrow> qr_session \<Rightarrow> profiler \<Rightarrow> bool" where
  "readable S orc st i now x impl \<longleftrightarrow> qo_Get S st i = Inr x \<and> \<not> qr_Terminal (qs_Status x) \<and> \<not> qr_over now x \<and>
     map_of (qe_profiles orc) (qs_Profile x) = Some impl \<and> \<not> pf_SelfHosted impl"

inductive qr_step :: "'s qr_ops \<Rightarrow> orchestrator \<Rightarrow> 'c service \<Rightarrow> lang \<Rightarrow> 's qr_sys \<Rightarrow> 's qr_sys \<Rightarrow> bool"
  for S :: "'s qr_ops" and orc :: orchestrator and s :: "'c service" and ctx :: lang where
  qstep_create: "qr_prepare orc req base env = Inr (x, resp) \<Longrightarrow> qo_Create S (qy_store y) x = Inr st' \<Longrightarrow>
    qr_step S orc s ctx y (y\<lparr>qy_store := st', qy_created := x # qy_created y\<rparr>)"
| qstep_expire: "qo_Get S (qy_store y) i = Inr x \<Longrightarrow> \<not> qr_Terminal (qs_Status x) \<Longrightarrow> qr_over now x \<Longrightarrow>
    qr_step S orc s ctx y (y\<lparr>qy_frames := Write (x\<lparr>qs_Status := QrExpired\<rparr>) # qy_frames y\<rparr>)"
| qstep_reject: "readable S orc (qy_store y) i now x impl \<Longrightarrow> plan_poll impl net x = PollReject w \<Longrightarrow>
    qr_step S orc s ctx y (y\<lparr>qy_frames := Write (qw_session w) # qy_frames y\<rparr>)"
| qstep_polled: "readable S orc (qy_store y) i now x impl \<Longrightarrow> plan_poll impl net x = PollSignature sig \<Longrightarrow>
    qr_step S orc s ctx y (y\<lparr>qy_frames := Polled (qs_ID x) sig # qy_frames y, qy_log := (qs_ID x, now) # qy_log y\<rparr>)"
| qstep_complete: "Polled i sig \<in> set (qy_frames y) \<Longrightarrow> qo_Consume S (qy_store y) i = Inr (x, st') \<Longrightarrow>
    complete orc s ctx c x sig clock = Returns (w, c') \<Longrightarrow>
    qr_step S orc s ctx y (y\<lparr>qy_store := st', qy_frames := Write (qw_session w) # remove1 (Polled i sig) (qy_frames y)\<rparr>)"
| qstep_submit: "qo_Consume S (qy_store y) i = Inr (x, st') \<Longrightarrow> submit_consumed orc s ctx c x body clock = Returns (Inr w, c') \<Longrightarrow>
    qr_step S orc s ctx y (y\<lparr>qy_store := st', qy_frames := Write (qw_session w) # qy_frames y,
      qy_log := (qs_ID x, qk_now clock) # qy_log y\<rparr>)"
| qstep_spent: "qo_Consume S (qy_store y) i = Inr (x, st') \<Longrightarrow> qr_step S orc s ctx y (y\<lparr>qy_store := st'\<rparr>)"
| qstep_write: "Write x \<in> set (qy_frames y) \<Longrightarrow> qo_Save S (qy_store y) x = Inr st' \<Longrightarrow>
    qr_step S orc s ctx y (y\<lparr>qy_store := st', qy_frames := remove1 (Write x) (qy_frames y)\<rparr>)"
| qstep_drop: "f \<in> set (qy_frames y) \<Longrightarrow> qr_step S orc s ctx y (y\<lparr>qy_frames := remove1 f (qy_frames y)\<rparr>)"
| qstep_reap: "qo_Reap S (qy_store y) now = Inr (n, st') \<Longrightarrow> qr_step S orc s ctx y (y\<lparr>qy_store := st'\<rparr>)"

inductive qr_reachable :: "'s qr_ops \<Rightarrow> orchestrator \<Rightarrow> 'c service \<Rightarrow> lang \<Rightarrow> 's \<Rightarrow> 's qr_sys \<Rightarrow> bool"
  for S :: "'s qr_ops" and orc :: orchestrator and s :: "'c service" and ctx :: lang and st0 :: 's where
  qstart: "qr_reachable S orc s ctx st0 \<lparr>qy_store = st0, qy_frames = [], qy_created = [], qy_log = []\<rparr>"
| qnext: "qr_reachable S orc s ctx st0 y \<Longrightarrow> qr_step S orc s ctx y y' \<Longrightarrow> qr_reachable S orc s ctx st0 y'"

section \<open>What a verified session stands for\<close>

definition status_cleared :: "orchestrator \<Rightarrow> 'c service \<Rightarrow> lang \<Rightarrow> 'c \<Rightarrow> signer \<Rightarrow> time \<Rightarrow> bool" where
  "status_cleared orc s ctx c sg now \<longleftrightarrow> (qc_RequireOCSP (qe_cfg orc) \<longrightarrow>
     (\<exists>vr c'. Validate s ctx c (qr_validate_input (ct_PEM (sg_Certificate sg))) now = Returns ((vr, None), c') \<and>
        \<not> rs_Revoked (vt_Status vr)))"

definition result_of_mode :: "orchestrator \<Rightarrow> qr_session \<Rightarrow> bytes \<Rightarrow> verify_output \<Rightarrow> claims \<Rightarrow> bytes \<Rightarrow> bool" where
  "result_of_mode orc x sig out cl res \<longleftrightarrow>
     (if qs_Mode x = ModeAuth
      then \<exists>issue tok. qe_issuer orc = Some issue \<and> issue cl (qs_ClientID x) (qs_ClientNonce x) = Inr tok \<and>
             qe_MarshalTokens orc tok = Inr res
      else qe_MarshalSign orc \<lparr>sx_Signature = sig, sx_Valid = True, sx_Signers = vo_Signers out, sx_Claims = Some cl\<rparr> = Inr res)"

definition verified_by :: "orchestrator \<Rightarrow> 'c service \<Rightarrow> lang \<Rightarrow> qr_session \<Rightarrow> bytes \<Rightarrow> bool" where
  "verified_by orc s ctx x res \<longleftrightarrow>
     (\<exists>c sig (clock :: qr_clock) out effs c' sg rest cl.
        Verify s ctx c (qr_verify_input x sig) (qk_verify clock) = Returns (((out, None), effs), c') \<and>
        vo_Valid out \<and> vo_Signers out = sg # rest \<and> sg_Claims sg = Some cl \<and> cl_Sub cl \<noteq> [] \<and>
        status_cleared orc s ctx c' sg (qk_validate clock) \<and> result_of_mode orc x sig out cl res)"

lemma qr_verify_verified:
  assumes "qr_verify orc s ctx c x sig clock = Returns (Inr res, c')"
  shows "verified_by orc s ctx x res"
proof -
  from assms obtain out effs c1 sg rest cl where
    v: "Verify s ctx c (qr_verify_input x sig) (qk_verify clock) = Returns (((out, None), effs), c1)"
    and out: "vo_Valid out" "vo_Signers out = sg # rest" "sg_Claims sg = Some cl" "cl_Sub cl \<noteq> []"
    and r: "qr_signer_result orc s ctx c1 x sig clock out sg cl = Returns (Inr res, c')"
    by (auto simp: qr_verify_def split: go.splits option.splits list.splits if_splits)
  from r obtain c2 where st: "qr_status_check orc s ctx c1 sg (qk_validate clock) = Returns (None, c2)"
    and res: "qr_result orc x sig out cl = Returns (Inr res)"
    by (auto simp: qr_signer_result_def split: go.splits option.splits)
  from st have "status_cleared orc s ctx c1 sg (qk_validate clock)"
    by (auto simp: qr_status_check_def status_cleared_def split: go.splits option.splits if_splits)
  moreover from res out(1) have "result_of_mode orc x sig out cl res"
    by (auto simp: qr_result_def result_of_mode_def marshalled_def split: sum.splits option.splits if_splits)
  ultimately show ?thesis unfolding verified_by_def using v out by blast
qed

lemma verified_by_terms:
  assumes "same_terms x y"
  shows "verified_by orc s ctx x = verified_by orc s ctx y"
  using assms by (simp add: fun_eq_iff verified_by_def result_of_mode_def qr_verify_input_def same_terms_def)

text \<open>What stands behind a session: its creation and, when it is verified, a verification.\<close>

definition qr_backed :: "orchestrator \<Rightarrow> 'c service \<Rightarrow> lang \<Rightarrow> qr_session list \<Rightarrow> (string \<times> time) list \<Rightarrow> qr_session \<Rightarrow> bool" where
  "qr_backed orc s ctx created log x \<longleftrightarrow> (\<exists>x0 \<in> set created. same_terms x0 x) \<and>
     (qs_Status x = QrVerified \<longrightarrow> verified_by orc s ctx x (qs_Result x) \<and> qs_ID x \<in> fst ` set log)"

lemma qr_backed_mono:
  "qr_backed orc s ctx created log x \<Longrightarrow> set created \<subseteq> set created' \<Longrightarrow> set log \<subseteq> set log' \<Longrightarrow>
     qr_backed orc s ctx created' log' x"
  by (auto simp: qr_backed_def)

lemma qr_backed_closed:
  assumes "qr_backed orc s ctx created log x" and "same_terms x y" and "qs_Status y \<noteq> QrVerified"
  shows "qr_backed orc s ctx created log y"
  using assms same_terms_trans by (auto simp: qr_backed_def)

lemma verified_by_update [simp]:
  "verified_by orc s ctx (x\<lparr>qs_Used := u\<rparr>) = verified_by orc s ctx x"
  "verified_by orc s ctx (x\<lparr>qs_Status := st\<rparr>) = verified_by orc s ctx x"
  "verified_by orc s ctx (x\<lparr>qs_Result := r\<rparr>) = verified_by orc s ctx x"
  "verified_by orc s ctx (x\<lparr>qs_Error := e\<rparr>) = verified_by orc s ctx x"
  by (rule verified_by_terms, simp add: same_terms_def)+

lemma qr_backed_used [simp]: "qr_backed orc s ctx created log (x\<lparr>qs_Used := u\<rparr>) = qr_backed orc s ctx created log x"
  by (simp add: qr_backed_def)

lemma qr_fail_backed: "qr_backed orc s ctx created log x \<Longrightarrow> qr_backed orc s ctx created log (qw_session (qr_fail x e))"
  by (auto simp: qr_fail_def intro: qr_backed_closed)

lemma complete_backed:
  assumes "qr_backed orc s ctx created log x" and "qs_ID x \<in> fst ` set log"
    and "complete orc s ctx c x sig clock = Returns (w, c')"
  shows "qr_backed orc s ctx created log (qw_session w)"
proof -
  from assms(3) consider (failed) e where "w = qr_fail x e"
    | (verified) res c2 where "qr_verify orc s ctx c x sig clock = Returns (Inr res, c2)"
      "qw_session w = x\<lparr>qs_Status := QrVerified, qs_Result := res\<rparr>"
    by (auto simp: complete_def split: go.splits sum.splits)
  then show ?thesis
  proof cases
    case failed
    with assms(1) qr_fail_backed show ?thesis by blast
  next
    case verified
    from qr_verify_verified [OF verified(1)] assms(1,2) show ?thesis by (auto simp: verified(2) qr_backed_def)
  qed
qed

lemma submit_live: "submit_consumed orc s ctx c x body clock = Returns (Inr w, c') \<Longrightarrow> qk_now clock < qs_ExpiresAt x"
  by (auto simp: submit_consumed_def qr_over_def split: if_splits)

lemma submit_backed:
  assumes "qr_backed orc s ctx created log x" and "submit_consumed orc s ctx c x body clock = Returns (Inr w, c')"
  shows "qr_backed orc s ctx created ((qs_ID x, now) # log) (qw_session w)"
proof -
  have x: "qr_backed orc s ctx created ((qs_ID x, now) # log) x" using assms(1) by (rule qr_backed_mono) auto
  from assms(2) have "(\<exists>e. w = qr_fail x e) \<or> (\<exists>sig c2. complete orc s ctx c x sig clock = Returns (w, c2))"
    by (auto simp: submit_consumed_def split: if_splits option.splits sum.splits go.splits)
  then show ?thesis
  proof
    assume "\<exists>e. w = qr_fail x e"
    with x qr_fail_backed show ?thesis by blast
  next
    assume "\<exists>sig c2. complete orc s ctx c x sig clock = Returns (w, c2)"
    with complete_backed [OF x] show ?thesis by auto
  qed
qed

text \<open>Nothing but the profile and the payload is decided when a session is prepared.\<close>

definition profiles_ok :: "orchestrator \<Rightarrow> bool" where
  "profiles_ok orc \<longleftrightarrow> (\<forall>p impl. map_of (qe_profiles orc) p = Some impl \<longrightarrow> qr_profile impl)"

lemma qr_prepare_pending:
  assumes "profiles_ok orc" and "qr_prepare orc req base env = Inr (x, resp)"
  shows "qs_Status x = QrPending \<and> \<not> qs_Used x \<and> (qs_Mode x = ModeAuth \<longrightarrow>
    qs_Detached x \<and> qs_Format x = FormatCMS \<and> qn_nonce env = Inr (qs_Data x) \<and> qe_issuer orc \<noteq> None)"
proof -
  from assms(2) obtain impl mode profile b x1 art where impl: "map_of (qe_profiles orc) profile = Some impl"
    and auth: "mode = ModeAuth \<longrightarrow> qe_issuer orc \<noteq> None"
    and x1: "session_payload req (qn_nonce env) (new_qr_session orc req mode profile (hex_lower b) (qn_now env)) = Inr x1"
    and p: "qr_present orc impl (qn_net env) base req x1 = Inr (x, resp)"
    by (auto simp: qr_prepare_def Let_def split: if_splits option.splits sum.splits)
  from p obtain r urls where "pf_Prepare impl (qn_net env) x1 urls = (r, x)"
    by (auto simp: qr_present_def Let_def split: sum.splits prod.splits)
  with assms(1) impl qr_profile.prepare_terms [of impl "qn_net env" x1 urls r x]
  have "same_terms x1 x \<and> qs_Status x = qs_Status x1 \<and> qs_Used x = qs_Used x1" by (auto simp: profiles_ok_def)
  moreover from x1 have "qs_Status x1 = QrPending \<and> \<not> qs_Used x1 \<and> qs_Mode x1 = mode \<and> (mode = ModeAuth \<longrightarrow>
      qs_Detached x1 \<and> qs_Format x1 = FormatCMS \<and> qn_nonce env = Inr (qs_Data x1))"
    by (auto simp: session_payload_def new_qr_session_def Let_def split: if_splits sum.splits)
  ultimately show ?thesis using auth by (auto simp: same_terms_def)
qed

section \<open>The invariant of concurrent requests\<close>

lemma plan_poll_reject: "plan_poll impl net x = PollReject w \<Longrightarrow> w = qr_fail x QrRejected"
  by (auto simp: plan_poll_def split: prod.splits option.splits if_splits)

definition created_ok :: "orchestrator \<Rightarrow> qr_session \<Rightarrow> bool" where
  "created_ok orc x \<longleftrightarrow> qs_Status x = QrPending \<and> \<not> qs_Used x \<and>
     (qs_Mode x = ModeAuth \<longrightarrow> qs_Detached x \<and> qs_Format x = FormatCMS \<and> qe_issuer orc \<noteq> None)"

definition qlog_ok :: "qr_session list \<Rightarrow> (string \<times> time) list \<Rightarrow> bool" where
  "qlog_ok created log \<longleftrightarrow> (\<forall>(i, t) \<in> set log. \<exists>x \<in> set created. qs_ID x = i \<and> t < qs_ExpiresAt x)"

definition frame_ok :: "orchestrator \<Rightarrow> 'c service \<Rightarrow> lang \<Rightarrow> qr_session list \<Rightarrow> (string \<times> time) list \<Rightarrow> qr_frame \<Rightarrow> bool" where
  "frame_ok orc s ctx created log f \<longleftrightarrow>
     (case f of Write x \<Rightarrow> qr_backed orc s ctx created log x | Polled i sig \<Rightarrow> i \<in> fst ` set log)"

lemma frame_ok_mono:
  "frame_ok orc s ctx created log f \<Longrightarrow> set created \<subseteq> set created' \<Longrightarrow> set log \<subseteq> set log' \<Longrightarrow>
     frame_ok orc s ctx created' log' f"
  by (cases f) (auto simp: frame_ok_def intro: qr_backed_mono)

lemma qlog_ok_mono: "qlog_ok created log \<Longrightarrow> qlog_ok (x # created) log"
  by (fastforce simp: qlog_ok_def)

lemma qlog_ok_add:
  "qlog_ok created log \<Longrightarrow> qr_backed orc s ctx created log' x \<Longrightarrow> t < qs_ExpiresAt x \<Longrightarrow> qlog_ok created ((qs_ID x, t) # log)"
  by (auto simp: qlog_ok_def qr_backed_def same_terms_def)

definition holds_backed :: "('s \<Rightarrow> string \<rightharpoonup> qr_session) \<Rightarrow> orchestrator \<Rightarrow> 'c service \<Rightarrow> lang \<Rightarrow> qr_session list \<Rightarrow>
    (string \<times> time) list \<Rightarrow> 's \<Rightarrow> bool" where
  "holds_backed held orc s ctx created log st \<longleftrightarrow>
     (\<forall>i x. held st i = Some x \<longrightarrow> qs_ID x = i \<and> qr_backed orc s ctx created log x)"

lemma holds_backed_mono:
  "holds_backed held orc s ctx created log st \<Longrightarrow> set created \<subseteq> set created' \<Longrightarrow> set log \<subseteq> set log' \<Longrightarrow>
     holds_backed held orc s ctx created' log' st"
  unfolding holds_backed_def using qr_backed_mono by blast

definition qr_inv :: "('s \<Rightarrow> string \<rightharpoonup> qr_session) \<Rightarrow> ('s \<Rightarrow> bool) \<Rightarrow> orchestrator \<Rightarrow> 'c service \<Rightarrow> lang \<Rightarrow> 's qr_sys \<Rightarrow> bool" where
  "qr_inv held ok orc s ctx y \<longleftrightarrow> ok (qy_store y) \<and> holds_backed held orc s ctx (qy_created y) (qy_log y) (qy_store y) \<and>
     (\<forall>f \<in> set (qy_frames y). frame_ok orc s ctx (qy_created y) (qy_log y) f) \<and>
     qlog_ok (qy_created y) (qy_log y) \<and> (\<forall>x \<in> set (qy_created y). created_ok orc x)"

context qr_store
begin

lemma consumed_backed:
  assumes "ok st" and "holds_backed held orc s ctx created log st" and "qo_Consume S st i = Inr (x, st')"
  shows "ok st' \<and> holds_backed held orc s ctx created log st' \<and> qs_ID x = i \<and> qr_backed orc s ctx created log x"
proof -
  from consume_Inr [OF assms(1,3)] obtain x0 where "held st i = Some x0" "\<not> qs_Used x0" "x = x0\<lparr>qs_Used := True\<rparr>" "ok st'"
    "held st' = (held st)(i \<mapsto> x0\<lparr>qs_Used := True\<rparr>)" .
  with assms(2) show ?thesis by (auto simp: holds_backed_def)
qed

lemma written_backed:
  assumes "ok st" and "holds_backed held orc s ctx created log st" and "qr_backed orc s ctx created log x"
    and "qo_Save S st x = Inr st' \<or> qo_Create S st x = Inr st'"
  shows "ok st' \<and> holds_backed held orc s ctx created log st'"
proof -
  have "ok st' \<and> held st' = (held st)(qs_ID x \<mapsto> x)"
    using assms(4) save [OF assms(1), of x] create [OF assms(1), of x] by auto
  with assms(2,3) show ?thesis by (auto simp: holds_backed_def)
qed

lemma read_backed:
  "ok st \<Longrightarrow> holds_backed held orc s ctx created log st \<Longrightarrow> qo_Get S st i = Inr x \<Longrightarrow> qr_backed orc s ctx created log x"
  using get_Inr [of st i x] by (auto simp: holds_backed_def)

lemma qr_step_inv:
  assumes "profiles_ok orc" and "qr_step S orc s ctx y y'" and "qr_inv held ok orc s ctx y"
  shows "qr_inv held ok orc s ctx y'"
proof -
  let ?B = "holds_backed held orc s ctx" and ?F = "frame_ok orc s ctx"
  from assms(3) have inv: "ok (qy_store y)" "?B (qy_created y) (qy_log y) (qy_store y)"
    "\<And>f. f \<in> set (qy_frames y) \<Longrightarrow> ?F (qy_created y) (qy_log y) f" "qlog_ok (qy_created y) (qy_log y)"
    "\<And>x. x \<in> set (qy_created y) \<Longrightarrow> created_ok orc x" by (simp_all add: qr_inv_def)
  from assms(2) show ?thesis
  proof cases
    case (qstep_create req base env x resp st')
    from qr_prepare_pending [OF assms(1) qstep_create(2)] have c: "created_ok orc x" by (auto simp: created_ok_def)
    have new: "qr_backed orc s ctx (x # qy_created y) (qy_log y) x" using c by (auto simp: qr_backed_def created_ok_def)
    have "?B (x # qy_created y) (qy_log y) (qy_store y)" using inv(2) by (rule holds_backed_mono) auto
    with written_backed [OF inv(1) this new] qstep_create(3)
    have "ok st' \<and> ?B (x # qy_created y) (qy_log y) st'" by blast
    moreover have "?F (x # qy_created y) (qy_log y) f" if "f \<in> set (qy_frames y)" for f
      using inv(3) [OF that] by (rule frame_ok_mono) auto
    ultimately show ?thesis using qstep_create(1) c inv(4,5) qlog_ok_mono by (simp add: qr_inv_def)
  next
    case (qstep_expire i x now)
    from read_backed [OF inv(1,2) qstep_expire(2)] have "?F (qy_created y) (qy_log y) (Write (x\<lparr>qs_Status := QrExpired\<rparr>))"
      by (auto simp: frame_ok_def intro: qr_backed_closed)
    with qstep_expire(1) inv show ?thesis by (simp add: qr_inv_def)
  next
    case (qstep_reject i now x impl net w)
    then have "qo_Get S (qy_store y) i = Inr x" by (simp add: readable_def)
    from read_backed [OF inv(1,2) this] have "?F (qy_created y) (qy_log y) (Write (qw_session w))"
      using plan_poll_reject [OF qstep_reject(3)] qr_fail_backed by (simp add: frame_ok_def)
    with qstep_reject(1) inv show ?thesis by (simp add: qr_inv_def)
  next
    case (qstep_polled i now x impl net sig)
    then have r: "qo_Get S (qy_store y) i = Inr x" "now < qs_ExpiresAt x" by (simp_all add: readable_def qr_over_def)
    let ?log = "(qs_ID x, now) # qy_log y"
    have "qlog_ok (qy_created y) ?log" by (rule qlog_ok_add [OF inv(4) read_backed [OF inv(1,2) r(1)] r(2)])
    moreover have "?B (qy_created y) ?log (qy_store y)" using inv(2) by (rule holds_backed_mono) auto
    moreover have "?F (qy_created y) ?log f" if "f \<in> set (qy_frames y)" for f using inv(3) [OF that] by (rule frame_ok_mono) auto
    moreover have "?F (qy_created y) ?log (Polled (qs_ID x) sig)" by (simp add: frame_ok_def)
    ultimately show ?thesis using qstep_polled(1) inv(1,5) by (simp add: qr_inv_def)
  next
    case (qstep_complete i sig x st' c clock w c')
    note x = consumed_backed [OF inv(1,2) qstep_complete(3)]
    from inv(3) [OF qstep_complete(2)] x have "qs_ID x \<in> fst ` set (qy_log y)" by (simp add: frame_ok_def)
    from complete_backed [OF _ this qstep_complete(4)] x have "?F (qy_created y) (qy_log y) (Write (qw_session w))"
      by (simp add: frame_ok_def)
    then have "?F (qy_created y) (qy_log y) f" if "f \<in> set (Write (qw_session w) # remove1 (Polled i sig) (qy_frames y))" for f
      using inv(3) [of f] that set_remove1_subset [of "Polled i sig" "qy_frames y"] by auto
    with qstep_complete(1) inv x show ?thesis by (simp add: qr_inv_def)
  next
    case (qstep_submit i x st' c body clock w c')
    note x = consumed_backed [OF inv(1,2) qstep_submit(2)]
    let ?log = "(qs_ID x, qk_now clock) # qy_log y"
    have "qlog_ok (qy_created y) ?log" using qlog_ok_add [OF inv(4) _ submit_live [OF qstep_submit(3)]] x by blast
    moreover have "?B (qy_created y) ?log st'" using conjunct1 [OF conjunct2 [OF x]] by (rule holds_backed_mono) auto
    moreover have "?F (qy_created y) ?log f" if "f \<in> set (qy_frames y)" for f using inv(3) [OF that] by (rule frame_ok_mono) auto
    moreover have "?F (qy_created y) ?log (Write (qw_session w))" using submit_backed [OF _ qstep_submit(3)] x by (simp add: frame_ok_def)
    ultimately show ?thesis using qstep_submit(1) inv(5) x by (simp add: qr_inv_def)
  next
    case (qstep_spent i x st')
    with consumed_backed [OF inv(1,2) qstep_spent(2)] inv show ?thesis by (simp add: qr_inv_def)
  next
    case (qstep_write x st')
    from inv(3) [OF qstep_write(2)] have "qr_backed orc s ctx (qy_created y) (qy_log y) x" by (simp add: frame_ok_def)
    from written_backed [OF inv(1,2) this] qstep_write(3) have "ok st' \<and> ?B (qy_created y) (qy_log y) st'" by blast
    moreover have "?F (qy_created y) (qy_log y) f" if "f \<in> set (remove1 (Write x) (qy_frames y))" for f
      using inv(3) [of f] that set_remove1_subset [of "Write x" "qy_frames y"] by blast
    ultimately show ?thesis using qstep_write(1) inv(4,5) by (simp add: qr_inv_def)
  next
    case (qstep_drop f)
    moreover have "?F (qy_created y) (qy_log y) g" if "g \<in> set (remove1 f (qy_frames y))" for g
      using inv(3) [of g] that set_remove1_subset [of f "qy_frames y"] by blast
    ultimately show ?thesis using inv by (simp add: qr_inv_def)
  next
    case (qstep_reap now n st')
    from reap [OF inv(1), of now] qstep_reap(2) have "ok st'" "\<And>i x. held st' i = Some x \<Longrightarrow> held (qy_store y) i = Some x"
      by (auto split: option.splits if_splits)
    then have "ok st' \<and> ?B (qy_created y) (qy_log y) st'" using inv(2) unfolding holds_backed_def by blast
    with qstep_reap(1) inv show ?thesis by (simp add: qr_inv_def)
  qed
qed

lemma qr_reachable_inv:
  assumes "qr_reachable S orc s ctx st0 y" and "profiles_ok orc" and "ok st0" and "\<And>i. held st0 i = None"
  shows "qr_inv held ok orc s ctx y"
  using assms(1)
proof (induction rule: qr_reachable.induct)
  case qstart
  with assms(3,4) show ?case by (simp add: qr_inv_def holds_backed_def qlog_ok_def)
next
  case (qnext y y')
  from qr_step_inv [OF assms(2) qnext(2) qnext(3)] show ?case .
qed

end

section \<open>The handlers are runs of these steps\<close>

text \<open>One request that nobody interrupts takes the system from state to state by steps.\<close>

definition qr_steps :: "'s qr_ops \<Rightarrow> orchestrator \<Rightarrow> 'c service \<Rightarrow> lang \<Rightarrow> 's qr_sys \<Rightarrow> 's qr_sys \<Rightarrow> bool" where
  "qr_steps S orc s ctx = (qr_step S orc s ctx)\<^sup>*\<^sup>*"

lemma qr_reachable_steps:
  "qr_steps S orc s ctx y y' \<Longrightarrow> qr_reachable S orc s ctx st0 y \<Longrightarrow> qr_reachable S orc s ctx st0 y'"
  unfolding qr_steps_def by (induction rule: rtranclp_induct) (auto intro: qr_reachable.qnext)

lemma qr_steps_two: "qr_step S orc s ctx y y1 \<Longrightarrow> qr_step S orc s ctx y1 y2 \<Longrightarrow> qr_steps S orc s ctx y y2"
  unfolding qr_steps_def by (meson converse_rtranclp_into_rtranclp r_into_rtranclp)

text \<open>Writing the frame that was just added, whether the store accepts it or not.\<close>

lemma finish_step:
  assumes "qy_frames y = Write (qw_session w) # fs" and "qr_finish S orc (qy_store y) w = (e, hooks, st')"
  shows "qr_step S orc s ctx y (y\<lparr>qy_store := st', qy_frames := fs\<rparr>)"
proof (cases "qo_Save S (qy_store y) (qw_session w)")
  case (Inl er)
  with assms(2) have "st' = qy_store y" by (auto simp: qr_finish_def split: option.splits)
  moreover have "qr_step S orc s ctx y (y\<lparr>qy_frames := remove1 (Write (qw_session w)) (qy_frames y)\<rparr>)"
    by (rule qstep_drop) (simp add: assms(1))
  ultimately show ?thesis using assms(1) by simp
next
  case (Inr st1)
  with assms(2) have "st' = st1" by (auto simp: qr_finish_def split: option.splits)
  moreover have "qr_step S orc s ctx y (y\<lparr>qy_store := st1, qy_frames := remove1 (Write (qw_session w)) (qy_frames y)\<rparr>)"
    by (rule qstep_write [OF _ Inr]) (simp add: assms(1))
  ultimately show ?thesis using assms(1) by simp
qed

lemma submit_steps:
  assumes "SubmitSignature S orc s ctx (qy_store y) c i body clock = (r, st')"
  shows "\<exists>log. qr_steps S orc s ctx y (y\<lparr>qy_store := st', qy_log := log\<rparr>)"
proof (cases "qo_Consume S (qy_store y) i")
  case (Inl e)
  with assms have "y\<lparr>qy_store := st', qy_log := qy_log y\<rparr> = y" by (simp add: SubmitSignature_def)
  then show ?thesis by (metis qr_steps_def rtranclp.rtrancl_refl)
next
  case (Inr p)
  obtain x st1 where p: "p = (x, st1)" by (cases p)
  note con = Inr [unfolded p]
  consider (spent) "st' = st1" | (written) w c' e hooks where "submit_consumed orc s ctx c x body clock = Returns (Inr w, c')"
      "qr_finish S orc st1 w = (e, hooks, st')"
    using assms con by (fastforce simp: SubmitSignature_def split: go.splits sum.splits prod.splits)
  then show ?thesis
  proof cases
    case spent
    from qstep_spent [OF con] have "qr_steps S orc s ctx y (y\<lparr>qy_store := st', qy_log := qy_log y\<rparr>)"
      unfolding qr_steps_def spent by auto
    then show ?thesis by blast
  next
    case written
    let ?log = "(qs_ID x, qk_now clock) # qy_log y"
    let ?y = "y\<lparr>qy_store := st1, qy_frames := Write (qw_session w) # qy_frames y, qy_log := ?log\<rparr>"
    have "qr_step S orc s ctx ?y (?y\<lparr>qy_store := st', qy_frames := qy_frames y\<rparr>)"
      by (rule finish_step) (use written(2) in simp_all)
    moreover have "?y\<lparr>qy_store := st', qy_frames := qy_frames y\<rparr> = y\<lparr>qy_store := st', qy_log := ?log\<rparr>" by (cases y) simp
    ultimately show ?thesis using qr_steps_two [OF qstep_submit [OF con written(1)]] by metis
  qed
qed

lemma poll_steps:
  assumes "readable S orc (qy_store y) i (qk_now clock) x impl"
    and "pollRelay S orc s ctx (qy_store y) c x impl net clock = (r, st')"
  shows "\<exists>log. qr_steps S orc s ctx y (y\<lparr>qy_store := st', qy_log := log\<rparr>)"
proof (cases "plan_poll impl net x")
  case PollWait
  with assms(2) have "y\<lparr>qy_store := st', qy_log := qy_log y\<rparr> = y" by (simp add: pollRelay_def)
  then show ?thesis by (metis qr_steps_def rtranclp.rtrancl_refl)
next
  case (PollReject w)
  let ?y = "y\<lparr>qy_frames := Write (qw_session w) # qy_frames y\<rparr>"
  from PollReject assms(2) obtain e hooks where "qr_finish S orc (qy_store y) w = (e, hooks, st')"
    by (auto simp: pollRelay_def split: prod.splits)
  then have "qr_step S orc s ctx ?y (?y\<lparr>qy_store := st', qy_frames := qy_frames y\<rparr>)" by (intro finish_step) simp_all
  moreover have "?y\<lparr>qy_store := st', qy_frames := qy_frames y\<rparr> = y\<lparr>qy_store := st', qy_log := qy_log y\<rparr>" by (cases y) simp
  ultimately show ?thesis using qr_steps_two [OF qstep_reject [OF assms(1) PollReject]] by metis
next
  case (PollSignature sig)
  let ?log = "(qs_ID x, qk_now clock) # qy_log y"
  let ?f = "Polled (qs_ID x) sig"
  let ?y = "y\<lparr>qy_frames := ?f # qy_frames y, qy_log := ?log\<rparr>"
  note polled = qstep_polled [OF assms(1) PollSignature]
  have drop: "qr_step S orc s ctx (?y\<lparr>qy_store := st\<rparr>) (y\<lparr>qy_store := st, qy_log := ?log\<rparr>)" for st
  proof -
    have "qr_step S orc s ctx (?y\<lparr>qy_store := st\<rparr>) ((?y\<lparr>qy_store := st\<rparr>)\<lparr>qy_frames := remove1 ?f (qy_frames (?y\<lparr>qy_store := st\<rparr>))\<rparr>)"
      by (rule qstep_drop) simp
    moreover have "(?y\<lparr>qy_store := st\<rparr>)\<lparr>qy_frames := remove1 ?f (qy_frames (?y\<lparr>qy_store := st\<rparr>))\<rparr> = y\<lparr>qy_store := st, qy_log := ?log\<rparr>"
      by (cases y) simp
    ultimately show ?thesis by metis
  qed
  show ?thesis
  proof (cases "qo_Consume S (qy_store y) (qs_ID x)")
    case (Inl e)
    with PollSignature assms(2) have "st' = qy_store y" by (simp add: pollRelay_def)
    with drop [of "qy_store y"] qr_steps_two [OF polled] show ?thesis by (cases y) auto
  next
    case (Inr p)
    obtain x1 st1 where p: "p = (x1, st1)" by (cases p)
    have con: "qo_Consume S (qy_store ?y) (qs_ID x) = Inr (x1, st1)" using Inr p by simp
    show ?thesis
    proof (cases "complete orc s ctx c x1 sig clock")
      case Panics
      with PollSignature Inr p assms(2) have st: "st' = st1" by (simp add: pollRelay_def)
      have "qr_steps S orc s ctx y (?y\<lparr>qy_store := st1\<rparr>)" by (rule qr_steps_two [OF polled qstep_spent [OF con]])
      then have "qr_steps S orc s ctx y (y\<lparr>qy_store := st1, qy_log := ?log\<rparr>)"
        using drop [of st1] unfolding qr_steps_def by (rule rtranclp.rtrancl_into_rtrancl)
      then show ?thesis unfolding st by blast
    next
      case (Returns wc)
      obtain w c' where wc: "wc = (w, c')" by (cases wc)
      obtain e hooks where fin: "qr_finish S orc st1 w = (e, hooks, st')"
        using PollSignature Inr p Returns wc assms(2) by (auto simp: pollRelay_def split: prod.splits)
      let ?z = "?y\<lparr>qy_store := st1, qy_frames := Write (qw_session w) # remove1 ?f (qy_frames ?y)\<rparr>"
      have "qr_step S orc s ctx ?y ?z" by (rule qstep_complete [OF _ con Returns [unfolded wc]]) simp
      moreover have "qr_step S orc s ctx ?z (?z\<lparr>qy_store := st', qy_frames := qy_frames y\<rparr>)"
        by (rule finish_step) (use fin in simp_all)
      moreover have "?z\<lparr>qy_store := st', qy_frames := qy_frames y\<rparr> = y\<lparr>qy_store := st', qy_log := ?log\<rparr>" by (cases y) simp
      ultimately have "qr_steps S orc s ctx ?y (y\<lparr>qy_store := st', qy_log := ?log\<rparr>)" using qr_steps_two by metis
      with polled have "qr_steps S orc s ctx y (y\<lparr>qy_store := st', qy_log := ?log\<rparr>)"
        unfolding qr_steps_def by (rule converse_rtranclp_into_rtranclp)
      then show ?thesis by blast
    qed
  qed
qed

lemma get_steps:
  assumes "qr_Get S orc s ctx (qy_store y) c i net clock = (r, st')"
  shows "\<exists>log. qr_steps S orc s ctx y (y\<lparr>qy_store := st', qy_log := log\<rparr>)"
proof -
  have stay: "\<exists>log. qr_steps S orc s ctx y (y\<lparr>qy_store := qy_store y, qy_log := log\<rparr>)"
    by (rule exI [of _ "qy_log y"]) (simp add: qr_steps_def)
  consider (same) "st' = qy_store y"
    | (expired) x where "qo_Get S (qy_store y) i = Inr x" "\<not> qr_Terminal (qs_Status x)" "qr_over (qk_now clock) x"
        "st' = (case qo_Save S (qy_store y) (x\<lparr>qs_Status := QrExpired\<rparr>) of Inl _ \<Rightarrow> qy_store y | Inr st1 \<Rightarrow> st1)"
    | (polled) x impl r1 where "readable S orc (qy_store y) i (qk_now clock) x impl"
        "pollRelay S orc s ctx (qy_store y) c x impl net clock = (r1, st')"
    using assms by (auto simp: qr_Get_def readable_def Let_def split: sum.splits option.splits go.splits prod.splits if_splits)
  then show ?thesis
  proof cases
    case same
    with stay show ?thesis by simp
  next
    case expired
    let ?w = "\<lparr>qw_session = x\<lparr>qs_Status := QrExpired\<rparr>, qw_error = Some QrSessionExpired\<rparr>"
    let ?y = "y\<lparr>qy_frames := Write (qw_session ?w) # qy_frames y\<rparr>"
    have "qr_step S orc s ctx y ?y" using qstep_expire [OF expired(1-3)] by simp
    moreover have "qr_finish S orc (qy_store ?y) ?w = (Some QrSessionExpired, qr_fireWebhook orc (qw_session ?w), st')"
      by (simp add: qr_finish_def expired(4))
    then have "qr_step S orc s ctx ?y (?y\<lparr>qy_store := st', qy_frames := qy_frames y\<rparr>)" by (intro finish_step) simp_all
    moreover have "?y\<lparr>qy_store := st', qy_frames := qy_frames y\<rparr> = y\<lparr>qy_store := st', qy_log := qy_log y\<rparr>" by (cases y) simp
    ultimately show ?thesis using qr_steps_two by metis
  next
    case polled
    from poll_steps [OF polled] show ?thesis .
  qed
qed

section \<open>Properties\<close>

definition builtin_profiles :: "qr_codec \<Rightarrow> egov_config \<Rightarrow> relay_config \<Rightarrow> orchestrator \<Rightarrow> bool" where
  "builtin_profiles J ec rc orc \<longleftrightarrow>
     (\<forall>p impl. map_of (qe_profiles orc) p = Some impl \<longrightarrow> impl \<in> {agnosticProfile J, egovProfile J ec, relayProfile J rc})"

lemma builtin_profiles_ok: "builtin_profiles J ec rc orc \<Longrightarrow> profiles_ok orc"
  unfolding builtin_profiles_def profiles_ok_def
  using agnostic.qr_profile_axioms egov.qr_profile_axioms relay.qr_profile_axioms by blast

text \<open>The content of a reachable store, of either kind, with what was recorded on the way.\<close>

definition qr_content :: "orchestrator \<Rightarrow> 'c service \<Rightarrow> lang \<Rightarrow> (string \<rightharpoonup> qr_session) \<Rightarrow> qr_session list \<Rightarrow>
    (string \<times> time) list \<Rightarrow> bool" where
  "qr_content orc s ctx m created log \<longleftrightarrow>
     (\<exists>y. qr_reachable QrMem orc s ctx [] y \<and> m = map_of (qy_store y) \<and> created = qy_created y \<and> log = qy_log y) \<or>
     (\<exists>y. qr_reachable QrBolt orc s ctx [] y \<and> m = qbolt_held (qy_store y) \<and> created = qy_created y \<and> log = qy_log y)"

lemma qr_content_backed:
  assumes "profiles_ok orc" and "qr_content orc s ctx m created log" and "m i = Some x"
  shows "qs_ID x = i \<and> qr_backed orc s ctx created log x \<and> qlog_ok created log \<and> (\<forall>x0 \<in> set created. created_ok orc x0)"
proof -
  have empty: "qbolt_ok []" "\<And>i. qbolt_held [] i = None"
    using qbolt_ok_repr [of "[]"] by (simp_all add: qbolt_repr_def kv_map_def qbolt_held_def)
  have bolt: "qr_inv qbolt_held qbolt_ok orc s ctx y" if "qr_reachable QrBolt orc s ctx [] y" for y
    by (rule qbolt.qr_reachable_inv [OF that assms(1) empty])
  have mem: "qr_inv map_of kv_ok orc s ctx y" if "qr_reachable QrMem orc s ctx [] y" for y
    by (rule qmem.qr_reachable_inv [OF that assms(1)]) simp_all
  show ?thesis using assms(2,3) mem bolt unfolding qr_content_def qr_inv_def holds_backed_def by fastforce
qed

text \<open>
  Claim C13: under any interleaving of creations, submissions, polls, expiries and reaping, over
  either store, a session that is stored as verified has terms that a creation fixed, a login among
  them being a detached CMS signature of a nonce; a request looked at a session of that identifier
  before its deadline; and its result comes from a verification of some signature under those very
  terms that was valid, names a first signer with a subject, whose certificate, when a status check
  is configured, was not found revoked.
\<close>

theorem qr_verified_means:
  assumes "builtin_profiles J ec rc orc" and "qr_content orc s ctx m created log"
    and "m i = Some x" and "qs_Status x = QrVerified"
  shows "verified_by orc s ctx x (qs_Result x) \<and>
    (\<exists>x0 \<in> set created. same_terms x0 x \<and> qs_ID x0 = i \<and> qs_Status x0 = QrPending \<and>
       (qs_Mode x0 = ModeAuth \<longrightarrow> qs_Detached x0 \<and> qs_Format x0 = FormatCMS \<and> qe_issuer orc \<noteq> None)) \<and>
    (\<exists>now. (i, now) \<in> set log \<and> (\<exists>x1 \<in> set created. qs_ID x1 = i \<and> now < qs_ExpiresAt x1))"
proof -
  note b = qr_content_backed [OF builtin_profiles_ok [OF assms(1)] assms(2,3)]
  then obtain x0 where x0: "x0 \<in> set created" "same_terms x0 x" by (auto simp: qr_backed_def)
  with b have "qs_ID x0 = i" "created_ok orc x0" by (auto simp: same_terms_def)
  moreover from b assms(4) obtain now where "(i, now) \<in> set log" by (auto simp: qr_backed_def)
  moreover with b have "\<exists>x1 \<in> set created. qs_ID x1 = i \<and> now < qs_ExpiresAt x1" by (auto simp: qlog_ok_def)
  moreover have "verified_by orc s ctx x (qs_Result x)" using b assms(4) by (simp add: qr_backed_def)
  ultimately show ?thesis using x0 by (auto simp: created_ok_def)
qed

subsection \<open>A login by QR and a relayed signature\<close>

definition demo_codec :: qr_codec where
  "demo_codec = \<lparr>ql_Flat = Inr, ql_Nested = (\<lambda>b. Inl (PlainError ''json'')),
     ql_Register = (\<lambda>b. (\<lparr>gr_ExpireAt = 0, gr_QRCode = ''code'', gr_EGovMobileLaunchLink = [], gr_EGovBusinessLaunchLink = [],
        gr_DataURL = ''https://gw/d'', gr_SignURL = ''https://gw/s''\<rparr>, None)),
     ql_Poll = (\<lambda>b. Inr (if b = ''gone'' then \<lparr>pr_Status = ''canceled'', pr_DocumentsToSign = []\<rparr>
        else \<lparr>pr_Status = [], pr_DocumentsToSign = [\<lparr>pd_Signature = b, pd_CMS = [], pd_FileData = []\<rparr>]\<rparr>)),
     ql_MarshalRegister = (\<lambda>d. Inr d), ql_MarshalUpload = (\<lambda>m ds. Inr m), ql_URLPath = (\<lambda>u. u)\<rparr>"

definition demo_orc :: orchestrator where
  "demo_orc = qr_New \<lparr>qe_issuer = Some (\<lambda>cl client nonce. Inr \<lparr>tk_IDToken = cl_Sub cl @ nonce, tk_AccessToken = [],
       tk_TokenType = ''Bearer'', tk_ExpiresIn = 300\<rparr>),
     qe_profiles = [(ProfileAgnostic, agnosticProfile demo_codec),
       (ProfileRelay, relayProfile demo_codec \<lparr>rc_BaseURL = ''https://gw/'', rc_OrgID = []\<rparr>)],
     qe_cfg = \<lparr>qc_DefaultProfile = [], qc_DefaultMode = [], qc_TTL = 0, qc_ReapInterval = 0, qc_RequireOCSP = True\<rparr>,
     qe_webhook = True, qe_MarshalTokens = (\<lambda>t. Inr (tk_IDToken t)), qe_MarshalSign = (\<lambda>r. Inr (sx_Signature r)),
     qe_EncodePNG = Inr\<rparr>"

definition demo_request :: "string \<Rightarrow> string \<Rightarrow> qr_create_request" where
  "demo_request mode profile = \<lparr>qq_Mode = mode, qq_Profile = profile, qq_SignMethod = [], qq_Format = [], qq_Detached = True,
     qq_Data = ''nonce'', qq_Documents = [], qq_Description = [], qq_ClientID = ''app'', qq_State = [], qq_Nonce = ''rp'',
     qq_CallbackURL = [], qq_TTLSeconds = 0\<rparr>"

definition demo_net :: "bytes \<Rightarrow> qr_net" where
  "demo_net b = (\<lambda>m u body. GatewayResponse 200 b None)"

definition demo_env :: qr_env where
  "demo_env = \<lparr>qn_net = demo_net ''ok'', qn_id = Inr ''id'', qn_nonce = Inr ''nonce'', qn_now = 7\<rparr>"

definition demo_qr_clock :: qr_clock where
  "demo_qr_clock = \<lparr>qk_now = 8, qk_verify = demo_clock, qk_validate = 9\<rparr>"

text \<open>Every certificate names the subject \<^verbatim>\<open>A\<close>.\<close>

definition demo_qr_service :: "unit service" where
  "demo_qr_service = demo_service ((verifying_driver [''LR''] (status_answer CertGood))\<lparr>
     pv_CertProperties := (\<lambda>cert _. ([\<lparr>cf_ID = 0, cf_Name = ''SUBJECT_SERIALNUMBER'', cf_Value = ''IINA'', cf_Raw = [],
        cf_OK = True\<rparr>], None))\<rparr>) None"

lemma demo_orc_builtin: "builtin_profiles demo_codec ec \<lparr>rc_BaseURL = ''https://gw/'', rc_OrgID = []\<rparr> demo_orc"
  by (simp add: builtin_profiles_def demo_orc_def qr_New_def)

lemma demo_login:
  "case qr_prepare demo_orc (demo_request ModeAuth ProfileAgnostic) ''https://qr/'' demo_env of
     Inr (x, resp) \<Rightarrow>
       (case SubmitSignature QrMem demo_orc demo_qr_service plain_lang [(''6964'', x)] () ''6964'' ''cms'' demo_qr_clock of
          (r, st) \<Rightarrow>
            (case map_of st ''6964'' of Some z \<Rightarrow> qs_Status z = QrVerified \<and> qs_ID x = ''6964'' \<and> qs_Result z \<noteq> [] | None \<Rightarrow> False))
   | Inl _ \<Rightarrow> False"
  by code_simp

lemma qr_created_reachable:
  assumes "qr_prepare orc req base env = Inr (x, resp)"
  shows "qr_reachable QrMem orc s ctx [] \<lparr>qy_store = [(qs_ID x, x)], qy_frames = [], qy_created = [x], qy_log = []\<rparr>"
proof -
  let ?y = "\<lparr>qy_store = [] :: qr_mem, qy_frames = [], qy_created = [], qy_log = []\<rparr>"
  have "qo_Create QrMem (qy_store ?y) x = Inr [(qs_ID x, x)]" by (simp add: qmem_defs kv_put_def)
  from qr_reachable.qnext [OF qr_reachable.qstart qstep_create [OF assms this]] show ?thesis by simp
qed

theorem qr_verified_means_witness:
  "\<exists>m created log x. qr_content demo_orc demo_qr_service plain_lang m created log \<and> m ''6964'' = Some x \<and>
     qs_Status x = QrVerified \<and> verified_by demo_orc demo_qr_service plain_lang x (qs_Result x) \<and>
     (\<exists>now. (''6964'', now) \<in> set log)"
proof -
  from demo_login obtain x resp r st z where
    prep: "qr_prepare demo_orc (demo_request ModeAuth ProfileAgnostic) ''https://qr/'' demo_env = Inr (x, resp)"
    and sub: "SubmitSignature QrMem demo_orc demo_qr_service plain_lang [(''6964'', x)] () ''6964'' ''cms'' demo_qr_clock =
      (r, st)"
    and z: "map_of st ''6964'' = Some z" "qs_Status z = QrVerified" and i: "qs_ID x = ''6964''"
    by (auto split: sum.splits prod.splits option.splits)
  let ?y = "\<lparr>qy_store = [(''6964'', x)], qy_frames = [], qy_created = [x], qy_log = []\<rparr>"
  have reach: "qr_reachable QrMem demo_orc demo_qr_service plain_lang [] ?y" using qr_created_reachable [OF prep] i by simp
  from submit_steps [where y = ?y] sub obtain log where
    "qr_steps QrMem demo_orc demo_qr_service plain_lang ?y (?y\<lparr>qy_store := st, qy_log := log\<rparr>)" by fastforce
  from qr_reachable_steps [OF this reach] have content: "qr_content demo_orc demo_qr_service plain_lang (map_of st) [x] log"
    unfolding qr_content_def by (intro disjI1 exI [of _ "?y\<lparr>qy_store := st, qy_log := log\<rparr>"]) simp
  from qr_verified_means [OF demo_orc_builtin content z] content z show ?thesis by blast
qed

text \<open>
  The result of one poll can be undone by another. The gateway delivers the signature to one poll and
  reports the procedure as cancelled to a second one that read the session before; the second
  overwrites the verified session with a failed one.
\<close>

lemma demo_relay:
  "case qr_prepare demo_orc (demo_request ModeSign ProfileRelay) ''https://qr/'' demo_env of
     Inr (x, resp) \<Rightarrow> qs_ID x = ''6964'' \<and> qs_Status x = QrPending \<and> qs_Profile x = ProfileRelay \<and> 8 < qs_ExpiresAt x \<and>
       relay_Poll demo_codec (demo_net ''gone'') x = ([], True, Some QrRejected) \<and>
       (case qr_Get QrMem demo_orc demo_qr_service plain_lang [(''6964'', x)] () ''6964'' (demo_net ''cms'') demo_qr_clock of
          (r, st) \<Rightarrow> (case map_of st ''6964'' of Some z \<Rightarrow> qs_Status z = QrVerified | None \<Rightarrow> False))
   | Inl _ \<Rightarrow> False"
  by code_simp

lemma qr_verified_lost:
  "\<exists>y y' z z'. qr_reachable QrMem demo_orc demo_qr_service plain_lang [] y \<and> qr_step QrMem demo_orc demo_qr_service plain_lang y y' \<and>
     map_of (qy_store y) ''6964'' = Some z \<and> qs_Status z = QrVerified \<and>
     map_of (qy_store y') ''6964'' = Some z' \<and> qs_Status z' = QrFailed \<and> \<not> qs_Used z'"
proof -
  from demo_relay obtain x resp r st z where
    prep: "qr_prepare demo_orc (demo_request ModeSign ProfileRelay) ''https://qr/'' demo_env = Inr (x, resp)"
    and x: "qs_ID x = ''6964''" "qs_Status x = QrPending" "qs_Profile x = ProfileRelay" "8 < qs_ExpiresAt x"
    and poll: "relay_Poll demo_codec (demo_net ''gone'') x = ([], True, Some QrRejected)"
    and get: "qr_Get QrMem demo_orc demo_qr_service plain_lang [(''6964'', x)] () ''6964'' (demo_net ''cms'') demo_qr_clock =
      (r, st)"
    and z: "map_of st ''6964'' = Some z" "qs_Status z = QrVerified"
    by (auto split: sum.splits prod.splits option.splits)
  let ?impl = "relayProfile demo_codec \<lparr>rc_BaseURL = ''https://gw/'', rc_OrgID = []\<rparr>"
  let ?w = "qr_fail x QrRejected"
  let ?y0 = "\<lparr>qy_store = [(''6964'', x)], qy_frames = [], qy_created = [x], qy_log = []\<rparr>"
  let ?y1 = "?y0\<lparr>qy_frames := [Write (qw_session ?w)]\<rparr>"
  have r0: "qr_reachable QrMem demo_orc demo_qr_service plain_lang [] ?y0" using qr_created_reachable [OF prep] x(1) by simp
  have read: "readable QrMem demo_orc (qy_store ?y0) ''6964'' 8 x ?impl"
    using x by (simp add: readable_def qmem_defs qr_Terminal_def qr_over_def demo_orc_def qr_New_def relayProfile_def)
  have plan: "plan_poll ?impl (demo_net ''gone'') x = PollReject ?w" using poll by (simp add: plan_poll_def relayProfile_def)
  have r1: "qr_reachable QrMem demo_orc demo_qr_service plain_lang [] ?y1"
    using qr_reachable.qnext [OF r0 qstep_reject [OF read plan]] by simp
  from get_steps [where y = ?y1] get obtain log where
    "qr_steps QrMem demo_orc demo_qr_service plain_lang ?y1 (?y1\<lparr>qy_store := st, qy_log := log\<rparr>)" by fastforce
  note r2 = qr_reachable_steps [OF this r1]
  let ?y2 = "?y1\<lparr>qy_store := st, qy_log := log\<rparr>"
  have save: "qo_Save QrMem (qy_store ?y2) (qw_session ?w) = Inr (kv_put ''6964'' (qw_session ?w) st)"
    using x(1) by (simp add: qmem_defs qr_fail_def)
  have "qr_step QrMem demo_orc demo_qr_service plain_lang ?y2
      (?y2\<lparr>qy_store := kv_put ''6964'' (qw_session ?w) st, qy_frames := remove1 (Write (qw_session ?w)) (qy_frames ?y2)\<rparr>)"
    by (rule qstep_write [OF _ save]) simp
  moreover have "\<not> qs_Used (qw_session ?w)" "qs_Status (qw_session ?w) = QrFailed"
    using qr_prepare_pending [OF builtin_profiles_ok [OF demo_orc_builtin] prep] by (simp_all add: qr_fail_def)
  ultimately show ?thesis using r2 z
    by (intro exI [of _ ?y2] exI [of _ "?y2\<lparr>qy_store := kv_put ''6964'' (qw_session ?w) st,
        qy_frames := remove1 (Write (qw_session ?w)) (qy_frames ?y2)\<rparr>"] exI [of _ z] exI [of _ "qw_session ?w"]) simp
qed

text \<open>
  A status check that establishes nothing does not stop a session: without a responder the check
  that the configuration requires answers that the certificate is not revoked.
\<close>

lemma qr_unestablished_verified:
  "let s = demo_qr_service\<lparr>sv_golib := demo_golib\<lparr>gl_ParseCertificate := (\<lambda>_. None)\<rparr>\<rparr>
   in (case qr_prepare demo_orc (demo_request ModeAuth ProfileAgnostic) ''https://qr/'' demo_env of
         Inr (x, resp) \<Rightarrow>
           (case SubmitSignature QrMem demo_orc s plain_lang [(''6964'', x)] () ''6964'' ''cms'' demo_qr_clock of
              (r, st) \<Rightarrow> (case map_of st ''6964'' of Some z \<Rightarrow> qs_Status z = QrVerified | None \<Rightarrow> False))
       | Inl _ \<Rightarrow> False) \<and>
      (case Validate s plain_lang () (qr_validate_input ''pem'') 9 of
         Returns ((vr, None), c) \<Rightarrow> \<not> rs_Determinate (vt_Status vr)
       | _ \<Rightarrow> False)"
  by code_simp

text \<open>A lifetime that does not fit 64 bits of nanoseconds puts the deadline before the creation.\<close>

lemma qr_ttl_overflow:
  "qs_ExpiresAt (new_qr_session demo_orc ((demo_request ModeSign ProfileAgnostic)\<lparr>qq_TTLSeconds := 9223372037\<rparr>)
     ModeSign ProfileAgnostic ''6964'' 7) < 7"
  by code_simp

end
