(* ===== verification/Jws.thy ===== *)
theory Jws
  imports Json
begin

text \<open>
  The service's own signatures (internal/oidc/signer.go): compact RS256 tokens over JSON claims,
  the unpadded URL-safe base64 of their segments, the published key set and the key file. Receipts,
  OIDC tokens and signed documents are all made by this signer. SHA-256, RSA, the key encodings and
  the text form of JSON are the fields of a record, so that everything below holds for any of them
  that satisfy the stated laws.
\<close>

section \<open>Base64 of the segments\<close>

text \<open>\<^verbatim>\<open>base64.RawURLEncoding\<close>: encoding, and decoding, which skips line breaks and ignores spare bits.\<close>

definition b64url_alphabet :: string where
  "b64url_alphabet = ''ABCDEFGHIJKLMNOPQRSTUVWXYZabcdefghijklmnopqrstuvwxyz0123456789-_''"

definition b64url_char :: "nat \<Rightarrow> char" where
  "b64url_char n = b64url_alphabet ! (n mod 64)"

fun b64url_encode :: "bytes \<Rightarrow> string" where
  "b64url_encode [] = []"
| "b64url_encode [a] = [b64url_char (byte_of a div 4), b64url_char (byte_of a * 16)]"
| "b64url_encode [a, b] =
     [b64url_char (byte_of a div 4), b64url_char (byte_of a * 16 + byte_of b div 16), b64url_char (byte_of b * 4)]"
| "b64url_encode (a # b # c # rest) =
     [b64url_char (byte_of a div 4), b64url_char (byte_of a * 16 + byte_of b div 16),
      b64url_char (byte_of b * 4 + byte_of c div 64), b64url_char (byte_of c)] @ b64url_encode rest"

definition b64url_value :: "char \<Rightarrow> nat option" where
  "b64url_value c = map_of (zip b64url_alphabet [0..<64]) c"

fun b64_bytes :: "nat list \<Rightarrow> bytes option" where
  "b64_bytes [] = Some []"
| "b64_bytes [x] = None"
| "b64_bytes [x, y] = Some [char_of (x * 4 + y div 16)]"
| "b64_bytes [x, y, z] = Some [char_of (x * 4 + y div 16), char_of (y * 16 + z div 4)]"
| "b64_bytes (x # y # z # w # rest) =
     map_option (\<lambda>r. [char_of (x * 4 + y div 16), char_of (y * 16 + z div 4), char_of (z * 64 + w)] @ r) (b64_bytes rest)"

definition b64url_decode :: "string \<Rightarrow> bytes option" where
  "b64url_decode s =
     (let vs = map b64url_value (filter (\<lambda>c. c \<noteq> CHR 0x0A \<and> c \<noteq> CHR 0x0D) s)
      in if None \<in> set vs then None else b64_bytes (map the vs))"

lemma b64url_char_member: "b64url_char n \<in> set b64url_alphabet"
proof -
  have "n mod 64 < length b64url_alphabet" by (simp add: b64url_alphabet_def)
  then show ?thesis unfolding b64url_char_def by (rule nth_mem)
qed

lemma b64url_value_char [simp]: "b64url_value (b64url_char n) = Some (n mod 64)"
proof -
  have "length b64url_alphabet = 64" "distinct b64url_alphabet" by code_simp+
  then show ?thesis
    unfolding b64url_value_def b64url_char_def
    by (subst map_of_eq_Some_iff) (auto simp: in_set_zip intro!: exI [of _ "n mod 64"])
qed

lemma b64url_char_plain: "b64url_char n \<notin> {CHR 0x0A, CHR 0x0D, CHR ''.''} \<union> Collect is_space"
proof -
  have "\<forall>c \<in> set b64url_alphabet. c \<noteq> CHR 0x0A \<and> c \<noteq> CHR 0x0D \<and> c \<noteq> CHR ''.'' \<and> \<not> is_space c" by code_simp
  with b64url_char_member [of n] show ?thesis by auto
qed

lemma byte_of_less: "byte_of c < 256"
  by (simp add: byte_of_def)

lemma char_of_byte: "n mod 256 = byte_of c \<Longrightarrow> char_of (n :: nat) = c"
proof -
  assume "n mod 256 = byte_of c"
  then have "(char_of n :: char) = char_of (byte_of c)" by (metis char_of_mod_256)
  then show ?thesis by (simp add: byte_of_def)
qed

text \<open>The bit groups of three bytes put together again.\<close>

lemma mod_join: "lo < n \<Longrightarrow> (hi * n + lo) mod (n * m) = n * (hi mod m) + (lo :: nat)"
  by (simp add: mod_mult2_eq)

lemma quad_bits:
  fixes a b c :: nat
  assumes "a < 256" "b < 256" "c < 256"
  shows "a div 4 mod 64 * 4 + (a * 16 + b div 16) mod 64 div 16 = a"
    and "a div 4 mod 64 * 4 + a * 16 mod 64 div 16 = a"
    and "((a * 16 + b div 16) mod 64 * 16 + (b * 4 + c div 64) mod 64 div 4) mod 256 = b"
    and "((a * 16 + b div 16) mod 64 * 16 + b * 4 mod 64 div 4) mod 256 = b"
    and "((b * 4 + c div 64) mod 64 * 64 + c mod 64) mod 256 = c"
proof -
  have hi: "a div 4 < 64" "b div 16 < 16" "c div 64 < 4" using assms by simp_all
  have ab: "(a * 16 + b div 16) mod 64 = 16 * (a mod 4) + b div 16" using mod_join [OF hi(2), of a 4] by simp
  have bc: "(b * 4 + c div 64) mod 64 = 4 * (b mod 16) + c div 64" using mod_join [OF hi(3), of b 16] by simp
  have a0: "a * 16 mod 64 = 16 * (a mod 4)" and b0: "b * 4 mod 64 = 4 * (b mod 16)"
    using mod_join [of 0 16 a 4] mod_join [of 0 4 b 16] by simp_all
  show "a div 4 mod 64 * 4 + (a * 16 + b div 16) mod 64 div 16 = a" using hi by (simp add: ab)
  show "a div 4 mod 64 * 4 + a * 16 mod 64 div 16 = a" using hi by (simp add: a0)
  have b: "((16 * (a mod 4) + b div 16) * 16 + b mod 16) mod 256 = b"
  proof -
    have "(16 * (a mod 4) + b div 16) * 16 + b mod 16 = b + 256 * (a mod 4)" by (simp add: algebra_simps)
    then show ?thesis using assms(2) by simp
  qed
  show "((a * 16 + b div 16) mod 64 * 16 + (b * 4 + c div 64) mod 64 div 4) mod 256 = b" using b hi by (simp add: ab bc)
  show "((a * 16 + b div 16) mod 64 * 16 + b * 4 mod 64 div 4) mod 256 = b" using b by (simp add: ab b0)
  have "(4 * (b mod 16) + c div 64) * 64 + c mod 64 = c + 256 * (b mod 16)" by (simp add: algebra_simps)
  then show "((b * 4 + c div 64) mod 64 * 64 + c mod 64) mod 256 = c" using assms(3) by (simp add: bc)
qed

lemmas byte_bits = quad_bits [OF byte_of_less byte_of_less byte_of_less]

lemma b64_bytes_encode: "b64_bytes (map (the \<circ> b64url_value) (b64url_encode b)) = Some b"
  by (induction b rule: b64url_encode.induct) (auto intro!: char_of_byte simp: byte_bits byte_of_less)

lemma b64url_encode_member: "c \<in> set (b64url_encode b) \<Longrightarrow> \<exists>n. c = b64url_char n"
  by (induction b rule: b64url_encode.induct) auto

theorem b64url_decode_encode [simp]: "b64url_decode (b64url_encode b) = Some b"
proof -
  have keep: "filter (\<lambda>c. c \<noteq> CHR 0x0A \<and> c \<noteq> CHR 0x0D) (b64url_encode b) = b64url_encode b"
    using b64url_char_plain by (fastforce simp: filter_id_conv dest: b64url_encode_member)
  have "None \<notin> set (map b64url_value (b64url_encode b))"
    by (auto simp: image_iff dest!: b64url_encode_member)
  with b64_bytes_encode [of b] show ?thesis by (simp add: b64url_decode_def keep Let_def)
qed

section \<open>The signer\<close>

type_synonym rsa_key = string

text \<open>
  What the signer uses of the standard library: hashing, RSA over a digest, the two directions of
  encoding/json (\<open>jl_Unmarshal\<close> reads into a map, so it fails on a text that is not an object), and the
  encodings of keys. A key stands for its pair of halves. A number of a decoded claim stands for the
  integer that \<^verbatim>\<open>int64\<close> reads from it.
\<close>

record jws_lib =
  jl_Sum256 :: "bytes \<Rightarrow> bytes"
  jl_SignPKCS1v15 :: "rsa_key \<Rightarrow> bytes \<Rightarrow> goerr + bytes"
  jl_VerifyPKCS1v15 :: "rsa_key \<Rightarrow> bytes \<Rightarrow> bytes \<Rightarrow> bool"
  jl_Marshal :: "(string \<times> json) list \<Rightarrow> goerr + bytes"
  jl_Unmarshal :: "bytes \<Rightarrow> (string \<times> json) list option"
  jl_MarshalPKIX :: "rsa_key \<Rightarrow> goerr + bytes"
  jl_Modulus :: "rsa_key \<Rightarrow> bytes"
  jl_Exponent :: "rsa_key \<Rightarrow> bytes"
  jl_PemEncode :: "string \<Rightarrow> bytes \<Rightarrow> bytes"
  jl_PemDecode :: "bytes \<Rightarrow> bytes option"
  jl_ParsePKCS1 :: "bytes \<Rightarrow> rsa_key option"
  jl_ParsePKCS8 :: "bytes \<Rightarrow> goerr + rsa_key option"
  jl_MarshalPKCS8 :: "rsa_key \<Rightarrow> goerr + bytes"

record token_signer =
  sn_key :: rsa_key
  sn_kid :: string
  sn_Ephemeral :: bool

datatype token_error = TokenInvalid | TokenExpired

definition token_header :: "string \<Rightarrow> (string \<times> json) list" where
  "token_header kid = [(''alg'', JStr ''RS256''), (''typ'', JStr ''JWT''), (''kid'', JStr kid)]"

definition signer_Sign :: "jws_lib \<Rightarrow> token_signer \<Rightarrow> (string \<times> json) list \<Rightarrow> goerr + string" where
  "signer_Sign L sn claims =
     (case jl_Marshal L (token_header (sn_kid sn)) of
        Inl e \<Rightarrow> Inl e
      | Inr header \<Rightarrow>
          (case jl_Marshal L claims of
             Inl e \<Rightarrow> Inl e
           | Inr payload \<Rightarrow>
               (let input = b64url_encode header @ ''.'' @ b64url_encode payload
                in case jl_SignPKCS1v15 L (sn_key sn) (jl_Sum256 L input) of
                     Inl e \<Rightarrow> Inl e
                   | Inr sig \<Rightarrow> Inr (input @ ''.'' @ b64url_encode sig))))"

definition token_over :: "(string \<times> json) list \<Rightarrow> time \<Rightarrow> bool" where
  "token_over claims now \<longleftrightarrow> (case map_of claims ''exp'' of Some (JInt v) \<Rightarrow> After now (v * Second) | _ \<Rightarrow> False)"

definition signer_Verify :: "jws_lib \<Rightarrow> token_signer \<Rightarrow> string \<Rightarrow> time \<Rightarrow> token_error + (string \<times> json) list" where
  "signer_Verify L sn token now =
     (case Split token CHR ''.'' of
        [h, p, s] \<Rightarrow>
          (case b64url_decode s of
             None \<Rightarrow> Inl TokenInvalid
           | Some sig \<Rightarrow>
               if \<not> jl_VerifyPKCS1v15 L (sn_key sn) (jl_Sum256 L (h @ ''.'' @ p)) sig then Inl TokenInvalid
               else (case b64url_decode p of
                  None \<Rightarrow> Inl TokenInvalid
                | Some payload \<Rightarrow>
                    (case jl_Unmarshal L payload of
                       None \<Rightarrow> Inl TokenInvalid
                     | Some claims \<Rightarrow> if token_over claims now then Inl TokenExpired else Inr claims)))
      | _ \<Rightarrow> Inl TokenInvalid)"

section \<open>The published key\<close>

record jwk =
  jk_Kty :: string
  jk_Use :: string
  jk_Alg :: string
  jk_Kid :: string
  jk_N :: string
  jk_E :: string

definition signer_JWKS :: "jws_lib \<Rightarrow> token_signer \<Rightarrow> jwk list" where
  "signer_JWKS L sn = [\<lparr>jk_Kty = ''RSA'', jk_Use = ''sig'', jk_Alg = ''RS256'', jk_Kid = sn_kid sn,
     jk_N = b64url_encode (jl_Modulus L (sn_key sn)), jk_E = b64url_encode (jl_Exponent L (sn_key sn))\<rparr>]"

definition thumbprint :: "jws_lib \<Rightarrow> rsa_key \<Rightarrow> goerr + string" where
  "thumbprint L key =
     (case jl_MarshalPKIX L key of Inl e \<Rightarrow> Inl e | Inr der \<Rightarrow> Inr (b64url_encode (jl_Sum256 L der)))"

definition newSigner :: "jws_lib \<Rightarrow> rsa_key \<Rightarrow> bool \<Rightarrow> goerr + token_signer" where
  "newSigner L key ephemeral =
     (case thumbprint L key of Inl e \<Rightarrow> Inl e | Inr kid \<Rightarrow> Inr \<lparr>sn_key = key, sn_kid = kid, sn_Ephemeral = ephemeral\<rparr>)"

section \<open>The key file\<close>

definition parsePrivateKey :: "jws_lib \<Rightarrow> bytes \<Rightarrow> goerr + rsa_key" where
  "parsePrivateKey L data =
     (case jl_PemDecode L data of
        None \<Rightarrow> Inl (PlainError ''no PEM block'')
      | Some der \<Rightarrow>
          (case jl_ParsePKCS1 L der of
             Some key \<Rightarrow> Inr key
           | None \<Rightarrow>
               (case jl_ParsePKCS8 L der of
                  Inl e \<Rightarrow> Inl e
                | Inr None \<Rightarrow> Inl (PlainError ''not an RSA key'')
                | Inr (Some key) \<Rightarrow> Inr key)))"

datatype file_read = FileData bytes | FileNotExist | FileFails goerr

text \<open>
  What loading the key meets: the content of the path, a key that can be generated, and the failure
  of the write. The second component is what was written to the path.
\<close>

record key_world =
  kw_ReadFile :: file_read
  kw_GenerateKey :: "goerr + rsa_key"
  kw_WriteFile :: "goerr option"

definition generate_key_file :: "jws_lib \<Rightarrow> string \<Rightarrow> key_world \<Rightarrow> (goerr + token_signer) \<times> bytes option" where
  "generate_key_file L path w =
     (case kw_GenerateKey w of
        Inl e \<Rightarrow> (Inl e, None)
      | Inr key \<Rightarrow>
          (case jl_MarshalPKCS8 L key of
             Inl e \<Rightarrow> (Inl e, None)
           | Inr der \<Rightarrow>
               (case kw_WriteFile w of
                  Some e \<Rightarrow> (Inl (WrapError (''oidc: write key '' @ path) e), None)
                | None \<Rightarrow> (newSigner L key False, Some (jl_PemEncode L ''PRIVATE KEY'' der)))))"

definition LoadOrGenerate :: "jws_lib \<Rightarrow> string \<Rightarrow> key_world \<Rightarrow> (goerr + token_signer) \<times> bytes option" where
  "LoadOrGenerate L path w =
     (if TrimSpace path = []
      then (case kw_GenerateKey w of Inl e \<Rightarrow> (Inl e, None) | Inr key \<Rightarrow> (newSigner L key True, None))
      else case kw_ReadFile w of
        FileData data \<Rightarrow>
          (case parsePrivateKey L data of
             Inl e \<Rightarrow> (Inl (WrapError (''oidc: parse key '' @ path) e), None)
           | Inr key \<Rightarrow> (newSigner L key False, None))
      | FileFails e \<Rightarrow> (Inl (WrapError (''oidc: read key '' @ path) e), None)
      | FileNotExist \<Rightarrow> generate_key_file L path w)"

section \<open>What a token proves\<close>

text \<open>
  What a value of the claims is after it was written and read into an untyped map: a string has its
  invalid bytes replaced, everything else is as it was. This holds for strings, flags, integers that
  a \<^verbatim>\<open>float64\<close> holds exactly, and arrays and objects of these whose keys are valid texts in the order
  in which \<^verbatim>\<open>json.Marshal\<close> writes a map.
\<close>

fun json_read :: "json \<Rightarrow> json" where
  "json_read (JStr s) = JStr (json_string s)"
| "json_read (JArr vs) = JArr (map json_read vs)"
| "json_read (JObj fs) = JObj (map (\<lambda>(k, v). (k, json_read v)) fs)"
| "json_read v = v"

definition key_order :: "string list \<Rightarrow> bool" where
  "key_order ks \<longleftrightarrow> sorted_wrt (\<lambda>a b. (a, b) \<in> lexord {(x, y). byte_of x < byte_of y}) ks \<and> (\<forall>k \<in> set ks. json_string k = k)"

fun json_basic :: "json \<Rightarrow> bool" where
  "json_basic (JStr s) = True"
| "json_basic (JBool b) = True"
| "json_basic (JInt v) = (\<bar>v\<bar> \<le> 2 ^ 53)"
| "json_basic (JArr vs) = (\<forall>v \<in> set vs. json_basic v)"
| "json_basic (JObj fs) = (key_order (map fst fs) \<and> (\<forall>(k, v) \<in> set fs. json_basic v))"
| "json_basic v = False"

definition basic_claims :: "(string \<times> json) list \<Rightarrow> bool" where
  "basic_claims m \<longleftrightarrow> distinct (map fst m) \<and> (\<forall>(k, v) \<in> set m. json_string k = k \<and> json_basic v)"

text \<open>
  The laws of the libraries: a signature made with a key verifies under it, a text written from
  claims reads back as the same map, and a key survives its encodings.
\<close>

definition sound_rsa :: "jws_lib \<Rightarrow> bool" where
  "sound_rsa L \<longleftrightarrow> (\<forall>key d sig. jl_SignPKCS1v15 L key d = Inr sig \<longrightarrow> jl_VerifyPKCS1v15 L key d sig)"

definition sound_json :: "jws_lib \<Rightarrow> bool" where
  "sound_json L \<longleftrightarrow> (\<forall>m raw. basic_claims m \<longrightarrow> jl_Marshal L m = Inr raw \<longrightarrow>
     (\<exists>m'. jl_Unmarshal L raw = Some m' \<and> distinct (map fst m') \<and> (\<forall>k. map_of m' k = map_option json_read (map_of m k))))"

definition sound_keys :: "jws_lib \<Rightarrow> bool" where
  "sound_keys L \<longleftrightarrow> (\<forall>key der t. jl_MarshalPKCS8 L key = Inr der \<longrightarrow> jl_PemDecode L (jl_PemEncode L t der) = Some der \<and>
     jl_ParsePKCS1 L der = None \<and> jl_ParsePKCS8 L der = Inr (Some key))"

lemma b64url_encode_plain: "CHR ''.'' \<notin> set (b64url_encode b)" "c \<in> set (b64url_encode b) \<Longrightarrow> \<not> is_space c"
  using b64url_char_plain by (fastforce dest: b64url_encode_member)+

lemma split_on_plain: "c \<notin> set a \<Longrightarrow> split_on c acc (a @ c # rest) = (rev acc @ a) # split_on c [] rest"
  by (induction a arbitrary: acc) auto

lemma split_on_end: "c \<notin> set a \<Longrightarrow> split_on c acc a = [rev acc @ a]"
  by (induction a arbitrary: acc) auto

lemma split_token: "Split (b64url_encode h @ ''.'' @ b64url_encode p @ ''.'' @ b64url_encode s) CHR ''.'' =
    [b64url_encode h, b64url_encode p, b64url_encode s]"
  by (simp add: Split_def split_on_plain split_on_end b64url_encode_plain)

text \<open>A token that the signer made verifies, and carries its claims until they expire.\<close>

lemma token_over_read:
  "(\<And>k. map_of m' k = map_option json_read (map_of m k)) \<Longrightarrow> token_over m' now = token_over m now"
  by (cases "map_of m ''exp''"; cases "the (map_of m ''exp'')") (auto simp: token_over_def)

lemma verify_signed:
  assumes "sound_rsa L" "sound_json L" and "signer_Sign L sn claims = Inr token" and "basic_claims claims"
  obtains claims' where "\<forall>k. map_of claims' k = map_option json_read (map_of claims k)"
    "\<forall>now. signer_Verify L sn token now = (if token_over claims now then Inl TokenExpired else Inr claims')"
proof -
  from assms(3) obtain header payload sig where
    m: "jl_Marshal L claims = Inr payload"
    and sig: "jl_SignPKCS1v15 L (sn_key sn) (jl_Sum256 L (b64url_encode header @ ''.'' @ b64url_encode payload)) = Inr sig"
    and token: "token = b64url_encode header @ ''.'' @ b64url_encode payload @ ''.'' @ b64url_encode sig"
    by (auto simp: signer_Sign_def Let_def split: sum.splits)
  from assms(2,4) m obtain claims' where c: "jl_Unmarshal L payload = Some claims'"
    "\<And>k. map_of claims' k = map_option json_read (map_of claims k)"
    unfolding sound_json_def by blast
  have "jl_VerifyPKCS1v15 L (sn_key sn) (jl_Sum256 L (b64url_encode header @ ''.'' @ b64url_encode payload)) sig"
    using assms(1) sig by (auto simp: sound_rsa_def)
  with c have "signer_Verify L sn token now = (if token_over claims now then Inl TokenExpired else Inr claims')" for now
    unfolding token signer_Verify_def split_token by (simp add: token_over_read [OF c(2)])
  with c(2) that show thesis by blast
qed

text \<open>
  What a verified token establishes: the service's key signed the digest of the two segments whose
  second holds the returned claims, and their \<^verbatim>\<open>exp\<close>, when it is a number, has not passed.
\<close>

lemma signer_Verify_Inr:
  assumes "signer_Verify L sn token now = Inr claims"
  obtains h p s sig payload where "Split token CHR ''.'' = [h, p, s]" "b64url_decode s = Some sig"
    "jl_VerifyPKCS1v15 L (sn_key sn) (jl_Sum256 L (h @ ''.'' @ p)) sig" "b64url_decode p = Some payload"
    "jl_Unmarshal L payload = Some claims" "\<not> token_over claims now"
  using assms by (auto simp: signer_Verify_def split: list.splits option.splits if_splits)

text \<open>A key written on the first start is the key of every later start, with the same identifier.\<close>

lemma key_survives_restart:
  assumes "sound_keys L" and "TrimSpace path \<noteq> []" and "kw_ReadFile w = FileNotExist"
    and "LoadOrGenerate L path w = (Inr sn, written)" and "kw_ReadFile w' = FileData (the written)"
  shows "LoadOrGenerate L path w' = (Inr sn, None)"
proof -
  from assms(2-4) obtain key der where k: "jl_MarshalPKCS8 L key = Inr der" "newSigner L key False = Inr sn"
    "written = Some (jl_PemEncode L ''PRIVATE KEY'' der)"
    by (auto simp: LoadOrGenerate_def generate_key_file_def split: sum.splits option.splits)
  with assms(1) have "parsePrivateKey L (the written) = Inr key" by (simp add: parsePrivateKey_def sound_keys_def)
  with assms(2,5) k(2) show ?thesis by (simp add: LoadOrGenerate_def)
qed

section \<open>A concrete signer\<close>

text \<open>
  A library for evaluations: the signature of a digest under a key is the key in front of it, and
  the texts of claims are given by a table.
\<close>

definition demo_jws :: "((string \<times> json) list \<times> bytes) list \<Rightarrow> jws_lib" where
  "demo_jws texts = \<lparr>jl_Sum256 = (\<lambda>b. ''sha'' @ b), jl_SignPKCS1v15 = (\<lambda>key d. Inr (key @ d)),
     jl_VerifyPKCS1v15 = (\<lambda>key d sig. sig = key @ d),
     jl_Marshal = (\<lambda>m. case map_of texts m of Some raw \<Rightarrow> Inr raw | None \<Rightarrow> Inl (PlainError ''unsupported value'')),
     jl_Unmarshal = (\<lambda>raw. map_of (map (\<lambda>(m, t). (t, m)) texts) raw),
     jl_MarshalPKIX = (\<lambda>key. Inr (''spki'' @ key)), jl_Modulus = (\<lambda>key. key), jl_Exponent = (\<lambda>key. ''e''),
     jl_PemEncode = (\<lambda>t der. t @ der), jl_PemDecode = (\<lambda>raw. Some (drop 11 raw)), jl_ParsePKCS1 = (\<lambda>der. None),
     jl_ParsePKCS8 = (\<lambda>der. Inr (Some der)), jl_MarshalPKCS8 = (\<lambda>key. Inr key)\<rparr>"

lemma demo_jws_sound:
  "sound_rsa (demo_jws texts)"
  "distinct (map snd texts) \<Longrightarrow> (\<And>m t k v. (m, t) \<in> set texts \<Longrightarrow> (k, v) \<in> set m \<Longrightarrow> json_read v = v) \<Longrightarrow> sound_json (demo_jws texts)"
proof -
  show "sound_rsa (demo_jws texts)" by (simp add: sound_rsa_def demo_jws_def)
  assume d: "distinct (map snd texts)" and r: "\<And>m t k v. (m, t) \<in> set texts \<Longrightarrow> (k, v) \<in> set m \<Longrightarrow> json_read v = v"
  have "map_of (map (\<lambda>(m, t). (t, m)) texts) raw = Some m" "map_of m k = map_option json_read (map_of m k)"
    if "map_of texts m = Some raw" for m raw k
  proof -
    from that have mem: "(m, raw) \<in> set texts" by (rule map_of_SomeD)
    have "distinct (map fst (map (\<lambda>(m, t). (t, m)) texts))" using d by (simp add: comp_def case_prod_beta)
    with mem show "map_of (map (\<lambda>(m, t). (t, m)) texts) raw = Some m" by (force simp: map_of_eq_Some_iff)
    show "map_of m k = map_option json_read (map_of m k)"
      using r [OF mem map_of_SomeD, of k] by (cases "map_of m k") auto
  qed
  then show "sound_json (demo_jws texts)"
    unfolding sound_json_def demo_jws_def by (auto simp: basic_claims_def split: option.splits)
qed

end
