(* ===== verification/Oidc.thy ===== *)
theory Oidc
  imports Challenge Qr Jws
begin

text \<open>
  Login with a signature (internal/oidc/oidc.go, authcode.go, contract.go, errors.go): the provider
  issues a single-use nonce, turns a valid detached signature over it into the signer's claims, and
  hands out tokens either directly or through an authorization code bound to a registered client, its
  redirect URI and its PKCE challenge. Random bytes, clocks and the OCSP cache that a request finds
  are arguments; the parsing and printing of a redirect URL is a field of the provider.
\<close>

section \<open>Configuration\<close>

record oidc_config =
  od_Issuer :: string
  od_Audience :: string
  od_ChallengeTTL :: dur
  od_TokenTTL :: dur
  od_RequireOCSP :: bool
  od_ReapInterval :: dur

definition oidc_withDefaults :: "oidc_config \<Rightarrow> oidc_config" where
  "oidc_withDefaults c =
     (let c = (if od_ChallengeTTL c \<le> 0 then c\<lparr>od_ChallengeTTL := 5 * Minute\<rparr> else c);
          c = (if od_TokenTTL c \<le> 0 then c\<lparr>od_TokenTTL := Hour\<rparr> else c)
      in if od_ReapInterval c \<le> 0
         then c\<lparr>od_ReapInterval := (if od_ChallengeTTL c > Minute then Minute else od_ChallengeTTL c)\<rparr> else c)"

section \<open>Relying parties\<close>

record oidc_client =
  rp_ID :: string
  rp_Secret :: string
  rp_RedirectURIs :: "string list"

definition redirectAllowed :: "oidc_client \<Rightarrow> string \<Rightarrow> bool" where
  "redirectAllowed cl uri \<longleftrightarrow> uri \<in> set (rp_RedirectURIs cl)"

type_synonym oidc_clients = "(string, oidc_client) gomap"

datatype client_error = ClientShape string | ClientNoID string | ClientNoRedirect string

definition parse_client :: "string \<Rightarrow> client_error + oidc_client" where
  "parse_client raw =
     (let parts = Split raw CHR ''|''
      in if length parts < 3 then Inl (ClientShape raw)
         else let i = TrimSpaceU (parts ! 0); uris = filter (\<lambda>u. u \<noteq> []) (map TrimSpaceU (drop 2 parts))
           in if i = [] then Inl (ClientNoID raw)
              else if uris = [] then Inl (ClientNoRedirect i)
              else Inr \<lparr>rp_ID = i, rp_Secret = TrimSpaceU (parts ! 1), rp_RedirectURIs = uris\<rparr>)"

fun parse_clients :: "string list \<Rightarrow> oidc_clients \<Rightarrow> client_error + oidc_clients" where
  "parse_clients [] out = Inr out"
| "parse_clients (raw # rest) out =
     (case parse_client raw of Inl e \<Rightarrow> Inl e | Inr cl \<Rightarrow> parse_clients rest (kv_put (rp_ID cl) cl out))"

definition ParseClients :: "string list \<Rightarrow> client_error + oidc_clients" where
  "ParseClients entries = parse_clients entries []"

section \<open>The provider\<close>

text \<open>
  \<open>pv_SetQuery uri kvs\<close> is the redirect URI with the given query parameters set, if it parses as a URL.
\<close>

record 'c provider =
  pv_verifier :: "'c service"
  pv_lib :: jws_lib
  pv_signer :: token_signer
  pv_cfg :: oidc_config
  pv_clients :: oidc_clients
  pv_SetQuery :: "string \<Rightarrow> (string \<times> string) list \<Rightarrow> string option"

record auth_code =
  au_clientID :: string
  au_redirectURI :: string
  au_nonce :: string
  au_claims :: claims
  au_codeChallenge :: string
  au_expiresAt :: time

type_synonym code_store = "(string, auth_code) gomap"

record 's oidc_state =
  ox_store :: 's
  ox_codes :: code_store

definition oidc_New :: "'c provider \<Rightarrow> 'c provider" where
  "oidc_New P = P\<lparr>pv_cfg := oidc_withDefaults (pv_cfg P)\<rparr>"

datatype oidc_error =
    OiStore challenge_error | OiSignatureRejected | OiCertRevoked | OiDomain goerr | OiRandom goerr
  | OiUnknownClient | OiRedirectMismatch | OiUnsupportedFlow | OiPKCERequired | OiPKCEFailed | OiCodeInvalid | OiClientAuth

section \<open>Challenges\<close>

record oidc_challenge_request =
  oq_Nonce :: string
  oq_State :: string

record oidc_challenge_response =
  or_ChallengeID :: string
  or_Data :: string
  or_Alg :: string
  or_ExpiresIn :: int
  or_State :: string

abbreviation challengePurpose :: string where "challengePurpose \<equiv> ''oidc.login''"
abbreviation metaClientNonce :: string where "metaClientNonce \<equiv> ''clientNonce''"
abbreviation metaState :: string where "metaState \<equiv> ''state''"

definition challengeMeta :: "oidc_challenge_request \<Rightarrow> (string \<times> string) list" where
  "challengeMeta req = (if oq_Nonce req \<noteq> [] then [(metaClientNonce, oq_Nonce req)] else []) @
     (if oq_State req \<noteq> [] then [(metaState, oq_State req)] else [])"

definition oidc_randID :: "goerr + bytes \<Rightarrow> oidc_error + string" where
  "oidc_randID random = (case random of Inl e \<Rightarrow> Inl (OiRandom e) | Inr b \<Rightarrow> Inr (b64url_encode b))"

definition login_challenge :: "oidc_config \<Rightarrow> oidc_challenge_request \<Rightarrow> string \<Rightarrow> bytes \<Rightarrow> time \<Rightarrow> challenge" where
  "login_challenge cfg req i nonce now =
     \<lparr>ch_ID = i, ch_Nonce = nonce, ch_Purpose = challengePurpose, ch_Meta = challengeMeta req, ch_CreatedAt = now,
      ch_ExpiresAt = now + od_ChallengeTTL cfg, ch_Used = False\<rparr>"

definition oidc_Challenge :: "'s challenge_ops \<Rightarrow> 'c provider \<Rightarrow> 's \<Rightarrow> oidc_challenge_request \<Rightarrow> goerr + bytes \<Rightarrow> goerr + bytes \<Rightarrow> time \<Rightarrow>
    (oidc_error + oidc_challenge_response) \<times> 's" where
  "oidc_Challenge S P st req nonce idBytes now =
     (case nonce of
        Inl e \<Rightarrow> (Inl (OiRandom e), st)
      | Inr n \<Rightarrow>
          (case oidc_randID idBytes of
             Inl e \<Rightarrow> (Inl e, st)
           | Inr i \<Rightarrow>
               (case cs_Create S st (login_challenge (pv_cfg P) req i n now) of
                  Inl e \<Rightarrow> (Inl (OiStore e), st)
                | Inr st' \<Rightarrow>
                    (Inr \<lparr>or_ChallengeID = i, or_Data = base64 n, or_Alg = ''CMS-detached'',
                          or_ExpiresIn = od_ChallengeTTL (pv_cfg P) div Second, or_State = oq_State req\<rparr>, st'))))"

section \<open>The signature over a challenge\<close>

definition login_verify_input :: "bytes \<Rightarrow> bytes \<Rightarrow> verify_input" where
  "login_verify_input signature nonce =
     \<lparr>vi_Format = FormatCMS, vi_Signature = signature, vi_Data = nonce, vi_DataRef = \<lparr>dr_Path = [], dr_URL = []\<rparr>,
      vi_Detached = True, vi_InputPEM = looksPEM signature, vi_CheckCertTime = True, vi_ExtractContent = False,
      vi_ExtractClaims = True, vi_Explain = False, vi_Report = False, vi_Receipt = False, vi_TrustedCerts = [],
      vi_RevocationCheck = None, vi_RevocationMethod = [], vi_ResponderURL = [], vi_Archive = False\<rparr>"

definition login_validate_input :: "bytes \<Rightarrow> validate_input" where
  "login_validate_input pem =
     \<lparr>va_Cert = pem, va_Format = EncodingPEM, va_Method = MethodOCSP, va_CheckTime = zero_time, va_WantOCSP = True,
      va_TrustedCerts = [], va_ResponderURL = [], va_CRL = []\<rparr>"

definition login_signer :: "'c provider \<Rightarrow> lang \<Rightarrow> 'c \<Rightarrow> challenge \<Rightarrow> confirm_clock \<Rightarrow> signer \<Rightarrow>
    ((oidc_error + (claims \<times> string)) \<times> 'c) go" where
  "login_signer P ctx c ch clock sg =
     (let nonce = (case map_of (ch_Meta ch) metaClientNonce of Some n \<Rightarrow> n | None \<Rightarrow> [])
      in case sg_Claims sg of
           None \<Rightarrow> Returns (Inl OiSignatureRejected, c)
         | Some claims \<Rightarrow>
             if cl_Sub claims = [] then Returns (Inl OiSignatureRejected, c)
             else if \<not> od_RequireOCSP (pv_cfg P) then Returns (Inr (claims, nonce), c)
             else (case Validate (pv_verifier P) ctx c (login_validate_input (ct_PEM (sg_Certificate sg))) (cl_validate clock) of
                Panics \<Rightarrow> Panics
              | Returns ((_, Some e), c') \<Rightarrow> Returns (Inl (OiDomain e), c')
              | Returns ((res, None), c') \<Rightarrow>
                  Returns (if rs_Revoked (vt_Status res) then Inl OiCertRevoked else Inr (claims, nonce), c')))"

definition login_consumed :: "'c provider \<Rightarrow> lang \<Rightarrow> 'c \<Rightarrow> challenge \<Rightarrow> bytes \<Rightarrow> confirm_clock \<Rightarrow>
    ((oidc_error + (claims \<times> string)) \<times> 'c) go" where
  "login_consumed P ctx c ch signature clock =
     (if \<not> After (ch_ExpiresAt ch) (cl_now clock) then Returns (Inl (OiStore ChExpired), c)
      else if signature = [] then Returns (Inl OiSignatureRejected, c)
      else case Verify (pv_verifier P) ctx c (login_verify_input signature (ch_Nonce ch)) (cl_verify clock) of
        Panics \<Rightarrow> Panics
      | Returns (((out, Some e), effs), c') \<Rightarrow> Returns (Inl (OiDomain e), c')
      | Returns (((out, None), effs), c') \<Rightarrow>
          (case vo_Signers out of
             sg # _ \<Rightarrow> if vo_Valid out then login_signer P ctx c' ch clock sg else Returns (Inl OiSignatureRejected, c')
           | [] \<Rightarrow> Returns (Inl OiSignatureRejected, c')))"

definition verifyChallengeSignature :: "'s challenge_ops \<Rightarrow> 'c provider \<Rightarrow> lang \<Rightarrow> 's \<Rightarrow> 'c \<Rightarrow> string \<Rightarrow> bytes \<Rightarrow> confirm_clock \<Rightarrow>
    ((oidc_error + (claims \<times> string)) \<times> 'c) go \<times> 's" where
  "verifyChallengeSignature S P ctx st c challengeID signature clock =
     (case cs_Consume S st challengeID of
        Inl e \<Rightarrow> (Returns (Inl (OiStore e), c), st)
      | Inr (ch, st') \<Rightarrow> (login_consumed P ctx c ch signature clock, st'))"

section \<open>Tokens\<close>

definition claims_fields :: "claims \<Rightarrow> (string \<times> json) list" where
  "claims_fields c = str_field ''sub'' (cl_Sub c) @ str_field ''name'' (cl_Name c) @ str_field ''given_name'' (cl_GivenName c) @
     str_field ''family_name'' (cl_FamilyName c) @ str_field ''email'' (cl_Email c) @ str_field ''iin'' (cl_IIN c) @
     str_field ''bin'' (cl_BIN c) @ str_field ''organization'' (cl_Organization c) @ arr_field ''roles'' (map JStr (cl_Roles c)) @
     str_field ''owner_type'' (cl_OwnerType c) @ str_field ''gender'' (cl_Gender c)"

definition claimsToMap :: "jws_lib \<Rightarrow> claims \<Rightarrow> (string \<times> json) list" where
  "claimsToMap L c =
     (case jl_Marshal L (claims_fields c) of
        Inl _ \<Rightarrow> []
      | Inr b \<Rightarrow> (case jl_Unmarshal L b of None \<Rightarrow> [] | Some m \<Rightarrow> m))"

definition oidc_firstNonEmpty :: "string list \<Rightarrow> string" where
  "oidc_firstNonEmpty vals = (case find (\<lambda>v. v \<noteq> []) vals of Some v \<Rightarrow> v | None \<Rightarrow> [])"

definition id_token_claims :: "'c provider \<Rightarrow> claims \<Rightarrow> string \<Rightarrow> string \<Rightarrow> time \<Rightarrow> (string \<times> json) list" where
  "id_token_claims P claims clientID nonce now =
     (let m = claimsToMap (pv_lib P) claims;
          m = kv_put ''iss'' (JStr (od_Issuer (pv_cfg P))) m;
          m = kv_put ''sub'' (JStr (cl_Sub claims)) m;
          m = kv_put ''aud'' (JStr (oidc_firstNonEmpty [clientID, od_Audience (pv_cfg P), od_Issuer (pv_cfg P)])) m;
          m = kv_put ''iat'' (JInt (now div Second)) m;
          m = kv_put ''auth_time'' (JInt (now div Second)) m;
          m = kv_put ''exp'' (JInt ((now + od_TokenTTL (pv_cfg P)) div Second)) m
      in if nonce \<noteq> [] then kv_put ''nonce'' (JStr nonce) m else m)"

definition access_token_claims :: "'c provider \<Rightarrow> claims \<Rightarrow> time \<Rightarrow> (string \<times> json) list" where
  "access_token_claims P claims now =
     (let m = claimsToMap (pv_lib P) claims;
          m = kv_put ''iss'' (JStr (od_Issuer (pv_cfg P))) m;
          m = kv_put ''sub'' (JStr (cl_Sub claims)) m;
          m = kv_put ''iat'' (JInt (now div Second)) m;
          m = kv_put ''exp'' (JInt ((now + od_TokenTTL (pv_cfg P)) div Second)) m
      in kv_put ''token_use'' (JStr ''access'') m)"

definition IssueTokens :: "'c provider \<Rightarrow> claims \<Rightarrow> string \<Rightarrow> string \<Rightarrow> time \<Rightarrow> goerr + token_response" where
  "IssueTokens P claims clientID nonce now =
     (case signer_Sign (pv_lib P) (pv_signer P) (id_token_claims P claims clientID nonce now) of
        Inl e \<Rightarrow> Inl e
      | Inr idToken \<Rightarrow>
          (case signer_Sign (pv_lib P) (pv_signer P) (access_token_claims P claims now) of
             Inl e \<Rightarrow> Inl e
           | Inr accessToken \<Rightarrow>
               Inr \<lparr>tk_IDToken = idToken, tk_AccessToken = accessToken, tk_TokenType = ''Bearer'',
                    tk_ExpiresIn = od_TokenTTL (pv_cfg P) div Second\<rparr>))"

definition oidc_tokens :: "'c provider \<Rightarrow> claims \<Rightarrow> string \<Rightarrow> string \<Rightarrow> time \<Rightarrow> oidc_error + token_response" where
  "oidc_tokens P claims clientID nonce now =
     (case IssueTokens P claims clientID nonce now of Inl e \<Rightarrow> Inl (OiDomain e) | Inr t \<Rightarrow> Inr t)"

definition UserInfo :: "'c provider \<Rightarrow> string \<Rightarrow> time \<Rightarrow> token_error + (string \<times> json) list" where
  "UserInfo P bearer now = signer_Verify (pv_lib P) (pv_signer P) (TrimSpaceU bearer) now"

section \<open>The direct grant\<close>

record oidc_verify_request =
  ov_ChallengeID :: string
  ov_Signature :: bytes
  ov_ClientID :: string

definition oidc_Verify :: "'s challenge_ops \<Rightarrow> 'c provider \<Rightarrow> lang \<Rightarrow> 's \<Rightarrow> 'c \<Rightarrow> oidc_verify_request \<Rightarrow> confirm_clock \<Rightarrow> time \<Rightarrow>
    ((oidc_error + token_response) \<times> 'c) go \<times> 's" where
  "oidc_Verify S P ctx st c req clock now =
     (case verifyChallengeSignature S P ctx st c (ov_ChallengeID req) (ov_Signature req) clock of (r, st') \<Rightarrow>
        (case r of
           Panics \<Rightarrow> Panics
         | Returns (Inl e, c') \<Rightarrow> Returns (Inl e, c')
         | Returns (Inr (claims, nonce), c') \<Rightarrow> Returns (oidc_tokens P claims (ov_ClientID req) nonce now, c'), st'))"

section \<open>Authorization codes\<close>

abbreviation authCodeTTL :: dur where "authCodeTTL \<equiv> 60 * Second"

definition code_put :: "code_store \<Rightarrow> string \<Rightarrow> auth_code \<Rightarrow> code_store" where
  "code_put s code a = kv_put code a s"

definition code_take :: "code_store \<Rightarrow> string \<Rightarrow> time \<Rightarrow> auth_code option \<times> code_store" where
  "code_take s code now =
     (case map_of s code of
        None \<Rightarrow> (None, s)
      | Some a \<Rightarrow> (if After (au_expiresAt a) now then Some a else None, kv_del code s))"

definition code_reap :: "code_store \<Rightarrow> time \<Rightarrow> code_store" where
  "code_reap s now = kv_drop (\<lambda>a. \<not> After (au_expiresAt a) now) s"

record authorize_request =
  aq_ClientID :: string
  aq_RedirectURI :: string
  aq_ResponseType :: string
  aq_Scope :: string
  aq_State :: string
  aq_Nonce :: string
  aq_CodeChallenge :: string
  aq_CodeChallengeMethod :: string

text \<open>\<^verbatim>\<open>strings.EqualFold(m, "S256")\<close>: the letter has two forms in ASCII and folds with U+017F.\<close>

definition is_S256 :: "string \<Rightarrow> bool" where
  "is_S256 m \<longleftrightarrow> m \<in> {''S256'', ''s256'', [CHR 0xC5, CHR 0xBF] @ ''256''}"

text \<open>
  The zero client comes back with the errors of the first two checks, the client itself with those of
  the later ones, so that they can be reported to its redirect URI.
\<close>

definition no_client :: oidc_client where
  "no_client = \<lparr>rp_ID = [], rp_Secret = [], rp_RedirectURIs = []\<rparr>"

definition ValidateAuthorize :: "oidc_clients \<Rightarrow> authorize_request \<Rightarrow> oidc_client \<times> oidc_error option" where
  "ValidateAuthorize clients req =
     (case map_of clients (aq_ClientID req) of
        None \<Rightarrow> (no_client, Some OiUnknownClient)
      | Some cl \<Rightarrow>
          if aq_RedirectURI req = [] \<or> \<not> redirectAllowed cl (aq_RedirectURI req) then (no_client, Some OiRedirectMismatch)
          else if aq_ResponseType req \<noteq> ''code'' then (cl, Some OiUnsupportedFlow)
          else if rp_Secret cl = [] \<and> (aq_CodeChallenge req = [] \<or> \<not> is_S256 (aq_CodeChallengeMethod req))
            then (cl, Some OiPKCERequired)
          else if aq_CodeChallenge req \<noteq> [] \<and> \<not> is_S256 (aq_CodeChallengeMethod req) then (cl, Some OiPKCERequired)
          else (cl, None))"

definition code_for :: "oidc_client \<Rightarrow> authorize_request \<Rightarrow> claims \<Rightarrow> time \<Rightarrow> auth_code" where
  "code_for cl req claims now =
     \<lparr>au_clientID = rp_ID cl, au_redirectURI = aq_RedirectURI req, au_nonce = aq_Nonce req, au_claims = claims,
      au_codeChallenge = aq_CodeChallenge req, au_expiresAt = now + authCodeTTL\<rparr>"

text \<open>The second half of an authorization: the code is stored and the browser is sent back.\<close>

definition grant_code :: "'c provider \<Rightarrow> code_store \<Rightarrow> oidc_client \<Rightarrow> authorize_request \<Rightarrow> claims \<Rightarrow> goerr + bytes \<Rightarrow> time \<Rightarrow>
    (oidc_error + string) \<times> code_store" where
  "grant_code P codes cl req claims codeBytes now =
     (case oidc_randID codeBytes of
        Inl e \<Rightarrow> (Inl e, codes)
      | Inr code \<Rightarrow>
          (case pv_SetQuery P (aq_RedirectURI req) ([(''code'', code)] @ (if aq_State req \<noteq> [] then [(''state'', aq_State req)] else [])) of
             None \<Rightarrow> Inl OiRedirectMismatch
           | Some u \<Rightarrow> Inr u,
           code_put codes code (code_for cl req claims now)))"

definition CompleteAuthorization :: "'s challenge_ops \<Rightarrow> 'c provider \<Rightarrow> lang \<Rightarrow> 's oidc_state \<Rightarrow> 'c \<Rightarrow> authorize_request \<Rightarrow> string \<Rightarrow> bytes \<Rightarrow>
    confirm_clock \<Rightarrow> goerr + bytes \<Rightarrow> time \<Rightarrow> ((oidc_error + string) \<times> 'c) go \<times> 's oidc_state" where
  "CompleteAuthorization S P ctx st c req challengeID signature clock codeBytes now =
     (case ValidateAuthorize (pv_clients P) req of
        (cl, Some e) \<Rightarrow> (Returns (Inl e, c), st)
      | (cl, None) \<Rightarrow>
          (case verifyChallengeSignature S P ctx (ox_store st) c challengeID signature clock of
             (Panics, s') \<Rightarrow> (Panics, st\<lparr>ox_store := s'\<rparr>)
           | (Returns (Inl e, c'), s') \<Rightarrow> (Returns (Inl e, c'), st\<lparr>ox_store := s'\<rparr>)
           | (Returns (Inr (claims, nonce), c'), s') \<Rightarrow>
               (case grant_code P (ox_codes st) cl req claims codeBytes now of
                  (r, codes') \<Rightarrow> (Returns (r, c'), st\<lparr>ox_store := s', ox_codes := codes'\<rparr>))))"

section \<open>The exchange\<close>

record oidc_token_request =
  tq_GrantType :: string
  tq_Code :: string
  tq_RedirectURI :: string
  tq_ClientID :: string
  tq_ClientSecret :: string
  tq_CodeVerifier :: string

definition verifyPKCE :: "jws_lib \<Rightarrow> string \<Rightarrow> string \<Rightarrow> bool" where
  "verifyPKCE L challenge verifier \<longleftrightarrow> verifier \<noteq> [] \<and> challenge = b64url_encode (jl_Sum256 L verifier)"

text \<open>The bindings of a code that was taken out of the store.\<close>

definition redeem_code :: "'c provider \<Rightarrow> oidc_token_request \<Rightarrow> auth_code \<Rightarrow> time \<Rightarrow> oidc_error + token_response" where
  "redeem_code P req a now =
     (if au_clientID a \<noteq> tq_ClientID req \<or> au_redirectURI a \<noteq> tq_RedirectURI req then Inl OiCodeInvalid
      else if au_codeChallenge a \<noteq> [] \<and> \<not> verifyPKCE (pv_lib P) (au_codeChallenge a) (tq_CodeVerifier req) then Inl OiPKCEFailed
      else oidc_tokens P (au_claims a) (tq_ClientID req) (au_nonce a) now)"

definition Exchange :: "'c provider \<Rightarrow> code_store \<Rightarrow> oidc_token_request \<Rightarrow> time \<Rightarrow> time \<Rightarrow> (oidc_error + token_response) \<times> code_store" where
  "Exchange P codes req now issuedAt =
     (if tq_GrantType req \<noteq> ''authorization_code'' then (Inl OiUnsupportedFlow, codes)
      else case map_of (pv_clients P) (tq_ClientID req) of
        None \<Rightarrow> (Inl OiUnknownClient, codes)
      | Some cl \<Rightarrow>
          if rp_Secret cl \<noteq> [] \<and> rp_Secret cl \<noteq> tq_ClientSecret req then (Inl OiClientAuth, codes)
          else (case code_take codes (tq_Code req) now of
             (None, codes') \<Rightarrow> (Inl OiCodeInvalid, codes')
           | (Some a, codes') \<Rightarrow> (redeem_code P req a issuedAt, codes')))"

text \<open>One tick of the sweeper: codes first, then challenges.\<close>

definition oidc_reap_tick :: "'s challenge_ops \<Rightarrow> 's oidc_state \<Rightarrow> time \<Rightarrow> time \<Rightarrow> 's oidc_state" where
  "oidc_reap_tick S st t1 t2 =
     (let st = st\<lparr>ox_codes := code_reap (ox_codes st) t1\<rparr>
      in case cs_Reap S (ox_store st) t2 of Inl _ \<Rightarrow> st | Inr (n, s') \<Rightarrow> st\<lparr>ox_store := s'\<rparr>)"

definition ActiveChallenges :: "'s challenge_ops \<Rightarrow> 's oidc_state \<Rightarrow> nat" where
  "ActiveChallenges S st = cs_Len S (ox_store st)"

section \<open>Discovery\<close>

record discovery_doc =
  dd_Issuer :: string
  dd_JWKSURI :: string
  dd_TokenEndpoint :: string
  dd_AuthorizationEndpoint :: string
  dd_UserinfoEndpoint :: string
  dd_ChallengeEndpoint :: string
  dd_VerifyEndpoint :: string
  dd_GrantTypes :: "string list"
  dd_ResponseTypes :: "string list"
  dd_SubjectTypes :: "string list"
  dd_IDTokenAlgs :: "string list"
  dd_Scopes :: "string list"
  dd_CodeChallengeMethods :: "string list"
  dd_Claims :: "string list"

definition Discovery :: "'c provider \<Rightarrow> discovery_doc" where
  "Discovery P =
     (let base = rev (dropWhile (\<lambda>c. c = CHR ''/'') (rev (od_Issuer (pv_cfg P))))
      in \<lparr>dd_Issuer = od_Issuer (pv_cfg P), dd_JWKSURI = base @ ''/oidc/jwks.json'', dd_TokenEndpoint = base @ ''/oidc/token'',
          dd_AuthorizationEndpoint = base @ ''/oidc/authorize'', dd_UserinfoEndpoint = base @ ''/oidc/userinfo'',
          dd_ChallengeEndpoint = base @ ''/oidc/challenge'', dd_VerifyEndpoint = base @ ''/oidc/verify'',
          dd_GrantTypes = [''authorization_code'', ''urn:qoltanba:params:grant-type:ecp''],
          dd_ResponseTypes = [''code'', ''id_token'', ''token''], dd_SubjectTypes = [''public''], dd_IDTokenAlgs = [''RS256''],
          dd_Scopes = [''openid'', ''profile''], dd_CodeChallengeMethods = [''S256''],
          dd_Claims = [''sub'', ''name'', ''given_name'', ''family_name'', ''email'', ''iin'', ''bin'', ''organization'', ''roles'',
            ''owner_type'', ''gender'']\<rparr>)"

end
