(* ===== verification/Oidc_Properties.thy ===== *)
theory Oidc_Properties
  imports Oidc
begin

text \<open>
  What a login proves. Requests run concurrently, so the provider is a step relation: the issue of a
  challenge, the check of a signature over one, the storing of an authorization code, an exchange and
  a sweep are the atomic steps, and an authorization that has checked its signature waits among the
  others before it stores its code. The log of events is kept newest first; an event is justified by
  what lies behind it in the log.
\<close>

section \<open>Registered clients\<close>

definition clients_keyed :: "oidc_clients \<Rightarrow> bool" where
  "clients_keyed m \<longleftrightarrow> (\<forall>i cl. map_of m i = Some cl \<longrightarrow> rp_ID cl = i \<and> i \<noteq> [] \<and> rp_RedirectURIs cl \<noteq> [])"

lemma parse_client_Inr: "parse_client raw = Inr cl \<Longrightarrow> rp_ID cl \<noteq> [] \<and> rp_RedirectURIs cl \<noteq> []"
  by (auto simp: parse_client_def Let_def split: if_splits)

lemma parse_clients_keyed: "parse_clients entries out = Inr m \<Longrightarrow> clients_keyed out \<Longrightarrow> clients_keyed m"
proof (induction entries arbitrary: out)
  case (Cons raw rest)
  then obtain cl where cl: "parse_client raw = Inr cl" "parse_clients rest (kv_put (rp_ID cl) cl out) = Inr m"
    by (auto split: sum.splits)
  have "clients_keyed (kv_put (rp_ID cl) cl out)"
    using parse_client_Inr [OF cl(1)] Cons.prems(2) by (auto simp: clients_keyed_def kv_simps split: if_splits)
  with Cons.IH [OF cl(2)] show ?case by simp
qed simp

lemma ParseClients_keyed: "ParseClients entries = Inr m \<Longrightarrow> clients_keyed m"
  using parse_clients_keyed [of entries "[]" m] by (simp add: ParseClients_def clients_keyed_def)

lemma ValidateAuthorize_ok:
  assumes "ValidateAuthorize clients req = (cl, None)"
  shows "map_of clients (aq_ClientID req) = Some cl" "aq_RedirectURI req \<in> set (rp_RedirectURIs cl)"
    "rp_Secret cl = [] \<longrightarrow> aq_CodeChallenge req \<noteq> []"
  using assms by (auto simp: ValidateAuthorize_def redirectAllowed_def split: option.splits if_splits)

section \<open>The signature behind a login\<close>

definition login_signed :: "'c provider \<Rightarrow> lang \<Rightarrow> 'c \<Rightarrow> bytes \<Rightarrow> confirm_clock \<Rightarrow> bytes \<Rightarrow> claims \<Rightarrow> bool" where
  "login_signed P ctx c signature clock nonce claims \<longleftrightarrow>
     (\<exists>out effs c' sg rest. Verify (pv_verifier P) ctx c (login_verify_input signature nonce) (cl_verify clock) = Returns (((out, None), effs), c') \<and>
        vo_Valid out \<and> vo_Signers out = sg # rest \<and> sg_Claims sg = Some claims \<and> cl_Sub claims \<noteq> [] \<and>
        (od_RequireOCSP (pv_cfg P) \<longrightarrow>
          (\<exists>res c''. Validate (pv_verifier P) ctx c' (login_validate_input (ct_PEM (sg_Certificate sg))) (cl_validate clock) = Returns ((res, None), c'') \<and>
             \<not> rs_Revoked (vt_Status res))))"

lemma login_consumed_Inr:
  assumes "login_consumed P ctx c ch signature clock = Returns (Inr (claims, nonce), c')"
  shows "cl_now clock < ch_ExpiresAt ch" "login_signed P ctx c signature clock (ch_Nonce ch) claims"
proof -
  from assms show live: "cl_now clock < ch_ExpiresAt ch" by (auto simp: login_consumed_def split: if_splits)
  from assms live obtain out effs c1 sg rest where
    v: "Verify (pv_verifier P) ctx c (login_verify_input signature (ch_Nonce ch)) (cl_verify clock) = Returns (((out, None), effs), c1)"
    "vo_Valid out" "vo_Signers out = sg # rest"
    and sg: "login_signer P ctx c1 ch clock sg = Returns (Inr (claims, nonce), c')"
    by (auto simp: login_consumed_def split: go.splits option.splits list.splits if_splits)
  have "sg_Claims sg = Some claims" "cl_Sub claims \<noteq> []"
    using sg by (auto simp: login_signer_def Let_def split: go.splits option.splits if_splits)
  moreover have "\<exists>res c''. Validate (pv_verifier P) ctx c1 (login_validate_input (ct_PEM (sg_Certificate sg))) (cl_validate clock) = Returns ((res, None), c'') \<and>
      \<not> rs_Revoked (vt_Status res)" if "od_RequireOCSP (pv_cfg P)"
    using sg that by (auto simp: login_signer_def Let_def split: go.splits option.splits if_splits)
  ultimately show "login_signed P ctx c signature clock (ch_Nonce ch) claims"
    unfolding login_signed_def using v by blast
qed

section \<open>Concurrent requests\<close>

datatype oidc_event =
    ChallengeMade challenge | LoggedIn string claims | CodeMade string auth_code | Exchanged oidc_token_request time time token_response

record 's oidc_system =
  oy_state :: "'s oidc_state"
  oy_pending :: "(oidc_client \<times> authorize_request \<times> claims) list"
  oy_log :: "oidc_event list"

definition oidc_init :: "'s \<Rightarrow> 's oidc_system" where
  "oidc_init s = \<lparr>oy_state = \<lparr>ox_store = s, ox_codes = []\<rparr>, oy_pending = [], oy_log = []\<rparr>"

definition with_store :: "'s \<Rightarrow> 's oidc_system \<Rightarrow> 's oidc_system" where
  "with_store s y = y\<lparr>oy_state := (oy_state y)\<lparr>ox_store := s\<rparr>\<rparr>"

definition with_codes :: "code_store \<Rightarrow> 's oidc_system \<Rightarrow> 's oidc_system" where
  "with_codes codes y = y\<lparr>oy_state := (oy_state y)\<lparr>ox_codes := codes\<rparr>\<rparr>"

definition logged :: "oidc_event \<Rightarrow> 's oidc_system \<Rightarrow> 's oidc_system" where
  "logged ev y = y\<lparr>oy_log := ev # oy_log y\<rparr>"

abbreviation oy_store :: "'s oidc_system \<Rightarrow> 's" where "oy_store y \<equiv> ox_store (oy_state y)"
abbreviation oy_codes :: "'s oidc_system \<Rightarrow> code_store" where "oy_codes y \<equiv> ox_codes (oy_state y)"

lemma oy_simps [simp]:
  "oy_store (with_store s y) = s" "oy_codes (with_store s y) = oy_codes y" "oy_pending (with_store s y) = oy_pending y"
  "oy_log (with_store s y) = oy_log y"
  "oy_store (with_codes k y) = oy_store y" "oy_codes (with_codes k y) = k" "oy_pending (with_codes k y) = oy_pending y"
  "oy_log (with_codes k y) = oy_log y"
  "oy_state (logged ev y) = oy_state y" "oy_pending (logged ev y) = oy_pending y" "oy_log (logged ev y) = ev # oy_log y"
  by (simp_all add: with_store_def with_codes_def logged_def)

inductive oidc_step :: "'s challenge_ops \<Rightarrow> 'c provider \<Rightarrow> lang \<Rightarrow> 's oidc_system \<Rightarrow> 's oidc_system \<Rightarrow> bool" for S P ctx where
  issue: "oidc_Challenge S P (oy_store y) req (Inr n) (Inr b) now = (Inr resp, s') \<Longrightarrow>
    oidc_step S P ctx y (logged (ChallengeMade (login_challenge (pv_cfg P) req (b64url_encode b) n now)) (with_store s' y))"
| login: "verifyChallengeSignature S P ctx (oy_store y) c i signature clock = (Returns (Inr (claims, nonce), c'), s') \<Longrightarrow>
    oidc_step S P ctx y (logged (LoggedIn i claims) (with_store s' y))"
| authorize: "ValidateAuthorize (pv_clients P) req = (cl, None) \<Longrightarrow>
    verifyChallengeSignature S P ctx (oy_store y) c i signature clock = (Returns (Inr (claims, nonce), c'), s') \<Longrightarrow>
    oidc_step S P ctx y (logged (LoggedIn i claims) (with_store s' (y\<lparr>oy_pending := (cl, req, claims) # oy_pending y\<rparr>)))"
| refuse: "verifyChallengeSignature S P ctx (oy_store y) c i signature clock = (r, s') \<Longrightarrow>
    (\<nexists>claims nonce c'. r = Returns (Inr (claims, nonce), c')) \<Longrightarrow> oidc_step S P ctx y (with_store s' y)"
| grant: "(cl, req, claims) \<in> set (oy_pending y) \<Longrightarrow> grant_code P (oy_codes y) cl req claims (Inr b) now = (r, codes') \<Longrightarrow>
    oidc_step S P ctx y (logged (CodeMade (b64url_encode b) (code_for cl req claims now))
      (with_codes codes' (y\<lparr>oy_pending := remove1 (cl, req, claims) (oy_pending y)\<rparr>)))"
| abandon: "(cl, req, claims) \<in> set (oy_pending y) \<Longrightarrow>
    oidc_step S P ctx y (y\<lparr>oy_pending := remove1 (cl, req, claims) (oy_pending y)\<rparr>)"
| exchange: "Exchange P (oy_codes y) req now issuedAt = (Inr tok, codes') \<Longrightarrow>
    oidc_step S P ctx y (logged (Exchanged req now issuedAt tok) (with_codes codes' y))"
| deny: "Exchange P (oy_codes y) req now issuedAt = (Inl e, codes') \<Longrightarrow> oidc_step S P ctx y (with_codes codes' y)"
| sweep: "oidc_step S P ctx y (y\<lparr>oy_state := oidc_reap_tick S (oy_state y) t1 t2\<rparr>)"

inductive oidc_reachable :: "'s challenge_ops \<Rightarrow> 'c provider \<Rightarrow> lang \<Rightarrow> 's \<Rightarrow> 's oidc_system \<Rightarrow> bool" for S P ctx s0 where
  start: "oidc_reachable S P ctx s0 (oidc_init s0)"
| step: "oidc_reachable S P ctx s0 y \<Longrightarrow> oidc_step S P ctx y y' \<Longrightarrow> oidc_reachable S P ctx s0 y'"

section \<open>What justifies an event\<close>

definition login_backed :: "'c provider \<Rightarrow> lang \<Rightarrow> oidc_event list \<Rightarrow> string \<Rightarrow> claims \<Rightarrow> bool" where
  "login_backed P ctx past i claims \<longleftrightarrow> (\<exists>ch c signature clock. ChallengeMade ch \<in> set past \<and> ch_ID ch = i \<and>
     cl_now clock < ch_ExpiresAt ch \<and> login_signed P ctx c signature clock (ch_Nonce ch) claims)"

definition authorized :: "'c provider \<Rightarrow> oidc_event list \<Rightarrow> oidc_client \<Rightarrow> authorize_request \<Rightarrow> claims \<Rightarrow> bool" where
  "authorized P past cl req claims \<longleftrightarrow> ValidateAuthorize (pv_clients P) req = (cl, None) \<and> (\<exists>i. LoggedIn i claims \<in> set past)"

definition code_backed :: "'c provider \<Rightarrow> oidc_event list \<Rightarrow> auth_code \<Rightarrow> bool" where
  "code_backed P past a \<longleftrightarrow> (\<exists>cl req claims t. a = code_for cl req claims t \<and> authorized P past cl req claims)"

definition exchange_backed :: "'c provider \<Rightarrow> oidc_event list \<Rightarrow> oidc_token_request \<Rightarrow> time \<Rightarrow> time \<Rightarrow> token_response \<Rightarrow> bool" where
  "exchange_backed P past req now issuedAt tok \<longleftrightarrow> (\<exists>a cl. CodeMade (tq_Code req) a \<in> set past \<and> now < au_expiresAt a \<and>
     map_of (pv_clients P) (tq_ClientID req) = Some cl \<and> (rp_Secret cl \<noteq> [] \<longrightarrow> tq_ClientSecret req = rp_Secret cl) \<and>
     redeem_code P req a issuedAt = Inr tok)"

fun event_backed :: "'c provider \<Rightarrow> lang \<Rightarrow> oidc_event list \<Rightarrow> oidc_event \<Rightarrow> bool" where
  "event_backed P ctx past (ChallengeMade ch) = True"
| "event_backed P ctx past (LoggedIn i claims) = login_backed P ctx past i claims"
| "event_backed P ctx past (CodeMade k a) = code_backed P past a"
| "event_backed P ctx past (Exchanged req now issuedAt tok) = exchange_backed P past req now issuedAt tok"

fun oidc_log_ok :: "'c provider \<Rightarrow> lang \<Rightarrow> oidc_event list \<Rightarrow> bool" where
  "oidc_log_ok P ctx [] = True"
| "oidc_log_ok P ctx (ev # past) = (event_backed P ctx past ev \<and> oidc_log_ok P ctx past)"

fun makes_challenge :: "string \<Rightarrow> oidc_event \<Rightarrow> bool" where
  "makes_challenge i (ChallengeMade ch) = (ch_ID ch = i)" | "makes_challenge i _ = False"

fun logs_in :: "string \<Rightarrow> oidc_event \<Rightarrow> bool" where
  "logs_in i (LoggedIn j claims) = (j = i)" | "logs_in i _ = False"

fun makes_code :: "string \<Rightarrow> oidc_event \<Rightarrow> bool" where
  "makes_code k (CodeMade l a) = (l = k)" | "makes_code k _ = False"

fun exchanges :: "string \<Rightarrow> oidc_event \<Rightarrow> bool" where
  "exchanges k (Exchanged req now issuedAt tok) = (tq_Code req = k)" | "exchanges k _ = False"

definition events :: "(oidc_event \<Rightarrow> bool) \<Rightarrow> oidc_event list \<Rightarrow> nat" where
  "events f log = length (filter f log)"

lemma events_simps [simp]: "events f [] = 0" "events f (ev # log) = (if f ev then Suc (events f log) else events f log)"
  by (simp_all add: events_def)

lemma log_ok_at: "oidc_log_ok P ctx (later @ ev # past) \<Longrightarrow> event_backed P ctx past ev \<and> oidc_log_ok P ctx past"
  by (induction later) auto

lemma log_ok_member: "oidc_log_ok P ctx log \<Longrightarrow> ev \<in> set log \<Longrightarrow> \<exists>past. event_backed P ctx past ev \<and> set past \<subseteq> set log"
  by (induction log) auto

lemma login_backed_mono: "login_backed P ctx past i claims \<Longrightarrow> set past \<subseteq> set past' \<Longrightarrow> login_backed P ctx past' i claims"
  unfolding login_backed_def by blast

section \<open>The invariant\<close>

text \<open>Codes: what is held was made, and a code is either still held or exchanged, for each time it was made.\<close>

definition codes_inv :: "'s oidc_system \<Rightarrow> bool" where
  "codes_inv y \<longleftrightarrow> kv_ok (oy_codes y) \<and> (\<forall>k a. map_of (oy_codes y) k = Some a \<longrightarrow> CodeMade k a \<in> set (oy_log y)) \<and>
     (\<forall>k. events (exchanges k) (oy_log y) \<le> events (makes_code k) (oy_log y)) \<and>
     (\<forall>k. map_of (oy_codes y) k \<noteq> None \<longrightarrow> events (exchanges k) (oy_log y) < events (makes_code k) (oy_log y))"

definition pending_inv :: "'c provider \<Rightarrow> 's oidc_system \<Rightarrow> bool" where
  "pending_inv P y \<longleftrightarrow> (\<forall>(cl, req, claims) \<in> set (oy_pending y). authorized P (oy_log y) cl req claims)"

text \<open>An exchange leaves the codes alone or takes one out; a successful one takes out the code it names.\<close>

lemma Exchange_codes: "Exchange P s req now iat = (r, s') \<Longrightarrow> s' = s \<or> s' = kv_del (tq_Code req) s"
  by (auto simp: Exchange_def code_take_def split: if_splits option.splits)

lemma Exchange_Inr:
  assumes "Exchange P s req now iat = (Inr tok, s')"
  obtains a cl where "map_of s (tq_Code req) = Some a" "now < au_expiresAt a" "s' = kv_del (tq_Code req) s"
    "map_of (pv_clients P) (tq_ClientID req) = Some cl" "rp_Secret cl \<noteq> [] \<longrightarrow> tq_ClientSecret req = rp_Secret cl"
    "redeem_code P req a iat = Inr tok"
  using assms by (auto simp: Exchange_def code_take_def split: if_splits option.splits)

lemma grant_code_codes: "grant_code P s cl req claims (Inr b) now = (r, s') \<Longrightarrow> s' = kv_put (b64url_encode b) (code_for cl req claims now) s"
  by (auto simp: grant_code_def oidc_randID_def code_put_def)

lemma oidc_reap_tick_codes: "ox_codes (oidc_reap_tick S st t1 t2) = code_reap (ox_codes st) t1"
  by (auto simp: oidc_reap_tick_def Let_def split: sum.splits)

lemma codes_inv_step:
  assumes "oidc_step S P ctx y y'" and "codes_inv y"
  shows "codes_inv y'"
  using assms
proof (cases rule: oidc_step.cases)
  case (grant cl req claims b now r codes')
  have "codes' = kv_put (b64url_encode b) (code_for cl req claims now) (oy_codes y)" by (rule grant_code_codes [OF grant(3)])
  with assms(2) grant(1) show ?thesis by (auto simp: codes_inv_def kv_simps wf_intros le_imp_less_Suc le_SucI split: if_splits)
next
  case (exchange req now iat tok codes')
  obtain a where "map_of (oy_codes y) (tq_Code req) = Some a" "codes' = kv_del (tq_Code req) (oy_codes y)"
    by (rule Exchange_Inr [OF exchange(2)])
  with assms(2) exchange(1) show ?thesis by (auto simp: codes_inv_def kv_simps wf_intros split: if_splits)
next
  case (deny req now iat e codes')
  from Exchange_codes [OF deny(2)] assms(2) deny(1) show ?thesis
    by (auto simp: codes_inv_def kv_simps wf_intros split: if_splits)
next
  case (sweep t1 t2)
  with assms(2) show ?thesis
    by (auto simp: codes_inv_def oidc_reap_tick_codes code_reap_def kv_simps wf_intros split: option.splits if_splits)
qed (use assms(2) in \<open>auto simp: codes_inv_def\<close>)

lemma authorized_mono: "authorized P past cl req claims \<Longrightarrow> set past \<subseteq> set past' \<Longrightarrow> authorized P past' cl req claims"
  unfolding authorized_def by blast

lemma pending_inv_step:
  assumes "oidc_step S P ctx y y'" and "pending_inv P y"
  shows "pending_inv P y'"
proof -
  have keep: "authorized P (oy_log y) cl req claims" if "(cl, req, claims) \<in> set (oy_pending y)" for cl req claims
    using assms(2) that by (auto simp: pending_inv_def)
  have grow: "set (oy_log y) \<subseteq> set (oy_log y')" using assms(1) by cases auto
  have old: "authorized P (oy_log y') cl req claims" if "(cl, req, claims) \<in> set (oy_pending y)" for cl req claims
    by (rule authorized_mono [OF keep [OF that] grow])
  from assms(1) show ?thesis
  proof (cases rule: oidc_step.cases)
    case (authorize req cl c i signature clock claims nonce c' s')
    then have "authorized P (oy_log y') cl req claims" by (auto simp: authorized_def)
    with old authorize(1) show ?thesis by (auto simp: pending_inv_def)
  qed (use old in \<open>auto simp: pending_inv_def dest: notin_set_remove1\<close>)
qed

text \<open>Challenges: what the store holds was made, and gives at most one login for each time it was made.\<close>

context challenge_store
begin

definition made_inv :: "'s oidc_system \<Rightarrow> bool" where
  "made_inv y \<longleftrightarrow> ok (oy_store y) \<and>
     (\<forall>i ch. held (oy_store y) i = Some ch \<longrightarrow> (\<exists>u. ChallengeMade (ch\<lparr>ch_Used := u\<rparr>) \<in> set (oy_log y) \<and> ch_ID ch = i)) \<and>
     (\<forall>i. events (logs_in i) (oy_log y) \<le> events (makes_challenge i) (oy_log y)) \<and>
     (\<forall>i ch. held (oy_store y) i = Some ch \<longrightarrow> \<not> ch_Used ch \<longrightarrow>
        events (logs_in i) (oy_log y) < events (makes_challenge i) (oy_log y))"

lemma login_issue_effect:
  assumes "ok st" and "oidc_Challenge S P st req (Inr n) (Inr b) now = (Inr resp, st')"
  shows "ok st' \<and> held st' = (held st)(b64url_encode b \<mapsto> login_challenge (pv_cfg P) req (b64url_encode b) n now)"
  using create [OF assms(1), of "login_challenge (pv_cfg P) req (b64url_encode b) n now"] assms(2)
  by (auto simp: oidc_Challenge_def oidc_randID_def login_challenge_def)

lemma login_effect:
  assumes "ok st" and "verifyChallengeSignature S P ctx st c i signature clock = (r, st')"
  shows "ok st' \<and> ((st' = st \<and> (\<exists>e. r = Returns (Inl e, c))) \<or>
    (\<exists>ch. held st i = Some ch \<and> \<not> ch_Used ch \<and> held st' = (held st)(i \<mapsto> ch\<lparr>ch_Used := True\<rparr>) \<and>
       login_consumed P ctx c (ch\<lparr>ch_Used := True\<rparr>) signature clock = r))"
proof (cases "cs_Consume S st i")
  case (Inl e)
  with assms show ?thesis by (auto simp: verifyChallengeSignature_def)
next
  case (Inr p)
  obtain ch st1 where p: "p = (ch, st1)" by fastforce
  from consume_Inr [OF assms(1) Inr [unfolded p]] obtain ch0 where
    "held st i = Some ch0" "\<not> ch_Used ch0" "ch = ch0\<lparr>ch_Used := True\<rparr>" "ok st1"
    "held st1 = (held st)(i \<mapsto> ch0\<lparr>ch_Used := True\<rparr>)" .
  with Inr p assms(2) show ?thesis by (auto simp: verifyChallengeSignature_def)
qed

lemma sweep_effect:
  assumes "ok (ox_store st)"
  shows "ok (ox_store (oidc_reap_tick S st t1 t2)) \<and>
    (\<forall>i ch. held (ox_store (oidc_reap_tick S st t1 t2)) i = Some ch \<longrightarrow> held (ox_store st) i = Some ch)"
  using reap [OF assms, of t2] assms
  by (auto simp: oidc_reap_tick_def Let_def split: sum.splits option.splits if_splits)

text \<open>A login finds its challenge unused in the store and leaves it used.\<close>

lemma login_takes:
  assumes "made_inv y" and "verifyChallengeSignature S P ctx (oy_store y) c i signature clock = (Returns (Inr (claims, nonce), c'), s')"
  obtains ch where "held (oy_store y) i = Some ch" "\<not> ch_Used ch" "ok s'"
    "held s' = (held (oy_store y))(i \<mapsto> ch\<lparr>ch_Used := True\<rparr>)" "login_backed P ctx (oy_log y) i claims"
proof -
  have ok: "ok (oy_store y)" using assms(1) by (simp add: made_inv_def)
  from login_effect [OF ok assms(2)] obtain ch where ch: "held (oy_store y) i = Some ch" "\<not> ch_Used ch" "ok s'"
    "held s' = (held (oy_store y))(i \<mapsto> ch\<lparr>ch_Used := True\<rparr>)"
    and lc: "login_consumed P ctx c (ch\<lparr>ch_Used := True\<rparr>) signature clock = Returns (Inr (claims, nonce), c')" by auto
  from assms(1) ch(1) obtain u where "ChallengeMade (ch\<lparr>ch_Used := u\<rparr>) \<in> set (oy_log y)" "ch_ID ch = i"
    unfolding made_inv_def by blast
  with login_consumed_Inr [OF lc] have "login_backed P ctx (oy_log y) i claims"
    unfolding login_backed_def by (intro exI [of _ "ch\<lparr>ch_Used := u\<rparr>"]) auto
  with ch that show thesis by blast
qed

lemma made_inv_login:
  assumes "made_inv y" and "held (oy_store y) i = Some ch" "\<not> ch_Used ch" "ok s'"
    "held s' = (held (oy_store y))(i \<mapsto> ch\<lparr>ch_Used := True\<rparr>)" and "oy_store y' = s'" "oy_log y' = oy_log y \<or> oy_log y' = LoggedIn i claims # oy_log y"
  shows "made_inv y'"
  using assms(7) by (rule disjE) (use assms(1-6) in \<open>fastforce simp: made_inv_def\<close>)+

lemma made_inv_step:
  assumes "oidc_step S P ctx y y'" and "made_inv y"
  shows "made_inv y'"
  using assms(1)
proof (cases rule: oidc_step.cases)
  case (issue req n b now resp s')
  have ok: "ok (oy_store y)" using assms(2) by (simp add: made_inv_def)
  let ?ch = "login_challenge (pv_cfg P) req (b64url_encode b) n now"
  have eff: "ok s'" "held s' = (held (oy_store y))(b64url_encode b \<mapsto> ?ch)" using login_issue_effect [OF ok issue(2)] by auto
  have ch: "?ch\<lparr>ch_Used := False\<rparr> = ?ch" "ch_ID ?ch = b64url_encode b" by (simp_all add: login_challenge_def)
  show ?thesis unfolding made_inv_def
  proof (intro conjI allI impI)
    show "ok (oy_store y')" using issue(1) eff(1) by simp
  next
    fix i chx assume "held (oy_store y') i = Some chx"
    with issue(1) eff(2) assms(2) ch show "\<exists>u. ChallengeMade (chx\<lparr>ch_Used := u\<rparr>) \<in> set (oy_log y') \<and> ch_ID chx = i"
      by (cases "i = b64url_encode b") (force simp: made_inv_def)+
  next
    fix i show "events (logs_in i) (oy_log y') \<le> events (makes_challenge i) (oy_log y')"
      using issue(1) assms(2) by (simp add: made_inv_def le_SucI)
  next
    fix i chx assume "held (oy_store y') i = Some chx" "\<not> ch_Used chx"
    with issue(1) eff(2) assms(2) ch(2) show "events (logs_in i) (oy_log y') < events (makes_challenge i) (oy_log y')"
      by (cases "i = b64url_encode b") (auto simp: made_inv_def le_imp_less_Suc)
  qed
next
  case (login c i signature clock claims nonce c' s')
  from login_takes [OF assms(2) login(2)] obtain ch where "held (oy_store y) i = Some ch" "\<not> ch_Used ch" "ok s'"
    "held s' = (held (oy_store y))(i \<mapsto> ch\<lparr>ch_Used := True\<rparr>)" .
  from made_inv_login [OF assms(2) this] login(1) show ?thesis by simp
next
  case (authorize req cl c i signature clock claims nonce c' s')
  from login_takes [OF assms(2) authorize(3)] obtain ch where "held (oy_store y) i = Some ch" "\<not> ch_Used ch" "ok s'"
    "held s' = (held (oy_store y))(i \<mapsto> ch\<lparr>ch_Used := True\<rparr>)" .
  from made_inv_login [OF assms(2) this] authorize(1) show ?thesis by simp
next
  case (refuse c i signature clock r s')
  have ok: "ok (oy_store y)" using assms(2) by (simp add: made_inv_def)
  from login_effect [OF ok refuse(2)] consider "s' = oy_store y" | ch where "held (oy_store y) i = Some ch" "\<not> ch_Used ch" "ok s'"
    "held s' = (held (oy_store y))(i \<mapsto> ch\<lparr>ch_Used := True\<rparr>)" by blast
  then show ?thesis
  proof cases
    case 1
    with refuse(1) assms(2) show ?thesis by (simp add: made_inv_def)
  next
    case 2
    from made_inv_login [OF assms(2) this] refuse(1) show ?thesis by simp
  qed
next
  case (sweep t1 t2)
  have ok: "ok (oy_store y)" using assms(2) by (simp add: made_inv_def)
  from sweep_effect [OF ok, of t1 t2] sweep assms(2) show ?thesis by (simp add: made_inv_def) blast
qed (use assms(2) in \<open>auto simp: made_inv_def\<close>)

lemma log_ok_step:
  assumes "oidc_step S P ctx y y'" and "made_inv y" "codes_inv y" "pending_inv P y" "oidc_log_ok P ctx (oy_log y)"
  shows "oidc_log_ok P ctx (oy_log y')"
  using assms(1)
proof (cases rule: oidc_step.cases)
  case (login c i signature clock claims nonce c' s')
  from login_takes [OF assms(2) login(2)] obtain ch where "login_backed P ctx (oy_log y) i claims" .
  with login(1) assms(5) show ?thesis by simp
next
  case (authorize req cl c i signature clock claims nonce c' s')
  from login_takes [OF assms(2) authorize(3)] obtain ch where "login_backed P ctx (oy_log y) i claims" .
  with authorize(1) assms(5) show ?thesis by simp
next
  case (grant cl req claims b now r codes')
  with assms(4) have "code_backed P (oy_log y) (code_for cl req claims now)"
    unfolding code_backed_def pending_inv_def by blast
  with grant(1) assms(5) show ?thesis by simp
next
  case (exchange req now iat tok codes')
  from Exchange_Inr [OF exchange(2)] obtain a cl where a: "map_of (oy_codes y) (tq_Code req) = Some a" "now < au_expiresAt a"
    "map_of (pv_clients P) (tq_ClientID req) = Some cl" "rp_Secret cl \<noteq> [] \<longrightarrow> tq_ClientSecret req = rp_Secret cl"
    "redeem_code P req a iat = Inr tok" .
  with assms(3) have "exchange_backed P (oy_log y) req now iat tok" unfolding exchange_backed_def codes_inv_def by blast
  with exchange(1) assms(5) show ?thesis by simp
qed (use assms(5) in auto)

lemma oidc_reachable_inv:
  assumes "oidc_reachable S P ctx s0 y" and "ok s0" "held s0 = Map.empty"
  shows "made_inv y \<and> codes_inv y \<and> pending_inv P y \<and> oidc_log_ok P ctx (oy_log y)"
  using assms(1)
proof induction
  case start
  show ?case using assms(2,3) by (simp add: oidc_init_def made_inv_def codes_inv_def pending_inv_def)
next
  case (step y y')
  then show ?case using made_inv_step codes_inv_step pending_inv_step log_ok_step by blast
qed

end

section \<open>The requests as steps\<close>

text \<open>An authorization, the direct grant and an exchange are runs of these steps.\<close>

inductive oidc_steps :: "'s challenge_ops \<Rightarrow> 'c provider \<Rightarrow> lang \<Rightarrow> 's oidc_system \<Rightarrow> 's oidc_system \<Rightarrow> bool" for S P ctx where
  none: "oidc_steps S P ctx y y"
| more_steps: "oidc_steps S P ctx y y' \<Longrightarrow> oidc_step S P ctx y' y'' \<Longrightarrow> oidc_steps S P ctx y y''"

lemma oidc_steps_reachable: "oidc_steps S P ctx y y' \<Longrightarrow> oidc_reachable S P ctx s0 y \<Longrightarrow> oidc_reachable S P ctx s0 y'"
  by (induction rule: oidc_steps.induct) (auto intro: oidc_reachable.step)

lemma oidc_one_step: "oidc_step S P ctx y y' \<Longrightarrow> oidc_steps S P ctx y y'"
  by (rule oidc_steps.more_steps [OF oidc_steps.none])

lemma direct_grant_steps:
  assumes "oidc_Verify S P ctx (oy_store y) c req clock now = (r, s')"
  shows "\<exists>y'. oidc_steps S P ctx y y' \<and> oy_state y' = (oy_state y)\<lparr>ox_store := s'\<rparr> \<and> oy_pending y' = oy_pending y"
proof -
  obtain v where v: "verifyChallengeSignature S P ctx (oy_store y) c (ov_ChallengeID req) (ov_Signature req) clock = (v, s')"
    using assms by (auto simp: oidc_Verify_def split: prod.splits)
  show ?thesis
  proof (cases "\<exists>claims nonce c'. v = Returns (Inr (claims, nonce), c')")
    case True
    then obtain claims nonce c' where "v = Returns (Inr (claims, nonce), c')" by blast
    with v have "oidc_step S P ctx y (logged (LoggedIn (ov_ChallengeID req) claims) (with_store s' y))" by (auto intro: oidc_step.login)
    then show ?thesis by (intro exI conjI, rule oidc_one_step) (simp_all add: with_store_def)
  next
    case False
    with v have "oidc_step S P ctx y (with_store s' y)" by (auto intro: oidc_step.refuse)
    then show ?thesis by (intro exI conjI, rule oidc_one_step) (simp_all add: with_store_def)
  qed
qed

lemma exchange_steps:
  assumes "Exchange P (oy_codes y) req now iat = (r, codes')"
  shows "\<exists>y'. oidc_steps S P ctx y y' \<and> oy_state y' = (oy_state y)\<lparr>ox_codes := codes'\<rparr> \<and> oy_pending y' = oy_pending y"
proof (cases r)
  case (Inl e)
  with assms have "oidc_step S P ctx y (with_codes codes' y)" by (auto intro: oidc_step.deny)
  then show ?thesis by (intro exI conjI, rule oidc_one_step) (simp_all add: with_codes_def)
next
  case (Inr tok)
  with assms have "oidc_step S P ctx y (logged (Exchanged req now iat tok) (with_codes codes' y))" by (auto intro: oidc_step.exchange)
  then show ?thesis by (intro exI conjI, rule oidc_one_step) (simp_all add: with_codes_def)
qed

lemma authorization_steps:
  assumes "CompleteAuthorization S P ctx (oy_state y) c req i signature clock codeBytes now = (r, st')"
  shows "\<exists>y'. oidc_steps S P ctx y y' \<and> oy_state y' = st' \<and> oy_pending y' = oy_pending y"
proof (cases "\<exists>cl v s'. ValidateAuthorize (pv_clients P) req = (cl, None) \<and>
    verifyChallengeSignature S P ctx (oy_store y) c i signature clock = (v, s') \<and> (\<exists>claims nonce c'. v = Returns (Inr (claims, nonce), c'))")
  case True
  then obtain cl claims nonce c' s' where ok: "ValidateAuthorize (pv_clients P) req = (cl, None)"
    "verifyChallengeSignature S P ctx (oy_store y) c i signature clock = (Returns (Inr (claims, nonce), c'), s')" by blast
  obtain gr codes' where g: "grant_code P (oy_codes y) cl req claims codeBytes now = (gr, codes')" by fastforce
  have st': "st' = (oy_state y)\<lparr>ox_store := s', ox_codes := codes'\<rparr>" using assms ok g by (simp add: CompleteAuthorization_def)
  let ?y1 = "logged (LoggedIn i claims) (with_store s' (y\<lparr>oy_pending := (cl, req, claims) # oy_pending y\<rparr>))"
  have s1: "oidc_steps S P ctx y ?y1" by (rule oidc_one_step [OF oidc_step.authorize [OF ok]])
  have mem: "(cl, req, claims) \<in> set (oy_pending ?y1)" by simp
  show ?thesis
  proof (cases codeBytes)
    case (Inl e)
    with g have "codes' = oy_codes y" by (simp add: grant_code_def oidc_randID_def)
    with st' oidc_steps.more_steps [OF s1 oidc_step.abandon [OF mem]] show ?thesis
      by (intro exI conjI) (assumption, simp_all add: with_store_def logged_def)
  next
    case (Inr b)
    with g have "grant_code P (oy_codes ?y1) cl req claims (Inr b) now = (gr, codes')" by simp
    from oidc_steps.more_steps [OF s1 oidc_step.grant [OF mem this]] st' show ?thesis
      by (intro exI conjI) (assumption, simp_all add: with_store_def with_codes_def logged_def)
  qed
next
  case False
  obtain cl e where va: "ValidateAuthorize (pv_clients P) req = (cl, e)" by fastforce
  obtain v s' where v: "verifyChallengeSignature S P ctx (oy_store y) c i signature clock = (v, s')" by fastforce
  show ?thesis
  proof (cases e)
    case (Some err)
    with assms va have "st' = oy_state y" by (simp add: CompleteAuthorization_def)
    then show ?thesis by (intro exI [of _ y]) (simp add: oidc_steps.none)
  next
    case None
    with False va v have no: "\<nexists>claims nonce c'. v = Returns (Inr (claims, nonce), c')" by auto
    with assms va v None have "st' = (oy_state y)\<lparr>ox_store := s'\<rparr>"
      by (auto simp: CompleteAuthorization_def split: go.splits sum.splits prod.splits)
    with oidc_one_step [OF oidc_step.refuse [OF v no]] show ?thesis by (intro exI conjI) (assumption, simp_all add: with_store_def)
  qed
qed

section \<open>A code is worth one login\<close>

lemma redeem_code_Inr:
  assumes "redeem_code P req a iat = Inr tok"
  shows "au_clientID a = tq_ClientID req" "au_redirectURI a = tq_RedirectURI req"
    "au_codeChallenge a \<noteq> [] \<longrightarrow> verifyPKCE (pv_lib P) (au_codeChallenge a) (tq_CodeVerifier req)"
    "IssueTokens P (au_claims a) (tq_ClientID req) (au_nonce a) iat = Inr tok"
  using assms by (auto simp: redeem_code_def oidc_tokens_def split: if_splits sum.splits)

text \<open>What stands behind an exchange that gave tokens.\<close>

definition exchange_means :: "'c provider \<Rightarrow> lang \<Rightarrow> oidc_event list \<Rightarrow> oidc_token_request \<Rightarrow> time \<Rightarrow> time \<Rightarrow> token_response \<Rightarrow> bool" where
  "exchange_means P ctx past req now issuedAt tok \<longleftrightarrow>
     (\<exists>cl areq claims t i. map_of (pv_clients P) (tq_ClientID req) = Some cl \<and>
        (rp_Secret cl \<noteq> [] \<longrightarrow> tq_ClientSecret req = rp_Secret cl) \<and>
        aq_ClientID areq = tq_ClientID req \<and> aq_RedirectURI areq = tq_RedirectURI req \<and> tq_RedirectURI req \<in> set (rp_RedirectURIs cl) \<and>
        (aq_CodeChallenge areq \<noteq> [] \<or> rp_Secret cl = [] \<longrightarrow> verifyPKCE (pv_lib P) (aq_CodeChallenge areq) (tq_CodeVerifier req)) \<and>
        CodeMade (tq_Code req) (code_for cl areq claims t) \<in> set past \<and> now < t + authCodeTTL \<and>
        LoggedIn i claims \<in> set past \<and> login_backed P ctx past i claims \<and>
        IssueTokens P claims (tq_ClientID req) (aq_Nonce areq) issuedAt = Inr tok)"

lemma exchange_backed_means:
  assumes "exchange_backed P past req now iat tok" and "oidc_log_ok P ctx past" and "clients_keyed (pv_clients P)"
  shows "exchange_means P ctx past req now iat tok"
proof -
  from assms(1) obtain a cl where a: "CodeMade (tq_Code req) a \<in> set past" "now < au_expiresAt a"
    and cl: "map_of (pv_clients P) (tq_ClientID req) = Some cl" "rp_Secret cl \<noteq> [] \<longrightarrow> tq_ClientSecret req = rp_Secret cl"
    and red: "redeem_code P req a iat = Inr tok" by (auto simp: exchange_backed_def)
  from log_ok_member [OF assms(2) a(1)] obtain past' where "code_backed P past' a" and sub: "set past' \<subseteq> set past" by auto
  then obtain cl' areq claims t i where c: "a = code_for cl' areq claims t" "ValidateAuthorize (pv_clients P) areq = (cl', None)"
    "LoggedIn i claims \<in> set past" by (auto simp: code_backed_def authorized_def)
  from log_ok_member [OF assms(2) c(3)] obtain past'' where "login_backed P ctx past'' i claims" "set past'' \<subseteq> set past" by auto
  then have login: "login_backed P ctx past i claims" by (rule login_backed_mono)
  note va = ValidateAuthorize_ok [OF c(2)] and r = redeem_code_Inr [OF red, unfolded c(1) code_for_def, simplified]
  from assms(3) va(1) have "aq_ClientID areq = rp_ID cl'" by (auto simp: clients_keyed_def)
  with r(1) va(1) cl(1) have same: "cl' = cl" "aq_ClientID areq = tq_ClientID req" by auto
  show ?thesis unfolding exchange_means_def
    using a c(1,3) cl login r va same by (intro exI [of _ cl] exI [of _ areq] exI [of _ claims] exI [of _ t] exI [of _ i])
      (auto simp: code_for_def)
qed

context challenge_store
begin

lemma oidc_log_means:
  assumes "oidc_reachable S P ctx s0 y" and "ok s0" "held s0 = Map.empty" and "clients_keyed (pv_clients P)"
  shows "events (exchanges k) (oy_log y) \<le> events (makes_code k) (oy_log y) \<and>
    events (logs_in i) (oy_log y) \<le> events (makes_challenge i) (oy_log y) \<and>
    (\<forall>later req now iat tok past. oy_log y = later @ Exchanged req now iat tok # past \<longrightarrow> exchange_means P ctx past req now iat tok)"
proof (intro conjI allI impI)
  note inv = oidc_reachable_inv [OF assms(1-3)]
  from inv show "events (exchanges k) (oy_log y) \<le> events (makes_code k) (oy_log y)" by (simp add: codes_inv_def)
  from inv show "events (logs_in i) (oy_log y) \<le> events (makes_challenge i) (oy_log y)" by (simp add: made_inv_def)
  fix later req now iat tok past
  assume "oy_log y = later @ Exchanged req now iat tok # past"
  with inv log_ok_at [of P ctx later "Exchanged req now iat tok" past]
  have "exchange_backed P past req now iat tok" "oidc_log_ok P ctx past" by auto
  then show "exchange_means P ctx past req now iat tok" using assms(4) by (rule exchange_backed_means)
qed

end

text \<open>
  Claim C10: an authorization code buys tokens at most once, and only for the login and the client it
  was made for. In every interleaving of challenges, signature checks, authorizations, exchanges and
  sweeps, over either store, a code is exchanged at most as often as it was made and a challenge
  gives at most as many logins as it was issued. Behind every exchange that gave tokens lies a code
  made less than a minute before for the same registered client and one of its registered redirect
  URIs, whose PKCE challenge the verifier answers (always, if the client has no secret; otherwise the
  secret was given), and before it a login: a valid detached signature over the nonce of a challenge
  that had been issued and had not expired, whose first signer's claims are the ones in the tokens.
\<close>

theorem oidc_code_bound_once:
  assumes "ParseClients entries = Inr (pv_clients P)"
    and "(\<exists>y. oidc_reachable ChallengeMem P ctx [] y \<and> log = oy_log y) \<or> (\<exists>y. oidc_reachable ChallengeBolt P ctx [] y \<and> log = oy_log y)"
  shows "events (exchanges k) log \<le> events (makes_code k) log \<and> events (logs_in i) log \<le> events (makes_challenge i) log \<and>
    (\<forall>later req now iat tok past. log = later @ Exchanged req now iat tok # past \<longrightarrow> exchange_means P ctx past req now iat tok)"
  using assms(2)
proof (elim disjE exE conjE)
  fix y assume "oidc_reachable ChallengeMem P ctx [] y" "log = oy_log y"
  with cmem.oidc_log_means [OF _ _ _ ParseClients_keyed [OF assms(1)], of ctx "[]" y k i] show ?thesis by (simp add: fun_eq_iff)
next
  fix y assume y: "oidc_reachable ChallengeBolt P ctx [] y" "log = oy_log y"
  have "cbolt_ok []" "cbolt_held [] = Map.empty"
    using cbolt_ok_repr [of "[]"] by (auto simp: cbolt_repr_def kv_map_def cbolt_held_def fun_eq_iff)
  from cbolt.oidc_log_means [OF y(1) this ParseClients_keyed [OF assms(1)], of k i] y(2) show ?thesis by simp
qed

section \<open>A login, from challenge to tokens\<close>

definition demo_relying :: oidc_clients where
  "demo_relying = [(''app'', \<lparr>rp_ID = ''app'', rp_Secret = [], rp_RedirectURIs = [''https://app/cb'']\<rparr>)]"

definition demo_login_service :: "validate_result \<Rightarrow> unit service" where
  "demo_login_service answer = demo_service ((verifying_driver [''LR''] answer)\<lparr>
     pv_CertProperties := (\<lambda>cert _. ([\<lparr>cf_ID = 0, cf_Name = ''SUBJECT_SERIALNUMBER'', cf_Value = ''IINA'', cf_Raw = [],
        cf_OK = True\<rparr>], None))\<rparr>) None"

definition demo_provider :: "unit provider" where
  "demo_provider = oidc_New \<lparr>pv_verifier = demo_login_service (status_answer CertGood),
     pv_lib = (demo_jws [])\<lparr>jl_Marshal := (\<lambda>m. Inr (concat (map fst m)))\<rparr>,
     pv_signer = \<lparr>sn_key = ''k'', sn_kid = ''kid'', sn_Ephemeral = True\<rparr>,
     pv_cfg = \<lparr>od_Issuer = ''https://svc/'', od_Audience = [], od_ChallengeTTL = 0, od_TokenTTL = 0, od_RequireOCSP = True, od_ReapInterval = 0\<rparr>,
     pv_clients = demo_relying,
     pv_SetQuery = (\<lambda>u kvs. Some (u @ ''?'' @ concat (map (\<lambda>(k, v). k @ ''='' @ v) kvs)))\<rparr>"

definition demo_authorize :: authorize_request where
  "demo_authorize = \<lparr>aq_ClientID = ''app'', aq_RedirectURI = ''https://app/cb'', aq_ResponseType = ''code'', aq_Scope = ''openid'',
     aq_State = [], aq_Nonce = ''n'', aq_CodeChallenge = ''c2hhdg'', aq_CodeChallengeMethod = ''S256''\<rparr>"

definition demo_exchange :: oidc_token_request where
  "demo_exchange = \<lparr>tq_GrantType = ''authorization_code'', tq_Code = ''Y29kZQ'', tq_RedirectURI = ''https://app/cb'', tq_ClientID = ''app'',
     tq_ClientSecret = [], tq_CodeVerifier = ''v''\<rparr>"

definition demo_challenge :: challenge where
  "demo_challenge = login_challenge (pv_cfg demo_provider) \<lparr>oq_Nonce = [], oq_State = []\<rparr> ''aWQ'' ''nonce'' 7"

definition demo_claims :: claims where
  "demo_claims = \<lparr>cl_Sub = ''A'', cl_Name = [], cl_GivenName = [], cl_FamilyName = [], cl_Email = [], cl_IIN = ''A'', cl_BIN = [],
     cl_Organization = [], cl_Roles = [], cl_OwnerType = ''INDIVIDUAL'', cl_Gender = []\<rparr>"

definition demo_code :: auth_code where
  "demo_code = code_for \<lparr>rp_ID = ''app'', rp_Secret = [], rp_RedirectURIs = [''https://app/cb'']\<rparr> demo_authorize demo_claims 10"

definition demo_login_clock :: confirm_clock where
  "demo_login_clock = \<lparr>cl_now = 8, cl_verify = demo_clock, cl_validate = 9\<rparr>"

lemma demo_clients_parse: "ParseClients [''app| |https://app/cb''] = Inr (pv_clients demo_provider)"
  by code_simp

lemma demo_challenge_run:
  "oidc_Challenge ChallengeMem demo_provider [] \<lparr>oq_Nonce = [], oq_State = []\<rparr> (Inr ''nonce'') (Inr ''id'') 7 =
     (Inr \<lparr>or_ChallengeID = ''aWQ'', or_Data = ''bm9uY2U='', or_Alg = ''CMS-detached'', or_ExpiresIn = 300, or_State = []\<rparr>,
      [(''aWQ'', demo_challenge)])"
  by code_simp

lemma demo_login_run:
  "verifyChallengeSignature ChallengeMem demo_provider plain_lang [(''aWQ'', demo_challenge)] () ''aWQ'' ''cms'' demo_login_clock =
     (Returns (Inr (demo_claims, []), ()), [(''aWQ'', demo_challenge\<lparr>ch_Used := True\<rparr>)])"
  by code_simp

lemma demo_grant_run:
  "grant_code demo_provider [] \<lparr>rp_ID = ''app'', rp_Secret = [], rp_RedirectURIs = [''https://app/cb'']\<rparr> demo_authorize demo_claims (Inr ''code'') 10 =
     (Inr ''https://app/cb?code=Y29kZQ'', [(''Y29kZQ'', demo_code)])"
  by code_simp

lemma demo_authorize_valid:
  "ValidateAuthorize (pv_clients demo_provider) demo_authorize =
     (\<lparr>rp_ID = ''app'', rp_Secret = [], rp_RedirectURIs = [''https://app/cb'']\<rparr>, None)"
  by code_simp

lemma demo_exchange_run:
  "case Exchange demo_provider [(''Y29kZQ'', demo_code)] demo_exchange 11 12 of (Inr tok, codes) \<Rightarrow> codes = [] | _ \<Rightarrow> False"
  by code_simp

theorem oidc_code_bound_once_witness:
  "\<exists>past tok. exchange_means demo_provider plain_lang past demo_exchange 11 12 tok"
proof -
  let ?cl = "\<lparr>rp_ID = ''app'', rp_Secret = [], rp_RedirectURIs = [''https://app/cb'']\<rparr>"
  let ?y1 = "logged (ChallengeMade (login_challenge (pv_cfg demo_provider) \<lparr>oq_Nonce = [], oq_State = []\<rparr> (b64url_encode ''id'') ''nonce'' 7))
     (with_store [(''aWQ'', demo_challenge)] (oidc_init []))"
  let ?y2 = "logged (LoggedIn ''aWQ'' demo_claims) (with_store [(''aWQ'', demo_challenge\<lparr>ch_Used := True\<rparr>)]
     (?y1\<lparr>oy_pending := (?cl, demo_authorize, demo_claims) # oy_pending ?y1\<rparr>))"
  let ?y3 = "logged (CodeMade (b64url_encode ''code'') (code_for ?cl demo_authorize demo_claims 10)) (with_codes [(''Y29kZQ'', demo_code)]
     (?y2\<lparr>oy_pending := remove1 (?cl, demo_authorize, demo_claims) (oy_pending ?y2)\<rparr>))"
  have c0: "oy_store (oidc_init []) = []" "oy_codes ?y2 = []" by (simp_all add: oidc_init_def)
  have "oidc_reachable ChallengeMem demo_provider plain_lang [] ?y1"
    by (rule oidc_reachable.step [OF oidc_reachable.start oidc_step.issue]) (simp add: c0 demo_challenge_run)
  then have "oidc_reachable ChallengeMem demo_provider plain_lang [] ?y2"
    by (rule oidc_reachable.step [OF _ oidc_step.authorize [OF demo_authorize_valid]]) (use demo_login_run in simp)
  moreover have "(?cl, demo_authorize, demo_claims) \<in> set (oy_pending ?y2)" by simp
  ultimately have r3: "oidc_reachable ChallengeMem demo_provider plain_lang [] ?y3"
    by (rule oidc_reachable.step [OF _ oidc_step.grant]) (use demo_grant_run c0 in simp)
  obtain tok where "Exchange demo_provider (oy_codes ?y3) demo_exchange 11 12 = (Inr tok, [])"
    using demo_exchange_run by (auto split: prod.splits sum.splits)
  from oidc_reachable.step [OF r3 oidc_step.exchange [OF this]]
  have "\<exists>y. oidc_reachable ChallengeMem demo_provider plain_lang [] y \<and> Exchanged demo_exchange 11 12 tok # oy_log ?y3 = oy_log y" by fastforce
  from oidc_code_bound_once [OF demo_clients_parse disjI1 [OF this]]
  have "\<forall>later req now iat t past. Exchanged demo_exchange 11 12 tok # oy_log ?y3 = later @ Exchanged req now iat t # past \<longrightarrow>
     exchange_means demo_provider plain_lang past req now iat t" by blast
  then have "exchange_means demo_provider plain_lang (oy_log ?y3) demo_exchange 11 12 tok" by (metis append_Nil)
  then show ?thesis by blast
qed

text \<open>
  The provider can be configured to require a good OCSP status before it issues tokens, but it only
  refuses a certificate that is reported as revoked: with a certificate that publishes no
  responder, so that no status is established, the login succeeds.
\<close>

lemma oidc_unestablished_login:
  "case verifyChallengeSignature ChallengeMem (demo_provider\<lparr>pv_verifier := (demo_login_service (status_answer CertRevoked))\<lparr>
      sv_golib := demo_golib\<lparr>gl_ParseCertificate := (\<lambda>_. None)\<rparr>\<rparr>\<rparr>) plain_lang [(''aWQ'', demo_challenge)] () ''aWQ'' ''cms'' demo_login_clock of
     (Returns (Inr (claims, nonce), c), st) \<Rightarrow> od_RequireOCSP (pv_cfg demo_provider) \<and> cl_Sub claims = ''A'' | _ \<Rightarrow> False"
  by code_simp

end
