(* ===== verification/Signed_Qr.thy ===== *)
theory Signed_Qr
  imports Jws
begin

text \<open>
  Signed documents in a QR code (internal/signedqr/signedqr.go): the service signs a short statement
  with its own key and renders it as a QR code, and a scanned payload is checked against that key.
  The renderer of the image is an argument.
\<close>

section \<open>Issuing\<close>

definition maxPayloadBytes :: nat where "maxPayloadBytes = 1200"
definition qrPNGSize :: int where "qrPNGSize = 512"
definition defaultTTL :: dur where "defaultTTL = 365 * 24 * Hour"
definition docType :: string where "docType = ''qoltanba.signed-document.v1''"

text \<open>\<open>dv_signer\<close> and \<open>dv_verifier\<close> are nil when the service has no key.\<close>

record document_service =
  dv_signer :: "token_signer option"
  dv_verifier :: "token_signer option"
  dv_issuer :: string

record document_request =
  dq_Subject :: string
  dq_Data :: "(string \<times> json) list"
  dq_TTLSeconds :: int
  dq_PNGSize :: int

record document_issued =
  di_Payload :: string
  di_QR :: string
  di_Bytes :: nat
  di_IssuedAt :: time
  di_ExpiresAt :: time

datatype document_error = DocNoKey | DocSign goerr | DocTooLarge nat | DocRender goerr

definition document_ttl :: "document_request \<Rightarrow> dur" where
  "document_ttl req = (if dq_TTLSeconds req > 0 then seconds64 (dq_TTLSeconds req) else defaultTTL)"

text \<open>The fields of the struct \<^verbatim>\<open>Claims\<close>, with the optional ones left out when they are empty.\<close>

definition obj_field :: "string \<Rightarrow> (string \<times> json) list \<Rightarrow> (string \<times> json) list" where
  "obj_field k m = (if m = [] then [] else [(k, JObj m)])"

definition document_claims :: "string \<Rightarrow> document_request \<Rightarrow> time \<Rightarrow> time \<Rightarrow> (string \<times> json) list" where
  "document_claims issuer req now expires =
     [(''typ'', JStr docType)] @ str_field ''iss'' issuer @ str_field ''sub'' (dq_Subject req) @
     [(''iat'', JInt (now div Second))] @ int_field ''exp'' (expires div Second) @ obj_field ''data'' (dq_Data req)"

definition document_Issue :: "jws_lib \<Rightarrow> (string \<Rightarrow> int \<Rightarrow> goerr + bytes) \<Rightarrow> document_service \<Rightarrow> document_request \<Rightarrow> time \<Rightarrow>
    document_error + document_issued" where
  "document_Issue L render s req now =
     (case dv_signer s of
        None \<Rightarrow> Inl DocNoKey
      | Some sn \<Rightarrow>
          (let expires = now + document_ttl req
           in case signer_Sign L sn (document_claims (dv_issuer s) req now expires) of
                Inl e \<Rightarrow> Inl (DocSign e)
              | Inr token \<Rightarrow>
                  if length token > maxPayloadBytes then Inl (DocTooLarge (length token))
                  else (case render token (if dq_PNGSize req \<le> 0 then qrPNGSize else dq_PNGSize req) of
                     Inl e \<Rightarrow> Inl (DocRender e)
                   | Inr png \<Rightarrow> Inr \<lparr>di_Payload = token, di_QR = base64 png, di_Bytes = length token, di_IssuedAt = now,
                       di_ExpiresAt = expires\<rparr>)))"

section \<open>Checking\<close>

record document_result =
  dt_Valid :: bool
  dt_Reason :: string
  dt_Issuer :: string
  dt_Subject :: string
  dt_IssuedAt :: "time option"
  dt_ExpiresAt :: "time option"
  dt_Data :: "(string \<times> json) list"

definition document_refused :: "string \<Rightarrow> document_result" where
  "document_refused reason = \<lparr>dt_Valid = False, dt_Reason = reason, dt_Issuer = [], dt_Subject = [], dt_IssuedAt = None,
     dt_ExpiresAt = None, dt_Data = []\<rparr>"

fun token_error_text :: "token_error \<Rightarrow> string" where
  "token_error_text TokenInvalid = ''token invalid''"
| "token_error_text TokenExpired = ''token expired''"

text \<open>The type assertions \<^verbatim>\<open>claims[k].(string)\<close> and \<^verbatim>\<open>claims[k].(map[string]any)\<close>, and \<^verbatim>\<open>numericTime\<close>.\<close>

definition claim_string :: "(string \<times> json) list \<Rightarrow> string \<Rightarrow> string" where
  "claim_string m k = (case map_of m k of Some (JStr s) \<Rightarrow> s | _ \<Rightarrow> [])"

definition claim_object :: "(string \<times> json) list \<Rightarrow> string \<Rightarrow> (string \<times> json) list" where
  "claim_object m k = (case map_of m k of Some (JObj fs) \<Rightarrow> fs | _ \<Rightarrow> [])"

definition numericTime :: "json option \<Rightarrow> time option" where
  "numericTime v = (case v of Some (JInt n) \<Rightarrow> Some (n * Second) | _ \<Rightarrow> None)"

definition document_Verify :: "jws_lib \<Rightarrow> document_service \<Rightarrow> string \<Rightarrow> time \<Rightarrow> document_result" where
  "document_Verify L s payload now =
     (let payload = TrimSpaceU payload
      in if payload = [] then document_refused ''empty payload''
         else case dv_verifier s of
           None \<Rightarrow> document_refused ''no service key configured to verify against''
         | Some sn \<Rightarrow>
             (case signer_Verify L sn payload now of
                Inl e \<Rightarrow> document_refused (token_error_text e)
              | Inr claims \<Rightarrow>
                  if claim_string claims ''typ'' \<noteq> docType then document_refused ''payload is not a signed document''
                  else \<lparr>dt_Valid = True, dt_Reason = [], dt_Issuer = claim_string claims ''iss'',
                        dt_Subject = claim_string claims ''sub'', dt_IssuedAt = numericTime (map_of claims ''iat''),
                        dt_ExpiresAt = numericTime (map_of claims ''exp''), dt_Data = claim_object claims ''data''\<rparr>))"

section \<open>What a document proves\<close>

lemma token_chars:
  assumes "signer_Sign L sn claims = Inr token" and "c \<in> set token"
  shows "\<not> is_space c \<and> byte_of c < 128"
proof -
  have "\<forall>c \<in> set b64url_alphabet. \<not> is_space c \<and> byte_of c < 128" by code_simp
  then have "\<not> is_space (b64url_char n) \<and> byte_of (b64url_char n) < 128" for n using b64url_char_member by blast
  then have seg: "d \<in> set (b64url_encode b) \<Longrightarrow> \<not> is_space d \<and> byte_of d < 128" for d b
    by (auto dest: b64url_encode_member)
  have dot: "\<not> is_space CHR ''.'' \<and> byte_of CHR ''.'' < 128" by code_simp
  from assms show ?thesis by (auto simp: signer_Sign_def Let_def seg dot split: sum.splits)
qed

lemma map_of_obj_field: "map_of (obj_field k m) k' = (if k' = k \<and> m \<noteq> [] then Some (JObj m) else None)"
  by (simp add: obj_field_def)

lemmas document_claim = document_claims_def map_of_fields map_of_int_field map_of_obj_field

lemma document_claims_get:
  "map_of (document_claims iss req now expires) ''typ'' = Some (JStr docType)"
  "map_of (document_claims iss req now expires) ''iss'' = (if iss = [] then None else Some (JStr iss))"
  "map_of (document_claims iss req now expires) ''sub'' = (if dq_Subject req = [] then None else Some (JStr (dq_Subject req)))"
  "map_of (document_claims iss req now expires) ''iat'' = Some (JInt (now div Second))"
  "map_of (document_claims iss req now expires) ''exp'' = (if expires div Second = 0 then None else Some (JInt (expires div Second)))"
  "map_of (document_claims iss req now expires) ''data'' = (if dq_Data req = [] then None else Some (JObj (dq_Data req)))"
  by (simp_all add: document_claim)

lemma document_claims_basic:
  assumes "json_basic (JObj (dq_Data req))" and "\<bar>now div Second\<bar> \<le> 2 ^ 53" "\<bar>expires div Second\<bar> \<le> 2 ^ 53"
  shows "basic_claims (document_claims iss req now expires)"
proof -
  have keys: "\<forall>k \<in> {''typ'', ''iss'', ''sub'', ''iat'', ''exp'', ''data''}. json_string k = k" by code_simp
  show ?thesis using assms keys
    by (auto simp: basic_claims_def document_claims_def str_field_def int_field_def obj_field_def)
qed

lemma json_string_Nil_iff [simp]: "json_string s = [] \<longleftrightarrow> s = []"
  by (cases s) (auto split: nat.splits)

lemma document_Issue_Inr:
  assumes "document_Issue L render s req now = Inr doc"
  obtains sn where "dv_signer s = Some sn"
    "signer_Sign L sn (document_claims (dv_issuer s) req now (di_ExpiresAt doc)) = Inr (di_Payload doc)"
    "length (di_Payload doc) \<le> maxPayloadBytes" "di_ExpiresAt doc = now + document_ttl req" "di_Bytes doc = length (di_Payload doc)"
  using assms by (auto simp: document_Issue_def Let_def split: option.splits sum.splits if_splits)

lemma document_Verify_valid:
  assumes "dt_Valid (document_Verify L s payload now)"
  obtains sn claims where "dv_verifier s = Some sn" "signer_Verify L sn (TrimSpaceU payload) now = Inr claims"
    "claim_string claims ''typ'' = docType"
  using assms by (auto simp: document_Verify_def Let_def document_refused_def split: option.splits sum.splits if_splits)

text \<open>
  Claim C16: an issued document fits a scannable code and reads back from it. The payload of every
  document the service issues is at most 1200 bytes; scanned at any later moment up to the second in
  which it expires it is valid and yields the issuer, the subject, the times and the data it was
  issued with (texts as JSON writes them), and from then on it is refused as expired. A document
  that expires in the first second of the epoch has no expiry.
\<close>

theorem signed_qr_roundtrip:
  assumes "sound_rsa L" "sound_json L" and "dv_verifier s = dv_signer s"
    and "document_Issue L render s req now = Inr doc" and "expsec = di_ExpiresAt doc div Second"
    and "json_basic (JObj (dq_Data req))" and "\<bar>now div Second\<bar> \<le> 2 ^ 53" "\<bar>expsec\<bar> \<le> 2 ^ 53"
    and "res = document_Verify L s (di_Payload doc) later"
  shows "length (di_Payload doc) \<le> 1200 \<and>
    (if expsec \<noteq> 0 \<and> later > expsec * Second then res = document_refused ''token expired''
     else dt_Valid res \<and> dt_Issuer res = json_string (dv_issuer s) \<and> dt_Subject res = json_string (dq_Subject req) \<and>
       dt_IssuedAt res = Some (now div Second * Second) \<and> JObj (dt_Data res) = json_read (JObj (dq_Data req)) \<and>
       dt_ExpiresAt res = (if expsec = 0 then None else Some (expsec * Second)))"
proof -
  from assms(4) obtain sn where sn: "dv_signer s = Some sn" "length (di_Payload doc) \<le> maxPayloadBytes"
    and sig: "signer_Sign L sn (document_claims (dv_issuer s) req now (di_ExpiresAt doc)) = Inr (di_Payload doc)"
    by (rule document_Issue_Inr)
  let ?m = "document_claims (dv_issuer s) req now (di_ExpiresAt doc)"
  from assms(1,2) sig document_claims_basic [OF assms(6,7) assms(8) [unfolded assms(5)]] obtain m' where
    m': "\<forall>k. map_of m' k = map_option json_read (map_of ?m k)"
    and v: "\<forall>now. signer_Verify L sn (di_Payload doc) now = (if token_over ?m now then Inl TokenExpired else Inr m')"
    by (rule verify_signed)
  have trim: "TrimSpaceU (di_Payload doc) = di_Payload doc" using token_chars [OF sig] by (rule TrimSpaceU_plain)
  have ne: "di_Payload doc \<noteq> []" using sig by (auto simp: signer_Sign_def Let_def split: sum.splits)
  have over: "token_over ?m later \<longleftrightarrow> expsec \<noteq> 0 \<and> later > expsec * Second"
    by (simp add: token_over_def document_claims_get assms(5))
  have doc: "json_string docType = docType" by code_simp
  have "res = (if token_over ?m later then document_refused ''token expired''
     else \<lparr>dt_Valid = True, dt_Reason = [], dt_Issuer = claim_string m' ''iss'', dt_Subject = claim_string m' ''sub'',
        dt_IssuedAt = numericTime (map_of m' ''iat''), dt_ExpiresAt = numericTime (map_of m' ''exp''),
        dt_Data = claim_object m' ''data''\<rparr>)"
    by (simp add: assms(3,9) document_Verify_def trim ne sn v claim_string_def m' document_claims_get doc)
  with sn(2) show ?thesis
    by (simp add: over maxPayloadBytes_def claim_string_def claim_object_def numericTime_def m' document_claims_get assms(5))
qed

text \<open>A permit, issued for an hour.\<close>

definition demo_permit :: document_request where
  "demo_permit = \<lparr>dq_Subject = ''880101'', dq_Data = [(''gate'', JStr ''A'')], dq_TTLSeconds = 3600, dq_PNGSize = 0\<rparr>"

definition demo_signer :: token_signer where
  "demo_signer = \<lparr>sn_key = ''k'', sn_kid = ''kid'', sn_Ephemeral = True\<rparr>"

definition demo_documents :: document_service where
  "demo_documents = \<lparr>dv_signer = Some demo_signer, dv_verifier = Some demo_signer, dv_issuer = ''svc''\<rparr>"

definition demo_document_lib :: jws_lib where
  "demo_document_lib = demo_jws [(token_header ''kid'', ''{h}''), (document_claims ''svc'' demo_permit 7 (7 + Hour), ''{c}'')]"

definition demo_payload :: string where
  "demo_payload = ''e2h9.e2N9.a3NoYWUyaDkuZTJOOQ''"

lemma demo_document_issued:
  "document_Issue demo_document_lib (\<lambda>_ _. Inr ''png'') demo_documents demo_permit 7 =
     Inr \<lparr>di_Payload = demo_payload, di_QR = ''cG5n'', di_Bytes = 28, di_IssuedAt = 7, di_ExpiresAt = 7 + Hour\<rparr>"
  by code_simp

theorem signed_qr_roundtrip_witness:
  "dt_Valid (document_Verify demo_document_lib demo_documents demo_payload Hour) \<and>
   document_Verify demo_document_lib demo_documents demo_payload (Hour + 1) = document_refused ''token expired''"
proof -
  have sound: "sound_rsa demo_document_lib" "sound_json demo_document_lib"
    unfolding demo_document_lib_def
    by (rule demo_jws_sound) (rule demo_jws_sound, simp,
      auto simp: token_header_def document_claims_def demo_permit_def str_field_def int_field_def obj_field_def docType_def
        utf8_len_def byte_in_def byte_of_def)
  have basic: "json_basic (JObj (dq_Data demo_permit))" by (simp add: demo_permit_def key_order_def utf8_len_def byte_in_def byte_of_def)
  show ?thesis
    using signed_qr_roundtrip [OF sound _ demo_document_issued refl basic _ _ refl, of Hour]
      signed_qr_roundtrip [OF sound _ demo_document_issued refl basic _ _ refl, of "Hour + 1"]
    by (simp add: demo_documents_def)
qed

text \<open>
  The kinds of statement are kept apart: whatever else the service key signed under another
  \<^verbatim>\<open>typ\<close>, or under none, is not accepted as a document.
\<close>

lemma other_statement_refused:
  assumes "sound_rsa L" "sound_json L" and "signer_Sign L sn claims = Inr token" and "basic_claims claims"
    and "dv_verifier s = Some sn" and "map_option json_read (map_of claims ''typ'') \<noteq> Some (JStr docType)"
  shows "\<not> dt_Valid (document_Verify L s token now)"
proof
  assume "dt_Valid (document_Verify L s token now)"
  then obtain claims1 where v: "signer_Verify L sn (TrimSpaceU token) now = Inr claims1" "claim_string claims1 ''typ'' = docType"
    using assms(5) by (auto elim: document_Verify_valid)
  from assms(1-4) obtain m' where m': "\<forall>k. map_of m' k = map_option json_read (map_of claims k)"
    "\<forall>now. signer_Verify L sn token now = (if token_over claims now then Inl TokenExpired else Inr m')" by (rule verify_signed)
  have "TrimSpaceU token = token" using token_chars [OF assms(3)] by (rule TrimSpaceU_plain)
  with v m' have "claims1 = m'" by (auto split: if_splits)
  moreover have "docType \<noteq> []" by (simp add: docType_def)
  ultimately have "map_of m' ''typ'' = Some (JStr docType)" using v(2) by (auto simp: claim_string_def split: option.splits json.splits)
  with m'(1) assms(6) show False by metis
qed

text \<open>
  The lifetime of a document is multiplied out in 64 bits: one of 300 years asked for in seconds
  wraps around, and the document that is issued has expired before it was issued.
\<close>

lemma document_ttl_overflow: "document_ttl (demo_permit\<lparr>dq_TTLSeconds := 300 * 365 * 86400\<rparr>) < 0"
  by code_simp

end
