(* ===== verification/Oidc_Tokens.thy ===== *)
theory Oidc_Tokens
  imports Oidc Signed_Qr
begin

text \<open>
  What the tokens say. The provider's tokens, the signed documents and the receipts are all made
  with the one service key; this theory shows what each reads back as, and which of the service's
  statements pass where.
\<close>

section \<open>Claims as JSON\<close>

lemma json_basic_read: "json_basic v \<Longrightarrow> json_basic (json_read v)"
proof (induction v rule: json_read.induct)
  case (3 fs)
  have "map fst (map (\<lambda>(k, v). (k, json_read v)) fs) = map fst fs" by (induction fs) auto
  with 3 show ?case by (fastforce simp del: map_map)
qed auto

lemma basic_claims_Nil: "basic_claims []"
  by (simp add: basic_claims_def)

lemma basic_claims_put:
  assumes "basic_claims m" and "json_string k = k" and "json_basic v"
  shows "basic_claims (kv_put k v m)"
proof -
  have "set (kv_put k v m) \<subseteq> insert (k, v) (set m)" by (induction m) (auto simp: kv_put_def)
  with assms show ?thesis by (auto simp: basic_claims_def kv_put_def distinct_update)
qed

text \<open>A struct with optional fields: a subsequence of its keys, so without a duplicate.\<close>

lemma fields_distinct:
  assumes "list_all2 (\<lambda>f k. map fst f = [] \<or> map fst f = [k]) fs ks" and "distinct ks"
  shows "distinct (map fst (concat fs)) \<and> set (map fst (concat fs)) \<subseteq> set ks"
  using assms
proof (induction rule: list_all2_induct)
  case (Cons f fs k ks)
  then have rest: "distinct (map fst (concat fs))" "set (map fst (concat fs)) \<subseteq> set ks" "k \<notin> set (map fst (concat fs))" by auto
  have "map fst (concat (f # fs)) = map fst f @ map fst (concat fs)" by simp
  moreover have "map fst f = [] \<or> map fst f = [k]" by (rule Cons.hyps(1))
  ultimately have "map fst (concat (f # fs)) \<in> {map fst (concat fs), k # map fst (concat fs)}" by fastforce
  with rest show ?case by fastforce
qed simp

lemma fst_str_field: "map fst (str_field k v) = [] \<or> map fst (str_field k v) = [k]"
  by (simp add: str_field_def)

lemma fst_arr_field: "map fst (arr_field k v) = [] \<or> map fst (arr_field k v) = [k]"
  by (simp add: arr_field_def)

definition claim_keys :: "string list" where
  "claim_keys = [''sub'', ''name'', ''given_name'', ''family_name'', ''email'', ''iin'', ''bin'', ''organization'', ''roles'', ''owner_type'', ''gender'']"

lemma claims_fields_keys: "distinct (map fst (claims_fields c)) \<and> set (map fst (claims_fields c)) \<subseteq> set claim_keys"
proof -
  let ?fs = "[str_field ''sub'' (cl_Sub c), str_field ''name'' (cl_Name c), str_field ''given_name'' (cl_GivenName c),
     str_field ''family_name'' (cl_FamilyName c), str_field ''email'' (cl_Email c), str_field ''iin'' (cl_IIN c),
     str_field ''bin'' (cl_BIN c), str_field ''organization'' (cl_Organization c), arr_field ''roles'' (map JStr (cl_Roles c)),
     str_field ''owner_type'' (cl_OwnerType c), str_field ''gender'' (cl_Gender c)]"
  have "list_all2 (\<lambda>f k. map fst f = [] \<or> map fst f = [k]) ?fs claim_keys"
    unfolding claim_keys_def by (simp only: list_all2_Cons list_all2_Nil fst_str_field fst_arr_field simp_thms)
  moreover have "distinct claim_keys" by code_simp
  moreover have "claims_fields c = concat ?fs" by (simp add: claims_fields_def)
  ultimately show ?thesis using fields_distinct [of ?fs claim_keys] by (simp only:)
qed

lemma claims_fields_values: "(k, v) \<in> set (claims_fields c) \<Longrightarrow> json_basic v"
proof -
  have s: "(k, v) \<in> set (str_field k' x) \<Longrightarrow> json_basic v" for k' x by (simp add: str_field_def split: if_splits)
  have a: "(k, v) \<in> set (arr_field k' (map JStr xs)) \<Longrightarrow> json_basic v" for k' xs by (auto simp: arr_field_def split: if_splits)
  assume "(k, v) \<in> set (claims_fields c)"
  then show ?thesis unfolding claims_fields_def set_append Un_iff by (elim disjE) (erule s a)+
qed

lemma claims_fields_basic: "basic_claims (claims_fields c)"
proof -
  have "\<forall>k \<in> set claim_keys. json_string k = k" by code_simp
  with claims_fields_keys [of c] claims_fields_values show ?thesis by (force simp: basic_claims_def)
qed

lemma claimsToMap_basic:
  assumes "sound_json L"
  shows "basic_claims (claimsToMap L c)" "k \<notin> set claim_keys \<Longrightarrow> map_of (claimsToMap L c) k = None"
proof -
  have "claimsToMap L c = [] \<or> (\<exists>m. claimsToMap L c = m \<and> distinct (map fst m) \<and>
      (\<forall>k. map_of m k = map_option json_read (map_of (claims_fields c) k)))"
  proof (cases "jl_Marshal L (claims_fields c)")
    case (Inr raw)
    with assms claims_fields_basic [of c] obtain m where "jl_Unmarshal L raw = Some m" "distinct (map fst m)"
      "\<forall>k. map_of m k = map_option json_read (map_of (claims_fields c) k)" unfolding sound_json_def by blast
    with Inr show ?thesis by (simp add: claimsToMap_def)
  qed (simp add: claimsToMap_def)
  then consider "claimsToMap L c = []" | m where "claimsToMap L c = m" "distinct (map fst m)"
      "\<forall>k. map_of m k = map_option json_read (map_of (claims_fields c) k)" by blast
  then have "basic_claims (claimsToMap L c) \<and> (k \<notin> set claim_keys \<longrightarrow> map_of (claimsToMap L c) k = None)"
  proof cases
    case (2 m)
    have old: "\<exists>v0. (j, v0) \<in> set (claims_fields c) \<and> v = json_read v0" if "(j, v) \<in> set m" for j v
    proof -
      from that 2(2) have "map_of m j = Some v" by simp
      with 2(3) obtain v0 where "map_of (claims_fields c) j = Some v0" "v = json_read v0" by fastforce
      then show ?thesis by (auto dest: map_of_SomeD)
    qed
    have b: "json_string j = j \<and> json_basic v" if "(j, v) \<in> set m" for j v
      using old [OF that] claims_fields_basic [of c] json_basic_read by (auto simp: basic_claims_def)
    have "map_of m k = None" if "k \<notin> set claim_keys"
    proof -
      have "k \<notin> fst ` set (claims_fields c)" using claims_fields_keys [of c] that by auto
      then have "map_of (claims_fields c) k = None" by (simp add: map_of_eq_None_iff)
      with 2(3) show ?thesis by simp
    qed
    with b 2(1,2) show ?thesis by (auto simp: basic_claims_def)
  qed (simp add: basic_claims_Nil)
  then show "basic_claims (claimsToMap L c)" "k \<notin> set claim_keys \<Longrightarrow> map_of (claimsToMap L c) k = None" by auto
qed

section \<open>Tokens read back\<close>

lemma standard_keys:
  "json_string ''iss'' = ''iss''" "json_string ''sub'' = ''sub''" "json_string ''aud'' = ''aud''" "json_string ''iat'' = ''iat''"
  "json_string ''auth_time'' = ''auth_time''" "json_string ''exp'' = ''exp''" "json_string ''nonce'' = ''nonce''"
  "json_string ''token_use'' = ''token_use''"
  by code_simp+

lemma token_claims_basic:
  assumes "sound_json (pv_lib P)" and "\<bar>now div Second\<bar> \<le> 2 ^ 53" "\<bar>(now + od_TokenTTL (pv_cfg P)) div Second\<bar> \<le> 2 ^ 53"
  shows "basic_claims (id_token_claims P claims clientID nonce now)" "basic_claims (access_token_claims P claims now)"
  using assms claimsToMap_basic(1) [OF assms(1), of claims]
  by (simp_all add: id_token_claims_def access_token_claims_def basic_claims_put standard_keys Let_def del: json_string.simps)

text \<open>
  Claim C15: the tokens of a login carry the signer's identity until they expire. Both tokens verify
  under the service key up to the second they expire in and not after it; the access token reads back
  at the user-info endpoint with the issuer and the signer's subject, the id token with these and with
  the client it was issued to and the nonce that was asked for. Neither passes as a signed document.
\<close>

theorem oidc_tokens_verify:
  assumes "sound_rsa (pv_lib P)" "sound_json (pv_lib P)" and "IssueTokens P claims clientID nonce now = Inr tok"
    and "expsec = (now + od_TokenTTL (pv_cfg P)) div Second" and "\<bar>now div Second\<bar> \<le> 2 ^ 53" "\<bar>expsec\<bar> \<le> 2 ^ 53"
    and "clientID \<noteq> []"
  shows "(if later > expsec * Second
     then UserInfo P (tk_AccessToken tok) later = Inl TokenExpired \<and>
       signer_Verify (pv_lib P) (pv_signer P) (tk_IDToken tok) later = Inl TokenExpired
     else (\<exists>acc idt. UserInfo P (tk_AccessToken tok) later = Inr acc \<and>
       map_of acc ''sub'' = Some (JStr (json_string (cl_Sub claims))) \<and>
       map_of acc ''iss'' = Some (JStr (json_string (od_Issuer (pv_cfg P)))) \<and> map_of acc ''token_use'' = Some (JStr ''access'') \<and>
       signer_Verify (pv_lib P) (pv_signer P) (tk_IDToken tok) later = Inr idt \<and>
       map_of idt ''sub'' = Some (JStr (json_string (cl_Sub claims))) \<and>
       map_of idt ''iss'' = Some (JStr (json_string (od_Issuer (pv_cfg P)))) \<and> map_of idt ''aud'' = Some (JStr (json_string clientID)) \<and>
       map_of idt ''nonce'' = (if nonce = [] then None else Some (JStr (json_string nonce))))) \<and>
    (\<forall>s t. dv_verifier s = Some (pv_signer P) \<longrightarrow>
       \<not> dt_Valid (document_Verify (pv_lib P) s (tk_IDToken tok) t) \<and> \<not> dt_Valid (document_Verify (pv_lib P) s (tk_AccessToken tok) t))"
proof -
  let ?id = "id_token_claims P claims clientID nonce now" and ?ac = "access_token_claims P claims now"
  have sig: "signer_Sign (pv_lib P) (pv_signer P) ?id = Inr (tk_IDToken tok)" "signer_Sign (pv_lib P) (pv_signer P) ?ac = Inr (tk_AccessToken tok)"
    using assms(3) by (auto simp: IssueTokens_def split: sum.splits)
  note basic = token_claims_basic [OF assms(2,5) assms(6) [unfolded assms(4)]]
  from assms(1,2) sig(1) basic(1) obtain idt where idt: "\<forall>k. map_of idt k = map_option json_read (map_of ?id k)"
    "\<forall>now. signer_Verify (pv_lib P) (pv_signer P) (tk_IDToken tok) now = (if token_over ?id now then Inl TokenExpired else Inr idt)"
    by (rule verify_signed)
  from assms(1,2) sig(2) basic(2) obtain acc where acc: "\<forall>k. map_of acc k = map_option json_read (map_of ?ac k)"
    "\<forall>now. signer_Verify (pv_lib P) (pv_signer P) (tk_AccessToken tok) now = (if token_over ?ac now then Inl TokenExpired else Inr acc)"
    by (rule verify_signed)
  have trim: "UserInfo P (tk_AccessToken tok) t = signer_Verify (pv_lib P) (pv_signer P) (tk_AccessToken tok) t" for t
    using TrimSpaceU_plain [OF token_chars [OF sig(2)]] by (simp add: UserInfo_def)
  have free: "map_of (claimsToMap (pv_lib P) claims) k = None" if "k \<in> {''nonce'', ''typ''}" for k
    by (rule claimsToMap_basic(2) [OF assms(2)]) (use that in \<open>auto simp: claim_keys_def\<close>)
  have over: "token_over ?id t \<longleftrightarrow> t > expsec * Second" "token_over ?ac t \<longleftrightarrow> t > expsec * Second" for t
    by (simp_all add: token_over_def id_token_claims_def access_token_claims_def Let_def kv_simps assms(4))
  have acc_str: "json_string ''access'' = ''access''" by code_simp
  have read: "map_of acc ''sub'' = Some (JStr (json_string (cl_Sub claims)))" "map_of acc ''iss'' = Some (JStr (json_string (od_Issuer (pv_cfg P))))"
    "map_of acc ''token_use'' = Some (JStr ''access'')" "map_of idt ''sub'' = Some (JStr (json_string (cl_Sub claims)))"
    "map_of idt ''iss'' = Some (JStr (json_string (od_Issuer (pv_cfg P))))" "map_of idt ''aud'' = Some (JStr (json_string clientID))"
    "map_of idt ''nonce'' = (if nonce = [] then None else Some (JStr (json_string nonce)))"
    using assms(7) by (simp_all add: idt acc id_token_claims_def access_token_claims_def Let_def kv_simps free acc_str oidc_firstNonEmpty_def
      del: json_string.simps)
  have untyped: "map_of ?id ''typ'' = None" "map_of ?ac ''typ'' = None"
    by (simp_all add: id_token_claims_def access_token_claims_def Let_def kv_simps free)
  have "\<not> dt_Valid (document_Verify (pv_lib P) s (tk_IDToken tok) t)" "\<not> dt_Valid (document_Verify (pv_lib P) s (tk_AccessToken tok) t)"
    if "dv_verifier s = Some (pv_signer P)" for s t
    using other_statement_refused [OF assms(1,2) sig(1) basic(1) that] other_statement_refused [OF assms(1,2) sig(2) basic(2) that]
    by (simp_all add: untyped)
  then show ?thesis using read idt(2) acc(2) trim by (simp add: over)
qed

section \<open>A login's tokens\<close>

definition demo_person :: claims where
  "demo_person = \<lparr>cl_Sub = ''A'', cl_Name = [], cl_GivenName = [], cl_FamilyName = [], cl_Email = [], cl_IIN = ''A'', cl_BIN = [],
     cl_Organization = [], cl_Roles = [], cl_OwnerType = ''INDIVIDUAL'', cl_Gender = []\<rparr>"

definition demo_texts :: "((string \<times> json) list \<times> bytes) list" where
  "demo_texts = [(token_header ''kid'', ''{h}''), (claims_fields demo_person, ''{c}''),
     ([(''sub'', JStr ''A''), (''iin'', JStr ''A''), (''owner_type'', JStr ''INDIVIDUAL''), (''iss'', JStr ''svc''), (''aud'', JStr ''app''),
       (''iat'', JInt 0), (''auth_time'', JInt 0), (''exp'', JInt 3600), (''nonce'', JStr ''n'')], ''{i}''),
     ([(''sub'', JStr ''A''), (''iin'', JStr ''A''), (''owner_type'', JStr ''INDIVIDUAL''), (''iss'', JStr ''svc''),
       (''iat'', JInt 0), (''exp'', JInt 3600), (''token_use'', JStr ''access'')], ''{a}'')]"

definition token_provider :: "unit provider" where
  "token_provider = oidc_New \<lparr>pv_verifier = verifying_service (status_answer CertGood), pv_lib = demo_jws demo_texts,
     pv_signer = demo_signer, pv_cfg = \<lparr>od_Issuer = ''svc'', od_Audience = [], od_ChallengeTTL = 0, od_TokenTTL = 0,
     od_RequireOCSP = True, od_ReapInterval = 0\<rparr>, pv_clients = [], pv_SetQuery = (\<lambda>u kvs. None)\<rparr>"

definition demo_tokens :: token_response where
  "demo_tokens = \<lparr>tk_IDToken = ''e2h9.e2l9.a3NoYWUyaDkuZTJsOQ'', tk_AccessToken = ''e2h9.e2F9.a3NoYWUyaDkuZTJGOQ'',
     tk_TokenType = ''Bearer'', tk_ExpiresIn = 3600\<rparr>"

lemma demo_tokens_issued: "IssueTokens token_provider demo_person ''app'' ''n'' 7 = Inr demo_tokens"
  by code_simp

lemma demo_texts_sound: "sound_rsa (pv_lib token_provider)" "sound_json (pv_lib token_provider)"
proof -
  have lib: "pv_lib token_provider = demo_jws demo_texts" by (simp add: token_provider_def oidc_New_def)
  have d: "distinct (map snd demo_texts)" by code_simp
  have "\<forall>(m, t) \<in> set demo_texts. \<forall>(k, v) \<in> set m. json_read v = v" by code_simp
  then show "sound_rsa (pv_lib token_provider)" "sound_json (pv_lib token_provider)"
    unfolding lib by (auto intro!: demo_jws_sound d)
qed

theorem oidc_tokens_verify_witness:
  "(\<exists>acc. UserInfo token_provider (tk_AccessToken demo_tokens) (30 * Minute) = Inr acc \<and> map_of acc ''sub'' = Some (JStr (json_string ''A''))) \<and>
   UserInfo token_provider (tk_AccessToken demo_tokens) (2 * Hour) = Inl TokenExpired"
proof -
  have e: "(3600 :: int) = (7 + od_TokenTTL (pv_cfg token_provider)) div Second" by code_simp
  have "cl_Sub demo_person = ''A''" by (simp add: demo_person_def)
  with oidc_tokens_verify [OF demo_texts_sound demo_tokens_issued e, of "30 * Minute"]
    oidc_tokens_verify [OF demo_texts_sound demo_tokens_issued e, of "2 * Hour"]
  show ?thesis by (simp del: json_string.simps) blast
qed

text \<open>
  The user-info endpoint checks the signature and the expiry and nothing else: an id token, whose
  claims do not say that it is an access token, is accepted as one, and so is a signed document.
\<close>

lemma userinfo_signed:
  assumes "sound_rsa (pv_lib P)" "sound_json (pv_lib P)" and "signer_Sign (pv_lib P) (pv_signer P) claims = Inr token"
    and "basic_claims claims" and "\<not> token_over claims now"
  obtains m where "UserInfo P token now = Inr m" "\<forall>k. map_of m k = map_option json_read (map_of claims k)"
proof -
  from assms(1-4) obtain m where "\<forall>k. map_of m k = map_option json_read (map_of claims k)"
    "\<forall>now. signer_Verify (pv_lib P) (pv_signer P) token now = (if token_over claims now then Inl TokenExpired else Inr m)"
    by (rule verify_signed)
  with TrimSpaceU_plain [OF token_chars [OF assms(3)]] assms(5) that show thesis by (simp add: UserInfo_def)
qed

lemma userinfo_accepts_id_token:
  assumes "sound_rsa (pv_lib P)" "sound_json (pv_lib P)" and "IssueTokens P claims clientID nonce now = Inr tok"
    and "expsec = (now + od_TokenTTL (pv_cfg P)) div Second" and "\<bar>now div Second\<bar> \<le> 2 ^ 53" "\<bar>expsec\<bar> \<le> 2 ^ 53"
    and "later \<le> expsec * Second"
  shows "\<exists>m. UserInfo P (tk_IDToken tok) later = Inr m \<and> map_of m ''token_use'' = None"
proof -
  have sig: "signer_Sign (pv_lib P) (pv_signer P) (id_token_claims P claims clientID nonce now) = Inr (tk_IDToken tok)"
    using assms(3) by (auto simp: IssueTokens_def split: sum.splits)
  have use: "map_of (claimsToMap (pv_lib P) claims) ''token_use'' = None"
    by (rule claimsToMap_basic(2) [OF assms(2)]) (simp add: claim_keys_def)
  have "\<not> token_over (id_token_claims P claims clientID nonce now) later"
    using assms(7) by (simp add: token_over_def id_token_claims_def Let_def kv_simps assms(4))
  with assms(1,2) sig token_claims_basic(1) [OF assms(2,5) assms(6) [unfolded assms(4)]]
  obtain m where "UserInfo P (tk_IDToken tok) later = Inr m" "\<forall>k. map_of m k = map_option json_read (map_of (id_token_claims P claims clientID nonce now) k)"
    by (rule userinfo_signed)
  then show ?thesis by (auto simp: id_token_claims_def Let_def kv_simps use)
qed

lemma userinfo_accepts_document:
  assumes "sound_rsa (pv_lib P)" "sound_json (pv_lib P)" and "document_Issue (pv_lib P) render s req now = Inr doc"
    and "dv_signer s = Some (pv_signer P)" and "json_basic (JObj (dq_Data req))"
    and "\<bar>now div Second\<bar> \<le> 2 ^ 53" "\<bar>di_ExpiresAt doc div Second\<bar> \<le> 2 ^ 53" "later \<le> di_ExpiresAt doc div Second * Second"
  shows "\<exists>m. UserInfo P (di_Payload doc) later = Inr m \<and> map_of m ''typ'' = Some (JStr docType)"
proof -
  let ?m = "document_claims (dv_issuer s) req now (di_ExpiresAt doc)"
  have sig: "signer_Sign (pv_lib P) (pv_signer P) ?m = Inr (di_Payload doc)"
    using assms(3,4) by (auto elim: document_Issue_Inr)
  have "\<not> token_over ?m later" using assms(8) by (simp add: token_over_def document_claims_get)
  with assms(1,2) sig document_claims_basic [OF assms(5-7)]
  obtain m where "UserInfo P (di_Payload doc) later = Inr m" "\<forall>k. map_of m k = map_option json_read (map_of ?m k)" by (rule userinfo_signed)
  moreover have "json_string docType = docType" by code_simp
  ultimately show ?thesis by (simp add: document_claims_get)
qed

end
