(* ===== verification/Trust.thy ===== *)
theory Trust
  imports Cert_Parse
begin

text \<open>
  The trust store (internal/trust): the CA certificates of a directory and of the official registry,
  each classified as a root or an intermediate, and the background refresh that rebuilds the set and
  swaps it in. The file system, the downloads and the PEM and X.509 parsers are arguments.
\<close>

section \<open>Certificate files\<close>

record pem_block =
  pb_Type :: string
  pb_Headers :: "(string \<times> string) list"
  pb_Bytes :: bytes

text \<open>\<open>ce_PemDecode\<close> returns the first block and the input behind it.\<close>

record cert_lib =
  ce_PemDecode :: "bytes \<Rightarrow> (pem_block \<times> bytes) option"
  ce_PemEncode :: "pem_block \<Rightarrow> bytes"
  ce_ParseCertificate :: "bytes \<Rightarrow> goerr + xcert"

text \<open>\<^verbatim>\<open>strings.ToLower(filepath.Ext(name))\<close>; only ASCII letters have the letters of the known extensions as lower case.\<close>

definition filepath_Ext :: "string \<Rightarrow> string" where
  "filepath_Ext path =
     (let r = takeWhile (\<lambda>c. c \<noteq> CHR ''.'' \<and> c \<noteq> CHR ''/'') (rev path)
      in case drop (length r) (rev path) of c # _ \<Rightarrow> if c = CHR ''.'' then c # rev r else [] | [] \<Rightarrow> [])"

definition to_lower :: "char \<Rightarrow> char" where
  "to_lower c = (if 65 \<le> byte_of c \<and> byte_of c \<le> 90 then char_of (byte_of c + 32) else c)"

definition lower_Ext :: "string \<Rightarrow> string" where
  "lower_Ext name = map to_lower (filepath_Ext name)"

definition isCertFile :: "string \<Rightarrow> bool" where
  "isCertFile name \<longleftrightarrow> lower_Ext name \<in> {''.pem'', ''.crt'', ''.cer''}"

section \<open>The store\<close>

type_synonym trust_store = "trusted_cert list"

definition isSelfSigned :: "cert_lib \<Rightarrow> bytes \<Rightarrow> bool" where
  "isSelfSigned E der = (case ce_ParseCertificate E der of Inl _ \<Rightarrow> False | Inr c \<Rightarrow> xc_RawIssuer c = xc_RawSubject c)"

text \<open>
  The loop over the blocks of a file. A found block leaves a shorter rest, so the length of the file
  bounds the number of rounds.
\<close>

fun add_pem_loop :: "nat \<Rightarrow> cert_lib \<Rightarrow> trust_store \<Rightarrow> bytes \<Rightarrow> trust_store" where
  "add_pem_loop 0 E s raw = s"
| "add_pem_loop (Suc n) E s raw =
     (case ce_PemDecode E raw of
        None \<Rightarrow> s
      | Some (b, rest) \<Rightarrow>
          add_pem_loop n E (if pb_Type b \<noteq> ''CERTIFICATE'' then s
             else s @ [\<lparr>tc_Cert = ce_PemEncode E b, tc_Intermediate = (\<not> isSelfSigned E (pb_Bytes b))\<rparr>]) rest)"

definition addPEM :: "cert_lib \<Rightarrow> trust_store \<Rightarrow> bytes \<Rightarrow> trust_store" where
  "addPEM E s raw = add_pem_loop (Suc (length raw)) E s raw"

definition addDER :: "cert_lib \<Rightarrow> trust_store \<Rightarrow> bytes \<Rightarrow> bool \<times> trust_store" where
  "addDER E s der =
     (case ce_ParseCertificate E der of
        Inl _ \<Rightarrow> (False, s)
      | Inr _ \<Rightarrow> (True, s @ [\<lparr>tc_Cert = ce_PemEncode E \<lparr>pb_Type = ''CERTIFICATE'', pb_Headers = [], pb_Bytes = der\<rparr>,
                          tc_Intermediate = (\<not> isSelfSigned E der)\<rparr>]))"

datatype dir_read = DirEntries "(string \<times> bool) list" | DirNotExist | DirFails goerr

text \<open>The directory of CA files: its entries (with whether each is a directory) and the files in it.\<close>

record trust_world =
  tw_ReadDir :: dir_read
  tw_ReadFile :: "string \<Rightarrow> goerr + bytes"

fun load_files :: "cert_lib \<Rightarrow> (string \<Rightarrow> goerr + bytes) \<Rightarrow> trust_store \<Rightarrow> (string \<times> bool) list \<Rightarrow> goerr + trust_store" where
  "load_files E read s [] = Inr s"
| "load_files E read s ((name, isDir) # rest) =
     (if isDir \<or> \<not> isCertFile name then load_files E read s rest
      else case read name of
        Inl e \<Rightarrow> Inl (WrapError (''trust: read '' @ name) e)
      | Inr raw \<Rightarrow> load_files E read (addPEM E s raw) rest)"

definition LoadDir :: "cert_lib \<Rightarrow> trust_world \<Rightarrow> string \<Rightarrow> goerr + trust_store" where
  "LoadDir E w dir =
     (if dir = [] then Inr []
      else case tw_ReadDir w of
        DirNotExist \<Rightarrow> Inr []
      | DirFails e \<Rightarrow> Inl (WrapError (''trust: read dir '' @ dir) e)
      | DirEntries entries \<Rightarrow> load_files E (tw_ReadFile w) [] entries)"

section \<open>The registry\<close>

record ca_ref =
  ca_Label :: string
  ca_URL :: string
  ca_Kind :: string
  ca_Algo :: string
  ca_Test :: bool

text \<open>The registry's certificates are embedded data, an argument here; the test ones are added on request (internal/pki/ca.go).\<close>

definition CACertificatesFor :: "ca_ref list \<Rightarrow> bool \<Rightarrow> ca_ref list" where
  "CACertificatesFor registry includeTest = filter (\<lambda>c. \<not> ca_Test c \<or> includeTest) registry"

datatype registry_error = FetchFailed ca_ref | NotACertificate ca_ref

definition trust_certDER :: "cert_lib \<Rightarrow> bytes \<Rightarrow> bytes" where
  "trust_certDER E body =
     (case ce_PemDecode E body of
        Some (b, _) \<Rightarrow> if pb_Type b = ''CERTIFICATE'' then pb_Bytes b else body
      | None \<Rightarrow> body)"

text \<open>What a request meets: no request or no response, or a status, a body and the error that ended the reading of it.\<close>

datatype web_answer = NoAnswer | HttpAnswer int bytes "goerr option"

definition maxCertBytes :: nat where "maxCertBytes = 1024 * 1024"

definition HTTPFetcher :: "(string \<Rightarrow> web_answer) \<Rightarrow> string \<Rightarrow> bytes option" where
  "HTTPFetcher http url =
     (case http url of HttpAnswer status body None \<Rightarrow> if status \<noteq> 200 then None else Some (take maxCertBytes body) | _ \<Rightarrow> None)"

fun LoadRegistry :: "cert_lib \<Rightarrow> (string \<Rightarrow> bytes option) \<Rightarrow> trust_store \<Rightarrow> ca_ref list \<Rightarrow> registry_error list \<times> trust_store" where
  "LoadRegistry E fetch s [] = ([], s)"
| "LoadRegistry E fetch s (ref # rest) =
     (case fetch (ca_URL ref) of
        None \<Rightarrow> (case LoadRegistry E fetch s rest of (errs, s') \<Rightarrow> (FetchFailed ref # errs, s'))
      | Some body \<Rightarrow>
          (case addDER E s (trust_certDER E body) of
             (True, s1) \<Rightarrow> LoadRegistry E fetch s1 rest
           | (False, s1) \<Rightarrow> (case LoadRegistry E fetch s1 rest of (errs, s') \<Rightarrow> (NotACertificate ref # errs, s'))))"

section \<open>The refresh\<close>

record refresh_status =
  rf_Enabled :: bool
  rf_IntervalSec :: int
  rf_LastAt :: string
  rf_AnchorCount :: nat
  rf_LastErrors :: nat

record refresher =
  rr_store :: trust_store
  rr_status :: refresh_status

definition NewRefresher :: "trust_store \<Rightarrow> refresher" where
  "NewRefresher s = \<lparr>rr_store = s, rr_status = \<lparr>rf_Enabled = False, rf_IntervalSec = 0, rf_LastAt = [], rf_AnchorCount = length s,
     rf_LastErrors = 0\<rparr>\<rparr>"

definition rebuild :: "cert_lib \<Rightarrow> trust_world \<Rightarrow> (string \<Rightarrow> bytes option) \<Rightarrow> string \<Rightarrow> ca_ref list \<Rightarrow> nat \<times> trust_store" where
  "rebuild E w fetch dir refs =
     (let (errs, fresh) = (case LoadDir E w dir of Inl e \<Rightarrow> (1, []) | Inr built \<Rightarrow> (0, built))
      in if refs = [] then (errs, fresh)
         else case LoadRegistry E fetch fresh refs of (errs', fresh') \<Rightarrow> (errs + length errs', fresh'))"

definition Refresh :: "cert_lib \<Rightarrow> trust_world \<Rightarrow> (string \<Rightarrow> bytes option) \<Rightarrow> string \<Rightarrow> ca_ref list \<Rightarrow> string \<Rightarrow> refresher \<Rightarrow> refresher" where
  "Refresh E w fetch dir refs at r =
     (case rebuild E w fetch dir refs of (errs, fresh) \<Rightarrow>
        (let kept = (fresh = [] \<and> rr_store r \<noteq> []); s = (if kept then rr_store r else fresh)
         in r\<lparr>rr_store := s, rr_status := (rr_status r)\<lparr>rf_LastAt := at, rf_AnchorCount := length s, rf_LastErrors := errs\<rparr>\<rparr>))"

definition Run_start :: "dur \<Rightarrow> refresher \<Rightarrow> refresher" where
  "Run_start interval r =
     (if interval \<le> 0 then r
      else r\<lparr>rr_status := (rr_status r)\<lparr>rf_Enabled := True, rf_IntervalSec := interval div Second\<rparr>\<rparr>)"

section \<open>What the anchors are\<close>

text \<open>
  Where an anchor comes from: a certificate block of a certificate file in the directory, or a
  download of a registry entry that parses as a certificate.
\<close>

definition anchor_of :: "cert_lib \<Rightarrow> pem_block \<Rightarrow> trusted_cert" where
  "anchor_of E b = \<lparr>tc_Cert = ce_PemEncode E b, tc_Intermediate = (\<not> isSelfSigned E (pb_Bytes b))\<rparr>"

inductive block_of :: "cert_lib \<Rightarrow> bytes \<Rightarrow> pem_block \<Rightarrow> bool" for E where
  here: "ce_PemDecode E raw = Some (b, rest) \<Longrightarrow> block_of E raw b"
| behind: "ce_PemDecode E raw = Some (b', rest) \<Longrightarrow> block_of E rest b \<Longrightarrow> block_of E raw b"

definition from_directory :: "cert_lib \<Rightarrow> trust_world \<Rightarrow> trusted_cert \<Rightarrow> bool" where
  "from_directory E w a \<longleftrightarrow> (\<exists>entries name raw b. tw_ReadDir w = DirEntries entries \<and> (name, False) \<in> set entries \<and> isCertFile name \<and>
     tw_ReadFile w name = Inr raw \<and> block_of E raw b \<and> pb_Type b = ''CERTIFICATE'' \<and> a = anchor_of E b)"

definition from_registry :: "cert_lib \<Rightarrow> (string \<Rightarrow> bytes option) \<Rightarrow> ca_ref list \<Rightarrow> trusted_cert \<Rightarrow> bool" where
  "from_registry E fetch refs a \<longleftrightarrow> (\<exists>ref body c. ref \<in> set refs \<and> fetch (ca_URL ref) = Some body \<and>
     ce_ParseCertificate E (trust_certDER E body) = Inr c \<and>
     a = anchor_of E \<lparr>pb_Type = ''CERTIFICATE'', pb_Headers = [], pb_Bytes = trust_certDER E body\<rparr>)"

text \<open>The parsers' law: a block that was found leaves less to read.\<close>

definition pem_shrinks :: "cert_lib \<Rightarrow> bool" where
  "pem_shrinks E \<longleftrightarrow> (\<forall>raw b rest. ce_PemDecode E raw = Some (b, rest) \<longrightarrow> length rest < length raw)"

lemma block_of_None: "ce_PemDecode E raw = None \<Longrightarrow> \<not> block_of E raw b"
  by (auto elim: block_of.cases)

lemma block_of_Some: "ce_PemDecode E raw = Some (b, rest) \<Longrightarrow> block_of E raw c \<longleftrightarrow> c = b \<or> block_of E rest c"
  by (auto elim: block_of.cases intro: block_of.intros)

lemma add_pem_loop_set:
  assumes "pem_shrinks E" and "length raw < n"
  shows "set (add_pem_loop n E s raw) = set s \<union> {a. \<exists>b. block_of E raw b \<and> pb_Type b = ''CERTIFICATE'' \<and> a = anchor_of E b}"
  using assms(2)
proof (induction n arbitrary: s raw)
  case (Suc n)
  show ?case
  proof (cases "ce_PemDecode E raw")
    case None
    then show ?thesis by (simp add: block_of_None)
  next
    case (Some p)
    obtain b rest where p: "p = (b, rest)" by fastforce
    with assms(1) Some have "length rest < length raw" by (auto simp: pem_shrinks_def)
    with Suc.prems have "length rest < n" by simp
    note IH = Suc.IH [OF this]
    show ?thesis using Some p by (auto simp: IH block_of_Some anchor_of_def)
  qed
qed simp

lemma addPEM_set: "pem_shrinks E \<Longrightarrow>
    set (addPEM E s raw) = set s \<union> {a. \<exists>b. block_of E raw b \<and> pb_Type b = ''CERTIFICATE'' \<and> a = anchor_of E b}"
  unfolding addPEM_def by (rule add_pem_loop_set) simp_all

lemma load_files_set:
  assumes "pem_shrinks E" and "load_files E read s entries = Inr s'"
  shows "set s' = set s \<union> {a. \<exists>name raw b. (name, False) \<in> set entries \<and> isCertFile name \<and> read name = Inr raw \<and>
    block_of E raw b \<and> pb_Type b = ''CERTIFICATE'' \<and> a = anchor_of E b}"
  using assms(2)
proof (induction entries arbitrary: s)
  case (Cons x rest)
  obtain name isDir where x: "x = (name, isDir)" by fastforce
  show ?case
  proof (cases "isDir \<or> \<not> isCertFile name")
    case True
    with Cons.prems x have "load_files E read s rest = Inr s'" by simp
    from Cons.IH [OF this] True x show ?thesis by auto
  next
    case False
    with Cons.prems x obtain raw where raw: "read name = Inr raw" "load_files E read (addPEM E s raw) rest = Inr s'"
      by (auto split: sum.splits)
    from raw(1) False x show ?thesis
      unfolding Cons.IH [OF raw(2)] addPEM_set [OF assms(1)] by auto
  qed
qed simp

lemma LoadDir_set:
  assumes "pem_shrinks E" and "LoadDir E w dir = Inr s"
  shows "set s = {a. dir \<noteq> [] \<and> from_directory E w a}"
  using assms(2) load_files_set [OF assms(1), of "tw_ReadFile w" "[]"]
  by (auto simp: LoadDir_def from_directory_def split: if_splits dir_read.splits)

lemma LoadRegistry_set:
  "LoadRegistry E fetch s refs = (errs, s') \<Longrightarrow> set s' = set s \<union> {a. from_registry E fetch refs a}"
proof (induction E fetch s refs arbitrary: errs s' rule: LoadRegistry.induct)
  case (1 E fetch s)
  then show ?case by (simp add: from_registry_def)
next
  case (2 E fetch s ref rest)
  show ?case
  proof (cases "fetch (ca_URL ref)")
    case None
    obtain errs1 where "LoadRegistry E fetch s rest = (errs1, s')" using "2.prems" None by (auto split: prod.splits)
    from "2.IH"(1) [OF None this] None show ?thesis by (auto simp: from_registry_def)
  next
    case (Some body)
    let ?b = "\<lparr>pb_Type = ''CERTIFICATE'', pb_Headers = [], pb_Bytes = trust_certDER E body\<rparr>"
    show ?thesis
    proof (cases "ce_ParseCertificate E (trust_certDER E body)")
      case (Inl e)
      then have add: "addDER E s (trust_certDER E body) = (False, s)" by (simp add: addDER_def)
      obtain errs1 where "LoadRegistry E fetch s rest = (errs1, s')" using "2.prems" Some add by (auto split: prod.splits)
      from "2.IH"(3) [OF Some add [symmetric] _ this] Some Inl show ?thesis by (auto simp: from_registry_def)
    next
      case (Inr c)
      then have add: "addDER E s (trust_certDER E body) = (True, s @ [anchor_of E ?b])" by (simp add: addDER_def anchor_of_def)
      have "LoadRegistry E fetch (s @ [anchor_of E ?b]) rest = (errs, s')" using "2.prems" Some add by simp
      from "2.IH"(2) [OF Some add [symmetric] _ this] Some Inr show ?thesis by (auto simp: from_registry_def)
    qed
  qed
qed

text \<open>What a rebuild finds: the directory, unless one of its files cannot be read, and the registry.\<close>

definition trust_sources :: "cert_lib \<Rightarrow> trust_world \<Rightarrow> (string \<Rightarrow> bytes option) \<Rightarrow> string \<Rightarrow> ca_ref list \<Rightarrow> trusted_cert set" where
  "trust_sources E w fetch dir refs =
     {a. dir \<noteq> [] \<and> (\<exists>s. LoadDir E w dir = Inr s) \<and> from_directory E w a} \<union> {a. from_registry E fetch refs a}"

lemma rebuild_set:
  assumes "pem_shrinks E" and "rebuild E w fetch dir refs = (errs, fresh)"
  shows "set fresh = trust_sources E w fetch dir refs"
proof -
  obtain n s where dir: "(case LoadDir E w dir of Inl e \<Rightarrow> (1, []) | Inr built \<Rightarrow> (0 :: nat, built)) = (n, s)" by fastforce
  have s: "set s = {a. dir \<noteq> [] \<and> (\<exists>s. LoadDir E w dir = Inr s) \<and> from_directory E w a}"
    using dir LoadDir_set [OF assms(1)] by (auto split: sum.splits)
  show ?thesis
  proof (cases "refs = []")
    case True
    with assms(2) dir s show ?thesis by (auto simp: rebuild_def trust_sources_def from_registry_def)
  next
    case False
    obtain errs' fresh' where reg: "LoadRegistry E fetch s refs = (errs', fresh')" by fastforce
    with False assms(2) dir have "fresh = fresh'" by (auto simp: rebuild_def)
    with LoadRegistry_set [OF reg] s show ?thesis by (simp add: trust_sources_def)
  qed
qed

lemma sources_classified:
  assumes "a \<in> trust_sources E w fetch dir refs"
  obtains b where "a = anchor_of E b" "pb_Type b = ''CERTIFICATE''"
  using assms by (auto simp: trust_sources_def from_directory_def from_registry_def)

text \<open>
  Claim C17: a refresh replaces the anchors by exactly what its sources hold now, and never wipes
  trust. Afterwards the store holds the certificates of the directory (when all its files could be
  read) and of the registry entries that were downloaded and parse, or, if these are none, what it
  held before. An anchor that enters as a root is a certificate that parses and names itself as its
  issuer. A store that was not empty stays so, and the reported count is the store's.
\<close>

theorem trust_refresh_means:
  assumes "pem_shrinks E" and "r' = Refresh E w fetch dir refs at r"
  shows "set (rr_store r') = (if trust_sources E w fetch dir refs = {} then set (rr_store r) else trust_sources E w fetch dir refs) \<and>
    (rr_store r \<noteq> [] \<longrightarrow> rr_store r' \<noteq> []) \<and> rf_AnchorCount (rr_status r') = length (rr_store r') \<and>
    (\<forall>a \<in> set (rr_store r') - set (rr_store r). \<not> tc_Intermediate a \<longrightarrow>
       (\<exists>b c. tc_Cert a = ce_PemEncode E b \<and> ce_ParseCertificate E (pb_Bytes b) = Inr c \<and> xc_RawIssuer c = xc_RawSubject c))"
proof -
  obtain errs fresh where rb: "rebuild E w fetch dir refs = (errs, fresh)" by fastforce
  have src: "set fresh = trust_sources E w fetch dir refs" by (rule rebuild_set [OF assms(1) rb])
  have st: "rr_store r' = (if fresh = [] \<and> rr_store r \<noteq> [] then rr_store r else fresh)"
    "rf_AnchorCount (rr_status r') = length (rr_store r')"
    using assms(2) rb by (simp_all add: Refresh_def Let_def)
  have root: "\<exists>b c. tc_Cert a = ce_PemEncode E b \<and> ce_ParseCertificate E (pb_Bytes b) = Inr c \<and> xc_RawIssuer c = xc_RawSubject c"
    if "a \<in> set fresh" "\<not> tc_Intermediate a" for a
  proof -
    from that(1) src obtain b where b: "a = anchor_of E b" by (auto elim: sources_classified)
    with that(2) have "isSelfSigned E (pb_Bytes b)" by (simp add: anchor_of_def)
    then obtain c where "ce_ParseCertificate E (pb_Bytes b) = Inr c" "xc_RawIssuer c = xc_RawSubject c"
      by (auto simp: isSelfSigned_def split: sum.splits)
    with b show ?thesis by (auto simp: anchor_of_def)
  qed
  have "trust_sources E w fetch dir refs = {} \<longleftrightarrow> fresh = []" using src by auto
  with st src root show ?thesis by auto
qed

text \<open>A directory with one root, and a registry whose only entry cannot be downloaded.\<close>

definition demo_xcert :: "bytes \<Rightarrow> xcert" where
  "demo_xcert der = \<lparr>xc_Raw = der, xc_RawSubject = ''S'', xc_RawIssuer = (if der = ''root'' then ''S'' else ''I''),
     xc_Subject = \<lparr>xn_CommonName = der, xn_Organization = [], xn_OrganizationalUnit = [], xn_Country = [], xn_Locality = [],
       xn_Province = [], xn_String = []\<rparr>,
     xc_Issuer = \<lparr>xn_CommonName = [], xn_Organization = [], xn_OrganizationalUnit = [], xn_Country = [], xn_Locality = [],
       xn_Province = [], xn_String = []\<rparr>,
     xc_SerialNumber = 1, xc_NotBefore = 0, xc_NotAfter = 100, xc_IsCA = True, xc_KeyUsage = 0, xc_AuthorityKeyId = [],
     xc_SubjectKeyId = [], xc_OCSPServer = [], xc_IssuingCertificateURL = [], xc_CRLDistributionPoints = [], xc_PolicyIdentifiers = []\<rparr>"

definition demo_cert_lib :: cert_lib where
  "demo_cert_lib = \<lparr>ce_PemDecode = (\<lambda>raw. if raw \<noteq> [] \<and> hd raw = CHR ''-''
       then Some (\<lparr>pb_Type = ''CERTIFICATE'', pb_Headers = [], pb_Bytes = takeWhile (\<lambda>c. c \<noteq> CHR ''-'') (tl raw)\<rparr>,
          dropWhile (\<lambda>c. c \<noteq> CHR ''-'') (tl raw)) else None),
     ce_PemEncode = (\<lambda>b. CHR ''-'' # pb_Bytes b),
     ce_ParseCertificate = (\<lambda>der. if der = [] then Inl (PlainError ''truncated'') else Inr (demo_xcert der))\<rparr>"

lemma demo_pem_shrinks: "pem_shrinks demo_cert_lib"
proof -
  have "length (dropWhile P (tl raw)) < length raw" if "raw \<noteq> []" for P and raw :: bytes
    using length_dropWhile_le [of P "tl raw"] that by (cases raw) auto
  then show ?thesis by (auto simp: pem_shrinks_def demo_cert_lib_def split: if_splits)
qed

definition demo_ca_dir :: trust_world where
  "demo_ca_dir = \<lparr>tw_ReadDir = DirEntries [(''ca.PEM'', False), (''old'', True)], tw_ReadFile = (\<lambda>n. Inr ''-root-sub'')\<rparr>"

lemma demo_refresh:
  "rr_store (Refresh demo_cert_lib demo_ca_dir (\<lambda>u. None) ''/ca''
      [\<lparr>ca_Label = ''r'', ca_URL = ''http://r'', ca_Kind = ''root'', ca_Algo = ''rsa'', ca_Test = False\<rparr>] ''t'' (NewRefresher [])) =
    [\<lparr>tc_Cert = ''-root'', tc_Intermediate = False\<rparr>, \<lparr>tc_Cert = ''-sub'', tc_Intermediate = True\<rparr>]"
  by code_simp

theorem trust_refresh_means_witness:
  "\<exists>b c. ''-root'' = ce_PemEncode demo_cert_lib b \<and> ce_ParseCertificate demo_cert_lib (pb_Bytes b) = Inr c \<and> xc_RawIssuer c = xc_RawSubject c"
proof -
  let ?refs = "[\<lparr>ca_Label = ''r'', ca_URL = ''http://r'', ca_Kind = ''root'', ca_Algo = ''rsa'', ca_Test = False\<rparr>]"
  have empty: "rr_store (NewRefresher []) = []" by (simp add: NewRefresher_def)
  note all = trust_refresh_means [OF demo_pem_shrinks refl, of demo_ca_dir "\<lambda>u. None" "''/ca''" ?refs "''t''" "NewRefresher []",
      unfolded demo_refresh empty]
  then show ?thesis by simp
qed

text \<open>
  The protection against transient failures covers only a rebuild that finds nothing: when one of
  several sources fails, the anchors it had contributed are gone until it answers again.
\<close>

lemma partial_failure_drops_anchors:
  "tc_Cert ` set (rr_store (Refresh demo_cert_lib (demo_ca_dir\<lparr>tw_ReadFile := (\<lambda>n. Inl (PlainError ''io''))\<rparr>) (\<lambda>u. Some ''-net'') ''/ca''
      [\<lparr>ca_Label = ''r'', ca_URL = ''http://r'', ca_Kind = ''root'', ca_Algo = ''rsa'', ca_Test = False\<rparr>] ''t''
      (NewRefresher [\<lparr>tc_Cert = ''-root'', tc_Intermediate = False\<rparr>]))) = {''-net''}"
  by code_simp

end
