(* ===== verification/Aia.thy ===== *)
theory Aia
  imports Trust Chain
begin

text \<open>
  The download of issuer certificates (internal/aia): the CA Issuers addresses of a certificate are
  tried in order, each through a cache of addresses that remembers misses too, and a certificate is
  read from PEM, DER or a PKCS#7 bundle. The network is an argument of each call; the ASN.1 reader
  of the bundle's two wrappers is a field of a record.
\<close>

section \<open>Reading a download\<close>

definition maxResponseBytes :: nat where "maxResponseBytes = 2 * 1024 * 1024"

text \<open>
  \<open>ai_ContentInfo\<close> reads the outer wrapper into its type and the content without and with its tag,
  \<open>ai_SignedData\<close> the certificates field of the inner one.
\<close>

record aia_lib =
  ai_ParseCertificates :: "bytes \<Rightarrow> xcert list option"
  ai_ContentInfo :: "bytes \<Rightarrow> (string \<times> bytes \<times> bytes) option"
  ai_SignedData :: "bytes \<Rightarrow> bytes option"

definition oidSignedData :: string where "oidSignedData = ''1.2.840.113549.1.7.2''"

definition parsePKCS7Certs :: "aia_lib \<Rightarrow> bytes \<Rightarrow> xcert list" where
  "parsePKCS7Certs A der =
     (case ai_ContentInfo A der of
        None \<Rightarrow> []
      | Some (ctype, content, fullContent) \<Rightarrow>
          if ctype \<noteq> oidSignedData then []
          else case (case ai_SignedData A content of Some sd \<Rightarrow> Some sd | None \<Rightarrow> ai_SignedData A fullContent) of
            None \<Rightarrow> []
          | Some certs \<Rightarrow>
              if certs = [] then []
              else (case ai_ParseCertificates A certs of None \<Rightarrow> [] | Some cs \<Rightarrow> cs))"

definition extract_der :: "aia_lib \<Rightarrow> bytes \<Rightarrow> bytes option" where
  "extract_der A body =
     (case ai_ParseCertificates A body of
        Some (c # _) \<Rightarrow> Some (xc_Raw c)
      | _ \<Rightarrow> (case parsePKCS7Certs A body of c # _ \<Rightarrow> Some (xc_Raw c) | [] \<Rightarrow> None))"

definition extractCert :: "cert_lib \<Rightarrow> aia_lib \<Rightarrow> bytes \<Rightarrow> bytes option" where
  "extractCert E A body =
     (case ce_PemDecode E body of
        Some (b, rest) \<Rightarrow> if pb_Type b = ''CERTIFICATE'' then Some (pb_Bytes b) else extract_der A body
      | None \<Rightarrow> extract_der A body)"

section \<open>The fetcher\<close>

type_synonym aia_cache = "(string, bytes option) gomap"

definition aia_download :: "cert_lib \<Rightarrow> aia_lib \<Rightarrow> (string \<Rightarrow> web_answer) \<Rightarrow> string \<Rightarrow> bytes option" where
  "aia_download E A http url =
     (case http url of
        HttpAnswer status body None \<Rightarrow> if status \<noteq> 200 then None else extractCert E A (take maxResponseBytes body)
      | _ \<Rightarrow> None)"

definition aia_get :: "cert_lib \<Rightarrow> aia_lib \<Rightarrow> (string \<Rightarrow> web_answer) \<Rightarrow> aia_cache \<Rightarrow> string \<Rightarrow> bytes option \<times> aia_cache" where
  "aia_get E A http cache url =
     (case map_of cache url of
        Some der \<Rightarrow> (der, cache)
      | None \<Rightarrow> (let der = aia_download E A http url in (der, kv_put url der cache)))"

fun fetch_first :: "cert_lib \<Rightarrow> aia_lib \<Rightarrow> (string \<Rightarrow> web_answer) \<Rightarrow> aia_cache \<Rightarrow> string list \<Rightarrow> bytes option \<times> aia_cache" where
  "fetch_first E A http cache [] = (None, cache)"
| "fetch_first E A http cache (url # rest) =
     (case aia_get E A http cache url of
        (Some der, cache') \<Rightarrow> (Some der, cache')
      | (None, cache') \<Rightarrow> fetch_first E A http cache' rest)"

definition FetchIssuer :: "cert_lib \<Rightarrow> aia_lib \<Rightarrow> (string \<Rightarrow> web_answer) \<Rightarrow> aia_cache \<Rightarrow> bytes \<Rightarrow> bytes option \<times> aia_cache" where
  "FetchIssuer E A http cache certDER =
     (case ce_ParseCertificate E certDER of
        Inl _ \<Rightarrow> (None, cache)
      | Inr c \<Rightarrow> fetch_first E A http cache (xc_IssuingCertificateURL c))"

section \<open>The cache\<close>

text \<open>
  What an entry of the cache came from: the answer of the network at the time it was made. The
  history lists the networks of the calls so far.
\<close>

definition cache_from :: "cert_lib \<Rightarrow> aia_lib \<Rightarrow> (string \<Rightarrow> web_answer) set \<Rightarrow> aia_cache \<Rightarrow> bool" where
  "cache_from E A seen cache \<longleftrightarrow> kv_ok cache \<and> (\<forall>url der. map_of cache url = Some der \<longrightarrow> (\<exists>http \<in> seen. der = aia_download E A http url))"

lemma aia_get_cache:
  assumes "cache_from E A seen cache" and "aia_get E A http cache url = (der, cache')"
  shows "cache_from E A (insert http seen) cache'" "map_of cache' url = Some der" "\<And>u d. map_of cache u = Some d \<Longrightarrow> map_of cache' u = Some d"
proof -
  consider "map_of cache url = Some der" "cache' = cache" | "map_of cache url = None" "der = aia_download E A http url" "cache' = kv_put url der cache"
    using assms(2) by (auto simp: aia_get_def Let_def split: option.splits)
  then have "cache_from E A (insert http seen) cache' \<and> map_of cache' url = Some der \<and> (\<forall>u d. map_of cache u = Some d \<longrightarrow> map_of cache' u = Some d)"
  proof cases
    case 1
    with assms(1) show ?thesis unfolding cache_from_def by blast
  next
    case 2
    have old: "\<exists>h \<in> insert http seen. d = aia_download E A h u" if "map_of cache u = Some d" for u d
      using assms(1) that unfolding cache_from_def by blast
    with 2 assms(1) show ?thesis by (auto simp: cache_from_def kv_simps wf_intros split: if_splits)
  qed
  then show "cache_from E A (insert http seen) cache'" "map_of cache' url = Some der" "\<And>u d. map_of cache u = Some d \<Longrightarrow> map_of cache' u = Some d"
    by auto
qed

lemma fetch_first_cache:
  assumes "cache_from E A seen cache" and "fetch_first E A http cache urls = (r, cache')"
  shows "cache_from E A (insert http seen) cache' \<and> (\<forall>u d. map_of cache u = Some d \<longrightarrow> map_of cache' u = Some d) \<and>
    (\<forall>der. r = Some der \<longrightarrow> (\<exists>url \<in> set urls. map_of cache' url = Some (Some der)))"
  using assms
proof (induction urls arbitrary: cache seen)
  case Nil
  then show ?case by (auto simp: cache_from_def)
next
  case (Cons url rest)
  obtain d cache1 where g: "aia_get E A http cache url = (d, cache1)" by fastforce
  note eff = aia_get_cache [OF Cons.prems(1) g]
  show ?case
  proof (cases d)
    case (Some der)
    with Cons.prems(2) g eff show ?thesis by auto
  next
    case None
    with Cons.prems(2) g have "fetch_first E A http cache1 rest = (r, cache')" by simp
    from Cons.IH [OF eff(1) this] eff(3) show ?thesis by auto
  qed
qed

text \<open>
  An issuer that is returned was downloaded from an address that the certificate itself names, by
  this call or an earlier one.
\<close>

lemma FetchIssuer_from:
  assumes "cache_from E A seen cache" and "FetchIssuer E A http cache certDER = (Some der, cache')"
  obtains c url h where "ce_ParseCertificate E certDER = Inr c" "url \<in> set (xc_IssuingCertificateURL c)" "h \<in> insert http seen"
    "aia_download E A h url = Some der"
proof -
  from assms(2) obtain c where c: "ce_ParseCertificate E certDER = Inr c" "fetch_first E A http cache (xc_IssuingCertificateURL c) = (Some der, cache')"
    by (auto simp: FetchIssuer_def split: sum.splits)
  from fetch_first_cache [OF assms(1) c(2)] obtain url where
    url: "url \<in> set (xc_IssuingCertificateURL c)" "map_of cache' url = Some (Some der)" and from_: "cache_from E A (insert http seen) cache'" by auto
  from from_ url(2) obtain h where "h \<in> insert http seen" "Some der = aia_download E A h url" unfolding cache_from_def by blast
  with c(1) url(1) that show thesis by metis
qed

text \<open>
  A miss is remembered for good, whatever made it: after one call whose network gave no answer (a
  timeout, or a request that its client abandoned), the address is never asked again.
\<close>

lemma aia_miss_sticks:
  assumes "map_of cache url = None" and "http url = NoAnswer" and "snd (aia_get E A http cache url) = cache'"
  shows "aia_get E A http' cache' url = (None, cache')"
proof -
  have "cache' = kv_put url None cache" using assms by (simp add: aia_get_def aia_download_def Let_def)
  then show ?thesis by (simp add: aia_get_def kv_simps)
qed

text \<open>A PKCS#7 bundle is read.\<close>

lemma extractCert_bundle:
  assumes "ce_PemDecode E body = None" and "ai_ParseCertificates A body = None" and "ai_ContentInfo A body = Some (oidSignedData, content, raw)"
    and "ai_SignedData A content = Some certs" "certs \<noteq> []" and "ai_ParseCertificates A certs = Some (c # cs)"
  shows "extractCert E A body = Some (xc_Raw c)"
  using assms by (simp add: extractCert_def extract_der_def parsePKCS7Certs_def)

end
