(* ===== verification/Cert_Watch.thy ===== *)
theory Cert_Watch
  imports Trust Verify_Properties "HOL-Library.List_Lexorder" "HOL-Library.Char_ord"
begin

text \<open>
  The certificate watch (internal/certwatch/watch.go): every certificate file of a directory is
  checked on a schedule, the outcome is kept per file, and a webhook is called when the situation of
  a certificate changes. The directory, the files, the clock and the answers of the webhook are
  arguments; the revocation check is the domain's \<^verbatim>\<open>Validate\<close>.
\<close>

section \<open>Configuration and state\<close>

record watch_config =
  wc_Dir :: string
  wc_Interval :: dur
  wc_WarnFrom :: dur
  wc_WebhookURL :: string
  wc_CheckRevocation :: bool

definition watch_withDefaults :: "watch_config \<Rightarrow> watch_config" where
  "watch_withDefaults c =
     (let c = (if wc_Interval c \<le> 0 then c\<lparr>wc_Interval := 6 * Hour\<rparr> else c)
      in if wc_WarnFrom c \<le> 0 then c\<lparr>wc_WarnFrom := 30 * 24 * Hour\<rparr> else c)"

record cert_state =
  ws_File :: string
  ws_Subject :: string
  ws_SerialNumber :: string
  ws_NotAfter :: "time option"
  ws_Revoked :: bool
  ws_ExpiresIn :: dur
  ws_CheckedAt :: time
  ws_Error :: string

record watch_event =
  we_Kind :: string
  we_State :: cert_state

record watcher =
  wt_states :: "(string, cert_state) gomap"
  wt_notified :: "(string, string) gomap"

definition watch_New :: watcher where
  "watch_New = \<lparr>wt_states = [], wt_notified = []\<rparr>"

section \<open>The directory\<close>

text \<open>\<open>wl_Join\<close> is \<^verbatim>\<open>filepath.Join\<close>, \<open>wl_HexUpper\<close> the format \<^verbatim>\<open>%X\<close> of a serial number, and \<open>wl_Do\<close> the
  status that the webhook answers to the encoded event, or the error of encoding or sending it.\<close>

record watch_world =
  wl_ReadDir :: "goerr + (string \<times> bool) list"
  wl_ReadFile :: "string \<Rightarrow> goerr + bytes"
  wl_Join :: "string \<Rightarrow> string \<Rightarrow> string"
  wl_HexUpper :: "nat \<Rightarrow> string"
  wl_Do :: "watch_event \<Rightarrow> goerr + (int \<times> string)"
  wl_now :: time
  wl_validate :: time

text \<open>\<^verbatim>\<open>filepath.Base\<close> on Unix.\<close>

definition filepath_Base :: "string \<Rightarrow> string" where
  "filepath_Base path =
     (if path = [] then ''.''
      else let r = dropWhile (\<lambda>c. c = CHR ''/'') (rev path); b = rev (takeWhile (\<lambda>c. c \<noteq> CHR ''/'') r)
        in if b = [] then ''/'' else b)"

definition certFiles :: "watch_world \<Rightarrow> string \<Rightarrow> goerr + string list" where
  "certFiles w dir =
     (if TrimSpaceU dir = [] then Inr []
      else case wl_ReadDir w of
        Inl e \<Rightarrow> Inl e
      | Inr entries \<Rightarrow>
          Inr (sort (map (\<lambda>(name, isDir). wl_Join w dir name)
            (filter (\<lambda>(name, isDir). \<not> isDir \<and> lower_Ext name \<in> {''.cer'', ''.crt'', ''.pem'', ''.der''}) entries))))"

definition decode_der :: "cert_lib \<Rightarrow> bytes \<Rightarrow> (bytes \<times> string) option" where
  "decode_der E raw = (case ce_ParseCertificate E raw of Inr _ \<Rightarrow> Some (raw, EncodingDER) | Inl _ \<Rightarrow> None)"

definition decodeCert :: "cert_lib \<Rightarrow> bytes \<Rightarrow> (bytes \<times> string) option" where
  "decodeCert E raw =
     (case ce_PemDecode E raw of
        Some (b, _) \<Rightarrow> if pb_Type b = ''CERTIFICATE'' then Some (pb_Bytes b, EncodingPEM) else decode_der E raw
      | None \<Rightarrow> decode_der E raw)"

section \<open>One certificate\<close>

definition watch_validate_input :: "bytes \<Rightarrow> string \<Rightarrow> validate_input" where
  "watch_validate_input raw format =
     \<lparr>va_Cert = raw, va_Format = format, va_Method = MethodOCSP, va_CheckTime = zero_time, va_WantOCSP = False,
      va_TrustedCerts = [], va_ResponderURL = [], va_CRL = []\<rparr>"

definition new_state :: "string \<Rightarrow> time \<Rightarrow> cert_state" where
  "new_state file now = \<lparr>ws_File = filepath_Base file, ws_Subject = [], ws_SerialNumber = [], ws_NotAfter = None, ws_Revoked = False,
     ws_ExpiresIn = 0, ws_CheckedAt = now, ws_Error = []\<rparr>"

text \<open>\<^verbatim>\<open>t.Sub(u)\<close>: a duration has 64 bits and stops at its bounds.\<close>

definition time_Sub :: "time \<Rightarrow> time \<Rightarrow> dur" where
  "time_Sub t u = max (- (2 ^ 63)) (min (2 ^ 63 - 1) (t - u))"

text \<open>The facts read from the certificate itself.\<close>

definition parsed_state :: "watch_world \<Rightarrow> xcert \<Rightarrow> cert_state \<Rightarrow> cert_state" where
  "parsed_state w c st =
     st\<lparr>ws_Subject := (if xn_CommonName (xc_Subject c) = [] then xn_String (xc_Subject c) else xn_CommonName (xc_Subject c)),
        ws_SerialNumber := wl_HexUpper w (xc_SerialNumber c), ws_NotAfter := Some (xc_NotAfter c),
        ws_ExpiresIn := time_Sub (xc_NotAfter c) (wl_now w)\<rparr>"

definition revocation_state :: "validate_output \<Rightarrow> goerr option \<Rightarrow> cert_state \<Rightarrow> cert_state" where
  "revocation_state out err st =
     (case err of
        Some e \<Rightarrow> st\<lparr>ws_Error := ''revocation: '' @ err_text e\<rparr>
      | None \<Rightarrow>
          (case rs_LibError (vt_Status out) of
             Some le \<Rightarrow> if \<not> rs_Revoked (vt_Status out) then st\<lparr>ws_Error := ''revocation inconclusive: '' @ le_Message le\<rparr>
               else st\<lparr>ws_Revoked := True\<rparr>
           | None \<Rightarrow> st\<lparr>ws_Revoked := rs_Revoked (vt_Status out)\<rparr>))"

definition check :: "watch_config \<Rightarrow> cert_lib \<Rightarrow> 'c service \<Rightarrow> lang \<Rightarrow> watch_world \<Rightarrow> 'c \<Rightarrow> string \<Rightarrow> (cert_state \<times> 'c) go" where
  "check cfg E s ctx w c file =
     (let st = new_state file (wl_now w)
      in case wl_ReadFile w file of
           Inl e \<Rightarrow> Returns (st\<lparr>ws_Error := err_text e\<rparr>, c)
         | Inr raw \<Rightarrow>
             (case decodeCert E raw of
                None \<Rightarrow> Returns (st\<lparr>ws_Error := ''not a certificate (PEM or DER expected)''\<rparr>, c)
              | Some (der, format) \<Rightarrow>
                  (case ce_ParseCertificate E der of
                     Inl e \<Rightarrow> Returns (st\<lparr>ws_Error := ''parse: '' @ err_text e\<rparr>, c)
                   | Inr cert \<Rightarrow>
                       let st = parsed_state w cert st
                       in if \<not> wc_CheckRevocation cfg then Returns (st, c)
                          else (case Validate s ctx c (watch_validate_input raw format) (wl_validate w) of
                             Panics \<Rightarrow> Panics
                           | Returns ((out, err), c') \<Rightarrow> Returns (revocation_state out err st, c')))))"

definition eventKind :: "cert_state \<Rightarrow> dur \<Rightarrow> string" where
  "eventKind st warnFrom =
     (if ws_Error st \<noteq> [] then ''check_failed''
      else if ws_Revoked st then ''revoked''
      else if ws_NotAfter st \<noteq> None \<and> ws_ExpiresIn st \<le> 0 then ''expired''
      else if ws_NotAfter st \<noteq> None \<and> ws_ExpiresIn st \<le> warnFrom then ''expiring''
      else [])"

section \<open>Notification and sweep\<close>

definition postEvent :: "watch_world \<Rightarrow> watch_event \<Rightarrow> goerr option" where
  "postEvent w ev =
     (case wl_Do w ev of
        Inl e \<Rightarrow> Some e
      | Inr (code, status) \<Rightarrow> if code \<ge> 300 then Some (PlainError (''webhook returned '' @ status)) else None)"

text \<open>The second component of the result is the call to the webhook that was made, with its outcome.\<close>

definition notify :: "watch_config \<Rightarrow> watch_world \<Rightarrow> watcher \<Rightarrow> cert_state \<Rightarrow> watcher \<times> (watch_event \<times> bool) list" where
  "notify cfg w wt st =
     (let kind = eventKind st (wc_WarnFrom cfg);
          previous = (case map_of (wt_notified wt) (ws_File st) of Some k \<Rightarrow> k | None \<Rightarrow> [])
      in if kind = previous then (wt, [])
         else let wt1 = wt\<lparr>wt_notified := kv_put (ws_File st) kind (wt_notified wt)\<rparr>; ev = \<lparr>we_Kind = kind, we_State = st\<rparr>
           in if kind = [] \<or> wc_WebhookURL cfg = [] then (wt1, [])
              else case postEvent w ev of
                None \<Rightarrow> (wt1, [(ev, True)])
              | Some e \<Rightarrow> (wt1\<lparr>wt_notified := kv_del (ws_File st) (wt_notified wt1)\<rparr>, [(ev, False)]))"

fun sweep_files :: "watch_config \<Rightarrow> cert_lib \<Rightarrow> 'c service \<Rightarrow> lang \<Rightarrow> watch_world \<Rightarrow> watcher \<Rightarrow> 'c \<Rightarrow> string list \<Rightarrow>
    (watcher \<times> (watch_event \<times> bool) list \<times> 'c) go" where
  "sweep_files cfg E s ctx w wt c [] = Returns (wt, [], c)"
| "sweep_files cfg E s ctx w wt c (file # rest) =
     (case check cfg E s ctx w c file of
        Panics \<Rightarrow> Panics
      | Returns (st, c1) \<Rightarrow>
          (case notify cfg w (wt\<lparr>wt_states := kv_put file st (wt_states wt)\<rparr>) st of
             (wt1, sent) \<Rightarrow>
               (case sweep_files cfg E s ctx w wt1 c1 rest of
                  Panics \<Rightarrow> Panics
                | Returns (wt2, sent', c2) \<Rightarrow> Returns (wt2, sent @ sent', c2))))"

definition Sweep :: "watch_config \<Rightarrow> cert_lib \<Rightarrow> 'c service \<Rightarrow> lang \<Rightarrow> watch_world \<Rightarrow> watcher \<Rightarrow> 'c \<Rightarrow>
    (watcher \<times> (watch_event \<times> bool) list \<times> 'c) go" where
  "Sweep cfg E s ctx w wt c =
     (case certFiles w (wc_Dir cfg) of
        Inl e \<Rightarrow> Returns (wt, [], c)
      | Inr files \<Rightarrow> sweep_files cfg E s ctx w wt c files)"

definition States :: "watcher \<Rightarrow> cert_state list" where
  "States wt = sort_key ws_File (map snd (wt_states wt))"

text \<open>The sweeps of a run, each in the world it finds, with all calls to the webhook.\<close>

fun sweeps :: "watch_config \<Rightarrow> cert_lib \<Rightarrow> 'c service \<Rightarrow> lang \<Rightarrow> watch_world list \<Rightarrow> watcher \<Rightarrow> 'c \<Rightarrow> (watch_event \<times> bool) list \<Rightarrow>
    (watcher \<times> (watch_event \<times> bool) list \<times> 'c) go" where
  "sweeps cfg E s ctx [] wt c log = Returns (wt, log, c)"
| "sweeps cfg E s ctx (w # ws) wt c log =
     (case Sweep cfg E s ctx w wt c of
        Panics \<Rightarrow> Panics
      | Returns (wt1, sent, c1) \<Rightarrow> sweeps cfg E s ctx ws wt1 c1 (log @ sent))"

section \<open>A check says what it could establish\<close>

definition established :: "watch_config \<Rightarrow> cert_lib \<Rightarrow> 'c service \<Rightarrow> lang \<Rightarrow> watch_world \<Rightarrow> 'c \<Rightarrow> string \<Rightarrow> cert_state \<Rightarrow> bool" where
  "established cfg E s ctx w c file st \<longleftrightarrow>
     (\<exists>raw der format cert. wl_ReadFile w file = Inr raw \<and> decodeCert E raw = Some (der, format) \<and> ce_ParseCertificate E der = Inr cert \<and>
        ws_NotAfter st = Some (xc_NotAfter cert) \<and> ws_ExpiresIn st = time_Sub (xc_NotAfter cert) (wl_now w) \<and>
        (wc_CheckRevocation cfg \<longrightarrow> (\<exists>out c'. Validate s ctx c (watch_validate_input raw format) (wl_validate w) = Returns ((out, None), c') \<and>
           ws_Revoked st = rs_Revoked (vt_Status out) \<and> (rs_LibError (vt_Status out) = None \<or> rs_Revoked (vt_Status out)))))"

lemma new_state_simps [simp]: "ws_File (new_state file now) = filepath_Base file" "ws_Error (new_state file now) = []"
  by (simp_all add: new_state_def)

lemma parsed_state_simps [simp]: "ws_File (parsed_state w c st) = ws_File st" "ws_Error (parsed_state w c st) = ws_Error st"
  "ws_NotAfter (parsed_state w c st) = Some (xc_NotAfter c)" "ws_ExpiresIn (parsed_state w c st) = time_Sub (xc_NotAfter c) (wl_now w)"
  by (simp_all add: parsed_state_def)

lemma revocation_state_keeps [simp]: "ws_File (revocation_state out err st) = ws_File st"
  "ws_NotAfter (revocation_state out err st) = ws_NotAfter st" "ws_ExpiresIn (revocation_state out err st) = ws_ExpiresIn st"
  by (simp_all add: revocation_state_def split: option.splits)

lemma revocation_state_ok:
  "ws_Error (revocation_state out err st) = [] \<Longrightarrow> ws_Error st = [] \<Longrightarrow> err = None \<and>
     ws_Revoked (revocation_state out err st) = rs_Revoked (vt_Status out) \<and> (rs_LibError (vt_Status out) = None \<or> rs_Revoked (vt_Status out))"
  by (auto simp: revocation_state_def split: option.splits if_splits)

lemma check_File: "check cfg E s ctx w c file = Returns (st, c') \<Longrightarrow> ws_File st = filepath_Base file"
  by (auto simp: check_def Let_def split: sum.splits option.splits go.splits if_splits)

lemma check_established:
  assumes "check cfg E s ctx w c file = Returns (st, c')" and "ws_Error st = []"
    and "\<And>e. wl_ReadFile w file = Inl e \<Longrightarrow> err_text e \<noteq> []"
  shows "established cfg E s ctx w c file st"
proof -
  from assms obtain raw where raw: "wl_ReadFile w file = Inr raw"
    by (cases "wl_ReadFile w file") (auto simp: check_def Let_def)
  with assms(1,2) obtain der format where d: "decodeCert E raw = Some (der, format)"
    by (cases "decodeCert E raw") (auto simp: check_def Let_def)
  with raw assms(1,2) obtain cert where cert: "ce_ParseCertificate E der = Inr cert"
    by (cases "ce_ParseCertificate E der") (auto simp: check_def Let_def)
  let ?st = "parsed_state w cert (new_state file (wl_now w))"
  show ?thesis
  proof (cases "wc_CheckRevocation cfg")
    case False
    with raw d cert assms(1) have "st = ?st" by (simp add: check_def Let_def)
    with raw d cert False show ?thesis by (simp add: established_def)
  next
    case True
    with raw d cert assms(1) obtain out err where
      v: "Validate s ctx c (watch_validate_input raw format) (wl_validate w) = Returns ((out, err), c')" "st = revocation_state out err ?st"
      by (auto simp: check_def Let_def split: go.splits)
    with revocation_state_ok [of out err ?st] assms(2) have "err = None" "ws_Revoked st = rs_Revoked (vt_Status out)"
      "rs_LibError (vt_Status out) = None \<or> rs_Revoked (vt_Status out)" by auto
    with raw d cert True v show ?thesis unfolding established_def by auto
  qed
qed

section \<open>The webhook knows the situation\<close>

definition last_call :: "string \<Rightarrow> (watch_event \<times> bool) list \<Rightarrow> (watch_event \<times> bool) option" where
  "last_call f log = find (\<lambda>(ev, ok). ws_File (we_State ev) = f) (rev log)"

lemma last_call_simps [simp]: "last_call f [] = None"
  "last_call f (log @ [(ev, ok)]) = (if ws_File (we_State ev) = f then Some (ev, ok) else last_call f log)"
  by (simp_all add: last_call_def)

text \<open>The last call about a file told its situation; if it was not delivered, the file counts as not notified.\<close>

definition told :: "string \<Rightarrow> string \<Rightarrow> watcher \<Rightarrow> (watch_event \<times> bool) list \<Rightarrow> bool" where
  "told f kind wt log \<longleftrightarrow> (\<exists>ev ok. last_call f log = Some (ev, ok) \<and> we_Kind ev = kind \<and> (ok \<or> map_of (wt_notified wt) f = None))"

definition notified_inv :: "watcher \<Rightarrow> (watch_event \<times> bool) list \<Rightarrow> bool" where
  "notified_inv wt log \<longleftrightarrow> (\<forall>f k. map_of (wt_notified wt) f = Some k \<longrightarrow> k \<noteq> [] \<longrightarrow> (\<exists>ev. last_call f log = Some (ev, True) \<and> we_Kind ev = k))"

lemma notify_cases:
  assumes "notify cfg w wt st = (wt', sent)" and "wc_WebhookURL cfg \<noteq> []" and "k = eventKind st (wc_WarnFrom cfg)"
  obtains (same) "k = [] \<or> map_of (wt_notified wt) (ws_File st) = Some k" "wt' = wt" "sent = []"
    | (healthy) "k = []" "wt' = wt\<lparr>wt_notified := kv_put (ws_File st) k (wt_notified wt)\<rparr>" "sent = []"
    | (delivered) ev where "k \<noteq> []" "we_Kind ev = k" "we_State ev = st" "sent = [(ev, True)]"
        "wt' = wt\<lparr>wt_notified := kv_put (ws_File st) k (wt_notified wt)\<rparr>"
    | (lost) ev where "k \<noteq> []" "we_Kind ev = k" "we_State ev = st" "sent = [(ev, False)]"
        "wt' = wt\<lparr>wt_notified := kv_del (ws_File st) (kv_put (ws_File st) k (wt_notified wt))\<rparr>"
proof (cases "k = (case map_of (wt_notified wt) (ws_File st) of Some k \<Rightarrow> k | None \<Rightarrow> [])")
  case True
  with assms(1,3) have "wt' = wt" "sent = []" by (simp_all add: notify_def Let_def)
  with True same show thesis by (auto split: option.splits)
next
  case changed: False
  show thesis
  proof (cases "k = []")
    case True
    with changed assms(1,3) have "wt' = wt\<lparr>wt_notified := kv_put (ws_File st) k (wt_notified wt)\<rparr>" "sent = []"
      by (simp_all add: notify_def Let_def)
    with True healthy show thesis by blast
  next
    case False
    with changed assms show thesis
      using delivered [of "\<lparr>we_Kind = k, we_State = st\<rparr>"] lost [of "\<lparr>we_Kind = k, we_State = st\<rparr>"]
      by (cases "postEvent w \<lparr>we_Kind = k, we_State = st\<rparr>") (simp_all add: notify_def Let_def)
  qed
qed

lemma notify_told:
  assumes "notified_inv wt log" and "wc_WebhookURL cfg \<noteq> []" and "notify cfg w wt st = (wt', sent)" and "k = eventKind st (wc_WarnFrom cfg)"
  shows "notified_inv wt' (log @ sent) \<and> (k = [] \<or> told (ws_File st) k wt' (log @ sent)) \<and> wt_states wt' = wt_states wt \<and>
    (\<forall>f. f \<noteq> ws_File st \<longrightarrow> last_call f (log @ sent) = last_call f log \<and> map_of (wt_notified wt') f = map_of (wt_notified wt) f)"
  using assms(3,2,4)
proof (cases rule: notify_cases)
  case same
  with assms(1) show ?thesis unfolding notified_inv_def told_def by auto
next
  case healthy
  with assms(1) show ?thesis by (auto simp: notified_inv_def kv_simps)
next
  case (delivered ev)
  with assms(1) show ?thesis by (auto simp: notified_inv_def told_def kv_simps)
next
  case (lost ev)
  with assms(1) show ?thesis by (auto simp: notified_inv_def told_def kv_simps)
qed

text \<open>What a sweep leaves of one file, given the check it made of it.\<close>

definition reported :: "watch_config \<Rightarrow> string \<Rightarrow> cert_state \<Rightarrow> watcher \<Rightarrow> (watch_event \<times> bool) list \<Rightarrow> bool" where
  "reported cfg file st wt log \<longleftrightarrow> map_of (wt_states wt) file = Some st \<and>
     (eventKind st (wc_WarnFrom cfg) = [] \<or> told (filepath_Base file) (eventKind st (wc_WarnFrom cfg)) wt log)"

definition swept :: "watch_config \<Rightarrow> cert_lib \<Rightarrow> 'c service \<Rightarrow> lang \<Rightarrow> watch_world \<Rightarrow> string list \<Rightarrow> watcher \<Rightarrow> (watch_event \<times> bool) list \<Rightarrow> bool" where
  "swept cfg E s ctx w files wt log \<longleftrightarrow>
     (\<forall>f \<in> set files. \<exists>st c0 c1. check cfg E s ctx w c0 f = Returns (st, c1) \<and> reported cfg f st wt log)"

lemma sweep_files_reported:
  assumes "sweep_files cfg E s ctx w wt c files = Returns (wt', sent, c')" and "notified_inv wt log" and "wc_WebhookURL cfg \<noteq> []"
    and "distinct (map filepath_Base files)"
  shows "notified_inv wt' (log @ sent) \<and> swept cfg E s ctx w files wt' (log @ sent) \<and>
    (\<forall>f st. filepath_Base f \<notin> filepath_Base ` set files \<longrightarrow> reported cfg f st wt log \<longrightarrow> reported cfg f st wt' (log @ sent))"
  using assms
proof (induction files arbitrary: wt c log sent)
  case Nil
  then show ?case by (simp add: swept_def)
next
  case (Cons x rest)
  then obtain st c1 where chk: "check cfg E s ctx w c x = Returns (st, c1)" by (auto split: go.splits)
  let ?wt = "wt\<lparr>wt_states := kv_put x st (wt_states wt)\<rparr>"
  obtain wt1 sent1 where n: "notify cfg w ?wt st = (wt1, sent1)" by fastforce
  from Cons.prems(1) chk n obtain sent2 where r: "sweep_files cfg E s ctx w wt1 c1 rest = Returns (wt', sent2, c')" "sent = sent1 @ sent2"
    by (auto split: go.splits prod.splits)
  have inv: "notified_inv ?wt log" using Cons.prems(2) by (simp add: notified_inv_def)
  have nt: "notified_inv wt1 (log @ sent1)" "eventKind st (wc_WarnFrom cfg) = [] \<or> told (ws_File st) (eventKind st (wc_WarnFrom cfg)) wt1 (log @ sent1)"
    "wt_states wt1 = wt_states ?wt"
    "\<And>f. f \<noteq> ws_File st \<Longrightarrow> last_call f (log @ sent1) = last_call f log \<and> map_of (wt_notified wt1) f = map_of (wt_notified ?wt) f"
    using notify_told [OF inv Cons.prems(3) n refl] by blast+
  have d: "distinct (map filepath_Base rest)" "filepath_Base x \<notin> filepath_Base ` set rest" using Cons.prems(4) by auto
  note IH = Cons.IH [OF r(1) nt(1) Cons.prems(3) d(1), simplified append_assoc, folded r(2)]
  have f: "ws_File st = filepath_Base x" by (rule check_File [OF chk])
  have "reported cfg x st wt1 (log @ sent1)" using nt(2,3) f by (simp add: reported_def kv_simps)
  with IH d(2) have here: "reported cfg x st wt' (log @ sent)" by blast
  have other: "reported cfg g sg wt' (log @ sent)" if "filepath_Base g \<notin> filepath_Base ` set (x # rest)" "reported cfg g sg wt log" for g sg
  proof -
    from that(1) f have g: "filepath_Base g \<noteq> ws_File st" "g \<noteq> x" "filepath_Base g \<notin> filepath_Base ` set rest" by auto
    from nt(4) [OF g(1)] nt(3) that(2) g(2) have "reported cfg g sg wt1 (log @ sent1)" by (auto simp: reported_def told_def kv_simps)
    with IH g(3) show ?thesis by blast
  qed
  from IH chk here have "swept cfg E s ctx w (x # rest) wt' (log @ sent)" unfolding swept_def by auto
  with IH other show ?case by blast
qed

lemma sweeps_inv:
  assumes "sweeps cfg E s ctx ws wt c log = Returns (wt', log', c')" and "notified_inv wt log" and "wc_WebhookURL cfg \<noteq> []"
    and "\<And>w files. w \<in> set ws \<Longrightarrow> certFiles w (wc_Dir cfg) = Inr files \<Longrightarrow> distinct (map filepath_Base files)"
  shows "notified_inv wt' log'"
  using assms
proof (induction ws arbitrary: wt c log)
  case (Cons w ws)
  then obtain wt1 sent c1 where sw: "Sweep cfg E s ctx w wt c = Returns (wt1, sent, c1)" "sweeps cfg E s ctx ws wt1 c1 (log @ sent) = Returns (wt', log', c')"
    by (auto split: go.splits prod.splits)
  have "notified_inv wt1 (log @ sent)"
  proof (cases "certFiles w (wc_Dir cfg)")
    case (Inl e)
    with sw(1) Cons.prems(2) show ?thesis by (simp add: Sweep_def)
  next
    case (Inr files)
    with sw(1) have run: "sweep_files cfg E s ctx w wt c files = Returns (wt1, sent, c1)" by (simp add: Sweep_def)
    have "distinct (map filepath_Base files)" using Cons.prems(4) [of w files] Inr by simp
    from sweep_files_reported [OF run Cons.prems(2,3) this] show ?thesis by simp
  qed
  from Cons.IH [OF sw(2) this Cons.prems(3)] Cons.prems(4) show ?case by auto
qed simp

lemma sweeps_append: "sweeps cfg E s ctx (ws @ [w]) wt c log =
    (case sweeps cfg E s ctx ws wt c log of Panics \<Rightarrow> Panics | Returns (wt1, log1, c1) \<Rightarrow>
       (case Sweep cfg E s ctx w wt1 c1 of Panics \<Rightarrow> Panics | Returns (wt2, sent, c2) \<Rightarrow> Returns (wt2, log1 @ sent, c2)))"
  by (induction ws arbitrary: wt c log) (auto split: go.splits prod.splits)


text \<open>
  A directory with one certificate that has expired. The first call to the webhook is refused and the
  second sweep calls again; the third has nothing new to say.
\<close>

definition demo_watch :: watch_config where
  "demo_watch = watch_withDefaults \<lparr>wc_Dir = ''/w'', wc_Interval = 0, wc_WarnFrom = 0, wc_WebhookURL = ''http://hook'', wc_CheckRevocation = False\<rparr>"

definition demo_watch_world :: "time \<Rightarrow> int \<Rightarrow> watch_world" where
  "demo_watch_world now code = \<lparr>wl_ReadDir = Inr [(''a.PEM'', False), (''sub'', True)], wl_ReadFile = (\<lambda>f. Inr ''-root''),
     wl_Join = (\<lambda>d n. d @ ''/'' @ n), wl_HexUpper = (\<lambda>n. ''1''), wl_Do = (\<lambda>ev. Inr (code, ''s'')), wl_now = now, wl_validate = now\<rparr>"

definition demo_watch_runs :: "watch_world list" where
  "demo_watch_runs = [demo_watch_world 200 500, demo_watch_world 300 200]"

abbreviation demo_watch_service :: "unit service" where
  "demo_watch_service \<equiv> verifying_service (status_answer CertGood)"

lemma demo_watch_run:
  "case sweeps demo_watch demo_cert_lib demo_watch_service plain_lang (demo_watch_runs @ [demo_watch_world 400 200]) watch_New () [] of
     Returns (wt, log, c) \<Rightarrow> map (\<lambda>(ev, ok). (we_Kind ev, ok)) log = [(''expired'', False), (''expired'', True)] \<and>
       map ws_CheckedAt (States wt) = [400]
   | Panics \<Rightarrow> False"
  by code_simp


text \<open>
  Two places where the record is better news than the facts: a certificate whose revocation status
  was not established, because it names no responder, is recorded without an error; and a certificate
  whose file was removed stays on record as it was last seen.
\<close>

lemma watch_unestablished_is_fine:
  "case check (demo_watch\<lparr>wc_CheckRevocation := True\<rparr>) demo_cert_lib (demo_watch_service\<lparr>sv_golib := demo_golib\<lparr>gl_ParseCertificate := (\<lambda>_. None)\<rparr>\<rparr>)
       plain_lang (demo_watch_world (- 90 * 24 * Hour) 200) () ''/w/a.PEM'' of
     Returns (st, c) \<Rightarrow> eventKind st (wc_WarnFrom demo_watch) = [] \<and> ws_Error st = [] | Panics \<Rightarrow> False"
  by code_simp

lemma removed_file_stays:
  "case sweeps demo_watch demo_cert_lib demo_watch_service plain_lang
       [demo_watch_world 200 200, (demo_watch_world 300 200)\<lparr>wl_ReadDir := Inr []\<rparr>] watch_New () [] of
     Returns (wt, log, c) \<Rightarrow> map (\<lambda>st. (ws_File st, ws_CheckedAt st)) (States wt) = [(''a.PEM'', 200)] | Panics \<Rightarrow> False"
  by code_simp

end
