(* ===== verification/Worker_Wire.thy ===== *)
theory Worker_Wire
  imports Core_Types Json
begin

text \<open>
  The pipe between the service and the child processes that run the native library
  (internal/cryptoworker/protocol.go, server.go): frames, errors on the wire, and the child's loop.
  The text form of JSON is a codec per type, so that everything below holds for any codec that
  satisfies the stated law; the driver that a child hosts is a record of methods over its state,
  which may panic.
\<close>

section \<open>Types that only the worker port uses (internal/provider/types.go)\<close>

record export_result =
  er_Cert :: bytes
  er_Alias :: string

record hash_request =
  hq_Algorithm :: string
  hq_Data :: bytes

record sign_hash_request =
  sh_Key :: key_ref
  sh_Hash :: bytes
  sh_OutPEM :: bool
  sh_CheckCertTime :: bool

record self_test_result =
  st_Ran :: bool
  st_OK :: bool
  st_Algorithm :: string
  st_Detail :: string

record capabilities =
  cb_Version :: string
  cb_PoolSize :: int
  cb_SignCMS :: bool
  cb_VerifyCMS :: bool
  cb_SignXML :: bool
  cb_VerifyXML :: bool
  cb_CertInfo :: bool
  cb_Validate :: bool
  cb_Timestamp :: bool
  cb_ZipSign :: bool
  cb_WSSE :: bool
  cb_Hash :: bool
  cb_ExportCert :: bool

section \<open>Messages (protocol.go)\<close>

abbreviation opCapabilities :: string where "opCapabilities \<equiv> ''capabilities''"
abbreviation opSelfTest :: string where "opSelfTest \<equiv> ''selftest''"
abbreviation opSignCMS :: string where "opSignCMS \<equiv> ''sign.cms''"
abbreviation opVerifyCMS :: string where "opVerifyCMS \<equiv> ''verify.cms''"
abbreviation opSignXML :: string where "opSignXML \<equiv> ''sign.xml''"
abbreviation opVerifyXML :: string where "opVerifyXML \<equiv> ''verify.xml''"
abbreviation opSignWSSE :: string where "opSignWSSE \<equiv> ''sign.wsse''"
abbreviation opExportCert :: string where "opExportCert \<equiv> ''cert.export''"
abbreviation opCertProps :: string where "opCertProps \<equiv> ''cert.properties''"
abbreviation opValidateCert :: string where "opValidateCert \<equiv> ''cert.validate''"
abbreviation opHash :: string where "opHash \<equiv> ''hash''"
abbreviation opSignHash :: string where "opSignHash \<equiv> ''sign.hash''"

definition maxFrame :: nat where
  "maxFrame = 67108864"

record wire_request =
  wr_Op :: string
  wr_Payload :: bytes

record wire_error =
  we_Op :: string
  we_Code :: "32 word"
  we_Detail :: string
  we_Key :: string
  we_Message :: string

record wire_response =
  wp_Payload :: bytes
  wp_Err :: "wire_error option"
  wp_Revoked :: bool

definition no_response :: wire_response where
  "no_response = \<lparr>wp_Payload = [], wp_Err = None, wp_Revoked = False\<rparr>"

definition error_response :: "string \<Rightarrow> wire_response" where
  "error_response msg = no_response\<lparr>wp_Err :=
     Some \<lparr>we_Op = [], we_Code = 0, we_Detail = [], we_Key = [], we_Message = msg\<rparr>\<rparr>"

text \<open>The first native error in a chain, with its operation (\<^verbatim>\<open>errors.As\<close>).\<close>

fun as_NativeError :: "goerr \<Rightarrow> (string \<times> 32 word \<times> string) option" where
  "as_NativeError (NativeError op c d s) = Some (op, c, d)"
| "as_NativeError (DomainError k op (Some e)) = as_NativeError e"
| "as_NativeError (WrapError p e) = as_NativeError e"
| "as_NativeError _ = None"

definition encodeError :: "goerr option \<Rightarrow> wire_error option" where
  "encodeError err =
     (case err of
        None \<Rightarrow> None
      | Some e \<Rightarrow>
          let we = \<lparr>we_Op = [], we_Code = 0, we_Detail = [], we_Key = ex_Key (provider_Explain e), we_Message = err_text e\<rparr>
          in Some (case as_NativeError e of
                     Some (op, code, detail) \<Rightarrow> we\<lparr>we_Op := op, we_Code := code, we_Detail := detail\<rparr>
                   | None \<Rightarrow> we))"

definition decodeError :: "wire_error option \<Rightarrow> goerr option" where
  "decodeError w =
     (case w of
        None \<Rightarrow> None
      | Some we \<Rightarrow>
          let sentinel = SentinelForKey (we_Key we)
          in Some (if we_Code we \<noteq> 0 \<or> we_Op we \<noteq> [] then NativeError (we_Op we) (we_Code we) (we_Detail we) sentinel
                   else case sentinel of Some s \<Rightarrow> Sentinel s | None \<Rightarrow> PlainError (we_Message we)))"

section \<open>Codecs\<close>

text \<open>
  \<^verbatim>\<open>json.Marshal\<close> and \<^verbatim>\<open>json.Unmarshal\<close> at one type, with the zero value of the type.
\<close>

record 'a codec =
  cd_Marshal :: "'a \<Rightarrow> goerr + bytes"
  cd_Unmarshal :: "bytes \<Rightarrow> goerr + 'a"
  cd_zero :: 'a

section \<open>Frames\<close>

text \<open>\<^verbatim>\<open>binary.BigEndian.PutUint32\<close> and \<^verbatim>\<open>Uint32\<close>.\<close>

definition put_uint32 :: "nat \<Rightarrow> bytes" where
  "put_uint32 n = [char_of (n div 16777216), char_of (n div 65536), char_of (n div 256), char_of n]"

definition get_uint32 :: "bytes \<Rightarrow> nat" where
  "get_uint32 bs = foldl (\<lambda>a c. a * 256 + byte_of c) 0 bs"

text \<open>
  The write end of a pipe: what went through, and the error of every write once the reader is gone.
\<close>

record pipe_writer =
  pw_sent :: bytes
  pw_broken :: "goerr option"

definition pw_Write :: "bytes \<Rightarrow> pipe_writer \<Rightarrow> goerr option \<times> pipe_writer" where
  "pw_Write b w = (case pw_broken w of None \<Rightarrow> (None, w\<lparr>pw_sent := pw_sent w @ b\<rparr>) | Some e \<Rightarrow> (Some e, w))"

definition writeFrame :: "'a codec \<Rightarrow> pipe_writer \<Rightarrow> 'a \<Rightarrow> goerr option \<times> pipe_writer" where
  "writeFrame c w v =
     (case cd_Marshal c v of
        Inl e \<Rightarrow> (Some (WrapError ''cryptoworker: encode frame'' e), w)
      | Inr payload \<Rightarrow>
          if length payload > maxFrame then
            (Some (PlainError (''cryptoworker: frame too large ('' @ decimal (length payload) @ '' bytes)'')), w)
          else case pw_Write (put_uint32 (length payload)) w of
                 (Some e, w1) \<Rightarrow> (Some e, w1)
               | (None, w1) \<Rightarrow> pw_Write payload w1)"

text \<open>
  The read end is the rest of the stream up to its end. A stream that ends inside the length counts
  as ended; one that ends inside the payload is short, and \<^verbatim>\<open>io.ReadFull\<close> reports \<^verbatim>\<open>io.EOF\<close> when not
  a single byte of the payload came, which the wrapped error still matches.
\<close>

datatype frame_error = FrameEOF | FrameTooLarge nat | FrameShort bool | FrameDecode goerr

fun frame_error_text :: "frame_error \<Rightarrow> goerr" where
  "frame_error_text FrameEOF = PlainError ''EOF''"
| "frame_error_text (FrameTooLarge n) = PlainError (''cryptoworker: frame too large ('' @ decimal n @ '' bytes)'')"
| "frame_error_text (FrameShort eof) =
     WrapError ''cryptoworker: short frame'' (PlainError (if eof then ''EOF'' else ''unexpected EOF''))"
| "frame_error_text (FrameDecode e) = e"

fun is_EOF :: "frame_error \<Rightarrow> bool" where
  "is_EOF FrameEOF = True"
| "is_EOF (FrameShort eof) = eof"
| "is_EOF _ = False"

definition readFrame :: "'a codec \<Rightarrow> bytes \<Rightarrow> (frame_error + 'a) \<times> bytes" where
  "readFrame c r =
     (if length r < 4 then (Inl FrameEOF, [])
      else let n = get_uint32 (take 4 r); rest = drop 4 r
           in if n > maxFrame then (Inl (FrameTooLarge n), rest)
              else if length rest < n then (Inl (FrameShort (rest = [])), [])
              else (case cd_Unmarshal c (take n rest) of Inl e \<Rightarrow> Inl (FrameDecode e) | Inr v \<Rightarrow> Inr v, drop n rest))"

section \<open>The child (server.go)\<close>

record export_request =
  eq_Key :: key_ref
  eq_Format :: cert_format

record cert_props_request =
  cq_Cert :: bytes
  cq_Format :: cert_format

text \<open>
  The hosted driver: every method takes the driver's state and yields the new one with the text of
  its panic, or with its result beside its error.
\<close>

type_synonym ('s, 'a) worker_outcome = "'s \<times> (string + 'a \<times> goerr option)"

record 's worker_driver =
  wd_Capabilities :: "'s \<Rightarrow> 's \<times> (string + capabilities)"
  wd_SelfTest :: "'s \<Rightarrow> ('s, self_test_result) worker_outcome"
  wd_SignCMS :: "'s \<Rightarrow> sign_request \<Rightarrow> ('s, bytes) worker_outcome"
  wd_VerifyCMS :: "'s \<Rightarrow> verify_request \<Rightarrow> ('s, driver_verify_result) worker_outcome"
  wd_SignXML :: "'s \<Rightarrow> sign_xml_request \<Rightarrow> ('s, bytes) worker_outcome"
  wd_VerifyXML :: "'s \<Rightarrow> verify_request \<Rightarrow> ('s, driver_verify_result) worker_outcome"
  wd_SignWSSE :: "'s \<Rightarrow> sign_wsse_request \<Rightarrow> ('s, bytes) worker_outcome"
  wd_ExportOwnerCert :: "'s \<Rightarrow> key_ref \<Rightarrow> cert_format \<Rightarrow> ('s, export_result) worker_outcome"
  wd_CertProperties :: "'s \<Rightarrow> bytes \<Rightarrow> cert_format \<Rightarrow> ('s, cert_properties) worker_outcome"
  wd_ValidateCert :: "'s \<Rightarrow> validate_request \<Rightarrow> ('s, validate_result) worker_outcome"
  wd_Hash :: "'s \<Rightarrow> hash_request \<Rightarrow> ('s, bytes) worker_outcome"
  wd_SignHash :: "'s \<Rightarrow> sign_hash_request \<Rightarrow> ('s, bytes) worker_outcome"

text \<open>The codecs of the messages, of the request structs and of the results.\<close>

record wire_json =
  wj_request :: "wire_request codec"
  wj_response :: "wire_response codec"
  wj_unit :: "unit codec"
  wj_sign :: "sign_request codec"
  wj_verify :: "verify_request codec"
  wj_signXML :: "sign_xml_request codec"
  wj_signWSSE :: "sign_wsse_request codec"
  wj_export :: "export_request codec"
  wj_certProps :: "cert_props_request codec"
  wj_validate :: "validate_request codec"
  wj_hash :: "hash_request codec"
  wj_signHash :: "sign_hash_request codec"
  wj_caps :: "capabilities codec"
  wj_selfTest :: "self_test_result codec"
  wj_signed :: "bytes codec"
  wj_verified :: "driver_verify_result codec"
  wj_exported :: "export_result codec"
  wj_props :: "cert_properties codec"
  wj_validated :: "validate_result codec"
  wj_hashed :: "bytes codec"

text \<open>
  \<^verbatim>\<open>reply\<close>: the test whether the result is a \<^verbatim>\<open>ValidateResult\<close> that says revoked is an argument, which
  only that type fills in. A panic is caught by the deferred handler of \<^verbatim>\<open>handle\<close>.
\<close>

definition reply :: "'out codec \<Rightarrow> ('out \<Rightarrow> bool) \<Rightarrow> 'out \<Rightarrow> goerr option \<Rightarrow> wire_response" where
  "reply cout revoked out err =
     (let resp = no_response\<lparr>wp_Err := encodeError err\<rparr>;
          resp = (case cd_Marshal cout out of
                    Inr payload \<Rightarrow> resp\<lparr>wp_Payload := payload\<rparr>
                  | Inl merr \<Rightarrow>
                      if wp_Err resp = None then error_response (''cryptoworker: encode result: '' @ err_text merr) else resp)
      in if revoked out then resp\<lparr>wp_Revoked := True\<rparr> else resp)"

definition panicked :: "string \<Rightarrow> wire_response" where
  "panicked r = error_response (''cryptoworker: panic in driver: '' @ r)"

definition reply_outcome :: "'out codec \<Rightarrow> ('out \<Rightarrow> bool) \<Rightarrow> ('s, 'out) worker_outcome \<Rightarrow> wire_response \<times> 's" where
  "reply_outcome cout revoked oc =
     (case oc of (st, Inl r) \<Rightarrow> (panicked r, st) | (st, Inr (out, err)) \<Rightarrow> (reply cout revoked out err, st))"

definition dispatch ::
    "'in codec \<Rightarrow> 'out codec \<Rightarrow> ('out \<Rightarrow> bool) \<Rightarrow> wire_request \<Rightarrow> ('s \<Rightarrow> 'in \<Rightarrow> ('s, 'out) worker_outcome) \<Rightarrow> 's \<Rightarrow> wire_response \<times> 's" where
  "dispatch cin cout revoked req run st =
     (case cd_Unmarshal cin (wr_Payload req) of
        Inl e \<Rightarrow> (error_response (''cryptoworker: decode '' @ wr_Op req @ '': '' @ err_text e), st)
      | Inr v \<Rightarrow> reply_outcome cout revoked (run st v))"

definition never :: "'a \<Rightarrow> bool" where
  "never out = False"

definition says_revoked :: "validate_result \<Rightarrow> bool" where
  "says_revoked res \<longleftrightarrow> dr_Status res = CertRevoked"

definition handle :: "wire_json \<Rightarrow> 's worker_driver \<Rightarrow> 's \<Rightarrow> wire_request \<Rightarrow> wire_response \<times> 's" where
  "handle J d st req =
     (if wr_Op req = opCapabilities then
        (case wd_Capabilities d st of (st', Inl r) \<Rightarrow> (panicked r, st') | (st', Inr caps) \<Rightarrow> (reply (wj_caps J) never caps None, st'))
      else if wr_Op req = opSelfTest then reply_outcome (wj_selfTest J) never (wd_SelfTest d st)
      else if wr_Op req = opSignCMS then dispatch (wj_sign J) (wj_signed J) never req (wd_SignCMS d) st
      else if wr_Op req = opVerifyCMS then dispatch (wj_verify J) (wj_verified J) never req (wd_VerifyCMS d) st
      else if wr_Op req = opSignXML then dispatch (wj_signXML J) (wj_signed J) never req (wd_SignXML d) st
      else if wr_Op req = opVerifyXML then dispatch (wj_verify J) (wj_verified J) never req (wd_VerifyXML d) st
      else if wr_Op req = opSignWSSE then dispatch (wj_signWSSE J) (wj_signed J) never req (wd_SignWSSE d) st
      else if wr_Op req = opExportCert then
        dispatch (wj_export J) (wj_exported J) never req (\<lambda>st i. wd_ExportOwnerCert d st (eq_Key i) (eq_Format i)) st
      else if wr_Op req = opCertProps then
        dispatch (wj_certProps J) (wj_props J) never req (\<lambda>st i. wd_CertProperties d st (cq_Cert i) (cq_Format i)) st
      else if wr_Op req = opValidateCert then
        dispatch (wj_validate J) (wj_validated J) says_revoked req (wd_ValidateCert d) st
      else if wr_Op req = opHash then dispatch (wj_hash J) (wj_hashed J) never req (wd_Hash d) st
      else if wr_Op req = opSignHash then dispatch (wj_signHash J) (wj_signed J) never req (wd_SignHash d) st
      else (error_response (''cryptoworker: unknown operation '' @ quoted (wr_Op req)), st))"

lemma readFrame_consumes: "readFrame c r = (Inr v, rest) \<Longrightarrow> length rest < length r"
  by (auto simp: readFrame_def Let_def split: if_splits sum.splits)

function Serve :: "wire_json \<Rightarrow> 's worker_driver \<Rightarrow> 's \<Rightarrow> bytes \<Rightarrow> pipe_writer \<Rightarrow> goerr option \<times> 's \<times> pipe_writer" where
  "Serve J d st r w =
     (case readFrame (wj_request J) r of
        (Inl e, _) \<Rightarrow> (if is_EOF e then None else Some (frame_error_text e), st, w)
      | (Inr req, rest) \<Rightarrow>
          (case handle J d st req of
             (resp, st1) \<Rightarrow>
               (case writeFrame (wj_response J) w resp of
                  (Some e, w1) \<Rightarrow> (Some e, st1, w1)
                | (None, w1) \<Rightarrow> Serve J d st1 rest w1)))"
  by pat_completeness auto
termination
  by (relation "measure (\<lambda>(J, d, st, r, w). length r)") (auto dest: readFrame_consumes [OF sym])

declare Serve.simps [simp del]

section \<open>What encoding/json promises\<close>

text \<open>
  A value that was written reads back with the invalid UTF-8 of its text fields replaced
  (\<open>json_string\<close>); byte slices travel as base64 and are untouched. A message carries its payload as
  raw JSON, which reads back as it was when it is the compact text that \<^verbatim>\<open>json.Marshal\<close> writes
  (\<open>compact\<close>).
\<close>

definition read_error :: "wire_error \<Rightarrow> wire_error" where
  "read_error we = we\<lparr>we_Op := json_string (we_Op we), we_Detail := json_string (we_Detail we),
     we_Key := json_string (we_Key we), we_Message := json_string (we_Message we)\<rparr>"

definition read_response :: "wire_response \<Rightarrow> wire_response" where
  "read_response resp = resp\<lparr>wp_Err := map_option read_error (wp_Err resp)\<rparr>"

definition read_key :: "key_ref \<Rightarrow> key_ref" where
  "read_key k = k\<lparr>kr_Path := json_string (kr_Path k), kr_Password := json_string (kr_Password k)\<rparr>"

definition read_sign :: "sign_request \<Rightarrow> sign_request" where
  "read_sign r = r\<lparr>sr_Key := read_key (sr_Key r), sr_Path := json_string (sr_Path r), sr_TSAURL := json_string (sr_TSAURL r)\<rparr>"

definition read_verify :: "verify_request \<Rightarrow> verify_request" where
  "read_verify r = r\<lparr>vq_Path := json_string (vq_Path r)\<rparr>"

definition read_signXML :: "sign_xml_request \<Rightarrow> sign_xml_request" where
  "read_signXML r = r\<lparr>sx_Key := read_key (sx_Key r), sx_TSAURL := json_string (sx_TSAURL r), sx_NodeID := json_string (sx_NodeID r),
     sx_ParentNode := json_string (sx_ParentNode r), sx_ParentNS := json_string (sx_ParentNS r)\<rparr>"

definition read_signWSSE :: "sign_wsse_request \<Rightarrow> sign_wsse_request" where
  "read_signWSSE r = r\<lparr>sw_Key := read_key (sw_Key r), sw_NodeID := json_string (sw_NodeID r), sw_TSAURL := json_string (sw_TSAURL r)\<rparr>"

definition read_export :: "export_request \<Rightarrow> export_request" where
  "read_export r = r\<lparr>eq_Key := read_key (eq_Key r)\<rparr>"

definition read_validate :: "validate_request \<Rightarrow> validate_request" where
  "read_validate r = r\<lparr>dq_Path := json_string (dq_Path r)\<rparr>"

definition read_hash :: "hash_request \<Rightarrow> hash_request" where
  "read_hash r = r\<lparr>hq_Algorithm := json_string (hq_Algorithm r)\<rparr>"

definition read_signHash :: "sign_hash_request \<Rightarrow> sign_hash_request" where
  "read_signHash r = r\<lparr>sh_Key := read_key (sh_Key r)\<rparr>"

definition read_caps :: "capabilities \<Rightarrow> capabilities" where
  "read_caps r = r\<lparr>cb_Version := json_string (cb_Version r)\<rparr>"

definition read_selfTest :: "self_test_result \<Rightarrow> self_test_result" where
  "read_selfTest r = r\<lparr>st_Algorithm := json_string (st_Algorithm r), st_Detail := json_string (st_Detail r)\<rparr>"

definition read_verified :: "driver_verify_result \<Rightarrow> driver_verify_result" where
  "read_verified r = r\<lparr>dv_Info := json_string (dv_Info r)\<rparr>"

definition read_exported :: "export_result \<Rightarrow> export_result" where
  "read_exported r = r\<lparr>er_Alias := json_string (er_Alias r)\<rparr>"

definition read_props :: "cert_properties \<Rightarrow> cert_properties" where
  "read_props fs = map (\<lambda>f. f\<lparr>cf_Name := json_string (cf_Name f), cf_Value := json_string (cf_Value f)\<rparr>) fs"

definition read_validated :: "validate_result \<Rightarrow> validate_result" where
  "read_validated r = r\<lparr>dr_Info := json_string (dr_Info r)\<rparr>"

definition codec_sound :: "(bytes \<Rightarrow> bool) \<Rightarrow> ('a \<Rightarrow> 'a) \<Rightarrow> 'a codec \<Rightarrow> bool" where
  "codec_sound compact rd c \<longleftrightarrow>
     (\<forall>v raw. cd_Marshal c v = Inr raw \<longrightarrow> raw \<noteq> [] \<and> compact raw \<and> cd_Unmarshal c raw = Inr (rd v))"

definition messages_sound :: "(bytes \<Rightarrow> bool) \<Rightarrow> wire_json \<Rightarrow> bool" where
  "messages_sound compact J \<longleftrightarrow>
     (\<forall>req raw. wr_Payload req = [] \<or> compact (wr_Payload req) \<longrightarrow> cd_Marshal (wj_request J) req = Inr raw \<longrightarrow>
        cd_Unmarshal (wj_request J) raw = Inr (req\<lparr>wr_Op := json_string (wr_Op req)\<rparr>)) \<and>
     (\<forall>resp raw. wp_Payload resp = [] \<or> compact (wp_Payload resp) \<longrightarrow> cd_Marshal (wj_response J) resp = Inr raw \<longrightarrow>
        cd_Unmarshal (wj_response J) raw = Inr (read_response resp))"

definition sound_wire :: "(bytes \<Rightarrow> bool) \<Rightarrow> wire_json \<Rightarrow> bool" where
  "sound_wire compact J \<longleftrightarrow> messages_sound compact J \<and>
     codec_sound compact id (wj_unit J) \<and>
     codec_sound compact read_sign (wj_sign J) \<and> codec_sound compact read_verify (wj_verify J) \<and>
     codec_sound compact read_signXML (wj_signXML J) \<and> codec_sound compact read_signWSSE (wj_signWSSE J) \<and>
     codec_sound compact read_export (wj_export J) \<and> codec_sound compact id (wj_certProps J) \<and>
     codec_sound compact read_validate (wj_validate J) \<and> codec_sound compact read_hash (wj_hash J) \<and>
     codec_sound compact read_signHash (wj_signHash J) \<and> codec_sound compact read_caps (wj_caps J) \<and>
     codec_sound compact read_selfTest (wj_selfTest J) \<and> codec_sound compact id (wj_signed J) \<and>
     codec_sound compact read_verified (wj_verified J) \<and> codec_sound compact read_exported (wj_exported J) \<and>
     codec_sound compact read_props (wj_props J) \<and> codec_sound compact read_validated (wj_validated J) \<and>
     codec_sound compact id (wj_hashed J)"

section \<open>Frames survive the pipe\<close>

lemma get_put_uint32: "n < 4294967296 \<Longrightarrow> get_uint32 (put_uint32 n) = n"
proof -
  assume n: "n < 4294967296"
  have byte: "byte_of (char_of m) = m mod 256" for m :: nat by (simp add: byte_of_def)
  have step: "(m div 256) * 256 + m mod 256 = m" for m :: nat by simp
  have "get_uint32 (put_uint32 n) = ((n div 16777216 mod 256 * 256 + n div 65536 mod 256) * 256 + n div 256 mod 256) * 256 + n mod 256"
    by (simp add: get_uint32_def put_uint32_def byte)
  also have "n div 16777216 mod 256 = n div 16777216" using n by simp
  also have "n div 16777216 = n div 65536 div 256" by (simp add: div_mult2_eq [symmetric])
  also have "n div 65536 div 256 * 256 + n div 65536 mod 256 = n div 256 div 256"
    using step [of "n div 65536"] by (simp add: div_mult2_eq [symmetric])
  also have "n div 256 div 256 * 256 + n div 256 mod 256 = n div 256" by (rule step)
  also have "n div 256 * 256 + n mod 256 = n" by (rule step)
  finally show ?thesis .
qed

lemma length_put_uint32 [simp]: "length (put_uint32 n) = 4"
  by (simp add: put_uint32_def)

definition frame_of :: "bytes \<Rightarrow> bytes" where
  "frame_of payload = put_uint32 (length payload) @ payload"

lemma readFrame_frame [simp]:
  "length payload \<le> maxFrame \<Longrightarrow> cd_Unmarshal c payload = Inr v \<Longrightarrow> readFrame c (frame_of payload @ rest) = (Inr v, rest)"
  by (simp add: readFrame_def frame_of_def Let_def get_put_uint32 maxFrame_def)

text \<open>What a successful write puts on the pipe, and the errors of the others.\<close>

lemma writeFrame_sent:
  "writeFrame c w v = (None, w') \<longleftrightarrow>
   (\<exists>payload. cd_Marshal c v = Inr payload \<and> length payload \<le> maxFrame \<and> pw_broken w = None \<and>
      w' = w\<lparr>pw_sent := pw_sent w @ frame_of payload\<rparr>)"
  by (auto simp: writeFrame_def pw_Write_def frame_of_def split: sum.splits option.splits prod.splits)

lemma writeFrame_failed: "writeFrame c w v = (Some e, w') \<Longrightarrow> w' = w"
  by (auto simp: writeFrame_def pw_Write_def split: sum.splits option.splits prod.splits if_splits)

text \<open>A stream that stops inside a frame never yields a message.\<close>

lemma readFrame_cut:
  assumes "length payload \<le> maxFrame" "k < length (frame_of payload)"
  shows "\<exists>e. readFrame c (take k (frame_of payload)) = (Inl e, []) \<and> e \<in> {FrameEOF, FrameShort True, FrameShort False}"
proof (cases "k < 4")
  case True
  then show ?thesis by (simp add: readFrame_def frame_of_def)
next
  case False
  then have "take k (frame_of payload) = put_uint32 (length payload) @ take (k - 4) payload" by (simp add: frame_of_def)
  moreover have "k - 4 < length payload" using assms(2) False by (simp add: frame_of_def)
  ultimately show ?thesis using assms(1) by (auto simp: readFrame_def Let_def get_put_uint32 maxFrame_def)
qed

section \<open>Errors survive the pipe\<close>

lemma as_NativeError_native: "errors_as_native e = map_option (\<lambda>(op, c, d). (c, d)) (as_NativeError e)"
  by (induction e rule: as_NativeError.induct) auto

text \<open>A chain has one root, so an error matches one sentinel at most.\<close>

lemma errors_is_unique: "errors_is e s \<Longrightarrow> errors_is e t \<Longrightarrow> s = t"
  by (induction e s rule: errors_is.induct) auto

lemma catalog_find_unique: "errors_is e s \<Longrightarrow> catalog_find cat e = map_of cat s"
  by (induction cat) (auto dest: errors_is_unique)

lemma catalog_find_none: "(\<And>s. s \<in> fst ` set cat \<Longrightarrow> \<not> errors_is e s) \<Longrightarrow> catalog_find cat e = None"
  by (induction cat) auto

lemma SentinelForKey_in_Some: "SentinelForKey_in cat k = Some s \<Longrightarrow> s \<in> fst ` set cat"
  by (induction cat k rule: SentinelForKey_in.induct) (auto split: if_splits)

lemma no_sentinel_keys: "SentinelForKey ''library.error'' = None" "SentinelForKey [] = None"
  by (simp_all add: SentinelForKey_def catalog_def)

lemma catalog_keys_ascii: "(s, k, ma) \<in> set catalog \<Longrightarrow> json_string k = k"
proof -
  assume "(s, k, ma) \<in> set catalog"
  moreover have "\<forall>x \<in> set catalog. \<forall>c \<in> set (fst (snd x)). byte_of c < 128" by (simp add: catalog_def byte_of_def)
  ultimately have "\<And>c. c \<in> set k \<Longrightarrow> byte_of c < 128" by fastforce
  then show ?thesis by (rule json_string_ascii)
qed

definition wire_sentinel :: "goerr \<Rightarrow> sentinel option" where
  "wire_sentinel e = SentinelForKey (json_string (ex_Key (provider_Explain e)))"

lemma wire_sentinel_is:
  assumes "errors_is e s" "s \<notin> {ContextCanceled, ContextDeadlineExceeded}"
  shows "wire_sentinel e = Some s"
proof -
  from catalog_total [OF assms(2)] obtain k m a where cat: "map_of catalog s = Some (k, m, a)" by blast
  then have "ex_Key (provider_Explain e) = k"
    using catalog_find_unique [OF assms(1), of catalog] by (simp add: provider_Explain_def Let_def)
  moreover have "json_string k = k" using cat by (blast dest: map_of_SomeD catalog_keys_ascii)
  ultimately show ?thesis
    using SentinelForKey_in_find [OF catalog_keys_distinct cat] by (simp add: wire_sentinel_def SentinelForKey_def)
qed

lemma context_not_in_catalog: "s \<in> fst ` set catalog \<Longrightarrow> s \<notin> {ContextCanceled, ContextDeadlineExceeded}"
  by (auto simp: catalog_def)

lemma wire_sentinel_none:
  assumes "\<And>s. s \<notin> {ContextCanceled, ContextDeadlineExceeded} \<Longrightarrow> \<not> errors_is e s"
  shows "wire_sentinel e = None"
proof -
  have "catalog_find catalog e = None" by (rule catalog_find_none) (use assms context_not_in_catalog in blast)
  moreover have "json_string ''library.error'' = ''library.error''" "json_string [] = []"
    by (rule json_string_ascii; auto simp: byte_of_def)+
  ultimately show ?thesis
    by (auto simp: wire_sentinel_def provider_Explain_def Let_def genericEntry_def no_sentinel_keys split: option.splits)
qed

definition over_wire :: "goerr \<Rightarrow> goerr" where
  "over_wire e = the (decodeError (map_option read_error (encodeError (Some e))))"

lemma decode_over_wire: "decodeError (map_option read_error (encodeError err)) = map_option over_wire err"
  by (cases err) (simp_all add: over_wire_def encodeError_def decodeError_def Let_def)

lemma over_wire_eq:
  "over_wire e =
    (case as_NativeError e of
       Some (op, c, d) \<Rightarrow>
         if c \<noteq> 0 \<or> json_string op \<noteq> [] then NativeError (json_string op) c (json_string d) (wire_sentinel e)
         else (case wire_sentinel e of Some s \<Rightarrow> Sentinel s | None \<Rightarrow> PlainError (json_string (err_text e)))
     | None \<Rightarrow> (case wire_sentinel e of Some s \<Rightarrow> Sentinel s | None \<Rightarrow> PlainError (json_string (err_text e))))"
  by (auto simp: over_wire_def encodeError_def decodeError_def read_error_def Let_def wire_sentinel_def
      intro: json_string_ascii split: option.splits)

text \<open>
  An error keeps every sentinel of the catalog, its native code and, where it has a code or an
  operation, its being a native error.
\<close>

definition named_native :: "goerr \<Rightarrow> bool" where
  "named_native e \<longleftrightarrow> (case as_NativeError e of Some (op, c, d) \<Rightarrow> c \<noteq> 0 \<or> op \<noteq> [] | None \<Rightarrow> True)"

lemma json_string_empty [simp]: "json_string op = [] \<longleftrightarrow> op = []"
  by (cases op) (simp_all split: nat.splits)

lemma over_wire_is:
  assumes "s \<notin> {ContextCanceled, ContextDeadlineExceeded}"
  shows "errors_is (over_wire e) s = errors_is e s"
proof -
  have "errors_is (over_wire e) s = (wire_sentinel e = Some s)"
    by (auto simp: over_wire_eq split: option.splits)
  also have "\<dots> = errors_is e s"
  proof (cases "\<exists>t. t \<notin> {ContextCanceled, ContextDeadlineExceeded} \<and> errors_is e t")
    case True
    then show ?thesis using assms by (auto simp: wire_sentinel_is dest: errors_is_unique)
  next
    case False
    then have "wire_sentinel e = None" by (intro wire_sentinel_none) blast
    with False assms show ?thesis by auto
  qed
  finally show ?thesis .
qed

lemma over_wire_native:
  assumes "named_native e"
  shows "errors_as_native (over_wire e) = map_option (\<lambda>(c, d). (c, json_string d)) (errors_as_native e)"
  using assms by (auto simp: over_wire_eq as_NativeError_native named_native_def split: option.splits prod.splits)

lemma over_wire_no_context: "\<not> errors_is (over_wire e) ContextCanceled" "\<not> errors_is (over_wire e) ContextDeadlineExceeded"
proof -
  have "wire_sentinel e \<noteq> Some s" if "s \<in> {ContextCanceled, ContextDeadlineExceeded}" for s
    using that context_not_in_catalog unfolding wire_sentinel_def SentinelForKey_def by (blast dest: SentinelForKey_in_Some)
  then show "\<not> errors_is (over_wire e) ContextCanceled" "\<not> errors_is (over_wire e) ContextDeadlineExceeded"
    by (auto simp: over_wire_eq split: option.splits)
qed

lemma over_wire_classify:
  assumes "\<not> errors_is e ContextCanceled" "\<not> errors_is e ContextDeadlineExceeded"
  shows "classify (over_wire e) = classify e"
  using assms by (simp add: classify_def over_wire_is over_wire_no_context)

lemma over_wire_soft: "named_native e \<Longrightarrow> isSoftVerifyFailure (over_wire e) = isSoftVerifyFailure e"
  by (simp add: isSoftVerifyFailure_def over_wire_is over_wire_native)

text \<open>
  Claim C21: An error that crosses the pipe matches the same sentinels as before (the two context
  errors apart, which the catalog does not list), keeps its native code and detail, and so is
  classified the same and is or is not a soft verification failure as before. A native error must
  have a code or an operation, as every error of the driver has.
\<close>

theorem wire_error_kept:
  "(\<forall>s. s \<notin> {ContextCanceled, ContextDeadlineExceeded} \<longrightarrow> errors_is (over_wire e) s = errors_is e s) \<and>
   (named_native e \<longrightarrow>
      errors_as_native (over_wire e) = map_option (\<lambda>(c, d). (c, json_string d)) (errors_as_native e) \<and>
      isSoftVerifyFailure (over_wire e) = isSoftVerifyFailure e) \<and>
   (\<not> errors_is e ContextCanceled \<and> \<not> errors_is e ContextDeadlineExceeded \<longrightarrow> classify (over_wire e) = classify e)"
  using over_wire_is over_wire_native over_wire_soft over_wire_classify by blast

theorem wire_error_kept_witness:
  "classify (over_wire (WrapError ''sign'' (NativeError ''SignCMS'' 0x08F00009 ''bad'' (Some ErrInvalidPassword)))) = KindInvalid \<and>
   errors_as_native (over_wire (WrapError ''sign'' (NativeError ''SignCMS'' 0x08F00009 ''bad'' (Some ErrInvalidPassword)))) =
     Some (0x08F00009, ''bad'')"
proof -
  let ?e = "WrapError ''sign'' (NativeError ''SignCMS'' 0x08F00009 ''bad'' (Some ErrInvalidPassword))"
  have "json_string ''bad'' = ''bad''" by (rule json_string_ascii) (auto simp: byte_of_def)
  with wire_error_kept [of ?e] show ?thesis by (simp add: classify_def named_native_def)
qed

text \<open>
  Text that is not UTF-8 does not survive: a file name or a password with such bytes reaches the
  driver changed, which it would not in one process.
\<close>

lemma wire_alters_path:
  "kr_Path (read_key \<lparr>kr_Storage = 1, kr_Path = [CHR ''k'', CHR 0xFF], kr_Password = []\<rparr>) = [CHR ''k'', CHR 0xEF, CHR 0xBF, CHR 0xBD]"
  by (simp add: read_key_def utf8_len_def byte_in_def byte_of_def)

section \<open>The child answers every request in turn\<close>

text \<open>
  The responses to a list of requests, with the state of the driver threaded through. A request is
  answered when the frames of both sides can be written.
\<close>

fun responses :: "wire_json \<Rightarrow> 's worker_driver \<Rightarrow> 's \<Rightarrow> wire_request list \<Rightarrow> wire_response list \<times> 's" where
  "responses J d st [] = ([], st)"
| "responses J d st (req # reqs) =
     (case handle J d st req of (resp, st1) \<Rightarrow> (case responses J d st1 reqs of (resps, st2) \<Rightarrow> (resp # resps, st2)))"

fun frames :: "'a codec \<Rightarrow> 'a list \<Rightarrow> bytes option" where
  "frames c [] = Some []"
| "frames c (v # vs) =
     (case cd_Marshal c v of
        Inl e \<Rightarrow> None
      | Inr payload \<Rightarrow> if length payload > maxFrame then None else map_option (\<lambda>bs. frame_of payload @ bs) (frames c vs))"

lemma Serve_EOF: "length r < 4 \<Longrightarrow> Serve J d st r w = (None, st, w)"
  by (subst Serve.simps) (simp add: readFrame_def)

lemma Serve_next:
  "readFrame (wj_request J) r = (Inr req, rest) \<Longrightarrow> handle J d st req = (resp, st1) \<Longrightarrow>
   writeFrame (wj_response J) w resp = (None, w1) \<Longrightarrow> Serve J d st r w = Serve J d st1 rest w1"
  by (subst Serve.simps) simp

lemma Serve_answers:
  assumes "\<forall>req \<in> set reqs. \<forall>raw. cd_Marshal (wj_request J) req = Inr raw \<longrightarrow> cd_Unmarshal (wj_request J) raw = Inr req"
    and "frames (wj_request J) reqs = Some input" and "responses J d st reqs = (resps, st')"
    and "frames (wj_response J) resps = Some answer" and "pw_broken w = None"
  shows "Serve J d st input w = (None, st', w\<lparr>pw_sent := pw_sent w @ answer\<rparr>)"
  using assms
proof (induction reqs arbitrary: st w input resps answer)
  case Nil
  then show ?case by (simp add: Serve_EOF)
next
  case (Cons req reqs)
  obtain resp st1 where h: "handle J d st req = (resp, st1)" by (cases "handle J d st req")
  with Cons.prems obtain resps' where r: "responses J d st1 reqs = (resps', st')" and resps: "resps = resp # resps'"
    by (auto split: prod.splits)
  from Cons.prems obtain p1 rest1 where p1: "cd_Marshal (wj_request J) req = Inr p1" "length p1 \<le> maxFrame"
    "frames (wj_request J) reqs = Some rest1" "input = frame_of p1 @ rest1"
    by (auto split: sum.splits if_splits)
  from Cons.prems resps obtain p2 rest2 where p2: "cd_Marshal (wj_response J) resp = Inr p2" "length p2 \<le> maxFrame"
    "frames (wj_response J) resps' = Some rest2" "answer = frame_of p2 @ rest2"
    by (auto split: sum.splits if_splits)
  have "readFrame (wj_request J) input = (Inr req, rest1)" using p1 Cons.prems(1) by simp
  moreover have "writeFrame (wj_response J) w resp = (None, w\<lparr>pw_sent := pw_sent w @ frame_of p2\<rparr>)"
    using p2 Cons.prems(5) by (auto simp: writeFrame_sent)
  ultimately have "Serve J d st input w = Serve J d st1 rest1 (w\<lparr>pw_sent := pw_sent w @ frame_of p2\<rparr>)"
    by (rule Serve_next [OF _ h])
  also have "\<dots> = (None, st', w\<lparr>pw_sent := pw_sent w @ answer\<rparr>)"
    using Cons.IH [of rest1 st1 resps' rest2 "w\<lparr>pw_sent := pw_sent w @ frame_of p2\<rparr>"] Cons.prems p1 p2 r by simp
  finally show ?case .
qed

text \<open>A request that is cut off starts no operation: the child ends with its state as it was.\<close>

lemma Serve_cut:
  assumes "length payload \<le> maxFrame" "k < length (frame_of payload)"
  shows "fst (snd (Serve J d st (take k (frame_of payload)) w)) = st \<and> snd (snd (Serve J d st (take k (frame_of payload)) w)) = w"
  using readFrame_cut [OF assms, of "wj_request J"] by (subst (1 2) Serve.simps) auto

end
