(* ===== verification/Worker_Pool.thy ===== *)
theory Worker_Pool
  imports Worker_Wire "HOL-Library.Multiset"
begin

text \<open>
  The supervisor of the child processes (internal/cryptoworker/client.go): slots, spare children,
  the call with its one retry, retirement of a child, the warmer and \<^verbatim>\<open>Close\<close>. Every operation is a
  function of the supervisor's state and of what the environment does: whether a process starts,
  what comes out of its pipe or which other arm of a \<^verbatim>\<open>select\<close> wins, the state of the caller's
  context and the reading of /proc. Concurrent calls, the warmer and \<^verbatim>\<open>Close\<close> are interleaved at
  their channel operations by a step relation.
\<close>

section \<open>Configuration\<close>

abbreviation defaultCallTimeout :: dur where "defaultCallTimeout \<equiv> 60 * Second"
abbreviation defaultMaxOps :: int where "defaultMaxOps \<equiv> 1000"
abbreviation defaultMaxRSSBytes :: int where "defaultMaxRSSBytes \<equiv> 536870912"
abbreviation rssCheckEvery :: int where "rssCheckEvery \<equiv> 16"

definition errCallTimeout :: goerr where
  "errCallTimeout = PlainError ''cryptoworker: call timed out''"

record pool_config =
  pc_Command :: "string list"
  pc_Size :: int
  pc_CallTimeout :: dur
  pc_MaxOps :: int
  pc_MaxRSSBytes :: int
  pc_Standby :: int
  pc_KeepAfterRevoked :: bool

definition pool_size :: "pool_config \<Rightarrow> nat" where
  "pool_size c = (if pc_Size c < 1 then 1 else nat (pc_Size c))"

definition callTimeout :: "pool_config \<Rightarrow> dur" where
  "callTimeout c = (if pc_CallTimeout c \<le> 0 then defaultCallTimeout else pc_CallTimeout c)"

definition maxOps :: "pool_config \<Rightarrow> int" where
  "maxOps c = (if pc_MaxOps c = 0 then defaultMaxOps else pc_MaxOps c)"

definition pool_standby :: "pool_config \<Rightarrow> nat" where
  "pool_standby c = (if pc_Standby c < 0 then 0 else nat (pc_Standby c))"

definition maxRSS :: "pool_config \<Rightarrow> int" where
  "maxRSS c = (if pc_MaxRSSBytes c = 0 then defaultMaxRSSBytes else pc_MaxRSSBytes c)"

section \<open>State\<close>

text \<open>
  A child is named by a number that is never used again. \<open>su_children\<close> is the operating system's
  side: the children that were started and not yet killed and reaped; \<open>su_next\<close> is the next number.
\<close>

record worker_slot =
  sl_proc :: "nat option"
  sl_ops :: int

definition empty_slot :: worker_slot where
  "empty_slot = \<lparr>sl_proc = None, sl_ops = 0\<rparr>"

record supervisor =
  su_cfg :: pool_config
  su_free :: "worker_slot list"
  su_standby :: "nat list"
  su_warmRequest :: bool
  su_stop :: bool
  su_closed :: bool
  su_inUse :: int
  su_spawns :: "64 word"
  su_crashes :: "64 word"
  su_recycles :: "64 word"
  su_timeouts :: "64 word"
  su_hotSwaps :: "64 word"
  su_children :: "nat list"
  su_next :: nat

record pool_stats =
  ps_Spawns :: "64 word"
  ps_Crashes :: "64 word"
  ps_Recycles :: "64 word"
  ps_Timeouts :: "64 word"
  ps_HotSwaps :: "64 word"

definition PoolStats :: "supervisor \<Rightarrow> int \<times> nat" where
  "PoolStats s = (su_inUse s, pool_size (su_cfg s))"

definition WorkerStats :: "supervisor \<Rightarrow> pool_stats" where
  "WorkerStats s = \<lparr>ps_Spawns = su_spawns s, ps_Crashes = su_crashes s, ps_Recycles = su_recycles s,
     ps_Timeouts = su_timeouts s, ps_HotSwaps = su_hotSwaps s\<rparr>"

section \<open>Children\<close>

datatype start_outcome = StdinFails goerr | StdoutFails goerr | StartFails goerr | Started

fun startProcess :: "start_outcome \<Rightarrow> goerr option" where
  "startProcess (StdinFails e) = Some (WrapError ''cryptoworker: stdin pipe'' e)"
| "startProcess (StdoutFails e) = Some (WrapError ''cryptoworker: stdout pipe'' e)"
| "startProcess (StartFails e) = Some (WrapError ''cryptoworker: start child'' e)"
| "startProcess Started = None"

definition spawn :: "start_outcome \<Rightarrow> supervisor \<Rightarrow> (goerr + nat) \<times> supervisor" where
  "spawn so s =
     (case startProcess so of
        Some e \<Rightarrow> (Inl e, s)
      | None \<Rightarrow> (Inr (su_next s), s\<lparr>su_children := su_children s @ [su_next s], su_next := su_next s + 1,
                  su_spawns := su_spawns s + 1\<rparr>))"

definition kill_child :: "nat \<Rightarrow> supervisor \<Rightarrow> supervisor" where
  "kill_child p s = s\<lparr>su_children := remove1 p (su_children s)\<rparr>"

text \<open>The warm request is a channel of one element: a send that finds it full is dropped.\<close>

definition requestWarm :: "supervisor \<Rightarrow> supervisor" where
  "requestWarm s = s\<lparr>su_warmRequest := True\<rparr>"

definition takeStandby :: "supervisor \<Rightarrow> nat option \<times> supervisor" where
  "takeStandby s =
     (case su_standby s of
        [] \<Rightarrow> (None, s)
      | p # ps \<Rightarrow> (Some p, requestWarm (s\<lparr>su_standby := ps, su_hotSwaps := su_hotSwaps s + 1\<rparr>)))"

definition retire :: "worker_slot \<Rightarrow> supervisor \<Rightarrow> worker_slot \<times> supervisor" where
  "retire sl s =
     (let s1 = (case sl_proc sl of Some p \<Rightarrow> kill_child p s | None \<Rightarrow> s)
      in (empty_slot, if pool_standby (su_cfg s) > 0 then requestWarm s1 else s1))"

text \<open>\<^verbatim>\<open>strconv.ParseInt\<close> in base 10 with 64 bits, and the resident size from /proc/<pid>/statm.\<close>

definition ParseInt64 :: "string \<Rightarrow> int option" where
  "ParseInt64 t =
     (let (neg, ds) = (if t \<noteq> [] \<and> hd t = CHR ''-'' then (True, tl t) else if t \<noteq> [] \<and> hd t = CHR ''+'' then (False, tl t) else (False, t));
          n = foldl (\<lambda>a d. 10 * a + (int (byte_of d) - 48)) 0 ds; v = (if neg then - n else n)
      in if ds = [] \<or> \<not> list_all (\<lambda>d. 48 \<le> byte_of d \<and> byte_of d \<le> 57) ds then None
         else if v < - (2 ^ 63) \<or> v \<ge> 2 ^ 63 then None else Some v)"

definition processRSSBytes :: "int \<Rightarrow> bytes option \<Rightarrow> int option" where
  "processRSSBytes pagesize statm =
     (case statm of
        None \<Rightarrow> None
      | Some txt \<Rightarrow>
          let fields = Fields txt
          in if length fields < 2 then None
             else case ParseInt64 (fields ! 1) of None \<Rightarrow> None | Some pages \<Rightarrow> Some (wrap64 (pages * pagesize)))"

definition recycleReason :: "pool_config \<Rightarrow> worker_slot \<Rightarrow> bool \<Rightarrow> int option \<Rightarrow> string" where
  "recycleReason cfg sl revoked rss =
     (if revoked \<and> \<not> pc_KeepAfterRevoked cfg then ''revoked verdict''
      else if maxOps cfg > 0 \<and> sl_ops sl \<ge> maxOps cfg then ''op budget''
      else if maxRSS cfg > 0 \<and> sl_ops sl mod rssCheckEvery = 0 then
        (case rss of
           Some r \<Rightarrow> if r \<ge> maxRSS cfg then ''memory budget ('' @ decimal (nat (r div 1048576)) @ '' MB)'' else []
         | None \<Rightarrow> [])
      else [])"

section \<open>One call\<close>

text \<open>
  \<^verbatim>\<open>process.call\<close>: the request goes out, then the answer, the timer or the context decides. \<open>Arrives\<close>
  carries what the child's end of the pipe holds from here on.
\<close>

datatype call_arm = Arrives bytes | TimerFires | ContextDone

datatype call_failure = SendFailed goerr | ReceiveFailed frame_error | CallTimeout | CallCanceled

definition process_call :: "wire_json \<Rightarrow> pipe_writer \<Rightarrow> wire_request \<Rightarrow> call_arm \<Rightarrow> (call_failure + wire_response) \<times> pipe_writer" where
  "process_call J stdin req arm =
     (case writeFrame (wj_request J) stdin req of
        (Some e, w) \<Rightarrow> (Inl (SendFailed e), w)
      | (None, w) \<Rightarrow>
          (case arm of
             Arrives r \<Rightarrow> (case readFrame (wj_response J) r of (Inl e, _) \<Rightarrow> Inl (ReceiveFailed e) | (Inr resp, _) \<Rightarrow> Inr resp)
           | TimerFires \<Rightarrow> Inl CallTimeout
           | ContextDone \<Rightarrow> Inl CallCanceled, w))"

fun failure_err :: "call_failure \<Rightarrow> goerr" where
  "failure_err (SendFailed e) = WrapError ''cryptoworker: send'' e"
| "failure_err (ReceiveFailed e) = WrapError ''cryptoworker: receive'' (frame_error_text e)"
| "failure_err CallTimeout = errCallTimeout"
| "failure_err CallCanceled = Sentinel ContextCanceled"

text \<open>\<^verbatim>\<open>acquire\<close>: the check of the closed flag, then the \<^verbatim>\<open>select\<close> between a free slot and the context.\<close>

definition acquire_check :: "supervisor \<Rightarrow> goerr option" where
  "acquire_check s = (if su_closed s then Some (Sentinel ErrClosed) else None)"

definition acquire_slot :: "supervisor \<Rightarrow> (worker_slot \<times> supervisor) option" where
  "acquire_slot s =
     (case su_free s of [] \<Rightarrow> None | sl # rest \<Rightarrow> Some (sl, s\<lparr>su_free := rest, su_inUse := su_inUse s + 1\<rparr>))"

definition release_slot :: "worker_slot \<Rightarrow> supervisor \<Rightarrow> supervisor" where
  "release_slot sl s = s\<lparr>su_inUse := su_inUse s - 1, su_free := su_free s @ [sl]\<rparr>"

text \<open>A slot without a child gets a spare one, or a new one.\<close>

definition equip :: "start_outcome \<Rightarrow> worker_slot \<Rightarrow> supervisor \<Rightarrow> (goerr + worker_slot) \<times> supervisor" where
  "equip so sl s =
     (if sl_proc sl \<noteq> None then (Inr sl, s)
      else case takeStandby s of
             (Some p, s1) \<Rightarrow> (Inr (sl\<lparr>sl_proc := Some p, sl_ops := 0\<rparr>), s1)
           | (None, s1) \<Rightarrow>
               (case spawn so s1 of
                  (Inl e, s2) \<Rightarrow> (Inl e, s2)
                | (Inr p, s2) \<Rightarrow> (Inr (sl\<lparr>sl_proc := Some p, sl_ops := 0\<rparr>), s2)))"

text \<open>
  The rest of \<^verbatim>\<open>callOnce\<close> once the child answered or failed: the result with its error and whether
  to retry, and the fate of the child. \<open>ctx\<close> is \<^verbatim>\<open>ctx.Err()\<close>.
\<close>

type_synonym 'out call_result = "'out \<times> goerr option \<times> bool"

definition settle_failure :: "'out codec \<Rightarrow> goerr option \<Rightarrow> call_failure \<Rightarrow> worker_slot \<Rightarrow> supervisor \<Rightarrow>
    'out call_result \<times> worker_slot \<times> supervisor" where
  "settle_failure cout ctx f sl s =
     (let (sl1, s1) = retire sl s
      in case f of
           CallTimeout \<Rightarrow> ((cd_zero cout, Some errCallTimeout, False), sl1, s1\<lparr>su_timeouts := su_timeouts s1 + 1\<rparr>)
         | _ \<Rightarrow> (case ctx of
                   Some e \<Rightarrow> ((cd_zero cout, Some e, False), sl1, s1)
                 | None \<Rightarrow> ((cd_zero cout, Some (failure_err f), True), sl1, s1\<lparr>su_crashes := su_crashes s1 + 1\<rparr>)))"

definition settle_answer :: "'out codec \<Rightarrow> string \<Rightarrow> int option \<Rightarrow> wire_response \<Rightarrow> worker_slot \<Rightarrow> supervisor \<Rightarrow>
    'out call_result \<times> worker_slot \<times> supervisor" where
  "settle_answer cout op rss resp sl s =
     (let sl1 = sl\<lparr>sl_ops := sl_ops sl + 1\<rparr>
      in case (if wp_Payload resp = [] then Inr (cd_zero cout) else cd_Unmarshal cout (wp_Payload resp)) of
           Inl e \<Rightarrow> (case retire sl1 s of (sl2, s1) \<Rightarrow>
               ((cd_zero cout, Some (WrapError (''cryptoworker: decode '' @ op @ '' result'') e), False), sl2, s1))
         | Inr out \<Rightarrow>
             (case (if recycleReason (su_cfg s) sl1 (wp_Revoked resp) rss \<noteq> []
                    then retire sl1 (s\<lparr>su_recycles := su_recycles s + 1\<rparr>) else (sl1, s)) of
                (sl2, s1) \<Rightarrow> ((out, decodeError (wp_Err resp), False), sl2, s1)))"

definition settle :: "'out codec \<Rightarrow> string \<Rightarrow> goerr option \<Rightarrow> int option \<Rightarrow> call_failure + wire_response \<Rightarrow> worker_slot \<Rightarrow> supervisor \<Rightarrow>
    'out call_result \<times> worker_slot \<times> supervisor" where
  "settle cout op ctx rss answer sl s =
     (case answer of Inl f \<Rightarrow> settle_failure cout ctx f sl s | Inr resp \<Rightarrow> settle_answer cout op rss resp sl s)"

text \<open>\<^verbatim>\<open>call\<close>: the request, and what an attempt leads to (its number counts from 0).\<close>

definition call_request :: "'in codec \<Rightarrow> string \<Rightarrow> 'in \<Rightarrow> goerr + wire_request" where
  "call_request cin op v =
     (case cd_Marshal cin v of
        Inl e \<Rightarrow> Inl (WrapError (''cryptoworker: encode '' @ op) e)
      | Inr payload \<Rightarrow> Inr \<lparr>wr_Op = op, wr_Payload = payload\<rparr>)"

definition try_again :: "nat \<Rightarrow> 'out call_result \<Rightarrow> bool" where
  "try_again attempt r = (case r of (out, err, retryable) \<Rightarrow> err \<noteq> None \<and> retryable \<and> attempt + 1 < 2)"

section \<open>Warming and closing\<close>

datatype warmer = WarmOff | WarmIdle | WarmFilling | WarmHolding nat | WarmSleeping | WarmStopped

text \<open>
  One step of \<^verbatim>\<open>warmLoop\<close> and of \<^verbatim>\<open>sleep\<close> in it; \<open>stopping\<close> says that the \<^verbatim>\<open>select\<close> takes the stop arm. No
  result means that the arm is not ready.
\<close>

fun warm_step :: "bool \<Rightarrow> start_outcome \<Rightarrow> warmer \<Rightarrow> supervisor \<Rightarrow> (warmer \<times> supervisor) option" where
  "warm_step stopping so WarmIdle s =
     (if stopping then (if su_stop s then Some (WarmStopped, s) else None)
      else if su_warmRequest s then Some (WarmFilling, s\<lparr>su_warmRequest := False\<rparr>) else None)"
| "warm_step stopping so WarmFilling s =
     (if length (su_standby s) < pool_standby (su_cfg s) then
        (case spawn so s of (Inl e, s1) \<Rightarrow> Some (WarmSleeping, s1) | (Inr p, s1) \<Rightarrow> Some (WarmHolding p, s1))
      else Some (WarmIdle, s))"
| "warm_step stopping so (WarmHolding p) s =
     (if stopping then (if su_stop s then Some (WarmStopped, kill_child p s) else None)
      else if length (su_standby s) < pool_standby (su_cfg s) then Some (WarmFilling, s\<lparr>su_standby := su_standby s @ [p]\<rparr>)
      else None)"
| "warm_step stopping so WarmSleeping s =
     (if stopping then (if su_stop s then Some (WarmStopped, s) else None) else Some (WarmIdle, s))"
| "warm_step stopping so WarmOff s = None"
| "warm_step stopping so WarmStopped s = None"

datatype closer = NotClosing | AwaitWarmer | Draining nat | DropStandby | ClosedDown

text \<open>
  \<^verbatim>\<open>Close\<close>, step by step. Only the first call does this; any other finds the flag set and returns.
\<close>

fun close_step :: "warmer \<Rightarrow> closer \<Rightarrow> supervisor \<Rightarrow> (closer \<times> supervisor) option" where
  "close_step wm NotClosing s = Some (AwaitWarmer, s\<lparr>su_closed := True, su_stop := True\<rparr>)"
| "close_step wm AwaitWarmer s = (if wm \<in> {WarmOff, WarmStopped} then Some (Draining 0, s) else None)"
| "close_step wm (Draining i) s =
     (if i < pool_size (su_cfg s) then
        (case su_free s of
           [] \<Rightarrow> None
         | sl # rest \<Rightarrow> Some (Draining (i + 1), snd (retire sl (s\<lparr>su_free := rest\<rparr>))))
      else Some (DropStandby, s))"
| "close_step wm DropStandby s =
     (case su_standby s of [] \<Rightarrow> Some (ClosedDown, s) | p # ps \<Rightarrow> Some (DropStandby, kill_child p (s\<lparr>su_standby := ps\<rparr>)))"
| "close_step wm ClosedDown s = None"

section \<open>Starting\<close>

definition new_supervisor :: "pool_config \<Rightarrow> supervisor" where
  "new_supervisor cfg = \<lparr>su_cfg = cfg, su_free = [], su_standby = [], su_warmRequest = False, su_stop = False,
     su_closed = False, su_inUse = 0, su_spawns = 0, su_crashes = 0, su_recycles = 0, su_timeouts = 0, su_hotSwaps = 0,
     su_children = [], su_next = 0\<rparr>"

text \<open>
  \<^verbatim>\<open>Start\<close> up to its first call, which reads the capabilities like any other call does; after it the
  warmer is started (\<open>start_warmer\<close>).
\<close>

definition Start_pool :: "pool_config \<Rightarrow> start_outcome \<Rightarrow> goerr + supervisor" where
  "Start_pool cfg so =
     (if pc_Command cfg = [] then Inl (PlainError ''cryptoworker: Command not set'')
      else case spawn so (new_supervisor cfg) of
             (Inl e, s) \<Rightarrow> Inl e
           | (Inr p, s) \<Rightarrow>
               Inr (s\<lparr>su_free := \<lparr>sl_proc = Some p, sl_ops = 0\<rparr> # replicate (pool_size cfg - 1) empty_slot\<rparr>))"

definition start_warmer :: "supervisor \<Rightarrow> (warmer \<times> supervisor) option" where
  "start_warmer s = (if pool_standby (su_cfg s) > 0 then Some (WarmIdle, requestWarm s) else None)"

section \<open>Interleaving\<close>

text \<open>
  A goroutine inside \<^verbatim>\<open>call\<close>: before the check of the closed flag, at the \<^verbatim>\<open>select\<close>, with a slot, waiting
  for its child, about to give the slot back, and returned. The calls of all goroutines have one
  result type here and each brings its own decoder.
\<close>

datatype 'out caller =
    Idle
  | Entering wire_request nat
  | Waiting wire_request nat
  | Holding wire_request nat worker_slot
  | Calling wire_request nat worker_slot
  | Releasing wire_request nat worker_slot "'out call_result"
  | Returned 'out "goerr option"

text \<open>
  The world has the supervisor, the goroutines, the warmer and the closer. \<open>pw_dirty\<close> and \<open>pw_served\<close>
  only record history: the children that answered with a revoked verdict or an unusable stream, and
  how many requests each child answered.
\<close>

record 'out pool_world =
  pw_sup :: supervisor
  pw_callers :: "'out caller list"
  pw_warmer :: warmer
  pw_closer :: closer
  pw_dirty :: "nat set"
  pw_served :: "nat \<Rightarrow> nat"

definition taints :: "pool_config \<Rightarrow> 'out codec \<Rightarrow> call_failure + wire_response \<Rightarrow> bool" where
  "taints cfg cout answer =
     (case answer of
        Inl f \<Rightarrow> True
      | Inr resp \<Rightarrow> wp_Revoked resp \<and> \<not> pc_KeepAfterRevoked cfg \<or>
          wp_Payload resp \<noteq> [] \<and> (\<exists>e. cd_Unmarshal cout (wp_Payload resp) = Inl e))"

definition note_answer :: "'out codec \<Rightarrow> call_failure + wire_response \<Rightarrow> worker_slot \<Rightarrow> 'out pool_world \<Rightarrow> 'out pool_world" where
  "note_answer cout answer sl w =
     (case sl_proc sl of
        None \<Rightarrow> w
      | Some p \<Rightarrow> w\<lparr>pw_dirty := (if taints (su_cfg (pw_sup w)) cout answer then insert p (pw_dirty w) else pw_dirty w),
            pw_served := (pw_served w)(p := pw_served w p + (case answer of Inl _ \<Rightarrow> 0 | Inr _ \<Rightarrow> 1))\<rparr>)"

definition set_caller :: "nat \<Rightarrow> 'out caller \<Rightarrow> 'out pool_world \<Rightarrow> 'out pool_world" where
  "set_caller i c w = w\<lparr>pw_callers := (pw_callers w)[i := c]\<rparr>"

definition ctx_error :: "goerr \<Rightarrow> bool" where
  "ctx_error e \<longleftrightarrow> e = Sentinel ContextCanceled \<or> e = Sentinel ContextDeadlineExceeded"

inductive pool_step :: "'out pool_world \<Rightarrow> 'out pool_world \<Rightarrow> bool" where
  begins: "i < length (pw_callers w) \<Longrightarrow> pw_callers w ! i = Idle \<or> pw_callers w ! i = Returned v e \<Longrightarrow>
    pool_step w (set_caller i (Entering req 0) w)"
| refused: "i < length (pw_callers w) \<Longrightarrow> pw_callers w ! i = Entering req a \<Longrightarrow> acquire_check (pw_sup w) = Some e \<Longrightarrow>
    pool_step w (set_caller i (Returned (cd_zero (c :: 'out codec)) (Some e)) w)"
| admitted: "i < length (pw_callers w) \<Longrightarrow> pw_callers w ! i = Entering req a \<Longrightarrow> acquire_check (pw_sup w) = None \<Longrightarrow>
    pool_step w (set_caller i (Waiting req a) w)"
| acquires: "i < length (pw_callers w) \<Longrightarrow> pw_callers w ! i = Waiting req a \<Longrightarrow> acquire_slot (pw_sup w) = Some (sl, s) \<Longrightarrow>
    pool_step w (set_caller i (Holding req a sl) (w\<lparr>pw_sup := s\<rparr>))"
| gives_up: "i < length (pw_callers w) \<Longrightarrow> pw_callers w ! i = Waiting req a \<Longrightarrow> ctx_error e \<Longrightarrow>
    pool_step w (set_caller i (Returned (cd_zero (c :: 'out codec)) (Some e)) w)"
| equips: "i < length (pw_callers w) \<Longrightarrow> pw_callers w ! i = Holding req a sl \<Longrightarrow> equip so sl (pw_sup w) = (Inr sl', s) \<Longrightarrow>
    pool_step w (set_caller i (Calling req a sl') (w\<lparr>pw_sup := s\<rparr>))"
| cannot_start: "i < length (pw_callers w) \<Longrightarrow> pw_callers w ! i = Holding req a sl \<Longrightarrow> equip so sl (pw_sup w) = (Inl e, s) \<Longrightarrow>
    pool_step w (set_caller i (Releasing req a sl (cd_zero (c :: 'out codec), Some e, False)) (w\<lparr>pw_sup := s\<rparr>))"
| settles: "i < length (pw_callers w) \<Longrightarrow> pw_callers w ! i = Calling req a sl \<Longrightarrow>
    (answer = Inl CallCanceled \<longrightarrow> ctx \<noteq> None) \<Longrightarrow> settle c (wr_Op req) ctx rss answer sl (pw_sup w) = (r, sl', s) \<Longrightarrow>
    pool_step w (set_caller i (Releasing req a sl' r) ((note_answer c answer sl w)\<lparr>pw_sup := s\<rparr>))"
| releases: "i < length (pw_callers w) \<Longrightarrow> pw_callers w ! i = Releasing req a sl r \<Longrightarrow>
    pool_step w (set_caller i (if try_again a r then Entering req (a + 1) else Returned (fst r) (fst (snd r)))
      (w\<lparr>pw_sup := release_slot sl (pw_sup w)\<rparr>))"
| warmer_starts: "pw_warmer w = WarmOff \<Longrightarrow> pw_closer w = NotClosing \<Longrightarrow> start_warmer (pw_sup w) = Some (wm, s) \<Longrightarrow>
    pool_step w (w\<lparr>pw_warmer := wm, pw_sup := s\<rparr>)"
| warms: "warm_step stopping so (pw_warmer w) (pw_sup w) = Some (wm, s) \<Longrightarrow>
    pool_step w (w\<lparr>pw_warmer := wm, pw_sup := s\<rparr>)"
| closes: "close_step (pw_warmer w) (pw_closer w) (pw_sup w) = Some (cl, s) \<Longrightarrow>
    pool_step w (w\<lparr>pw_closer := cl, pw_sup := s\<rparr>)"

definition start_world :: "supervisor \<Rightarrow> nat \<Rightarrow> 'out pool_world" where
  "start_world s n = \<lparr>pw_sup = s, pw_callers = replicate n Idle, pw_warmer = WarmOff, pw_closer = NotClosing,
     pw_dirty = {}, pw_served = (\<lambda>p. 0)\<rparr>"

inductive pool_reachable :: "pool_config \<Rightarrow> 'out pool_world \<Rightarrow> bool" for cfg where
  started: "Start_pool cfg so = Inr s \<Longrightarrow> pool_reachable cfg (start_world s n)"
| steps: "pool_reachable cfg w \<Longrightarrow> pool_step w w' \<Longrightarrow> pool_reachable cfg w'"

end
