(* ===== verification/Worker_Properties.thy ===== *)
theory Worker_Properties
  imports Worker_Pool
begin

text \<open>
  What holds of the child processes under any interleaving of calls, warming and closing, and what a
  call over the pipe returns. Every child belongs to one slot, to the spares or to the warmer; no
  child is used after a revoked verdict or a broken stream, or beyond its budget; nothing is left
  running once \<^verbatim>\<open>Close\<close> returned; and a call that a child answers is a call of the driver.
\<close>

section \<open>Ownership of children\<close>

definition pids :: "worker_slot multiset \<Rightarrow> nat multiset" where
  "pids S = image_mset (the \<circ> sl_proc) (filter_mset (\<lambda>sl. sl_proc sl \<noteq> None) S)"

lemma pids_simps [simp]:
  "pids {#} = {#}"
  "pids (add_mset sl S) = (case sl_proc sl of None \<Rightarrow> pids S | Some p \<Rightarrow> add_mset p (pids S))"
  "pids (S + S') = pids S + pids S'"
  by (auto simp: pids_def split: option.splits)

lemma pids_size: "size (pids S) \<le> size S"
  by (simp add: pids_def size_filter_mset_lesseq)

lemma in_pids: "sl \<in># S \<Longrightarrow> sl_proc sl = Some p \<Longrightarrow> p \<in># pids S"
  by (force simp: pids_def)

definition slot_ok :: "pool_config \<Rightarrow> nat set \<Rightarrow> (nat \<Rightarrow> nat) \<Rightarrow> worker_slot \<Rightarrow> bool" where
  "slot_ok cfg D V sl \<longleftrightarrow>
     (case sl_proc sl of
        None \<Rightarrow> True
      | Some p \<Rightarrow> p \<notin> D \<and> sl_ops sl = int (V p) \<and> (maxOps cfg > 0 \<longrightarrow> sl_ops sl < maxOps cfg))"

definition children_ok :: "pool_config \<Rightarrow> nat list \<Rightarrow> nat \<Rightarrow> nat set \<Rightarrow> (nat \<Rightarrow> nat) \<Rightarrow> worker_slot multiset \<Rightarrow> nat multiset \<Rightarrow> bool" where
  "children_ok cfg ch nx D V S P \<longleftrightarrow>
     mset ch = pids S + P \<and> distinct ch \<and> (\<forall>p \<in> set ch. p < nx) \<and>
     (\<forall>sl \<in># S. slot_ok cfg D V sl) \<and> (\<forall>p \<in># P. p \<notin> D \<and> V p = 0) \<and> (\<forall>p \<ge> nx. p \<notin> D \<and> V p = 0)"

lemma slot_ok_empty [simp]: "slot_ok cfg D V empty_slot" "sl_proc empty_slot = None"
  by (simp_all add: slot_ok_def empty_slot_def)

lemma children_members: "children_ok cfg ch nx D V S P \<Longrightarrow> set ch = set_mset (pids S) \<union> set_mset P"
  unfolding children_ok_def by (metis set_mset_mset set_mset_union)

lemma ok_spawn: "children_ok cfg ch nx D V S P \<Longrightarrow> children_ok cfg (ch @ [nx]) (nx + 1) D V S (add_mset nx P)"
  by (auto simp: children_ok_def)

lemma ok_give:
  "children_ok cfg ch nx D V (add_mset sl S) (add_mset p P) \<Longrightarrow> sl_proc sl = None \<Longrightarrow>
   children_ok cfg ch nx D V (add_mset (sl\<lparr>sl_proc := Some p, sl_ops := 0\<rparr>) S) P"
  by (auto simp: children_ok_def slot_ok_def)

lemma ok_drop_spare:
  "children_ok cfg ch nx D V S (add_mset p P) \<Longrightarrow> children_ok cfg (remove1 p ch) nx D V S P"
  by (auto simp: children_ok_def dest: notin_set_remove1)

text \<open>The child of one slot is in no other place, so what is recorded of it concerns no other slot.\<close>

lemma ok_alone:
  assumes "children_ok cfg ch nx D V (add_mset sl S) P" and "sl_proc sl = Some p"
  shows "p \<notin># pids S" "p \<notin># P" "p < nx"
proof -
  have "mset ch = add_mset p (pids S + P)" "distinct ch" "\<forall>p \<in> set ch. p < nx"
    using assms by (auto simp: children_ok_def)
  then have "count (mset ch) p = (if p \<in> set ch then 1 else 0)" "count (mset ch) p = Suc (count (pids S + P) p)"
    by (metis distinct_count_atmost_1, simp)
  then have "count (pids S + P) p = 0" "p \<in> set ch" by (auto split: if_splits)
  with \<open>\<forall>p \<in> set ch. p < nx\<close> show "p \<notin># pids S" "p \<notin># P" "p < nx" by (simp_all add: not_in_iff)
qed

lemma slot_ok_other: "slot_ok cfg D V sl \<Longrightarrow> sl_proc sl \<noteq> Some p \<Longrightarrow> D' \<subseteq> insert p D \<Longrightarrow> slot_ok cfg D' (V(p := n)) sl"
  by (auto simp: slot_ok_def split: option.splits)

lemma ok_rest:
  assumes "children_ok cfg ch nx D V (add_mset sl S) P" "sl_proc sl = Some p" "D' \<subseteq> insert p D"
  shows "\<forall>sl \<in># S. slot_ok cfg D' (V(p := n)) sl" "\<forall>q \<in># P. q \<notin> D' \<and> (V(p := n)) q = 0"
    "\<forall>q \<ge> nx. q \<notin> D' \<and> (V(p := n)) q = 0"
proof -
  note alone = ok_alone [OF assms(1,2)]
  show "\<forall>sl \<in># S. slot_ok cfg D' (V(p := n)) sl"
    using assms alone(1) by (auto simp: children_ok_def intro!: slot_ok_other dest: in_pids)
  show "\<forall>q \<in># P. q \<notin> D' \<and> (V(p := n)) q = 0" "\<forall>q \<ge> nx. q \<notin> D' \<and> (V(p := n)) q = 0"
    using assms alone(2,3) by (auto simp: children_ok_def)
qed

lemma ok_retire:
  assumes "children_ok cfg ch nx D V (add_mset sl S) P" "sl_proc sl = Some p" "D' \<subseteq> insert p D"
  shows "children_ok cfg (remove1 p ch) nx D' (V(p := n)) S P"
proof -
  have "mset ch = add_mset p (pids S + P)" "distinct ch" "\<forall>p \<in> set ch. p < nx"
    using assms by (auto simp: children_ok_def)
  with ok_rest [OF assms, of n] show ?thesis unfolding children_ok_def by (auto dest: notin_set_remove1)
qed

lemma ok_answer:
  assumes "children_ok cfg ch nx D V (add_mset sl S) P" "sl_proc sl = Some p"
    and "maxOps cfg > 0 \<longrightarrow> sl_ops sl + 1 < maxOps cfg"
  shows "children_ok cfg ch nx D (V(p := V p + 1)) (add_mset (sl\<lparr>sl_ops := sl_ops sl + 1\<rparr>) S) P"
proof -
  have "mset ch = pids (add_mset sl S) + P" "distinct ch" "\<forall>p \<in> set ch. p < nx" "slot_ok cfg D V sl"
    using assms(1) by (auto simp: children_ok_def)
  with ok_rest [OF assms(1,2) subset_insertI, of "V p + 1"] show ?thesis
    unfolding children_ok_def using assms(2,3) by (auto simp: slot_ok_def)
qed

lemma ok_empty: "children_ok cfg ch nx D V (add_mset empty_slot S) P = children_ok cfg ch nx D V S P"
  by (auto simp: children_ok_def)

section \<open>The operations keep the account\<close>

fun warm_held :: "warmer \<Rightarrow> nat multiset" where
  "warm_held (WarmHolding p) = {#p#}"
| "warm_held _ = {#}"

fun drained :: "pool_config \<Rightarrow> closer \<Rightarrow> nat" where
  "drained cfg (Draining i) = i"
| "drained cfg DropStandby = pool_size cfg"
| "drained cfg ClosedDown = pool_size cfg"
| "drained cfg _ = 0"

definition closing_ok :: "supervisor \<Rightarrow> warmer \<Rightarrow> closer \<Rightarrow> bool" where
  "closing_ok s wm cl \<longleftrightarrow> (cl \<noteq> NotClosing \<longrightarrow> su_closed s \<and> su_stop s) \<and>
     (cl \<notin> {NotClosing, AwaitWarmer} \<longrightarrow> wm \<in> {WarmOff, WarmStopped}) \<and> (cl = ClosedDown \<longrightarrow> su_standby s = [])"

text \<open>The account of a supervisor while the callers hold the slots \<open>H\<close>.\<close>

definition pool_ok :: "pool_config \<Rightarrow> warmer \<Rightarrow> closer \<Rightarrow> nat set \<Rightarrow> (nat \<Rightarrow> nat) \<Rightarrow> supervisor \<Rightarrow> worker_slot multiset \<Rightarrow> bool" where
  "pool_ok cfg wm cl D V s H \<longleftrightarrow> su_cfg s = cfg \<and>
     children_ok cfg (su_children s) (su_next s) D V (mset (su_free s) + H) (mset (su_standby s) + warm_held wm) \<and>
     length (su_free s) + size H + drained cfg cl = pool_size cfg \<and> su_inUse s = int (size H) \<and>
     length (su_standby s) + size (warm_held wm) \<le> pool_standby cfg \<and> closing_ok s wm cl"

named_theorems pool_ops \<open>the operations of the supervisor, unfolded\<close>

lemmas [pool_ops] = acquire_slot_def release_slot_def spawn_def kill_child_def requestWarm_def takeStandby_def retire_def

lemma acquire_ok:
  "pool_ok cfg wm cl D V s H \<Longrightarrow> acquire_slot s = Some (sl, s') \<Longrightarrow> pool_ok cfg wm cl D V s' (add_mset sl H)"
  by (auto simp: pool_ok_def closing_ok_def pool_ops split: list.splits)

lemma release_ok: "pool_ok cfg wm cl D V s (add_mset sl H) \<Longrightarrow> pool_ok cfg wm cl D V (release_slot sl s) H"
  by (auto simp: pool_ok_def closing_ok_def pool_ops)

lemma takeStandby_ok:
  assumes "pool_ok cfg wm cl D V s (add_mset sl H)" "takeStandby s = (Some p, s')" "sl_proc sl = None"
  shows "pool_ok cfg wm cl D V s' (add_mset (sl\<lparr>sl_proc := Some p, sl_ops := 0\<rparr>) H)"
  using assms ok_give [of cfg _ _ D V sl "mset (su_free s) + H" p "mset (su_standby s') + warm_held wm"]
  by (auto simp: pool_ok_def closing_ok_def pool_ops split: list.splits)

lemma spawn_slot_ok:
  assumes "pool_ok cfg wm cl D V s (add_mset sl H)" "spawn so s = (Inr p, s')" "sl_proc sl = None"
  shows "pool_ok cfg wm cl D V s' (add_mset (sl\<lparr>sl_proc := Some p, sl_ops := 0\<rparr>) H)"
proof -
  from assms(2) have s': "p = su_next s" "s' = s\<lparr>su_children := su_children s @ [p], su_next := p + 1, su_spawns := su_spawns s + 1\<rparr>"
    by (auto simp: pool_ops split: option.splits)
  have "children_ok cfg (su_children s) (su_next s) D V (add_mset sl (mset (su_free s) + H)) (mset (su_standby s) + warm_held wm)"
    using assms(1) by (simp add: pool_ok_def)
  from ok_give [OF ok_spawn [OF this] assms(3)] assms(1) show ?thesis by (simp add: s' pool_ok_def closing_ok_def)
qed

lemma spawn_fails: "spawn so s = (Inl e, s') \<Longrightarrow> s' = s"
  by (auto simp: pool_ops split: option.splits)

lemma equip_ok:
  assumes "pool_ok cfg wm cl D V s (add_mset sl H)" "equip so sl s = (Inr sl', s')"
  shows "pool_ok cfg wm cl D V s' (add_mset sl' H) \<and> sl_proc sl' \<noteq> None"
proof (cases "sl_proc sl = None")
  case True
  show ?thesis
  proof (cases "takeStandby s")
    case (Pair q s1)
    show ?thesis
    proof (cases q)
      case None
      with Pair have "s1 = s" by (auto simp: pool_ops split: list.splits)
      with None Pair assms True show ?thesis
        by (auto simp: equip_def split: prod.splits sum.splits intro: spawn_slot_ok)
    qed (use Pair assms True in \<open>auto simp: equip_def intro: takeStandby_ok\<close>)
  qed
qed (use assms in \<open>auto simp: equip_def\<close>)

lemma equip_fails: "equip so sl s = (Inl e, s') \<Longrightarrow> s' = s"
  by (auto simp: equip_def takeStandby_def split: if_splits list.splits prod.splits sum.splits dest: spawn_fails)

text \<open>The four ways a slot leaves the hands of its child.\<close>

lemma retire_slot [simp]: "fst (retire sl s) = empty_slot"
  by (simp add: retire_def Let_def)

lemma retire_ok:
  assumes "pool_ok cfg wm cl D V s (add_mset sl H)" "sl_proc sl = Some p" "D' \<subseteq> insert p D"
  shows "pool_ok cfg wm cl D' (V(p := n)) (snd (retire sl s)) (add_mset empty_slot H)"
proof -
  have "children_ok cfg (su_children s) (su_next s) D V (add_mset sl (mset (su_free s) + H)) (mset (su_standby s) + warm_held wm)"
    using assms(1) by (simp add: pool_ok_def)
  from ok_retire [OF this assms(2,3), of n] assms(1,2) show ?thesis
    by (auto simp: pool_ok_def closing_ok_def pool_ops Let_def ok_empty)
qed

lemma pool_ok_counters [simp]:
  "pool_ok cfg wm cl D V (s\<lparr>su_timeouts := a\<rparr>) H = pool_ok cfg wm cl D V s H"
  "pool_ok cfg wm cl D V (s\<lparr>su_crashes := a\<rparr>) H = pool_ok cfg wm cl D V s H"
  "pool_ok cfg wm cl D V (s\<lparr>su_recycles := a\<rparr>) H = pool_ok cfg wm cl D V s H"
  by (simp_all add: pool_ok_def closing_ok_def)

lemma retire_counters [simp]: "retire (sl\<lparr>sl_ops := n\<rparr>) s = retire sl s"
  by (simp add: retire_def)

lemma settle_failure_retires:
  assumes "settle_failure c ctx f sl s = (r, sl', s')"
  shows "sl' = empty_slot \<and> pool_ok cfg wm cl D V s' H = pool_ok cfg wm cl D V (snd (retire sl s)) H"
proof (cases "retire sl s")
  case (Pair sl1 s1)
  then have "sl1 = empty_slot" using retire_slot [of sl s] by simp
  with Pair assms show ?thesis by (cases f; cases ctx) (auto simp: settle_failure_def)
qed

lemma retire_pair: "retire sl s = (sl', s') \<longleftrightarrow> sl' = empty_slot \<and> s' = snd (retire sl s)"
  by (auto simp: retire_def Let_def)

lemma settle_answer_cases:
  assumes "settle_answer c op rss resp sl s = (r, sl', s')"
  shows "(\<exists>a. sl' = empty_slot \<and> s' = snd (retire sl (s\<lparr>su_recycles := a\<rparr>))) \<or>
    sl' = sl\<lparr>sl_ops := sl_ops sl + 1\<rparr> \<and> s' = s \<and>
    recycleReason (su_cfg s) (sl\<lparr>sl_ops := sl_ops sl + 1\<rparr>) (wp_Revoked resp) rss = [] \<and>
    (wp_Payload resp \<noteq> [] \<longrightarrow> (\<exists>out. cd_Unmarshal c (wp_Payload resp) = Inr out))"
proof (cases "if wp_Payload resp = [] then Inr (cd_zero c) else cd_Unmarshal c (wp_Payload resp)")
  case (Inl e)
  with assms have "sl' = empty_slot \<and> s' = snd (retire sl (s\<lparr>su_recycles := su_recycles s\<rparr>))"
    by (auto simp: settle_answer_def retire_pair split: prod.splits)
  then show ?thesis by blast
next
  case (Inr out)
  show ?thesis
  proof (cases "recycleReason (su_cfg s) (sl\<lparr>sl_ops := sl_ops sl + 1\<rparr>) (wp_Revoked resp) rss = []")
    case True
    with Inr assms show ?thesis by (auto simp: settle_answer_def split: if_splits)
  next
    case False
    with Inr assms have "sl' = empty_slot \<and> s' = snd (retire sl (s\<lparr>su_recycles := su_recycles s + 1\<rparr>))"
      by (auto simp: settle_answer_def retire_pair split: prod.splits)
    then show ?thesis by blast
  qed
qed

lemma recycleReason_keeps:
  "recycleReason cfg sl revoked rss = [] \<Longrightarrow>
   (revoked \<longrightarrow> pc_KeepAfterRevoked cfg) \<and> (maxOps cfg > 0 \<longrightarrow> sl_ops sl < maxOps cfg)"
  by (auto simp: recycleReason_def split: if_splits)

lemma settle_ok:
  assumes ok: "pool_ok cfg wm cl D V s (add_mset sl H)" and p: "sl_proc sl = Some p"
    and st: "settle c op ctx rss answer sl s = (r, sl', s')"
  shows "pool_ok cfg wm cl (if taints cfg c answer then insert p D else D)
    (V(p := V p + (case answer of Inl _ \<Rightarrow> 0 | Inr _ \<Rightarrow> 1))) s' (add_mset sl' H)"
proof -
  have gone: "pool_ok cfg wm cl (if taints cfg c answer then insert p D else D) (V(p := n)) (snd (retire sl s1)) (add_mset empty_slot H)"
    if "pool_ok cfg wm cl D V s1 (add_mset sl H)" for s1 n
    using that p by (rule retire_ok) auto
  have cfg: "su_cfg s = cfg" using ok by (simp add: pool_ok_def)
  show ?thesis
  proof (cases answer)
    case (Inl f)
    with st have "settle_failure c ctx f sl s = (r, sl', s')" by (simp add: settle_def)
    from settle_failure_retires [OF this] gone [OF ok] show ?thesis by auto
  next
    case (Inr resp)
    let ?sl = "sl\<lparr>sl_ops := sl_ops sl + 1\<rparr>"
    have fine: "\<not> taints cfg c answer"
      if "recycleReason (su_cfg s) ?sl (wp_Revoked resp) rss = []" "wp_Payload resp \<noteq> [] \<longrightarrow> (\<exists>out. cd_Unmarshal c (wp_Payload resp) = Inr out)"
      using recycleReason_keeps [OF that(1)] that(2) Inr cfg by (auto simp: taints_def)
    have "settle_answer c op rss resp sl s = (r, sl', s')" using st Inr by (simp add: settle_def)
    from settle_answer_cases [OF this]
    consider (retired) a where "sl' = empty_slot" "s' = snd (retire sl (s\<lparr>su_recycles := a\<rparr>))"
      | (kept) "sl' = ?sl" "s' = s" "recycleReason cfg ?sl (wp_Revoked resp) rss = []" "\<not> taints cfg c answer"
      using fine unfolding cfg by blast
    then show ?thesis
    proof cases
      case retired
      then show ?thesis using gone [of "s\<lparr>su_recycles := a\<rparr>"] ok by auto
    next
      case kept
      then have "maxOps cfg > 0 \<longrightarrow> sl_ops sl + 1 < maxOps cfg" by (auto dest: recycleReason_keeps)
      moreover have "children_ok cfg (su_children s) (su_next s) D V (add_mset sl (mset (su_free s) + H)) (mset (su_standby s) + warm_held wm)"
        using ok by (simp add: pool_ok_def)
      ultimately show ?thesis using ok ok_answer [OF _ p] kept Inr by (auto simp: pool_ok_def closing_ok_def)
    qed
  qed
qed

lemma start_warmer_ok:
  "pool_ok cfg WarmOff cl D V s H \<Longrightarrow> cl = NotClosing \<Longrightarrow> start_warmer s = Some (wm, s') \<Longrightarrow> pool_ok cfg wm cl D V s' H"
  by (auto simp: start_warmer_def pool_ok_def closing_ok_def pool_ops split: if_splits)

lemma warm_filling_ok:
  assumes "pool_ok cfg WarmFilling cl D V s H" "warm_step stopping so WarmFilling s = Some (wm, s')"
  shows "pool_ok cfg wm cl D V s' H"
proof (cases "length (su_standby s) < pool_standby cfg \<and> startProcess so = None")
  case True
  have "children_ok cfg (su_children s) (su_next s) D V (mset (su_free s) + H) (mset (su_standby s))"
    using assms(1) by (simp add: pool_ok_def)
  from ok_spawn [OF this] assms True show ?thesis by (auto simp: pool_ok_def closing_ok_def pool_ops)
next
  case False
  with assms show ?thesis by (auto simp: pool_ok_def closing_ok_def pool_ops split: if_splits option.splits)
qed

lemma warm_holding_ok:
  assumes "pool_ok cfg (WarmHolding p) cl D V s H" "warm_step stopping so (WarmHolding p) s = Some (wm, s')"
  shows "pool_ok cfg wm cl D V s' H"
proof -
  have "children_ok cfg (su_children s) (su_next s) D V (mset (su_free s) + H) (add_mset p (mset (su_standby s)))"
    using assms(1) by (simp add: pool_ok_def)
  from this ok_drop_spare [OF this] assms show ?thesis
    by (auto simp: pool_ok_def closing_ok_def pool_ops split: if_splits)
qed

lemma warm_step_ok:
  assumes "pool_ok cfg wm cl D V s H" "warm_step stopping so wm s = Some (wm', s')"
  shows "pool_ok cfg wm' cl D V s' H"
proof (cases wm)
  case WarmFilling
  with assms warm_filling_ok show ?thesis by blast
next
  case (WarmHolding p)
  with assms warm_holding_ok show ?thesis by blast
qed (use assms in \<open>auto simp: pool_ok_def closing_ok_def split: if_splits\<close>)

lemma drain_ok:
  assumes "pool_ok cfg wm (Draining i) D V s H" "su_free s = sl # rest" "i < pool_size cfg"
  shows "pool_ok cfg wm (Draining (i + 1)) D V (snd (retire sl (s\<lparr>su_free := rest\<rparr>))) H"
proof -
  have c: "children_ok cfg (su_children s) (su_next s) D V (add_mset sl (mset rest + H)) (mset (su_standby s) + warm_held wm)"
    using assms by (simp add: pool_ok_def)
  show ?thesis
  proof (cases "sl_proc sl")
    case None
    with c assms show ?thesis by (auto simp: pool_ok_def closing_ok_def pool_ops Let_def children_ok_def)
  next
    case (Some p)
    from ok_retire [OF c Some subset_insertI, of "V p"] assms Some show ?thesis
      by (auto simp: pool_ok_def closing_ok_def pool_ops Let_def)
  qed
qed

lemma drop_standby_ok:
  assumes "pool_ok cfg wm DropStandby D V s H" "su_standby s = p # ps"
  shows "pool_ok cfg wm DropStandby D V (kill_child p (s\<lparr>su_standby := ps\<rparr>)) H"
proof -
  have "children_ok cfg (su_children s) (su_next s) D V (mset (su_free s) + H) (add_mset p (mset ps + warm_held wm))"
    using assms by (auto simp: pool_ok_def)
  from ok_drop_spare [OF this] assms show ?thesis by (auto simp: pool_ok_def closing_ok_def pool_ops)
qed

lemma close_step_ok:
  assumes "pool_ok cfg wm cl D V s H" "close_step wm cl s = Some (cl', s')"
  shows "pool_ok cfg wm cl' D V s' H"
proof (cases cl)
  case (Draining i)
  have cfg: "su_cfg s = cfg" using assms(1) by (simp add: pool_ok_def)
  show ?thesis
  proof (cases "i < pool_size cfg")
    case True
    with Draining assms cfg drain_ok [of cfg wm i D V s H] show ?thesis by (auto split: list.splits)
  next
    case False
    moreover from this Draining assms(1) have "i = pool_size cfg" by (auto simp: pool_ok_def)
    ultimately show ?thesis using Draining assms cfg by (auto simp: pool_ok_def closing_ok_def)
  qed
next
  case DropStandby
  with assms drop_standby_ok [of cfg wm D V s H] show ?thesis
    by (auto split: list.splits simp: pool_ok_def closing_ok_def)
qed (use assms in \<open>auto simp: pool_ok_def closing_ok_def split: if_splits\<close>)

lemma Start_ok:
  assumes "Start_pool cfg so = Inr s"
  shows "pool_ok cfg WarmOff NotClosing {} (\<lambda>p. 0) s {#}"
proof -
  have "pool_size cfg \<ge> 1" by (auto simp: pool_size_def)
  have none: "pids (replicate_mset n empty_slot) = {#}" for n by (induction n) simp_all
  from assms have "s = (new_supervisor cfg)\<lparr>su_children := [0], su_next := 1, su_spawns := 1,
      su_free := \<lparr>sl_proc = Some 0, sl_ops = 0\<rparr> # replicate (pool_size cfg - 1) empty_slot\<rparr>"
    by (auto simp: Start_pool_def spawn_def new_supervisor_def split: if_splits option.splits)
  with \<open>pool_size cfg \<ge> 1\<close> show ?thesis
    by (auto simp: pool_ok_def closing_ok_def new_supervisor_def children_ok_def none none [unfolded empty_slot_def] slot_ok_def empty_slot_def)
qed

section \<open>The account of a reachable world\<close>

fun held :: "'out caller \<Rightarrow> worker_slot list" where
  "held (Holding req a sl) = [sl]"
| "held (Calling req a sl) = [sl]"
| "held (Releasing req a sl r) = [sl]"
| "held _ = []"

fun caller_ok :: "'out caller \<Rightarrow> bool" where
  "caller_ok (Calling req a sl) = (sl_proc sl \<noteq> None \<and> a < 2)"
| "caller_ok (Entering req a) = (a < 2)"
| "caller_ok (Waiting req a) = (a < 2)"
| "caller_ok (Holding req a sl) = (a < 2)"
| "caller_ok (Releasing req a sl r) = (a < 2)"
| "caller_ok _ = True"

definition held_slots :: "'out caller list \<Rightarrow> worker_slot multiset" where
  "held_slots cs = mset (concat (map held cs))"

definition pool_inv :: "pool_config \<Rightarrow> 'out pool_world \<Rightarrow> bool" where
  "pool_inv cfg w \<longleftrightarrow> (\<forall>c \<in> set (pw_callers w). caller_ok c) \<and>
     pool_ok cfg (pw_warmer w) (pw_closer w) (pw_dirty w) (pw_served w) (pw_sup w) (held_slots (pw_callers w))"

lemma held_update:
  assumes "i < length cs"
  obtains R where "held_slots cs = mset (held (cs ! i)) + R" "\<And>c. held_slots (cs[i := c]) = mset (held c) + R"
proof -
  have "held_slots cs = mset (held (cs ! i)) + (held_slots (take i cs) + held_slots (drop (Suc i) cs))"
    unfolding held_slots_def by (subst (1) id_take_nth_drop [OF assms]) simp
  moreover have "held_slots (cs[i := c]) = mset (held c) + (held_slots (take i cs) + held_slots (drop (Suc i) cs))" for c
    unfolding held_slots_def using assms by (simp add: upd_conv_take_nth_drop)
  ultimately show thesis using that by blast
qed

text \<open>A step of one goroutine: what it does to the supervisor and to its own slot is all that matters.\<close>

lemma pool_inv_caller:
  assumes inv: "pool_inv cfg w" and i: "i < length (pw_callers w)" and c: "caller_ok c"
    and same: "pw_callers w' = (pw_callers w)[i := c]" "pw_warmer w' = pw_warmer w" "pw_closer w' = pw_closer w"
    and ok: "\<And>R. pool_ok cfg (pw_warmer w) (pw_closer w) (pw_dirty w) (pw_served w) (pw_sup w) (mset (held (pw_callers w ! i)) + R) \<Longrightarrow>
      pool_ok cfg (pw_warmer w) (pw_closer w) (pw_dirty w') (pw_served w') (pw_sup w') (mset (held c) + R)"
  shows "pool_inv cfg w'"
proof -
  obtain R where "held_slots (pw_callers w) = mset (held (pw_callers w ! i)) + R"
    "held_slots ((pw_callers w)[i := c]) = mset (held c) + R"
    using held_update [OF i] by metis
  with inv ok [of R] same c show ?thesis by (auto simp: pool_inv_def dest: subsetD [OF set_update_subset_insert])
qed

lemma set_caller_fields [simp]:
  "pw_callers (set_caller i c w) = (pw_callers w)[i := c]" "pw_warmer (set_caller i c w) = pw_warmer w"
  "pw_closer (set_caller i c w) = pw_closer w" "pw_dirty (set_caller i c w) = pw_dirty w"
  "pw_served (set_caller i c w) = pw_served w" "pw_sup (set_caller i c w) = pw_sup w"
  by (simp_all add: set_caller_def)

lemma note_answer_fields [simp]:
  "pw_callers (note_answer c answer sl w) = pw_callers w" "pw_warmer (note_answer c answer sl w) = pw_warmer w"
  "pw_closer (note_answer c answer sl w) = pw_closer w"
  by (simp_all add: note_answer_def split: option.splits)

lemma caller_ok_at: "pool_inv cfg w \<Longrightarrow> i < length (pw_callers w) \<Longrightarrow> caller_ok (pw_callers w ! i)"
  by (simp add: pool_inv_def)

lemma pool_inv_step:
  assumes "pool_step w w'" "pool_inv cfg w"
  shows "pool_inv cfg w'"
  using assms
proof (induction rule: pool_step.induct)
  case (begins i w v e req)
  show ?case by (rule pool_inv_caller [OF begins(3,1), of "Entering req 0"]) (use begins(2) in auto)
next
  case (refused i w req a e c)
  show ?case by (rule pool_inv_caller [OF refused(4,1)]) (use refused(2) in auto)
next
  case (admitted i w req a)
  show ?case by (rule pool_inv_caller [OF admitted(4,1)]) (use caller_ok_at [OF admitted(4,1)] admitted(2) in auto)
next
  case (acquires i w req a sl s)
  show ?case
    by (rule pool_inv_caller [OF acquires(4,1)]) (use caller_ok_at [OF acquires(4,1)] acquires(2,3) in \<open>auto intro: acquire_ok\<close>)
next
  case (gives_up i w req a e c)
  show ?case by (rule pool_inv_caller [OF gives_up(4,1)]) (use gives_up(2) in auto)
next
  case (equips i w req a sl so sl' s)
  have "sl_proc sl' \<noteq> None"
    using equips(3) by (auto simp: equip_def split: if_splits option.splits prod.splits sum.splits)
  then show ?case
    by (intro pool_inv_caller [OF equips(4,1)]) (use caller_ok_at [OF equips(4,1)] equips(2,3) in \<open>auto dest: equip_ok\<close>)
next
  case (cannot_start i w req a sl so e s c)
  show ?case
    by (rule pool_inv_caller [OF cannot_start(4,1)])
      (use caller_ok_at [OF cannot_start(4,1)] cannot_start(2) equip_fails [OF cannot_start(3)] in auto)
next
  case (settles i w req a sl answer ctx c rss r sl' s)
  from caller_ok_at [OF settles(5,1)] settles(2) obtain p where p: "sl_proc sl = Some p" and a: "a < 2" by auto
  have cfg: "su_cfg (pw_sup w) = cfg" using settles(5) by (simp add: pool_inv_def pool_ok_def)
  show ?case
  proof (rule pool_inv_caller [OF settles(5,1), of "Releasing req a sl' r"])
    fix R
    assume "pool_ok cfg (pw_warmer w) (pw_closer w) (pw_dirty w) (pw_served w) (pw_sup w) (mset (held (pw_callers w ! i)) + R)"
    with settles(2) have "pool_ok cfg (pw_warmer w) (pw_closer w) (pw_dirty w) (pw_served w) (pw_sup w) (add_mset sl R)" by simp
    from settle_ok [OF this p settles(4)] p cfg
    show "pool_ok cfg (pw_warmer w) (pw_closer w)
        (pw_dirty (set_caller i (Releasing req a sl' r) ((note_answer c answer sl w)\<lparr>pw_sup := s\<rparr>)))
        (pw_served (set_caller i (Releasing req a sl' r) ((note_answer c answer sl w)\<lparr>pw_sup := s\<rparr>)))
        (pw_sup (set_caller i (Releasing req a sl' r) ((note_answer c answer sl w)\<lparr>pw_sup := s\<rparr>)))
        (mset (held (Releasing req a sl' r)) + R)"
      by (simp add: note_answer_def split del: if_split)
  qed (use a in simp_all)
next
  case (releases i w req a sl r)
  show ?case
    by (rule pool_inv_caller [OF releases(3,1)]) (use releases(2) in \<open>auto simp: try_again_def intro: release_ok\<close>)
next
  case (warmer_starts w wm s)
  then show ?case by (auto simp: pool_inv_def intro: start_warmer_ok)
next
  case (warms stopping so w wm s)
  then show ?case by (auto simp: pool_inv_def intro: warm_step_ok)
next
  case (closes w cl s)
  then show ?case by (auto simp: pool_inv_def intro: close_step_ok)
qed

lemma pool_reachable_inv: "pool_reachable cfg w \<Longrightarrow> pool_inv cfg w"
proof (induction rule: pool_reachable.induct)
  case (started so s n)
  then show ?case by (simp add: pool_inv_def start_world_def Start_ok held_slots_def)
qed (blast intro: pool_inv_step)

section \<open>Properties\<close>

lemma pool_reachable_ok:
  "pool_reachable cfg w \<Longrightarrow>
   pool_ok cfg (pw_warmer w) (pw_closer w) (pw_dirty w) (pw_served w) (pw_sup w) (held_slots (pw_callers w))"
  by (drule pool_reachable_inv) (simp add: pool_inv_def)

lemma pool_ok_bound:
  assumes "pool_ok cfg wm cl D V s H"
  shows "length (su_children s) + drained cfg cl \<le> pool_size cfg + pool_standby cfg"
proof -
  have "length (su_children s) = size (pids (mset (su_free s) + H)) + (length (su_standby s) + size (warm_held wm))"
  proof -
    have "mset (su_children s) = pids (mset (su_free s) + H) + (mset (su_standby s) + warm_held wm)"
      using assms by (simp add: pool_ok_def children_ok_def)
    from arg_cong [OF this, of size] show ?thesis by simp
  qed
  moreover have "size (pids (mset (su_free s) + H)) + drained cfg cl \<le> pool_size cfg"
    using assms pids_size [of "mset (su_free s) + H"] by (auto simp: pool_ok_def)
  ultimately show ?thesis using assms by (auto simp: pool_ok_def)
qed

lemma pool_ok_closed:
  assumes "pool_ok cfg wm ClosedDown D V s H"
  shows "su_children s = [] \<and> su_free s = [] \<and> su_closed s"
proof -
  have "su_free s = []" "H = {#}" "su_standby s = []" "wm \<in> {WarmOff, WarmStopped}" "su_closed s"
    using assms by (auto simp: pool_ok_def closing_ok_def)
  then show ?thesis using assms by (auto simp: pool_ok_def children_ok_def)
qed

text \<open>
  Claim C20: Under any interleaving of calls, retries, crashes, timeouts, cancellations, warming and
  closing, the running children are exactly the ones that a slot, the spares or the warmer owns, each
  owned once; they are never more than the configured number of slots and spares together. Every
  slot is free, in the hands of one call or drained by \<^verbatim>\<open>Close\<close>, the reported use is the number of
  slots in hand, and once \<^verbatim>\<open>Close\<close> is through no child runs.
\<close>

theorem worker_children_accounted:
  assumes "pool_reachable cfg w"
  shows "distinct (su_children (pw_sup w)) \<and>
    mset (su_children (pw_sup w)) =
      pids (mset (su_free (pw_sup w)) + held_slots (pw_callers w)) + mset (su_standby (pw_sup w)) + warm_held (pw_warmer w) \<and>
    length (su_children (pw_sup w)) \<le> pool_size cfg + pool_standby cfg \<and>
    length (su_free (pw_sup w)) + size (held_slots (pw_callers w)) + drained cfg (pw_closer w) = pool_size cfg \<and>
    PoolStats (pw_sup w) = (int (size (held_slots (pw_callers w))), pool_size cfg) \<and>
    (pw_closer w = ClosedDown \<longrightarrow> su_children (pw_sup w) = [])"
proof (intro conjI impI)
  note ok = pool_reachable_ok [OF assms]
  show "distinct (su_children (pw_sup w))"
    "mset (su_children (pw_sup w)) =
      pids (mset (su_free (pw_sup w)) + held_slots (pw_callers w)) + mset (su_standby (pw_sup w)) + warm_held (pw_warmer w)"
    "length (su_free (pw_sup w)) + size (held_slots (pw_callers w)) + drained cfg (pw_closer w) = pool_size cfg"
    "PoolStats (pw_sup w) = (int (size (held_slots (pw_callers w))), pool_size cfg)"
    using ok by (simp_all add: pool_ok_def children_ok_def PoolStats_def)
  show "length (su_children (pw_sup w)) \<le> pool_size cfg + pool_standby cfg" using pool_ok_bound [OF ok] by simp
  show "su_children (pw_sup w) = []" if "pw_closer w = ClosedDown" using pool_ok_closed ok that by simp
qed

text \<open>A world in which one call has its answer and one goroutine closes the pool.\<close>

definition demo_pool :: pool_config where
  "demo_pool = \<lparr>pc_Command = [''qoltanba'', ''crypto-worker''], pc_Size = 2, pc_CallTimeout = 0, pc_MaxOps = 5,
     pc_MaxRSSBytes = 0, pc_Standby = 1, pc_KeepAfterRevoked = False\<rparr>"

lemma demo_pool_size [simp]: "pool_size demo_pool = 2" "pool_standby demo_pool = 1" "maxOps demo_pool = 5"
  by (simp_all add: demo_pool_def pool_size_def pool_standby_def maxOps_def)

definition demo_sup :: supervisor where
  "demo_sup = (new_supervisor demo_pool)\<lparr>su_children := [0], su_next := 1, su_spawns := 1,
     su_free := [\<lparr>sl_proc = Some 0, sl_ops = 0\<rparr>, empty_slot]\<rparr>"

lemma demo_started: "Start_pool demo_pool Started = Inr demo_sup"
proof -
  have "pc_Command demo_pool \<noteq> []" by (simp add: demo_pool_def)
  then show ?thesis by (simp add: Start_pool_def demo_sup_def spawn_def new_supervisor_def numeral_2_eq_2)
qed

definition demo_worker_request :: wire_request where
  "demo_worker_request = \<lparr>wr_Op = opHash, wr_Payload = ''{}''\<rparr>"

definition demo_waiting :: "bytes pool_world" where
  "demo_waiting = set_caller 0 (Waiting demo_worker_request 0) (start_world demo_sup 1)"

lemma demo_waiting_reachable: "pool_reachable demo_pool demo_waiting"
proof -
  let ?w0 = "start_world demo_sup 1 :: bytes pool_world"
  have zero: "pool_reachable demo_pool ?w0" by (rule pool_reachable.started [OF demo_started])
  have one: "pool_step ?w0 (set_caller 0 (Entering demo_worker_request 0) ?w0)"
    by (rule pool_step.begins) (simp_all add: start_world_def)
  have two: "pool_step (set_caller 0 (Entering demo_worker_request 0) ?w0)
      (set_caller 0 (Waiting demo_worker_request 0) (set_caller 0 (Entering demo_worker_request 0) ?w0))"
    by (rule pool_step.admitted [where req = demo_worker_request])
      (simp_all add: start_world_def acquire_check_def demo_sup_def new_supervisor_def)
  have "set_caller 0 (Waiting demo_worker_request 0) (set_caller 0 (Entering demo_worker_request 0) ?w0) = demo_waiting"
    by (simp add: demo_waiting_def set_caller_def)
  with pool_reachable.steps [OF pool_reachable.steps [OF zero one] two] show ?thesis by (simp only:)
qed

definition demo_calling :: "bytes pool_world" where
  "demo_calling = set_caller 0 (Calling demo_worker_request 0 \<lparr>sl_proc = Some 0, sl_ops = 0\<rparr>)
     (demo_waiting\<lparr>pw_sup := demo_sup\<lparr>su_free := [empty_slot], su_inUse := 1\<rparr>\<rparr>)"

lemma demo_calling_reachable: "pool_reachable demo_pool demo_calling"
proof -
  let ?s = "demo_sup\<lparr>su_free := [empty_slot], su_inUse := 1\<rparr>" and ?sl = "\<lparr>sl_proc = Some 0, sl_ops = 0\<rparr>"
  let ?w = "set_caller 0 (Holding demo_worker_request 0 ?sl) (demo_waiting\<lparr>pw_sup := ?s\<rparr>)"
  have one: "pool_step demo_waiting ?w"
    by (rule pool_step.acquires) (simp_all add: demo_waiting_def start_world_def acquire_slot_def demo_sup_def new_supervisor_def)
  have two: "pool_step ?w (set_caller 0 (Calling demo_worker_request 0 ?sl) (?w\<lparr>pw_sup := ?s\<rparr>))"
    by (rule pool_step.equips [where so = Started and sl = ?sl and req = demo_worker_request and a = 0])
      (simp_all add: demo_waiting_def start_world_def equip_def)
  have "set_caller 0 (Calling demo_worker_request 0 ?sl) (?w\<lparr>pw_sup := ?s\<rparr>) = demo_calling"
    by (simp add: demo_calling_def demo_waiting_def set_caller_def start_world_def)
  with pool_reachable.steps [OF pool_reachable.steps [OF demo_waiting_reachable one] two] show ?thesis by (simp only:)
qed

theorem worker_children_accounted_witness:
  "pool_reachable demo_pool demo_calling \<and> su_children (pw_sup demo_calling) = [0] \<and>
   PoolStats (pw_sup demo_calling) = (1, 2) \<and> mset [0] = pids (mset (su_free (pw_sup demo_calling)) + held_slots (pw_callers demo_calling))"
  using worker_children_accounted [OF demo_calling_reachable] demo_calling_reachable
  by (simp add: demo_calling_def demo_waiting_def start_world_def demo_sup_def new_supervisor_def held_slots_def)

text \<open>
  Claim C19: Whenever a request is with a child, the child is running and no other call, spare or free
  slot has it; it never answered with a revoked verdict (unless the configuration keeps such
  children), never broke its stream or sent an unreadable result, has answered fewer requests than
  its budget, and the attempt is the first or the second.
\<close>

theorem worker_child_clean:
  assumes "pool_reachable cfg w" and "i < length (pw_callers w)" and "pw_callers w ! i = Calling req a sl"
  shows "\<exists>p. sl_proc sl = Some p \<and> p \<in> set (su_children (pw_sup w)) \<and> p \<notin> pw_dirty w \<and>
    (0 < maxOps cfg \<longrightarrow> int (pw_served w p) < maxOps cfg) \<and> a < 2 \<and>
    p \<notin> set (su_standby (pw_sup w)) \<and> (\<forall>sl' \<in> set (su_free (pw_sup w)). sl_proc sl' \<noteq> Some p) \<and>
    (\<forall>j < length (pw_callers w). j \<noteq> i \<longrightarrow> (\<forall>sl' \<in> set (held (pw_callers w ! j)). sl_proc sl' \<noteq> Some p))"
proof -
  from caller_ok_at [OF pool_reachable_inv [OF assms(1)] assms(2)] assms(3)
  obtain p where p: "sl_proc sl = Some p" "a < 2" by auto
  obtain R where R: "held_slots (pw_callers w) = add_mset sl R" "held_slots ((pw_callers w)[i := Idle]) = R"
    using held_update [OF assms(2)] assms(3) by (metis add_0 add_mset_add_single held.simps(2,4) mset.simps(1) mset_single_iff_right union_commute)
  have ch: "children_ok cfg (su_children (pw_sup w)) (su_next (pw_sup w)) (pw_dirty w) (pw_served w)
      (add_mset sl (mset (su_free (pw_sup w)) + R)) (mset (su_standby (pw_sup w)) + warm_held (pw_warmer w))"
    using pool_reachable_ok [OF assms(1)] R(1) by (simp add: pool_ok_def)
  note alone = ok_alone [OF ch p(1)]
  have "sl_proc sl' \<noteq> Some p" if "j < length (pw_callers w)" "j \<noteq> i" "sl' \<in> set (held (pw_callers w ! j))" for j sl'
  proof -
    have "pw_callers w ! j \<in> set ((pw_callers w)[i := Idle])"
      using that(1,2) nth_mem [of j "(pw_callers w)[i := Idle]"] by simp
    with that(3) have "sl' \<in># held_slots ((pw_callers w)[i := Idle])" unfolding held_slots_def by auto
    with R(2) alone(1) show ?thesis by (auto dest: in_pids)
  qed
  moreover have "\<forall>sl' \<in> set (su_free (pw_sup w)). sl_proc sl' \<noteq> Some p"
    using alone(1) in_pids [of _ "mset (su_free (pw_sup w))" p] by auto
  moreover have "p \<in> set (su_children (pw_sup w))" using children_members [OF ch] p(1) by simp
  moreover have "p \<notin> pw_dirty w \<and> (0 < maxOps cfg \<longrightarrow> int (pw_served w p) < maxOps cfg)"
    using ch p(1) by (auto simp: children_ok_def slot_ok_def)
  moreover have "p \<notin> set (su_standby (pw_sup w))" using alone(2) by simp
  ultimately show ?thesis using p by blast
qed

theorem worker_child_clean_witness:
  "pw_callers demo_calling ! 0 = Calling demo_worker_request 0 \<lparr>sl_proc = Some 0, sl_ops = 0\<rparr> \<and>
   (\<exists>p. sl_proc \<lparr>sl_proc = Some 0, sl_ops = 0\<rparr> = Some p \<and> p \<in> set (su_children (pw_sup demo_calling)) \<and>
      p \<notin> pw_dirty demo_calling \<and> int (pw_served demo_calling p) < 5)"
proof -
  have "0 < length (pw_callers demo_calling)"
    "pw_callers demo_calling ! 0 = Calling demo_worker_request 0 \<lparr>sl_proc = Some 0, sl_ops = 0\<rparr>"
    by (simp_all add: demo_calling_def demo_waiting_def start_world_def)
  from worker_child_clean [OF demo_calling_reachable this] this(2) show ?thesis by auto
qed

section \<open>Shutdown, warming and oversized requests\<close>

text \<open>
  A call that passed the check of the closed flag before \<^verbatim>\<open>Close\<close> took the slots waits for a slot that
  never comes: from then on no step serves it, and only the end of its context lets it return.
\<close>

lemma closed_strands_waiter:
  assumes "pool_reachable cfg w" "pw_closer w = ClosedDown" "i < length (pw_callers w)" "pw_callers w ! i = Waiting req a"
  shows "acquire_slot (pw_sup w) = None"
    and "pool_step w w' \<Longrightarrow> pw_closer w' = ClosedDown \<and>
      (pw_callers w' ! i = Waiting req a \<or> (\<exists>z e. ctx_error e \<and> pw_callers w' ! i = Returned z (Some e)))"
proof -
  have "su_free (pw_sup w) = []" using pool_ok_closed pool_reachable_ok [OF assms(1)] assms(2) by simp
  then show none: "acquire_slot (pw_sup w) = None" by (simp add: acquire_slot_def)
  show "pw_closer w' = ClosedDown \<and>
      (pw_callers w' ! i = Waiting req a \<or> (\<exists>z e. ctx_error e \<and> pw_callers w' ! i = Returned z (Some e)))"
    if "pool_step w w'"
    using that assms none by cases (auto simp: nth_list_update)
qed

definition demo_closed :: "bytes pool_world" where
  "demo_closed = demo_waiting\<lparr>pw_closer := ClosedDown,
     pw_sup := demo_sup\<lparr>su_closed := True, su_stop := True, su_free := [], su_children := [], su_warmRequest := True\<rparr>\<rparr>"

lemma demo_closed_reachable: "pool_reachable demo_pool demo_closed"
proof -
  let ?s = "demo_sup\<lparr>su_closed := True, su_stop := True\<rparr>"
  let ?s1 = "?s\<lparr>su_free := [empty_slot], su_children := [], su_warmRequest := True\<rparr>"
  let ?s2 = "?s1\<lparr>su_free := []\<rparr>"
  let ?at = "\<lambda>cl s. demo_waiting\<lparr>pw_closer := cl, pw_sup := s\<rparr>"
  have step: "pool_reachable demo_pool (?at cl' s')"
    if "pool_reachable demo_pool (?at cl s)" "close_step WarmOff cl s = Some (cl', s')" for cl cl' s s'
    using pool_reachable.steps [OF that(1) pool_step.closes [of "?at cl s" cl' s']] that(2)
    by (simp add: demo_waiting_def start_world_def set_caller_def)
  have "?at NotClosing demo_sup = demo_waiting" by (simp add: demo_waiting_def start_world_def set_caller_def)
  with demo_waiting_reachable have "pool_reachable demo_pool (?at NotClosing demo_sup)" by simp
  then have "pool_reachable demo_pool (?at AwaitWarmer ?s)" by (rule step) simp
  then have "pool_reachable demo_pool (?at (Draining 0) ?s)" by (rule step) simp
  then have "pool_reachable demo_pool (?at (Draining 1) ?s1)"
    by (rule step) (simp add: demo_sup_def new_supervisor_def retire_def kill_child_def requestWarm_def)
  then have "pool_reachable demo_pool (?at (Draining 2) ?s2)"
    by (rule step) (simp add: demo_sup_def new_supervisor_def retire_def requestWarm_def)
  then have "pool_reachable demo_pool (?at DropStandby ?s2)" by (rule step) (simp add: demo_sup_def new_supervisor_def)
  then have "pool_reachable demo_pool (?at ClosedDown ?s2)" by (rule step) (simp add: demo_sup_def new_supervisor_def)
  moreover have "?at ClosedDown ?s2 = demo_closed" by (simp add: demo_closed_def)
  ultimately show ?thesis by simp
qed

text \<open>
  A spare that could not be started is not tried again: the failed pass has used up the request, and
  neither the pause nor a call that then starts its own child makes another one.
\<close>

lemma failed_warm_not_retried:
  assumes "su_standby s = []" "0 < pool_standby (su_cfg s)" "\<not> su_warmRequest s" "startProcess so = Some e"
  shows "warm_step False so WarmFilling s = Some (WarmSleeping, s) \<and> warm_step False so' WarmSleeping s = Some (WarmIdle, s) \<and>
    warm_step False so' WarmIdle s = None \<and> \<not> su_warmRequest (snd (equip so' sl s))"
  using assms by (auto simp: spawn_def equip_def takeStandby_def split: option.splits)

text \<open>
  A request that does not fit into a frame is refused before a byte is sent, yet the child is killed
  as crashed and the call is tried again, on the next child.
\<close>

lemma oversized_request_kills_child:
  assumes "cd_Marshal (wj_request J) req = Inr raw" "length raw > maxFrame" "sl_proc sl = Some p"
  shows "\<exists>e. process_call J stdin req arm = (Inl (SendFailed e), stdin) \<and>
    settle c (wr_Op req) None rss (Inl (SendFailed e)) sl s =
      ((cd_zero c, Some (WrapError ''cryptoworker: send'' e), True), empty_slot,
       (snd (retire sl s))\<lparr>su_crashes := su_crashes (snd (retire sl s)) + 1\<rparr>) \<and>
    try_again 0 (cd_zero c, Some (WrapError ''cryptoworker: send'' e), True)"
proof -
  obtain s1 where "retire sl s = (empty_slot, s1)" by (cases "retire sl s") (auto simp: retire_def Let_def)
  with assms show ?thesis by (auto simp: process_call_def writeFrame_def settle_def settle_failure_def try_again_def)
qed

end
