(* ===== verification/Worker_Calls.thy ===== *)
theory Worker_Calls
  imports Worker_Pool
begin

text \<open>
  The supervisor's methods (internal/cryptoworker/client.go) against a child that serves the pipe
  (server.go): what the service gets back is what the driver in the child returned.
\<close>

section \<open>A call and its answer\<close>

text \<open>
  One attempt of \<^verbatim>\<open>call\<close> on a child that is alive: the request is encoded and sent, the child's loop
  reads it from its end of the pipe and writes its answer, and the parent reads and settles it. No
  result means that a message could not be encoded or did not fit.
\<close>

definition fresh_pipe :: pipe_writer where
  "fresh_pipe = \<lparr>pw_sent = [], pw_broken = None\<rparr>"

definition over_pipe :: "wire_json \<Rightarrow> 's worker_driver \<Rightarrow> 's \<Rightarrow> 'in codec \<Rightarrow> 'out codec \<Rightarrow> string \<Rightarrow> 'in \<Rightarrow>
    int option \<Rightarrow> worker_slot \<Rightarrow> supervisor \<Rightarrow> ('out \<times> goerr option \<times> 's) option" where
  "over_pipe J d st cin cout op v rss sl s =
     (case call_request cin op v of
        Inl e \<Rightarrow> None
      | Inr req \<Rightarrow>
          (case writeFrame (wj_request J) fresh_pipe req of
             (Some e, w) \<Rightarrow> None
           | (None, w) \<Rightarrow>
               (case Serve J d st (pw_sent w) fresh_pipe of
                  (Some e, st', w') \<Rightarrow> None
                | (None, st', w') \<Rightarrow>
                    (case fst (process_call J fresh_pipe req (Arrives (pw_sent w'))) of
                       Inl f \<Rightarrow> None
                     | Inr resp \<Rightarrow>
                         (case settle cout op None rss (Inr resp) sl s of ((out, err, retryable), _) \<Rightarrow> Some (out, err, st'))))))"

text \<open>The methods: which codecs, which operation name and which method of the driver belong together.\<close>

definition fits :: "'a codec \<Rightarrow> 'a \<Rightarrow> bool" where
  "fits c v \<longleftrightarrow> (\<exists>raw. cd_Marshal c v = Inr raw \<and> length raw \<le> maxFrame)"

definition carried :: "wire_json \<Rightarrow> 's worker_driver \<Rightarrow> 'in codec \<Rightarrow> 'out codec \<Rightarrow> ('in \<Rightarrow> 'in) \<Rightarrow> ('out \<Rightarrow> 'out) \<Rightarrow>
    ('out \<Rightarrow> bool) \<Rightarrow> string \<Rightarrow> ('s \<Rightarrow> 'in \<Rightarrow> ('s, 'out) worker_outcome) \<Rightarrow> bool" where
  "carried J d cin cout rd_in rd_out revoked op run \<longleftrightarrow>
     (\<forall>st v req st' rss sl s. call_request cin op v = Inr req \<longrightarrow> fits (wj_request J) req \<longrightarrow>
        (\<forall>out err raw. run st (rd_in v) = (st', Inr (out, err)) \<longrightarrow> cd_Marshal cout out = Inr raw \<longrightarrow>
           fits (wj_response J) (reply cout revoked out err) \<longrightarrow>
           over_pipe J d st cin cout op v rss sl s = Some (rd_out out, map_option over_wire err, st')) \<and>
        (\<forall>msg. run st (rd_in v) = (st', Inl msg) \<longrightarrow> fits (wj_response J) (panicked msg) \<longrightarrow>
           over_pipe J d st cin cout op v rss sl s =
             Some (cd_zero cout, Some (PlainError (json_string (''cryptoworker: panic in driver: '' @ msg))), st')))"

section \<open>The exchange\<close>

lemma settle_answer_result:
  "fst (settle_answer cout op rss resp sl s) =
     (case (if wp_Payload resp = [] then Inr (cd_zero cout) else cd_Unmarshal cout (wp_Payload resp)) of
        Inl e \<Rightarrow> (cd_zero cout, Some (WrapError (''cryptoworker: decode '' @ op @ '' result'') e), False)
      | Inr out \<Rightarrow> (out, decodeError (wp_Err resp), False))"
  by (auto simp: settle_answer_def Let_def split: sum.splits prod.splits)

lemma over_pipe_exchange:
  assumes m: "messages_sound compact J" and op: "json_string op = op"
    and req: "call_request cin op v = Inr req" "fits (wj_request J) req" and cin: "compact (wr_Payload req)"
    and h: "handle J d st req = (resp, st')" and fit: "fits (wj_response J) resp"
    and pl: "wp_Payload resp = [] \<or> compact (wp_Payload resp)"
  shows "over_pipe J d st cin cout op v rss sl s =
    (case fst (settle_answer cout op rss (read_response resp) sl s) of (out, err, _) \<Rightarrow> Some (out, err, st'))"
proof -
  from req(1) have o: "wr_Op req = op" by (auto simp: call_request_def split: sum.splits)
  from req(2) obtain p1 where p1: "cd_Marshal (wj_request J) req = Inr p1" "length p1 \<le> maxFrame" by (auto simp: fits_def)
  from fit obtain p2 where p2: "cd_Marshal (wj_response J) resp = Inr p2" "length p2 \<le> maxFrame" by (auto simp: fits_def)
  have "cd_Unmarshal (wj_request J) p1 = Inr (req\<lparr>wr_Op := json_string (wr_Op req)\<rparr>)"
    using m p1(1) cin by (auto simp: messages_sound_def)
  moreover have "req\<lparr>wr_Op := json_string (wr_Op req)\<rparr> = req" by (simp add: o op)
  ultimately have u1: "cd_Unmarshal (wj_request J) p1 = Inr req" by simp
  have u2: "cd_Unmarshal (wj_response J) p2 = Inr (read_response resp)" using m p2(1) pl by (auto simp: messages_sound_def)
  have w: "writeFrame (wj_request J) fresh_pipe req = (None, fresh_pipe\<lparr>pw_sent := frame_of p1\<rparr>)"
    using p1 by (auto simp: writeFrame_sent fresh_pipe_def)
  have "Serve J d st (frame_of p1) fresh_pipe = (None, st', fresh_pipe\<lparr>pw_sent := pw_sent fresh_pipe @ frame_of p2\<rparr>)"
  proof (rule Serve_answers [of "[req]"])
    show "\<forall>r \<in> set [req]. \<forall>raw. cd_Marshal (wj_request J) r = Inr raw \<longrightarrow> cd_Unmarshal (wj_request J) raw = Inr r"
      using p1(1) u1 by simp
    show "frames (wj_request J) [req] = Some (frame_of p1)" "frames (wj_response J) [resp] = Some (frame_of p2)"
      using p1 p2 by simp_all
    show "responses J d st [req] = ([resp], st')" using h by simp
  qed (simp add: fresh_pipe_def)
  moreover have "readFrame (wj_response J) (frame_of p2) = (Inr (read_response resp), [])"
    using readFrame_frame [of p2 "wj_response J" "read_response resp" "[]"] p2(2) u2 by simp
  ultimately show ?thesis
    using req(1) w by (simp add: over_pipe_def process_call_def settle_def fresh_pipe_def split: prod.splits)
qed

lemma over_pipe_reply:
  assumes "messages_sound compact J" "json_string op = op" "call_request cin op v = Inr req" "fits (wj_request J) req"
    and "codec_sound compact rd_in cin" "codec_sound compact rd_out cout"
    and "handle J d st req = (reply cout revoked out err, st')" "cd_Marshal cout out = Inr raw"
    and "fits (wj_response J) (reply cout revoked out err)"
  shows "over_pipe J d st cin cout op v rss sl s = Some (rd_out out, map_option over_wire err, st')"
proof -
  have cin: "compact (wr_Payload req)" using assms(3,5) by (auto simp: call_request_def codec_sound_def split: sum.splits)
  have out: "raw \<noteq> []" "compact raw" "cd_Unmarshal cout raw = Inr (rd_out out)" using assms(6,8) by (auto simp: codec_sound_def)
  have r: "wp_Payload (reply cout revoked out err) = raw" "wp_Err (reply cout revoked out err) = encodeError err"
    using assms(8) by (simp_all add: reply_def no_response_def Let_def)
  show ?thesis
    using over_pipe_exchange [OF assms(1-4) cin assms(7,9), where cout = cout and rss = rss and sl = sl and s = s] out r
    by (simp add: settle_answer_result read_response_def decode_over_wire)
qed

lemma over_pipe_panic:
  assumes "messages_sound compact J" "json_string op = op" "call_request cin op v = Inr req" "fits (wj_request J) req"
    and "codec_sound compact rd_in cin" and "handle J d st req = (panicked msg, st')" "fits (wj_response J) (panicked msg)"
  shows "over_pipe J d st cin cout op v rss sl s =
    Some (cd_zero cout, Some (PlainError (json_string (''cryptoworker: panic in driver: '' @ msg))), st')"
proof -
  have cin: "compact (wr_Payload req)" using assms(3,5) by (auto simp: call_request_def codec_sound_def split: sum.splits)
  show ?thesis
    using over_pipe_exchange [OF assms(1-4) cin assms(6,7), where cout = cout and rss = rss and sl = sl and s = s]
    by (simp add: settle_answer_result panicked_def error_response_def no_response_def read_response_def read_error_def
        decodeError_def no_sentinel_keys)
qed

text \<open>A method is carried when the child's dispatch calls it on the request as it reads back.\<close>

lemma carriedI:
  assumes "messages_sound compact J" "json_string op = op" "codec_sound compact rd_in cin" "codec_sound compact rd_out cout"
    and "\<And>st v req. call_request cin op v = Inr req \<Longrightarrow> handle J d st req = reply_outcome cout revoked (run st (rd_in v))"
  shows "carried J d cin cout rd_in rd_out revoked op run"
  unfolding carried_def
proof (intro allI impI conjI)
  fix st v req st' rss sl s out err raw
  assume *: "call_request cin op v = Inr req" "fits (wj_request J) req" "run st (rd_in v) = (st', Inr (out, err))"
    "cd_Marshal cout out = Inr raw" "fits (wj_response J) (reply cout revoked out err)"
  show "over_pipe J d st cin cout op v rss sl s = Some (rd_out out, map_option over_wire err, st')"
    by (rule over_pipe_reply [OF assms(1,2) *(1,2) assms(3,4) _ *(4,5)]) (simp add: assms(5) [OF *(1)] *(3) reply_outcome_def)
next
  fix st v req st' rss sl s msg
  assume *: "call_request cin op v = Inr req" "fits (wj_request J) req" "run st (rd_in v) = (st', Inl msg)"
    "fits (wj_response J) (panicked msg)"
  show "over_pipe J d st cin cout op v rss sl s =
      Some (cd_zero cout, Some (PlainError (json_string (''cryptoworker: panic in driver: '' @ msg))), st')"
    by (rule over_pipe_panic [OF assms(1,2) *(1,2) assms(3) _ *(4)]) (simp add: assms(5) [OF *(1)] *(3) reply_outcome_def)
qed

lemma dispatch_run:
  assumes "codec_sound compact rd cin" "call_request cin op v = Inr req"
  shows "wr_Op req = op" "dispatch cin cout revoked req run st = reply_outcome cout revoked (run st (rd v))"
  using assms by (auto simp: call_request_def codec_sound_def dispatch_def split: sum.splits)

lemma op_names_plain: "list_all (\<lambda>c. byte_of c < 128) op \<Longrightarrow> json_string op = op"
  by (auto simp: list_all_iff intro: json_string_ascii)

lemma carried_dispatch:
  assumes "messages_sound compact J" "codec_sound compact rd_in cin" "codec_sound compact rd_out cout"
    and "list_all (\<lambda>c. byte_of c < 128) op"
    and "\<And>st req. wr_Op req = op \<Longrightarrow> handle J d st req = dispatch cin cout revoked req run st"
  shows "carried J d cin cout rd_in rd_out revoked op run"
  by (rule carriedI [OF assms(1) op_names_plain [OF assms(4)] assms(2,3)]) (simp add: assms(5) dispatch_run [OF assms(2)])

section \<open>The methods\<close>

definition caps_method :: "'s worker_driver \<Rightarrow> 's \<Rightarrow> unit \<Rightarrow> ('s, capabilities) worker_outcome" where
  "caps_method d st u = (case wd_Capabilities d st of (st', Inl msg) \<Rightarrow> (st', Inl msg) | (st', Inr caps) \<Rightarrow> (st', Inr (caps, None)))"

text \<open>
  Claim C18: Every operation of the driver port is carried by the worker: when the request and the
  answer can be encoded and fit into a frame, the child calls the hosted driver once with the
  request and the service gets the driver's result as JSON reads it back, together with the error as
  \<open>over_wire\<close> rebuilds it. A panic of the driver is returned as an error. The children thus implement
  the port over which the domain is verified.
\<close>

theorem worker_port_transparent:
  fixes d :: "'s worker_driver"
  assumes "sound_wire compact J"
  shows "carried J d (wj_unit J) (wj_caps J) id read_caps never opCapabilities (caps_method d) \<and>
    carried J d (wj_unit J) (wj_selfTest J) id read_selfTest never opSelfTest (\<lambda>st u. wd_SelfTest d st) \<and>
    carried J d (wj_sign J) (wj_signed J) read_sign id never opSignCMS (wd_SignCMS d) \<and>
    carried J d (wj_verify J) (wj_verified J) read_verify read_verified never opVerifyCMS (wd_VerifyCMS d) \<and>
    carried J d (wj_signXML J) (wj_signed J) read_signXML id never opSignXML (wd_SignXML d) \<and>
    carried J d (wj_verify J) (wj_verified J) read_verify read_verified never opVerifyXML (wd_VerifyXML d) \<and>
    carried J d (wj_signWSSE J) (wj_signed J) read_signWSSE id never opSignWSSE (wd_SignWSSE d) \<and>
    carried J d (wj_export J) (wj_exported J) read_export read_exported never opExportCert
      (\<lambda>st i. wd_ExportOwnerCert d st (eq_Key i) (eq_Format i)) \<and>
    carried J d (wj_certProps J) (wj_props J) id read_props never opCertProps
      (\<lambda>st i. wd_CertProperties d st (cq_Cert i) (cq_Format i)) \<and>
    carried J d (wj_validate J) (wj_validated J) read_validate read_validated says_revoked opValidateCert (wd_ValidateCert d) \<and>
    carried J d (wj_hash J) (wj_hashed J) read_hash id never opHash (wd_Hash d) \<and>
    carried J d (wj_signHash J) (wj_signed J) read_signHash id never opSignHash (wd_SignHash d)"
proof -
  have m: "messages_sound compact J" using assms by (simp add: sound_wire_def)
  note sound = assms [unfolded sound_wire_def]
  have caps: "carried J d (wj_unit J) (wj_caps J) id read_caps never opCapabilities (caps_method d)"
  proof (rule carriedI [OF m op_names_plain])
    fix st v req
    assume "call_request (wj_unit J) opCapabilities v = Inr req"
    then have "wr_Op req = opCapabilities" by (auto simp: call_request_def split: sum.splits)
    then show "handle J d st req = reply_outcome (wj_caps J) never (caps_method d st (id v))"
      by (simp add: handle_def caps_method_def reply_outcome_def split: prod.splits sum.splits)
  qed (use sound in \<open>simp_all add: byte_of_def\<close>)
  have self: "carried J d (wj_unit J) (wj_selfTest J) id read_selfTest never opSelfTest (\<lambda>st u. wd_SelfTest d st)"
  proof (rule carriedI [OF m op_names_plain])
    fix st v req
    assume "call_request (wj_unit J) opSelfTest v = Inr req"
    then have "wr_Op req = opSelfTest" by (auto simp: call_request_def split: sum.splits)
    then show "handle J d st req = reply_outcome (wj_selfTest J) never (wd_SelfTest d st)" by (simp add: handle_def)
  qed (use sound in \<open>simp_all add: byte_of_def\<close>)
  show ?thesis
    by (intro conjI caps self; rule carried_dispatch [OF m])
      (use sound in \<open>simp_all add: handle_def byte_of_def\<close>)
qed

text \<open>A codec that knows one value, zero values of the request structs, and a driver that counts its calls.\<close>

definition one_codec :: "('a \<Rightarrow> 'a) \<Rightarrow> 'a \<Rightarrow> bytes \<Rightarrow> 'a \<Rightarrow> 'a codec" where
  "one_codec rd v t z = \<lparr>cd_Marshal = (\<lambda>x. if x = v then Inr t else Inl (PlainError ''unsupported value'')),
     cd_Unmarshal = (\<lambda>b. if b = t then Inr (rd v) else Inl (PlainError ''invalid character'')), cd_zero = z\<rparr>"

lemma one_codec_sound: "t \<noteq> [] \<Longrightarrow> codec_sound (\<lambda>_. True) rd (one_codec rd v t z)"
  by (simp add: codec_sound_def one_codec_def)

definition zero_key :: key_ref where
  "zero_key = \<lparr>kr_Storage = 0, kr_Path = [], kr_Password = []\<rparr>"

definition zero_sign :: sign_request where
  "zero_sign = \<lparr>sr_Key = zero_key, sr_Data = [], sr_Path = [], sr_Detached = False, sr_InputPEM = False, sr_OutPEM = False,
     sr_CheckCertTime = False, sr_WithTimestamp = False, sr_TSAURL = [], sr_ExistingSignature = None, sr_TrustedCerts = []\<rparr>"

definition zero_signXML :: sign_xml_request where
  "zero_signXML = \<lparr>sx_Key = zero_key, sx_XML = [], sx_CheckCertTime = False, sx_WithTimestamp = False, sx_TSAURL = [],
     sx_NodeID = [], sx_ParentNode = [], sx_ParentNS = [], sx_TrustedCerts = []\<rparr>"

definition zero_signWSSE :: sign_wsse_request where
  "zero_signWSSE = \<lparr>sw_Key = zero_key, sw_XML = [], sw_NodeID = [], sw_CheckCertTime = False, sw_WithTimestamp = False,
     sw_TSAURL = [], sw_TrustedCerts = []\<rparr>"

definition zero_verify :: verify_request where
  "zero_verify = \<lparr>vq_Signature = [], vq_Data = [], vq_Path = [], vq_Detached = False, vq_InputPEM = False, vq_OutPEM = False,
     vq_CheckCertTime = False, vq_SignerIndex = 0, vq_TrustedCerts = []\<rparr>"

definition zero_validate :: validate_request where
  "zero_validate = \<lparr>dq_Cert = [], dq_Format = CertPEM, dq_Method = ValidateOCSP, dq_Path = [], dq_CheckTime = zero_time,
     dq_WantOCSP = False, dq_TrustedCerts = []\<rparr>"

definition zero_signHash :: sign_hash_request where
  "zero_signHash = \<lparr>sh_Key = zero_key, sh_Hash = [], sh_OutPEM = False, sh_CheckCertTime = False\<rparr>"

definition zero_caps :: capabilities where
  "zero_caps = \<lparr>cb_Version = [], cb_PoolSize = 0, cb_SignCMS = False, cb_VerifyCMS = False, cb_SignXML = False,
     cb_VerifyXML = False, cb_CertInfo = False, cb_Validate = False, cb_Timestamp = False, cb_ZipSign = False, cb_WSSE = False,
     cb_Hash = False, cb_ExportCert = False\<rparr>"

definition zero_verified :: driver_verify_result where
  "zero_verified = \<lparr>dv_Valid = False, dv_Info = [], dv_Content = [], dv_SignerCert = [], dv_Signers = [],
     dv_Timestamp = zero_time, dv_RawCode = 0\<rparr>"

definition plain_codec :: "('a \<Rightarrow> 'a) \<Rightarrow> 'a \<Rightarrow> 'a codec" where
  "plain_codec rd z = one_codec rd z ''0'' z"

lemma plain_codec_sound: "codec_sound (\<lambda>_. True) rd (plain_codec rd z)"
  by (simp add: plain_codec_def one_codec_sound)

definition demo_hash :: hash_request where
  "demo_hash = \<lparr>hq_Algorithm = ''SHA256'', hq_Data = ''abc''\<rparr>"

definition demo_wire :: wire_json where
  "demo_wire = \<lparr>
     wj_request = one_codec (\<lambda>r. r\<lparr>wr_Op := json_string (wr_Op r)\<rparr>) \<lparr>wr_Op = opHash, wr_Payload = ''1''\<rparr> ''2'' \<lparr>wr_Op = [], wr_Payload = []\<rparr>,
     wj_response = one_codec read_response (no_response\<lparr>wp_Payload := ''3''\<rparr>) ''4'' no_response,
     wj_unit = plain_codec id (), wj_sign = plain_codec read_sign zero_sign, wj_verify = plain_codec read_verify zero_verify,
     wj_signXML = plain_codec read_signXML zero_signXML, wj_signWSSE = plain_codec read_signWSSE zero_signWSSE,
     wj_export = plain_codec read_export \<lparr>eq_Key = zero_key, eq_Format = CertPEM\<rparr>,
     wj_certProps = plain_codec id \<lparr>cq_Cert = [], cq_Format = CertPEM\<rparr>, wj_validate = plain_codec read_validate zero_validate,
     wj_hash = one_codec read_hash demo_hash ''1'' \<lparr>hq_Algorithm = [], hq_Data = []\<rparr>,
     wj_signHash = plain_codec read_signHash zero_signHash, wj_caps = plain_codec read_caps zero_caps,
     wj_selfTest = plain_codec read_selfTest \<lparr>st_Ran = False, st_OK = False, st_Algorithm = [], st_Detail = []\<rparr>,
     wj_signed = plain_codec id [], wj_verified = plain_codec read_verified zero_verified,
     wj_exported = plain_codec read_exported \<lparr>er_Cert = [], er_Alias = []\<rparr>, wj_props = plain_codec read_props [],
     wj_validated = plain_codec read_validated \<lparr>dr_Status = CertUnknown, dr_Info = [], dr_OCSPResponse = [], dr_RawCode = 0\<rparr>,
     wj_hashed = one_codec id ''digest'' ''3'' []\<rparr>"

lemma demo_wire_sound: "sound_wire (\<lambda>_. True) demo_wire"
  by (simp add: sound_wire_def demo_wire_def plain_codec_sound one_codec_sound messages_sound_def)
    (simp add: one_codec_def)

definition demo_worker_config :: pool_config where
  "demo_worker_config = \<lparr>pc_Command = [''qoltanba''], pc_Size = 1, pc_CallTimeout = 0, pc_MaxOps = 0, pc_MaxRSSBytes = 0, pc_Standby = 0,
     pc_KeepAfterRevoked = False\<rparr>"

definition demo_driver :: "nat worker_driver" where
  "demo_driver = \<lparr>wd_Capabilities = (\<lambda>st. (st, Inl ''unused'')), wd_SelfTest = (\<lambda>st. (st, Inl ''unused'')),
     wd_SignCMS = (\<lambda>st r. (st, Inl ''unused'')), wd_VerifyCMS = (\<lambda>st r. (st, Inl ''unused'')), wd_SignXML = (\<lambda>st r. (st, Inl ''unused'')),
     wd_VerifyXML = (\<lambda>st r. (st, Inl ''unused'')), wd_SignWSSE = (\<lambda>st r. (st, Inl ''unused'')),
     wd_ExportOwnerCert = (\<lambda>st k f. (st, Inl ''unused'')), wd_CertProperties = (\<lambda>st c f. (st, Inl ''unused'')),
     wd_ValidateCert = (\<lambda>st r. (st, Inl ''unused'')),
     wd_Hash = (\<lambda>st r. (st + 1, Inr (if hq_Data r = ''abc'' then ''digest'' else [], None))), wd_SignHash = (\<lambda>st r. (st, Inl ''unused''))\<rparr>"

theorem worker_port_transparent_witness:
  "sound_wire (\<lambda>_. True) demo_wire \<and>
   over_pipe demo_wire demo_driver 7 (wj_hash demo_wire) (wj_hashed demo_wire) opHash demo_hash None empty_slot
     (new_supervisor demo_worker_config) = Some (''digest'', None, 8)"
proof -
  let ?req = "\<lparr>wr_Op = opHash, wr_Payload = ''1''\<rparr>"
  have "carried demo_wire demo_driver (wj_hash demo_wire) (wj_hashed demo_wire) read_hash id never opHash (wd_Hash demo_driver)"
    using worker_port_transparent [OF demo_wire_sound] by blast
  moreover have "call_request (wj_hash demo_wire) opHash demo_hash = Inr ?req" "fits (wj_request demo_wire) ?req"
    by (simp_all add: call_request_def demo_wire_def one_codec_def fits_def maxFrame_def)
  moreover have "wd_Hash demo_driver 7 (read_hash demo_hash) = (8, Inr (''digest'', None))"
    by (simp add: demo_driver_def read_hash_def demo_hash_def)
  moreover have "cd_Marshal (wj_hashed demo_wire) ''digest'' = Inr ''3''" by (simp add: demo_wire_def one_codec_def)
  moreover have "fits (wj_response demo_wire) (reply (wj_hashed demo_wire) never ''digest'' None)"
    by (simp add: fits_def reply_def demo_wire_def one_codec_def never_def encodeError_def no_response_def maxFrame_def)
  ultimately show ?thesis using demo_wire_sound unfolding carried_def by fastforce
qed

end
