(* ===== verification/Spec2Isabelle.thy ===== *)
theory Spec2Isabelle
  imports Jobs_Properties Idempotency Registry Historical Challenge Multisign Crl_Properties Qr_Properties
    Oidc_Properties Oidc_Tokens Aia Cert_Watch Worker_Properties Worker_Calls
begin

text \<open>
  A verification development for qoltanba, a service that signs and verifies documents with the
  Kazakh national PKI over a closed native library (Kalkan).

  \<^bold>\<open>The program.\<close> The domain (src/internal/core) is one service whose operations sign, verify,
  extract, inspect, validate and archive; around it stand the components that keep state: the
  cache of OCSP answers, the idempotency cache of requests, the asynchronous jobs with their
  stores, the audit journal, the challenges of the confirmation flow, the sessions of multi-party
  and QR signing, the login provider with its tokens, the CRL manager, the trust store and the
  certificate watch. The native library is reached through a port, a record of functions
  (\<open>driver\<close>); the service keeps it in child processes, which a supervisor starts, calls over pipes and
  retires. Transports and configuration call the domain and are not part of it.

  \<^bold>\<open>How the code is modelled.\<close> A Go function is a HOL function of the same name, with its early
  returns and error branches in the order of the source; a function that can panic returns a
  \<open>go\<close> value. Structs are records, enumerations datatypes, strings and byte slices lists of
  characters, instants and durations integers of nanoseconds (with the wrap-around of 64 bits
  written out where the code multiplies durations), pointers that may be nil options. A map
  guarded by a mutex is an association list with distinct keys (\<open>gomap\<close>), whose order stands for
  the unspecified iteration order. State is passed explicitly. Code that runs concurrently is
  split where the source releases its locks, and the pieces are interleaved by a step relation or
  by a list of events. The clock, random bytes, the network, the file system and the parsers of
  the Go library (\<open>golib\<close>, \<open>revlib\<close>, \<open>cmslib\<close>) are arguments.

  \<^bold>\<open>Theories.\<close>
  \<^item> \<open>Prelude\<close>: instants, Go maps with the interface \<open>key_value\<close>, text helpers.
  \<^item> \<open>Errors\<close> (provider/errors.go, catalog.go, locale.go, native/codes.go, core/errors.go): the error
    vocabulary. The catalog keys are injective and survive every language; only the
    not-initialised code is a hard verification failure.
  \<^item> \<open>Json\<close> (encoding/json): the documents the durable stores keep, and their round trips.
  \<^item> \<open>Jobs_Store\<close>, \<open>Jobs_Manager\<close>, \<open>Jobs_Properties\<close> (internal/jobs): both stores behind the interface
    \<open>job_store\<close>, the manager over any store, and its step relation. The bbolt store refines the
    in-memory one; the queue and the idempotency index keep their bounds in every reachable state;
    a worker with as many receives as queued jobs empties the queue.
  \<^item> \<open>Ocsp_Cache\<close> (internal/ocspcache), \<open>Idempotency\<close> (internal/idempotency): lookups, expiry and
    eviction; replay, coalescing and the consistency of index and list under interleaving.
  \<^item> \<open>Audit_Log\<close> (internal/audit): the hash chain. What is written is accepted by the checker, and
    two accepted journals with the same head are equal unless the digest collides.
  \<^item> \<open>Core_Types\<close>, \<open>Cert_Parse\<close>, \<open>Chain\<close> (core/contract.go, policy.go, claims.go, certparse.go, chain.go,
    pki/oids.go): requests and certificates; the issuer walk, which makes at most
    \<open>maxChainDepth\<close> = 16 steps and returns an issuer path without repeated subjects.
  \<^item> \<open>Report\<close> (core/explain.go, report.go, receipt.go): the diagnosis, the card and the receipt.
  \<^item> \<open>Validate\<close> (core/service.go Validate, revocation.go): certificate status with the interface
    \<open>answer_cache\<close> to the OCSP cache. A revoked verdict is backed by an answer of the driver.
  \<^item> \<open>Crl_Cache\<close>, \<open>Crl_Properties\<close> (internal/crl): the CRL manager behind the service's CRL source. Sizes,
    bodies and metadata of the entries stay in step, the size cap holds in memory and on disk, and
    a result reported as reliable has a fresh base list and a coherent delta list.
  \<^item> \<open>Signers\<close>, \<open>Signing\<close>, \<open>Verify\<close>, \<open>Verify_Properties\<close> (core/service.go, signers.go, timestamp.go,
    ltv.go): signing and verification with the acquisition and release of keys and payloads as a
    trace. What a valid verdict, a valid card and an archived container mean.
  \<^item> \<open>Batch\<close>, \<open>Registry\<close> (core/batch.go, registry.go): the dispatch loop and its goroutines, event by
    event. Every item gets its own answer, the counters agree, and every run ends after at
    most seven events per item and three more; the register over a batch of verifications.
  \<^item> \<open>Historical\<close> (core/historical.go): validity at a past instant.
  \<^item> \<open>Challenge_Store\<close>, \<open>Challenge\<close> (internal/challenge): both stores behind the interface
    \<open>challenge_store\<close>; a challenge is confirmed at most once per issue, by a signature over its
    own nonce.
  \<^item> \<open>Multisign_Store\<close>, \<open>Multisign\<close> (internal/multisign): both stores behind the interface
    \<open>session_store\<close>; a complete session has a distinct matching signature for every requirement.
  \<^item> \<open>Qr_Store\<close>, \<open>Qr_Profiles\<close>, \<open>Qr\<close>, \<open>Qr_Properties\<close> (internal/qr): both stores behind the interface
    \<open>qr_store\<close>, the three profiles behind \<open>qr_profile\<close>, the orchestrator, and the interleaving of its
    requests. A session stored as verified rests on a valid verification under the terms of its
    creation.

  \<^item> \<open>Jws\<close> (oidc/signer.go), \<open>Signed_Qr\<close> (internal/signedqr): the tokens that the service signs with its
    own key, their URL-safe base64, the key file, and the documents put into a QR code. What was
    signed reads back until it expires; a key written once is the key of every later start.
  \<^item> \<open>Oidc\<close>, \<open>Oidc_Properties\<close>, \<open>Oidc_Tokens\<close> (internal/oidc): login challenges over \<open>challenge_store\<close>, the
    direct grant, authorization codes and their exchange, and the interleaving of the requests. A
    code buys tokens once, for the client it was made for and the person who signed the challenge;
    which of the service's statements pass where.
  \<^item> \<open>Trust\<close>, \<open>Aia\<close>, \<open>Cert_Watch\<close> (internal/trust, pki/ca.go, internal/aia, internal/certwatch): the anchors
    and their refresh, the download of issuers, and the watch over certificate files. A refresh
    yields what its sources hold and never empties the store; the watch tells every change.
  \<^item> \<open>Worker_Wire\<close>, \<open>Worker_Pool\<close>, \<open>Worker_Properties\<close>, \<open>Worker_Calls\<close> (internal/cryptoworker): the frames and
    errors on the pipe, the child's loop, the supervisor, and the interleaving of calls, warming and
    closing. Every child has one owner and a bound, none is used after a revoked verdict or a
    broken stream, none outlives \<^verbatim>\<open>Close\<close>, and a call over the pipe is a call of the hosted driver.

  \<^bold>\<open>Bounds.\<close> Loops are structural or end by a measure. Of the loops that run for ever in the source,
  the worker of the job manager takes the number of its receives as an argument and the warmer of the
  worker pool is a step function; the two loops
  that parse delta distribution points, over a DER reader that is an argument, and the loop over the
  PEM blocks of a file take the length of the text as fuel, which is enough because every read
  consumes something (\<open>uris_enough\<close>, \<open>add_pem_loop_set\<close>).

  \<^bold>\<open>Not modelled.\<close> The closed native library and the pool of instances inside a child (cgo calls); the
  processes themselves, whose start, answers and death are arguments of the supervisor; the HTTP,
  gRPC and message-queue transports and the NCANode facade, which decode requests and call the
  operations modelled here; the file and
  network side of payload and key sources, configuration, metrics and the developer tools. The
  text form of JSON, the ASN.1 and X.509 parsers, digests and RSA are arguments, with the laws that
  a property needs of them among its hypotheses (\<open>sound_json\<close>, \<open>sound_rsa\<close>, \<open>sound_keys\<close>,
  \<open>sound_wire\<close>, \<open>pem_shrinks\<close>).
\<close>

end
